(* ===== verification/Prelude.thy ===== *)
theory Prelude
  imports "HOL-Library.Word"
begin

text \<open>
  Shared vocabulary of the development: the machine types of the C++ sources, the exceptions
  they throw, the result type of fallible code, and the generic lemmas on lists, words and
  characters that the component theories use.

  \<^item> \<open>std::uint8_t\<close> to \<open>std::uint64_t\<close> are words of that width (arithmetic wraps as in C++);
    \<open>std::size_t\<close> values that index or count are natural numbers.
  \<^item> \<open>std::byte\<close> is an 8-bit word, \<open>Bytes\<close> (\<open>std::vector<std::byte>\<close>) a list of them,
    \<open>std::string\<close> a HOL string.
  \<^item> A thrown C++ exception is a value of \<open>exn\<close> in the left summand of a result.
\<close>

unbundle bit_operations_syntax

section \<open>Collections of rewrite rules\<close>

named_theorems wire_simps \<open>reading back what a writer wrote\<close>
named_theorems wire_inv \<open>what a successful read says about its input\<close>
named_theorems wf_simps \<open>well-formedness of message fields\<close>

section \<open>Types\<close>

type_synonym u8 = "8 word"
type_synonym u16 = "16 word"
type_synonym u32 = "32 word"
type_synonym u64 = "64 word"
type_synonym Bytes = "u8 list"

type_synonym LineId = u32

datatype exn =
    runtime_error string
  | invalid_argument string
  | filesystem_error string
  | out_of_range string

type_synonym 'a result = "exn + 'a"

fun exn_what :: "exn \<Rightarrow> string" where
  "exn_what (runtime_error s) = s"
| "exn_what (invalid_argument s) = s"
| "exn_what (filesystem_error s) = s"
| "exn_what (out_of_range s) = s"

abbreviation UINT64_MAX :: u64 where
  "UINT64_MAX \<equiv> - 1"

abbreviation UINT32_MAX :: u32 where
  "UINT32_MAX \<equiv> - 1"

section \<open>Characters and bytes\<close>

definition byte_of_char :: "char \<Rightarrow> u8" where
  "byte_of_char c = word_of_nat (of_char c)"

definition char_of_byte :: "u8 \<Rightarrow> char" where
  "char_of_byte b = char_of (unat b)"

lemma char_of_byte_of_char [simp]: "char_of_byte (byte_of_char c) = c"
proof -
  have "unat (word_of_nat (of_char c) :: u8) = of_char c"
    by (simp add: unat_of_nat)
  then show ?thesis by (simp add: char_of_byte_def byte_of_char_def)
qed

lemma byte_of_char_of_byte [simp]: "byte_of_char (char_of_byte b) = b"
proof -
  have "unat b < 256" using unsigned_less [of b, where ?'a = nat] by simp
  then have "(of_char (char_of (unat b) :: char) :: nat) = unat b"
    by (simp add: of_char_of)
  then show ?thesis by (simp add: char_of_byte_def byte_of_char_def)
qed

section \<open>Words\<close>

lemma word_le_unat: "(a :: 'a::len word) \<le> b \<longleftrightarrow> unat a \<le> unat b"
  by (rule word_le_nat_alt)

lemma word_lt_unat: "(a :: 'a::len word) < b \<longleftrightarrow> unat a < unat b"
  by (rule word_less_nat_alt)

lemma unat_word_of_nat_lt: "n < 2 ^ LENGTH('a) \<Longrightarrow> unat (word_of_nat n :: 'a::len word) = n"
  by (simp add: unat_of_nat)

lemma unat_plus_no_wrap:
  "unat a + unat b < 2 ^ LENGTH('a) \<Longrightarrow> unat (a + b :: 'a::len word) = unat a + unat b"
  by (simp add: unat_word_ariths)

lemma unat_minus_le: "b \<le> a \<Longrightarrow> unat (a - b :: 'a::len word) = unat a - unat b"
  by (simp add: unat_sub)

lemma unat_u64_lt: "unat (a :: u64) < 18446744073709551616"
  using unsigned_less [of a, where ?'a = nat] by simp

lemma unat_u64_le: "unat (a :: u64) \<le> 18446744073709551615"
  using unat_u64_lt [of a] by linarith

lemma unat_UINT64_MAX: "unat UINT64_MAX = 2 ^ 64 - 1"
  by (simp add: unsigned_minus_1_eq_mask mask_eq_exp_minus_1)

lemma unat_u32_lt [simp]: "unat (a :: u32) < 4294967296"
  using unsigned_less [of a, where ?'a = nat] by simp

lemma unat_u16_lt [simp]: "unat (a :: u16) < 65536"
  using unsigned_less [of a, where ?'a = nat] by simp

lemma unat_word_of_nat_le: "k \<le> unat (n :: u64) \<Longrightarrow> unat (word_of_nat k :: u64) = k"
  by (rule unat_word_of_nat_lt) (use unat_u64_lt [of n] in simp)

lemma unat_ucast_u32 [simp]: "unat (ucast (x :: u32) :: u64) = unat x"
proof -
  have "unat x < 2 ^ 64" using order.strict_trans [OF unat_u32_lt, of "2 ^ 64" x] by simp
  then show ?thesis by (simp add: unsigned_ucast_eq take_bit_nat_eq_self)
qed

lemma unat_u64_succ: "(x :: u64) \<noteq> UINT64_MAX \<Longrightarrow> unat (x + 1) = unat x + 1"
proof -
  assume "x \<noteq> UINT64_MAX"
  then have "1 + x \<noteq> 0" by (metis add.commute add_eq_0_iff)
  then show ?thesis using unatSuc [of x] by (simp add: add.commute)
qed

lemma inj_word_of_nat_u64: "inj_on (word_of_nat :: nat \<Rightarrow> u64) {0..<18446744073709551616}"
  by (rule inj_on_inverseI [of _ unat]) (simp add: unat_of_nat)

lemma u64_below: "{i :: u64. i < n} = word_of_nat ` {0..<unat n}"
proof (intro set_eqI iffI)
  fix i assume "i \<in> {i. i < n}"
  then show "i \<in> word_of_nat ` {0..<unat n}"
    by (intro image_eqI [of _ _ "unat i"]) (simp_all add: word_lt_unat)
next
  fix i assume "i \<in> (word_of_nat :: nat \<Rightarrow> u64) ` {0..<unat n}"
  then obtain k where k: "i = word_of_nat k" "k < unat n" by auto
  then have "unat i = k" using unat_word_of_nat_le [of k n] by simp
  with k show "i \<in> {i. i < n}" by (simp add: word_lt_unat)
qed

lemma word_min_unat: "unat (min a b :: 'a::len word) = min (unat a) (unat b)"
  by (auto simp: min_def word_le_nat_alt)

lemma word_max_unat: "unat (max a b :: 'a::len word) = max (unat a) (unat b)"
  by (auto simp: max_def word_le_nat_alt)

section \<open>Lists\<close>

lemma list_all_replicate [simp]: "list_all P (replicate n x) \<longleftrightarrow> n = 0 \<or> P x"
  by (induction n) auto

lemma find_Some_conv:
  "List.find P xs = Some x \<Longrightarrow> x \<in> set xs \<and> P x"
  by (auto simp: find_Some_iff)

lemma take_drop_same_length:
  "length xs = n \<Longrightarrow> take n (xs @ ys) = xs \<and> drop n (xs @ ys) = ys"
  by simp

end
