(* ===== verification/Wire.thy ===== *)
theory Wire
  imports Prelude
begin

text \<open>
  The \<open>Writer\<close> and \<open>Reader\<close> classes of src/src/core/yisync_protocol.cpp.

  A \<open>Writer\<close> method appends bytes to \<open>out_\<close>; it is modelled by the list of bytes it appends.
  A \<open>Reader\<close> holds a span and a position; its state is modelled by the bytes not yet consumed
  (the span from \<open>pos_\<close> on), and a method is a function from these to the value read and the
  bytes left, or the exception \<open>require\<close> throws. The locale \<open>codec\<close> is the contract between a
  writer and its reader that the message formats of theory \<open>Protocol\<close> rely on.
\<close>

section \<open>The reader monad\<close>

type_synonym 'a reader = "Bytes \<Rightarrow> ('a \<times> Bytes) result"

definition rret :: "'a \<Rightarrow> 'a reader" where
  "rret x bs = Inr (x, bs)"

definition rfail :: "exn \<Rightarrow> 'a reader" where
  "rfail e bs = Inl e"

definition rbind :: "'a reader \<Rightarrow> ('a \<Rightarrow> 'b reader) \<Rightarrow> 'b reader" where
  "rbind m f bs = (case m bs of Inl e \<Rightarrow> Inl e | Inr (x, bs') \<Rightarrow> f x bs')"

lemma rret_apply [simp]: "rret x bs = Inr (x, bs)"
  by (simp add: rret_def)

lemma rfail_apply [simp]: "rfail e bs = Inl e"
  by (simp add: rfail_def)

lemma rbind_Inr_apply [simp]: "m bs = Inr (x, bs') \<Longrightarrow> rbind m f bs = f x bs'"
  by (simp add: rbind_def)

lemma rbind_Inr_iff [wire_inv]:
  "rbind m f bs = Inr (y, r) \<longleftrightarrow> (\<exists>x bs'. m bs = Inr (x, bs') \<and> f x bs' = Inr (y, r))"
  by (auto simp: rbind_def split: sum.splits)

section \<open>Little-endian integers\<close>

definition put_le :: "nat \<Rightarrow> 'a::len word \<Rightarrow> Bytes" where
  "put_le n value = map (\<lambda>k. ucast (drop_bit (8 * k) value AND 0xff)) [0..<n]"

definition get_le :: "Bytes \<Rightarrow> 'a::len word" where
  "get_le bs = foldl (\<lambda>value (k, b). value OR push_bit (8 * k) (ucast b)) 0 (enumerate 0 bs)"

lemma length_put_le [simp]: "length (put_le n v) = n"
  by (simp add: put_le_def)

lemma get_le_snoc: "get_le (bs @ [b]) = get_le bs OR push_bit (8 * length bs) (ucast b)"
  by (simp add: get_le_def enumerate_append_eq)

lemma bit_get_le:
  "bit (get_le bs :: 'a::len word) i \<longleftrightarrow>
     i < LENGTH('a) \<and> i div 8 < length bs \<and> bit (bs ! (i div 8)) (i mod 8)"
proof (induction bs rule: rev_induct)
  case Nil
  then show ?case by (simp add: get_le_def)
next
  case (snoc b bs)
  let ?n = "length bs"
  have shifted: "bit (push_bit (8 * ?n) (ucast b) :: 'a word) i \<longleftrightarrow>
      i < LENGTH('a) \<and> i div 8 = ?n \<and> bit b (i mod 8)"
  proof (cases "i div 8 = ?n")
    case True
    then have "8 * ?n \<le> i" "i - 8 * ?n = i mod 8"
      using div_mult_mod_eq [of i 8] by linarith+
    with True show ?thesis by (auto simp: bit_simps)
  next
    case False
    have "\<not> (8 * ?n \<le> i \<and> i - 8 * ?n < 8)"
      using False by linarith
    then have "\<not> bit (push_bit (8 * ?n) (ucast b) :: 'a word) i"
      by (auto simp: bit_simps dest: bit_imp_le_length)
    with False show ?thesis by simp
  qed
  have "bit (get_le (bs @ [b]) :: 'a word) i \<longleftrightarrow>
      bit (get_le bs :: 'a word) i \<or> bit (push_bit (8 * ?n) (ucast b) :: 'a word) i"
    by (simp only: get_le_snoc bit_or_iff)
  then show ?case
    by (auto simp: snoc.IH shifted nth_append less_Suc_eq)
qed

lemma bit_255: "bit (0xff :: 'a::len word) i \<longleftrightarrow> i < 8 \<and> i < LENGTH('a)"
proof -
  have "(0xff :: 'a word) = mask 8" by (simp add: mask_eq_exp_minus_1)
  then show ?thesis by (simp only: bit_mask_iff) auto
qed

lemma bit_put_le:
  "k < n \<Longrightarrow> bit (put_le n v ! k) i \<longleftrightarrow> i < 8 \<and> bit v (8 * k + i)"
proof -
  assume "k < n"
  then have "bit (put_le n v ! k) i \<longleftrightarrow> i < 8 \<and> bit (drop_bit (8 * k) v AND 0xff) i"
    by (simp add: put_le_def bit_unsigned_iff del: bit_and_iff)
  moreover have "bit v (8 * k + i) \<Longrightarrow> i < LENGTH('a)"
    by (drule bit_imp_le_length) simp
  ultimately show ?thesis
    by (auto simp only: bit_and_iff bit_drop_bit_eq comp_def bit_255)
qed

lemma get_le_put_le:
  assumes "LENGTH('a) = 8 * n"
  shows "get_le (put_le n (v :: 'a::len word)) = v"
proof (rule bit_word_eqI)
  fix i assume i: "i < LENGTH('a)"
  then have "i div 8 < n" using assms by simp
  then show "bit (get_le (put_le n v) :: 'a word) i \<longleftrightarrow> bit v i"
    using i by (simp add: bit_get_le bit_put_le)
qed

lemma put_le_get_le:
  assumes "length bs = n" and "8 * n \<le> LENGTH('a)"
  shows "put_le n (get_le bs :: 'a::len word) = bs"
proof (rule nth_equalityI)
  show "length (put_le n (get_le bs :: 'a word)) = length bs" using assms by simp
next
  fix k assume "k < length (put_le n (get_le bs :: 'a word))"
  then have k: "k < n" by simp
  show "put_le n (get_le bs :: 'a word) ! k = bs ! k"
  proof (rule bit_word_eqI)
    fix i assume "i < LENGTH(8)"
    then have i: "i < 8" by simp
    then have "8 * k + i < LENGTH('a)" using assms k by linarith
    then show "bit (put_le n (get_le bs :: 'a word) ! k) i \<longleftrightarrow> bit (bs ! k) i"
      using i k assms by (simp add: bit_put_le bit_get_le)
  qed
qed

section \<open>Writer\<close>

definition Writer_u8 :: "u8 \<Rightarrow> Bytes" where
  "Writer_u8 value = [value]"

definition Writer_u16 :: "u16 \<Rightarrow> Bytes" where
  "Writer_u16 value = [ucast (value AND 0xff), ucast (drop_bit 8 value AND 0xff)]"

definition Writer_u32 :: "u32 \<Rightarrow> Bytes" where
  "Writer_u32 value = put_le 4 value"

definition Writer_u64 :: "u64 \<Rightarrow> Bytes" where
  "Writer_u64 value = put_le 8 value"

definition Writer_bytes :: "Bytes \<Rightarrow> Bytes" where
  "Writer_bytes value = Writer_u32 (word_of_nat (length value)) @ value"

definition Writer_string :: "string \<Rightarrow> Bytes" where
  "Writer_string value = Writer_u32 (word_of_nat (length value)) @ map byte_of_char value"

section \<open>Reader\<close>

definition require :: "nat \<Rightarrow> unit reader" where
  "require len bs =
     (if len > length bs then Inl (runtime_error ''truncated message body'') else Inr ((), bs))"

definition take_bytes :: "nat \<Rightarrow> Bytes reader" where
  "take_bytes n bs = Inr (take n bs, drop n bs)"

definition Reader_u8 :: "u8 reader" where
  "Reader_u8 = rbind (require 1) (\<lambda>_. rbind (take_bytes 1) (\<lambda>bs. rret (hd bs)))"

definition Reader_u16 :: "u16 reader" where
  "Reader_u16 = rbind (require 2) (\<lambda>_. rbind (take_bytes 2) (\<lambda>bs. rret (get_le bs)))"

definition Reader_u32 :: "u32 reader" where
  "Reader_u32 = rbind (require 4) (\<lambda>_. rbind (take_bytes 4) (\<lambda>bs. rret (get_le bs)))"

definition Reader_u64 :: "u64 reader" where
  "Reader_u64 = rbind (require 8) (\<lambda>_. rbind (take_bytes 8) (\<lambda>bs. rret (get_le bs)))"

definition Reader_bytes :: "Bytes reader" where
  "Reader_bytes = rbind Reader_u32 (\<lambda>len.
     rbind (require (unat len)) (\<lambda>_. take_bytes (unat len)))"

definition Reader_string :: "string reader" where
  "Reader_string = rbind Reader_u32 (\<lambda>len.
     rbind (require (unat len)) (\<lambda>_.
     rbind (take_bytes (unat len)) (\<lambda>bs. rret (map char_of_byte bs))))"

definition Reader_done :: "Bytes \<Rightarrow> unit result" where
  "Reader_done bs =
     (if bs \<noteq> [] then Inl (runtime_error ''trailing bytes in message body'') else Inr ())"

text \<open>A counted vector: a \<open>u32\<close> element count and then the elements, one after the other.\<close>

fun read_n :: "nat \<Rightarrow> 'a reader \<Rightarrow> 'a list reader" where
  "read_n 0 get = rret []"
| "read_n (Suc n) get = rbind get (\<lambda>x. rbind (read_n n get) (\<lambda>xs. rret (x # xs)))"

definition read_vec :: "'a reader \<Rightarrow> 'a list reader" where
  "read_vec get = rbind Reader_u32 (\<lambda>count. read_n (unat count) get)"

definition write_vec :: "('a \<Rightarrow> Bytes) \<Rightarrow> 'a list \<Rightarrow> Bytes" where
  "write_vec put xs = Writer_u32 (word_of_nat (length xs)) @ concat (map put xs)"

section \<open>The codec contract\<close>

text \<open>
  \<open>read_write\<close>: the reader returns the written value and leaves what follows it untouched.
  \<open>write_read\<close>: whatever the reader accepts is exactly what the writer emits for the value,
  so the encoding is canonical. \<open>ok\<close> says which values the format can carry.
\<close>

locale codec =
  fixes put :: "'a \<Rightarrow> Bytes"
    and get :: "'a reader"
    and ok :: "'a \<Rightarrow> bool"
  assumes read_write: "ok x \<Longrightarrow> get (put x @ rest) = Inr (x, rest)"
    and write_read: "get bs = Inr (x, rest) \<Longrightarrow> ok x \<and> bs = put x @ rest"
begin

lemma get_put_eq: "ok x \<Longrightarrow> get (put x) = Inr (x, [])"
  using read_write [of x "[]"] by simp

lemma put_inj: "ok x \<Longrightarrow> ok y \<Longrightarrow> put x @ r = put y @ s \<Longrightarrow> x = y \<and> r = s"
  by (metis Inr_inject prod.inject read_write)

lemma read_n_write:
  "list_all ok xs \<Longrightarrow> read_n (length xs) get (concat (map put xs) @ rest) = Inr (xs, rest)"
  by (induction xs) (simp_all add: read_write)

lemma read_n_inv:
  "read_n n get bs = Inr (xs, rest) \<Longrightarrow>
     length xs = n \<and> list_all ok xs \<and> bs = concat (map put xs) @ rest"
proof (induction n arbitrary: bs xs)
  case 0
  then show ?case by simp
next
  case (Suc n)
  from Suc.prems obtain x bs' ys where
      x: "get bs = Inr (x, bs')" and ys: "read_n n get bs' = Inr (ys, rest)" and xs: "xs = x # ys"
    by (auto simp: wire_inv)
  from write_read [OF x] Suc.IH [OF ys] xs show ?case by simp
qed

end

subsection \<open>Integers\<close>

lemma Writer_u16_put_le: "Writer_u16 v = put_le 2 v"
  by (simp add: Writer_u16_def put_le_def upt_rec)

lemma fixed_width_codec:
  assumes len: "LENGTH('a::len) = 8 * n"
    and get: "get = rbind (require n) (\<lambda>_. rbind (take_bytes n) (\<lambda>bs. rret (get_le bs :: 'a word)))"
  shows "codec (put_le n) get (\<lambda>_. True)"
proof
  fix v :: "'a word" and rest
  show "get (put_le n v @ rest) = Inr (v, rest)"
    using get_le_put_le [OF len, of v]
    by (simp add: get rbind_def require_def take_bytes_def)
next
  fix bs rest :: Bytes and v :: "'a word"
  assume "get bs = Inr (v, rest)"
  then have "n \<le> length bs" "v = get_le (take n bs)" "rest = drop n bs"
    by (auto simp: get rbind_def require_def take_bytes_def split: if_splits)
  moreover from this have "put_le n v = take n bs"
    using len by (simp add: put_le_get_le)
  ultimately show "True \<and> bs = put_le n v @ rest" by simp
qed

interpretation u8: codec Writer_u8 Reader_u8 "\<lambda>_. True"
proof
  show "Reader_u8 (Writer_u8 x @ rest) = Inr (x, rest)" for x rest
    by (simp add: Reader_u8_def Writer_u8_def rbind_def require_def take_bytes_def)
next
  fix bs rest :: Bytes and x
  assume "Reader_u8 bs = Inr (x, rest)"
  then show "True \<and> bs = Writer_u8 x @ rest"
    by (cases bs)
      (auto simp: Reader_u8_def Writer_u8_def rbind_def require_def take_bytes_def split: if_splits)
qed

interpretation u16: codec Writer_u16 Reader_u16 "\<lambda>_. True"
  unfolding Writer_u16_put_le [abs_def]
  by (rule fixed_width_codec) (simp_all add: Reader_u16_def)

interpretation u32: codec Writer_u32 Reader_u32 "\<lambda>_. True"
  unfolding Writer_u32_def [abs_def]
  by (rule fixed_width_codec) (simp_all add: Reader_u32_def)

interpretation u64: codec Writer_u64 Reader_u64 "\<lambda>_. True"
  unfolding Writer_u64_def [abs_def]
  by (rule fixed_width_codec) (simp_all add: Reader_u64_def)

lemma length_Writer [simp]:
  "length (Writer_u8 a) = 1" "length (Writer_u16 b) = 2"
  "length (Writer_u32 c) = 4" "length (Writer_u64 d) = 8"
  by (simp_all add: Writer_u8_def Writer_u16_def Writer_u32_def Writer_u64_def)

subsection \<open>Byte strings, strings and vectors\<close>

definition len_ok :: "'a list \<Rightarrow> bool" where
  "len_ok xs \<longleftrightarrow> length xs < 2 ^ 32"

lemma len_ok_unat [simp]: "len_ok xs \<Longrightarrow> unat (word_of_nat (length xs) :: u32) = length xs"
  by (simp add: len_ok_def unat_of_nat)

lemma len_ok_iff: "len_ok xs \<longleftrightarrow> length xs < 4294967296"
  by (simp add: len_ok_def)

interpretation bytes: codec Writer_bytes Reader_bytes len_ok
proof
  fix x rest :: Bytes
  assume "len_ok x"
  then show "Reader_bytes (Writer_bytes x @ rest) = Inr (x, rest)"
    by (simp add: Reader_bytes_def Writer_bytes_def u32.read_write rbind_def require_def take_bytes_def)
next
  fix bs rest :: Bytes and x
  assume "Reader_bytes bs = Inr (x, rest)"
  then obtain len bs' where len: "Reader_u32 bs = Inr (len, bs')"
      and "unat len \<le> length bs'" "x = take (unat len) bs'" "rest = drop (unat len) bs'"
    by (auto simp: Reader_bytes_def wire_inv require_def take_bytes_def split: if_splits)
  then show "len_ok x \<and> bs = Writer_bytes x @ rest"
    using u32.write_read [OF len] by (simp add: Writer_bytes_def len_ok_iff min_absorb2)
qed

interpretation str: codec Writer_string Reader_string len_ok
proof
  fix x :: string and rest :: Bytes
  assume "len_ok x"
  then show "Reader_string (Writer_string x @ rest) = Inr (x, rest)"
    by (simp add: Reader_string_def Writer_string_def u32.read_write rbind_def require_def
        take_bytes_def comp_def)
next
  fix bs rest :: Bytes and x
  assume "Reader_string bs = Inr (x, rest)"
  then obtain len bs' where len: "Reader_u32 bs = Inr (len, bs')"
      and "unat len \<le> length bs'" "x = map char_of_byte (take (unat len) bs')"
        "rest = drop (unat len) bs'"
    by (auto simp: Reader_string_def wire_inv require_def take_bytes_def split: if_splits)
  then show "len_ok x \<and> bs = Writer_string x @ rest"
    using u32.write_read [OF len]
    by (simp add: Writer_string_def len_ok_iff min_absorb2 comp_def)
qed

context codec
begin

lemma vec_codec: "codec (write_vec put) (read_vec get) (\<lambda>xs. len_ok xs \<and> list_all ok xs)"
proof
  fix xs :: "'a list" and rest :: Bytes
  assume "len_ok xs \<and> list_all ok xs"
  then show "read_vec get (write_vec put xs @ rest) = Inr (xs, rest)"
    by (simp add: read_vec_def write_vec_def u32.read_write read_n_write)
next
  fix bs rest :: Bytes and xs
  assume "read_vec get bs = Inr (xs, rest)"
  then obtain count bs' where c: "Reader_u32 bs = Inr (count, bs')"
      and r: "read_n (unat count) get bs' = Inr (xs, rest)"
    by (auto simp: read_vec_def wire_inv)
  show "(len_ok xs \<and> list_all ok xs) \<and> bs = write_vec put xs @ rest"
    using u32.write_read [OF c] read_n_inv [OF r] by (auto simp: write_vec_def len_ok_iff)
qed

end

lemmas wire_reads [wire_simps] =
  u8.read_write u16.read_write u32.read_write u64.read_write bytes.read_write str.read_write

lemmas wire_read_invs =
  u8.write_read u16.write_read u32.write_read u64.write_read bytes.write_read str.write_read

end
