(* ===== verification/Messages.thy ===== *)
theory Messages
  imports Prelude
begin

text \<open>
  The data model of src/include/core/yisync_protocol.hpp: the enumerations, the message
  structures, the frame header and the protocol constants.

  An \<open>enum class : std::uint8_t\<close> can hold any byte after a \<open>static_cast\<close>, so every enumeration
  has, besides the named enumerators, one constructor for the byte values without a name.
  Fields of a structure carry a two-letter prefix for the structure, since several of them use
  the same field names.
\<close>

section \<open>Enumerations\<close>

datatype EM_MessageType =
    MSG_HELLO | MSG_MANIFEST1 | MSG_CREATE | MSG_DATA | MSG_HEARTBEAT | MSG_NACK
  | MSG_FILE_BEGIN | MSG_CHUNK | MSG_FILE_COMMIT | MSG_MANIFEST2 | MSG_unlisted u8

fun msg_type_to_u8 :: "EM_MessageType \<Rightarrow> u8" where
  "msg_type_to_u8 MSG_HELLO = 1"
| "msg_type_to_u8 MSG_MANIFEST1 = 2"
| "msg_type_to_u8 MSG_CREATE = 3"
| "msg_type_to_u8 MSG_DATA = 4"
| "msg_type_to_u8 MSG_HEARTBEAT = 5"
| "msg_type_to_u8 MSG_NACK = 6"
| "msg_type_to_u8 MSG_FILE_BEGIN = 7"
| "msg_type_to_u8 MSG_CHUNK = 8"
| "msg_type_to_u8 MSG_FILE_COMMIT = 9"
| "msg_type_to_u8 MSG_MANIFEST2 = 10"
| "msg_type_to_u8 (MSG_unlisted b) = b"

definition msg_type_of_u8 :: "u8 \<Rightarrow> EM_MessageType" where
  "msg_type_of_u8 b =
     (if b = 1 then MSG_HELLO
      else if b = 2 then MSG_MANIFEST1
      else if b = 3 then MSG_CREATE
      else if b = 4 then MSG_DATA
      else if b = 5 then MSG_HEARTBEAT
      else if b = 6 then MSG_NACK
      else if b = 7 then MSG_FILE_BEGIN
      else if b = 8 then MSG_CHUNK
      else if b = 9 then MSG_FILE_COMMIT
      else if b = 10 then MSG_MANIFEST2
      else MSG_unlisted b)"

datatype EM_Role =
    SENDER | RECEIVER | Role_unlisted u8

fun role_to_u8 :: "EM_Role \<Rightarrow> u8" where
  "role_to_u8 SENDER = 1"
| "role_to_u8 RECEIVER = 2"
| "role_to_u8 (Role_unlisted b) = b"

definition role_of_u8 :: "u8 \<Rightarrow> EM_Role" where
  "role_of_u8 b =
     (if b = 1 then SENDER
      else if b = 2 then RECEIVER
      else Role_unlisted b)"

datatype EM_Compression =
    Compression_NONE | LZ4 | ZSTD | Compression_unlisted u8

fun compression_to_u8 :: "EM_Compression \<Rightarrow> u8" where
  "compression_to_u8 Compression_NONE = 0"
| "compression_to_u8 LZ4 = 1"
| "compression_to_u8 ZSTD = 2"
| "compression_to_u8 (Compression_unlisted b) = b"

definition compression_of_u8 :: "u8 \<Rightarrow> EM_Compression" where
  "compression_of_u8 b =
     (if b = 0 then Compression_NONE
      else if b = 1 then LZ4
      else if b = 2 then ZSTD
      else Compression_unlisted b)"

datatype EM_ChecksumAlgo =
    Checksum_NONE | CRC32C | MD5 | Checksum_unlisted u8

fun checksum_algo_to_u8 :: "EM_ChecksumAlgo \<Rightarrow> u8" where
  "checksum_algo_to_u8 Checksum_NONE = 0"
| "checksum_algo_to_u8 CRC32C = 1"
| "checksum_algo_to_u8 MD5 = 2"
| "checksum_algo_to_u8 (Checksum_unlisted b) = b"

definition checksum_algo_of_u8 :: "u8 \<Rightarrow> EM_ChecksumAlgo" where
  "checksum_algo_of_u8 b =
     (if b = 0 then Checksum_NONE
      else if b = 1 then CRC32C
      else if b = 2 then MD5
      else Checksum_unlisted b)"

datatype EM_EntryKind =
    REGULAR_FILE | DIRECTORY | SYMLINK | EntryKind_unlisted u8

fun entry_kind_to_u8 :: "EM_EntryKind \<Rightarrow> u8" where
  "entry_kind_to_u8 REGULAR_FILE = 1"
| "entry_kind_to_u8 DIRECTORY = 2"
| "entry_kind_to_u8 SYMLINK = 3"
| "entry_kind_to_u8 (EntryKind_unlisted b) = b"

definition entry_kind_of_u8 :: "u8 \<Rightarrow> EM_EntryKind" where
  "entry_kind_of_u8 b =
     (if b = 1 then REGULAR_FILE
      else if b = 2 then DIRECTORY
      else if b = 3 then SYMLINK
      else EntryKind_unlisted b)"

datatype EM_NackReason =
    BAD_SESSION | BAD_SEQ | BAD_OFFSET | BAD_CHECKSUM | BAD_FILE_ORDER | BAD_CREATE
  | FILE_EXISTS | PREV_FILE_INCOMPLETE | SIZE_CONFLICT | CHECKSUM_MISMATCH
  | UNSUPPORTED_COMPRESSION | DECODE_ERROR | IO_ERROR | BAD_CHUNK | BAD_COMMIT
  | NackReason_unlisted u8

fun nack_reason_to_u8 :: "EM_NackReason \<Rightarrow> u8" where
  "nack_reason_to_u8 BAD_SESSION = 1"
| "nack_reason_to_u8 BAD_SEQ = 2"
| "nack_reason_to_u8 BAD_OFFSET = 3"
| "nack_reason_to_u8 BAD_CHECKSUM = 4"
| "nack_reason_to_u8 BAD_FILE_ORDER = 5"
| "nack_reason_to_u8 BAD_CREATE = 6"
| "nack_reason_to_u8 FILE_EXISTS = 7"
| "nack_reason_to_u8 PREV_FILE_INCOMPLETE = 8"
| "nack_reason_to_u8 SIZE_CONFLICT = 9"
| "nack_reason_to_u8 CHECKSUM_MISMATCH = 10"
| "nack_reason_to_u8 UNSUPPORTED_COMPRESSION = 11"
| "nack_reason_to_u8 DECODE_ERROR = 12"
| "nack_reason_to_u8 IO_ERROR = 13"
| "nack_reason_to_u8 BAD_CHUNK = 14"
| "nack_reason_to_u8 BAD_COMMIT = 15"
| "nack_reason_to_u8 (NackReason_unlisted b) = b"

definition nack_reason_of_u8 :: "u8 \<Rightarrow> EM_NackReason" where
  "nack_reason_of_u8 b =
     (if b = 1 then BAD_SESSION
      else if b = 2 then BAD_SEQ
      else if b = 3 then BAD_OFFSET
      else if b = 4 then BAD_CHECKSUM
      else if b = 5 then BAD_FILE_ORDER
      else if b = 6 then BAD_CREATE
      else if b = 7 then FILE_EXISTS
      else if b = 8 then PREV_FILE_INCOMPLETE
      else if b = 9 then SIZE_CONFLICT
      else if b = 10 then CHECKSUM_MISMATCH
      else if b = 11 then UNSUPPORTED_COMPRESSION
      else if b = 12 then DECODE_ERROR
      else if b = 13 then IO_ERROR
      else if b = 14 then BAD_CHUNK
      else if b = 15 then BAD_COMMIT
      else NackReason_unlisted b)"

datatype EM_Manifest2Action =
    IN_SYNC | M2_RESUME_EXISTING | M2_CREATE_MISSING | Manifest2Action_unlisted u8

fun manifest2_action_to_u8 :: "EM_Manifest2Action \<Rightarrow> u8" where
  "manifest2_action_to_u8 IN_SYNC = 0"
| "manifest2_action_to_u8 M2_RESUME_EXISTING = 1"
| "manifest2_action_to_u8 M2_CREATE_MISSING = 2"
| "manifest2_action_to_u8 (Manifest2Action_unlisted b) = b"

definition manifest2_action_of_u8 :: "u8 \<Rightarrow> EM_Manifest2Action" where
  "manifest2_action_of_u8 b =
     (if b = 0 then IN_SYNC
      else if b = 1 then M2_RESUME_EXISTING
      else if b = 2 then M2_CREATE_MISSING
      else Manifest2Action_unlisted b)"

text \<open>\<open>static_cast\<close> to the enumeration and back keeps the byte.\<close>

lemma msg_type_of_u8_inv [simp]: "msg_type_to_u8 (msg_type_of_u8 b) = b"
  by (simp add: msg_type_of_u8_def)

lemma role_of_u8_inv [simp]: "role_to_u8 (role_of_u8 b) = b"
  by (simp add: role_of_u8_def)

lemma compression_of_u8_inv [simp]: "compression_to_u8 (compression_of_u8 b) = b"
  by (simp add: compression_of_u8_def)

lemma checksum_algo_of_u8_inv [simp]: "checksum_algo_to_u8 (checksum_algo_of_u8 b) = b"
  by (simp add: checksum_algo_of_u8_def)

lemma entry_kind_of_u8_inv [simp]: "entry_kind_to_u8 (entry_kind_of_u8 b) = b"
  by (simp add: entry_kind_of_u8_def)

lemma nack_reason_of_u8_inv [simp]: "nack_reason_to_u8 (nack_reason_of_u8 b) = b"
  by (simp add: nack_reason_of_u8_def)

lemma manifest2_action_of_u8_inv [simp]: "manifest2_action_to_u8 (manifest2_action_of_u8 b) = b"
  by (simp add: manifest2_action_of_u8_def)

section \<open>Constants\<close>

definition kDefaultChunkSizeBytes :: u64 where
  "kDefaultChunkSizeBytes = 64 * 1024"

definition kProtocolVersion :: u16 where
  "kProtocolVersion = 1"

datatype EM_FeatureFlag =
    MANIFEST12 | DIRECTORY_ENTRY | SYMLINK_ENTRY | CHUNK_TRANSFER | HEARTBEAT_ACK
  | MISSING_RANGES | DYNAMIC_RTO

fun feature_bit :: "EM_FeatureFlag \<Rightarrow> u64" where
  "feature_bit MANIFEST12 = push_bit 0 1"
| "feature_bit DIRECTORY_ENTRY = push_bit 1 1"
| "feature_bit SYMLINK_ENTRY = push_bit 2 1"
| "feature_bit CHUNK_TRANSFER = push_bit 3 1"
| "feature_bit HEARTBEAT_ACK = push_bit 4 1"
| "feature_bit MISSING_RANGES = push_bit 5 1"
| "feature_bit DYNAMIC_RTO = push_bit 6 1"

definition kRequiredFeatureFlags :: u64 where
  "kRequiredFeatureFlags =
     feature_bit MANIFEST12 OR feature_bit CHUNK_TRANSFER OR feature_bit HEARTBEAT_ACK"

definition kSupportedFeatureFlags :: u64 where
  "kSupportedFeatureFlags =
     kRequiredFeatureFlags OR feature_bit DIRECTORY_ENTRY OR feature_bit SYMLINK_ENTRY
       OR feature_bit MISSING_RANGES OR feature_bit DYNAMIC_RTO"

section \<open>Structures\<close>

record T_FileChecksum =
  ck_algo :: EM_ChecksumAlgo
  ck_offset :: u64
  ck_len :: u64
  ck_value :: Bytes

definition default_checksum :: T_FileChecksum where
  "default_checksum = \<lparr>ck_algo = Checksum_NONE, ck_offset = 0, ck_len = 0, ck_value = []\<rparr>"

record T_MessageHeader =
  mh_magic :: u32
  mh_version :: u8
  mh_msg_type :: EM_MessageType
  mh_header_len :: u16
  mh_body_len :: u32

definition kMagic :: u32 where
  "kMagic = 0x59495359"

definition kVersion :: u8 where
  "kVersion = 1"

definition kHeaderLen :: u16 where
  "kHeaderLen = 12"

record T_Hello =
  he_node_id :: string
  he_role :: EM_Role
  he_min_version :: u16
  he_max_version :: u16
  he_feature_flags :: u64
  he_required_feature_flags :: u64
  he_chunk_size :: u32
  he_max_inflight_bytes :: u64
  he_supported_compression :: "EM_Compression list"
  he_supported_checksum :: "EM_ChecksumAlgo list"

record T_ManifestEntry =
  me_file_id :: u64
  me_seq :: u64
  me_kind :: EM_EntryKind
  me_name :: string
  me_link_target :: string
  me_size :: u64
  me_checksum :: T_FileChecksum

record T_Manifest1Stream =
  ms_stream_id :: u64
  ms_root :: string
  ms_entries :: "T_ManifestEntry list"

record T_Manifest1 =
  m1_manifest_id :: u64
  m1_streams :: "T_Manifest1Stream list"

record T_Manifest2Stream =
  m2s_stream_id :: u64
  m2s_action :: EM_Manifest2Action
  m2s_start_file_id :: u64
  m2s_start_offset :: u64

record T_Manifest2 =
  m2_manifest_id :: u64
  m2_streams :: "T_Manifest2Stream list"

record T_Create =
  cr_stream_id :: u64
  cr_seq :: u64
  cr_file_id :: u64
  cr_kind :: EM_EntryKind
  cr_name :: string
  cr_link_target :: string
  cr_final_size :: u64
  cr_prev_file_id :: u64
  cr_prev_final_size :: u64
  cr_prev_checksum :: T_FileChecksum

record T_Data =
  da_stream_id :: u64
  da_seq :: u64
  da_file_id :: u64
  da_offset :: u64
  da_final_size :: u64
  da_raw_len :: u32
  da_compression :: EM_Compression
  da_checksum_algo :: EM_ChecksumAlgo
  da_checksum :: Bytes
  da_payload :: Bytes

record T_FileBegin =
  fb_stream_id :: u64
  fb_seq :: u64
  fb_file_id :: u64
  fb_name :: string
  fb_final_size :: u64
  fb_chunk_size :: u64
  fb_chunk_count :: u64
  fb_file_checksum :: T_FileChecksum
  fb_prev_file_id :: u64
  fb_prev_final_size :: u64
  fb_prev_checksum :: T_FileChecksum

record T_Chunk =
  ch_stream_id :: u64
  ch_seq :: u64
  ch_file_id :: u64
  ch_chunk_index :: u64
  ch_offset :: u64
  ch_raw_len :: u32
  ch_compression :: EM_Compression
  ch_checksum_algo :: EM_ChecksumAlgo
  ch_checksum :: Bytes
  ch_payload :: Bytes

record T_FileCommit =
  fc_stream_id :: u64
  fc_seq :: u64
  fc_file_id :: u64

record T_ReceivedChunk =
  rc_seq :: u64
  rc_file_id :: u64
  rc_chunk_index :: u64

record T_MissingChunkRange =
  mr_seq :: u64
  mr_file_id :: u64
  mr_first_chunk_index :: u64
  mr_last_chunk_index :: u64

record T_Heartbeat =
  hb_stream_id :: u64
  hb_next_seq :: u64
  hb_file_id :: u64
  hb_offset :: u64
  hb_durable_offset :: u64
  hb_recv_window_bytes :: u64
  hb_received_chunks :: "T_ReceivedChunk list"
  hb_missing_ranges :: "T_MissingChunkRange list"

record T_Nack =
  nk_stream_id :: u64
  nk_got_seq :: u64
  nk_expected_seq :: u64
  nk_file_id :: u64
  nk_offset :: u64
  nk_expected_file_id :: u64
  nk_expected_offset :: u64
  nk_reason :: EM_NackReason
  nk_detail :: string

datatype T_Message =
    Msg_Hello T_Hello
  | Msg_Manifest1 T_Manifest1
  | Msg_Manifest2 T_Manifest2
  | Msg_Create T_Create
  | Msg_Data T_Data
  | Msg_FileBegin T_FileBegin
  | Msg_Chunk T_Chunk
  | Msg_FileCommit T_FileCommit
  | Msg_Heartbeat T_Heartbeat
  | Msg_Nack T_Nack

record T_Frame =
  fr_header :: T_MessageHeader
  fr_body :: Bytes

end
