(* ===== verification/Protocol.thy ===== *)
theory Protocol
  imports Wire Messages
begin

text \<open>
  The message formats of src/src/core/yisync_protocol.cpp: one writer and one reader per
  structure, the message bodies, and the framing functions \<open>encode_message\<close>,
  \<open>decode_message\<close>, \<open>encode_frame\<close> and \<open>decode_frame\<close>. For every structure an interpretation
  of the \<open>codec\<close> contract shows that reading inverts writing and that the encoding is
  canonical; the frame properties are derived from these.
\<close>

section \<open>Structures inside messages\<close>

definition write_checksum :: "T_FileChecksum \<Rightarrow> Bytes" where
  "write_checksum c =
     Writer_u8 (checksum_algo_to_u8 (ck_algo c)) @
     Writer_u64 (ck_offset c) @
     Writer_u64 (ck_len c) @
     Writer_bytes (ck_value c)"

definition read_checksum :: "T_FileChecksum reader" where
  "read_checksum =
     rbind Reader_u8 (\<lambda>algo.
     rbind Reader_u64 (\<lambda>offset.
     rbind Reader_u64 (\<lambda>len.
     rbind Reader_bytes (\<lambda>value.
     rret \<lparr>ck_algo = checksum_algo_of_u8 algo, ck_offset = offset, ck_len = len,
       ck_value = value\<rparr>))))"

definition write_manifest_entry :: "T_ManifestEntry \<Rightarrow> Bytes" where
  "write_manifest_entry e =
     Writer_u64 (me_file_id e) @
     Writer_u64 (me_seq e) @
     Writer_u8 (entry_kind_to_u8 (me_kind e)) @
     Writer_string (me_name e) @
     Writer_string (me_link_target e) @
     Writer_u64 (me_size e) @
     write_checksum (me_checksum e)"

definition read_manifest_entry :: "T_ManifestEntry reader" where
  "read_manifest_entry =
     rbind Reader_u64 (\<lambda>file_id.
     rbind Reader_u64 (\<lambda>seq.
     rbind Reader_u8 (\<lambda>kind.
     rbind Reader_string (\<lambda>name.
     rbind Reader_string (\<lambda>link_target.
     rbind Reader_u64 (\<lambda>size.
     rbind read_checksum (\<lambda>checksum.
     rret \<lparr>me_file_id = file_id, me_seq = seq, me_kind = entry_kind_of_u8 kind, me_name = name,
       me_link_target = link_target, me_size = size, me_checksum = checksum\<rparr>)))))))"

definition write_manifest1_stream :: "T_Manifest1Stream \<Rightarrow> Bytes" where
  "write_manifest1_stream s =
     Writer_u64 (ms_stream_id s) @
     Writer_string (ms_root s) @
     write_vec write_manifest_entry (ms_entries s)"

definition read_manifest1_stream :: "T_Manifest1Stream reader" where
  "read_manifest1_stream =
     rbind Reader_u64 (\<lambda>stream_id.
     rbind Reader_string (\<lambda>root.
     rbind (read_vec read_manifest_entry) (\<lambda>entries.
     rret \<lparr>ms_stream_id = stream_id, ms_root = root, ms_entries = entries\<rparr>)))"

definition write_manifest2_stream :: "T_Manifest2Stream \<Rightarrow> Bytes" where
  "write_manifest2_stream s =
     Writer_u64 (m2s_stream_id s) @
     Writer_u8 (manifest2_action_to_u8 (m2s_action s)) @
     Writer_u64 (m2s_start_file_id s) @
     Writer_u64 (m2s_start_offset s)"

definition read_manifest2_stream :: "T_Manifest2Stream reader" where
  "read_manifest2_stream =
     rbind Reader_u64 (\<lambda>stream_id.
     rbind Reader_u8 (\<lambda>action.
     rbind Reader_u64 (\<lambda>start_file_id.
     rbind Reader_u64 (\<lambda>start_offset.
     rret \<lparr>m2s_stream_id = stream_id, m2s_action = manifest2_action_of_u8 action,
       m2s_start_file_id = start_file_id, m2s_start_offset = start_offset\<rparr>))))"

definition write_received_chunk :: "T_ReceivedChunk \<Rightarrow> Bytes" where
  "write_received_chunk c =
     Writer_u64 (rc_seq c) @ Writer_u64 (rc_file_id c) @ Writer_u64 (rc_chunk_index c)"

definition read_received_chunk :: "T_ReceivedChunk reader" where
  "read_received_chunk =
     rbind Reader_u64 (\<lambda>seq.
     rbind Reader_u64 (\<lambda>file_id.
     rbind Reader_u64 (\<lambda>chunk_index.
     rret \<lparr>rc_seq = seq, rc_file_id = file_id, rc_chunk_index = chunk_index\<rparr>)))"

definition write_missing_chunk_range :: "T_MissingChunkRange \<Rightarrow> Bytes" where
  "write_missing_chunk_range r =
     Writer_u64 (mr_seq r) @ Writer_u64 (mr_file_id r) @
     Writer_u64 (mr_first_chunk_index r) @ Writer_u64 (mr_last_chunk_index r)"

definition read_missing_chunk_range :: "T_MissingChunkRange reader" where
  "read_missing_chunk_range =
     rbind Reader_u64 (\<lambda>seq.
     rbind Reader_u64 (\<lambda>file_id.
     rbind Reader_u64 (\<lambda>first.
     rbind Reader_u64 (\<lambda>last.
     rret \<lparr>mr_seq = seq, mr_file_id = file_id, mr_first_chunk_index = first,
       mr_last_chunk_index = last\<rparr>))))"

definition write_header_prefix :: "T_MessageHeader \<Rightarrow> Bytes" where
  "write_header_prefix h =
     Writer_u32 (mh_magic h) @
     Writer_u8 (mh_version h) @
     Writer_u8 (msg_type_to_u8 (mh_msg_type h)) @
     Writer_u16 (mh_header_len h) @
     Writer_u32 (mh_body_len h)"

definition read_header_prefix :: "T_MessageHeader reader" where
  "read_header_prefix =
     rbind Reader_u32 (\<lambda>magic.
     rbind Reader_u8 (\<lambda>version.
     rbind Reader_u8 (\<lambda>msg_type.
     rbind Reader_u16 (\<lambda>header_len.
     rbind Reader_u32 (\<lambda>body_len.
     rret \<lparr>mh_magic = magic, mh_version = version, mh_msg_type = msg_type_of_u8 msg_type,
       mh_header_len = header_len, mh_body_len = body_len\<rparr>)))))"

section \<open>Message bodies\<close>

definition encode_body_hello :: "T_Hello \<Rightarrow> Bytes" where
  "encode_body_hello m =
     Writer_string (he_node_id m) @
     Writer_u8 (role_to_u8 (he_role m)) @
     Writer_u16 (he_min_version m) @
     Writer_u16 (he_max_version m) @
     Writer_u64 (he_feature_flags m) @
     Writer_u64 (he_required_feature_flags m) @
     Writer_u32 (he_chunk_size m) @
     Writer_u64 (he_max_inflight_bytes m) @
     write_vec (\<lambda>c. Writer_u8 (compression_to_u8 c)) (he_supported_compression m) @
     write_vec (\<lambda>c. Writer_u8 (checksum_algo_to_u8 c)) (he_supported_checksum m)"

definition decode_hello :: "T_Hello reader" where
  "decode_hello =
     rbind Reader_string (\<lambda>node_id.
     rbind Reader_u8 (\<lambda>role.
     rbind Reader_u16 (\<lambda>min_version.
     rbind Reader_u16 (\<lambda>max_version.
     rbind Reader_u64 (\<lambda>feature_flags.
     rbind Reader_u64 (\<lambda>required_feature_flags.
     rbind Reader_u32 (\<lambda>chunk_size.
     rbind Reader_u64 (\<lambda>max_inflight_bytes.
     rbind (read_vec (rbind Reader_u8 (\<lambda>b. rret (compression_of_u8 b)))) (\<lambda>supported_compression.
     rbind (read_vec (rbind Reader_u8 (\<lambda>b. rret (checksum_algo_of_u8 b)))) (\<lambda>supported_checksum.
     rret \<lparr>he_node_id = node_id, he_role = role_of_u8 role, he_min_version = min_version,
       he_max_version = max_version, he_feature_flags = feature_flags,
       he_required_feature_flags = required_feature_flags, he_chunk_size = chunk_size,
       he_max_inflight_bytes = max_inflight_bytes,
       he_supported_compression = supported_compression,
       he_supported_checksum = supported_checksum\<rparr>))))))))))"

definition encode_body_manifest1 :: "T_Manifest1 \<Rightarrow> Bytes" where
  "encode_body_manifest1 m =
     Writer_u64 (m1_manifest_id m) @ write_vec write_manifest1_stream (m1_streams m)"

definition decode_manifest1 :: "T_Manifest1 reader" where
  "decode_manifest1 =
     rbind Reader_u64 (\<lambda>manifest_id.
     rbind (read_vec read_manifest1_stream) (\<lambda>streams.
     rret \<lparr>m1_manifest_id = manifest_id, m1_streams = streams\<rparr>))"

definition encode_body_manifest2 :: "T_Manifest2 \<Rightarrow> Bytes" where
  "encode_body_manifest2 m =
     Writer_u64 (m2_manifest_id m) @ write_vec write_manifest2_stream (m2_streams m)"

definition decode_manifest2 :: "T_Manifest2 reader" where
  "decode_manifest2 =
     rbind Reader_u64 (\<lambda>manifest_id.
     rbind (read_vec read_manifest2_stream) (\<lambda>streams.
     rret \<lparr>m2_manifest_id = manifest_id, m2_streams = streams\<rparr>))"

definition encode_body_create :: "T_Create \<Rightarrow> Bytes" where
  "encode_body_create m =
     Writer_u64 (cr_stream_id m) @
     Writer_u64 (cr_seq m) @
     Writer_u64 (cr_file_id m) @
     Writer_u8 (entry_kind_to_u8 (cr_kind m)) @
     Writer_string (cr_name m) @
     Writer_string (cr_link_target m) @
     Writer_u64 (cr_final_size m) @
     Writer_u64 (cr_prev_file_id m) @
     Writer_u64 (cr_prev_final_size m) @
     write_checksum (cr_prev_checksum m)"

definition decode_create :: "T_Create reader" where
  "decode_create =
     rbind Reader_u64 (\<lambda>stream_id.
     rbind Reader_u64 (\<lambda>seq.
     rbind Reader_u64 (\<lambda>file_id.
     rbind Reader_u8 (\<lambda>kind.
     rbind Reader_string (\<lambda>name.
     rbind Reader_string (\<lambda>link_target.
     rbind Reader_u64 (\<lambda>final_size.
     rbind Reader_u64 (\<lambda>prev_file_id.
     rbind Reader_u64 (\<lambda>prev_final_size.
     rbind read_checksum (\<lambda>prev_checksum.
     rret \<lparr>cr_stream_id = stream_id, cr_seq = seq, cr_file_id = file_id,
       cr_kind = entry_kind_of_u8 kind, cr_name = name, cr_link_target = link_target,
       cr_final_size = final_size, cr_prev_file_id = prev_file_id,
       cr_prev_final_size = prev_final_size, cr_prev_checksum = prev_checksum\<rparr>))))))))))"

definition encode_body_data :: "T_Data \<Rightarrow> Bytes" where
  "encode_body_data m =
     Writer_u64 (da_stream_id m) @
     Writer_u64 (da_seq m) @
     Writer_u64 (da_file_id m) @
     Writer_u64 (da_offset m) @
     Writer_u64 (da_final_size m) @
     Writer_u32 (da_raw_len m) @
     Writer_u32 (word_of_nat (length (da_payload m))) @
     Writer_u8 (compression_to_u8 (da_compression m)) @
     Writer_u8 (checksum_algo_to_u8 (da_checksum_algo m)) @
     Writer_bytes (da_checksum m) @
     Writer_bytes (da_payload m)"

definition decode_data :: "T_Data reader" where
  "decode_data =
     rbind Reader_u64 (\<lambda>stream_id.
     rbind Reader_u64 (\<lambda>seq.
     rbind Reader_u64 (\<lambda>file_id.
     rbind Reader_u64 (\<lambda>offset.
     rbind Reader_u64 (\<lambda>final_size.
     rbind Reader_u32 (\<lambda>raw_len.
     rbind Reader_u32 (\<lambda>payload_len.
     rbind Reader_u8 (\<lambda>compression.
     rbind Reader_u8 (\<lambda>checksum_algo.
     rbind Reader_bytes (\<lambda>checksum.
     rbind Reader_bytes (\<lambda>payload.
     if length payload \<noteq> unat payload_len
     then rfail (runtime_error ''DATA payload length mismatch'')
     else rret \<lparr>da_stream_id = stream_id, da_seq = seq, da_file_id = file_id,
       da_offset = offset, da_final_size = final_size, da_raw_len = raw_len,
       da_compression = compression_of_u8 compression,
       da_checksum_algo = checksum_algo_of_u8 checksum_algo,
       da_checksum = checksum, da_payload = payload\<rparr>)))))))))))"

definition encode_body_file_begin :: "T_FileBegin \<Rightarrow> Bytes" where
  "encode_body_file_begin m =
     Writer_u64 (fb_stream_id m) @
     Writer_u64 (fb_seq m) @
     Writer_u64 (fb_file_id m) @
     Writer_string (fb_name m) @
     Writer_u64 (fb_final_size m) @
     Writer_u64 (fb_chunk_size m) @
     Writer_u64 (fb_chunk_count m) @
     write_checksum (fb_file_checksum m) @
     Writer_u64 (fb_prev_file_id m) @
     Writer_u64 (fb_prev_final_size m) @
     write_checksum (fb_prev_checksum m)"

definition decode_file_begin :: "T_FileBegin reader" where
  "decode_file_begin =
     rbind Reader_u64 (\<lambda>stream_id.
     rbind Reader_u64 (\<lambda>seq.
     rbind Reader_u64 (\<lambda>file_id.
     rbind Reader_string (\<lambda>name.
     rbind Reader_u64 (\<lambda>final_size.
     rbind Reader_u64 (\<lambda>chunk_size.
     rbind Reader_u64 (\<lambda>chunk_count.
     rbind read_checksum (\<lambda>file_checksum.
     rbind Reader_u64 (\<lambda>prev_file_id.
     rbind Reader_u64 (\<lambda>prev_final_size.
     rbind read_checksum (\<lambda>prev_checksum.
     rret \<lparr>fb_stream_id = stream_id, fb_seq = seq, fb_file_id = file_id, fb_name = name,
       fb_final_size = final_size, fb_chunk_size = chunk_size, fb_chunk_count = chunk_count,
       fb_file_checksum = file_checksum, fb_prev_file_id = prev_file_id,
       fb_prev_final_size = prev_final_size, fb_prev_checksum = prev_checksum\<rparr>)))))))))))"

definition encode_body_chunk :: "T_Chunk \<Rightarrow> Bytes" where
  "encode_body_chunk m =
     Writer_u64 (ch_stream_id m) @
     Writer_u64 (ch_seq m) @
     Writer_u64 (ch_file_id m) @
     Writer_u64 (ch_chunk_index m) @
     Writer_u64 (ch_offset m) @
     Writer_u32 (ch_raw_len m) @
     Writer_u32 (word_of_nat (length (ch_payload m))) @
     Writer_u8 (compression_to_u8 (ch_compression m)) @
     Writer_u8 (checksum_algo_to_u8 (ch_checksum_algo m)) @
     Writer_bytes (ch_checksum m) @
     Writer_bytes (ch_payload m)"

definition decode_chunk :: "T_Chunk reader" where
  "decode_chunk =
     rbind Reader_u64 (\<lambda>stream_id.
     rbind Reader_u64 (\<lambda>seq.
     rbind Reader_u64 (\<lambda>file_id.
     rbind Reader_u64 (\<lambda>chunk_index.
     rbind Reader_u64 (\<lambda>offset.
     rbind Reader_u32 (\<lambda>raw_len.
     rbind Reader_u32 (\<lambda>payload_len.
     rbind Reader_u8 (\<lambda>compression.
     rbind Reader_u8 (\<lambda>checksum_algo.
     rbind Reader_bytes (\<lambda>checksum.
     rbind Reader_bytes (\<lambda>payload.
     if length payload \<noteq> unat payload_len
     then rfail (runtime_error ''CHUNK payload length mismatch'')
     else rret \<lparr>ch_stream_id = stream_id, ch_seq = seq, ch_file_id = file_id,
       ch_chunk_index = chunk_index, ch_offset = offset, ch_raw_len = raw_len,
       ch_compression = compression_of_u8 compression,
       ch_checksum_algo = checksum_algo_of_u8 checksum_algo,
       ch_checksum = checksum, ch_payload = payload\<rparr>)))))))))))"

definition encode_body_file_commit :: "T_FileCommit \<Rightarrow> Bytes" where
  "encode_body_file_commit m =
     Writer_u64 (fc_stream_id m) @ Writer_u64 (fc_seq m) @ Writer_u64 (fc_file_id m)"

definition decode_file_commit :: "T_FileCommit reader" where
  "decode_file_commit =
     rbind Reader_u64 (\<lambda>stream_id.
     rbind Reader_u64 (\<lambda>seq.
     rbind Reader_u64 (\<lambda>file_id.
     rret \<lparr>fc_stream_id = stream_id, fc_seq = seq, fc_file_id = file_id\<rparr>)))"

definition encode_body_heartbeat :: "T_Heartbeat \<Rightarrow> Bytes" where
  "encode_body_heartbeat m =
     Writer_u64 (hb_stream_id m) @
     Writer_u64 (hb_next_seq m) @
     Writer_u64 (hb_file_id m) @
     Writer_u64 (hb_offset m) @
     Writer_u64 (hb_durable_offset m) @
     Writer_u64 (hb_recv_window_bytes m) @
     write_vec write_received_chunk (hb_received_chunks m) @
     write_vec write_missing_chunk_range (hb_missing_ranges m)"

definition decode_heartbeat :: "T_Heartbeat reader" where
  "decode_heartbeat =
     rbind Reader_u64 (\<lambda>stream_id.
     rbind Reader_u64 (\<lambda>next_seq.
     rbind Reader_u64 (\<lambda>file_id.
     rbind Reader_u64 (\<lambda>offset.
     rbind Reader_u64 (\<lambda>durable_offset.
     rbind Reader_u64 (\<lambda>recv_window_bytes.
     rbind (read_vec read_received_chunk) (\<lambda>received_chunks.
     rbind (read_vec read_missing_chunk_range) (\<lambda>missing_ranges.
     rret \<lparr>hb_stream_id = stream_id, hb_next_seq = next_seq, hb_file_id = file_id,
       hb_offset = offset, hb_durable_offset = durable_offset,
       hb_recv_window_bytes = recv_window_bytes, hb_received_chunks = received_chunks,
       hb_missing_ranges = missing_ranges\<rparr>))))))))"

definition encode_body_nack :: "T_Nack \<Rightarrow> Bytes" where
  "encode_body_nack m =
     Writer_u64 (nk_stream_id m) @
     Writer_u64 (nk_got_seq m) @
     Writer_u64 (nk_expected_seq m) @
     Writer_u64 (nk_file_id m) @
     Writer_u64 (nk_offset m) @
     Writer_u64 (nk_expected_file_id m) @
     Writer_u64 (nk_expected_offset m) @
     Writer_u8 (nack_reason_to_u8 (nk_reason m)) @
     Writer_string (nk_detail m)"

definition decode_nack :: "T_Nack reader" where
  "decode_nack =
     rbind Reader_u64 (\<lambda>stream_id.
     rbind Reader_u64 (\<lambda>got_seq.
     rbind Reader_u64 (\<lambda>expected_seq.
     rbind Reader_u64 (\<lambda>file_id.
     rbind Reader_u64 (\<lambda>offset.
     rbind Reader_u64 (\<lambda>expected_file_id.
     rbind Reader_u64 (\<lambda>expected_offset.
     rbind Reader_u8 (\<lambda>reason.
     rbind Reader_string (\<lambda>detail.
     rret \<lparr>nk_stream_id = stream_id, nk_got_seq = got_seq, nk_expected_seq = expected_seq,
       nk_file_id = file_id, nk_offset = offset, nk_expected_file_id = expected_file_id,
       nk_expected_offset = expected_offset, nk_reason = nack_reason_of_u8 reason,
       nk_detail = detail\<rparr>)))))))))"

section \<open>Frames\<close>

fun encode_body :: "T_Message \<Rightarrow> Bytes" where
  "encode_body (Msg_Hello m) = encode_body_hello m"
| "encode_body (Msg_Manifest1 m) = encode_body_manifest1 m"
| "encode_body (Msg_Manifest2 m) = encode_body_manifest2 m"
| "encode_body (Msg_Create m) = encode_body_create m"
| "encode_body (Msg_Data m) = encode_body_data m"
| "encode_body (Msg_FileBegin m) = encode_body_file_begin m"
| "encode_body (Msg_Chunk m) = encode_body_chunk m"
| "encode_body (Msg_FileCommit m) = encode_body_file_commit m"
| "encode_body (Msg_Heartbeat m) = encode_body_heartbeat m"
| "encode_body (Msg_Nack m) = encode_body_nack m"

fun message_type :: "T_Message \<Rightarrow> EM_MessageType" where
  "message_type (Msg_Hello m) = MSG_HELLO"
| "message_type (Msg_Manifest1 m) = MSG_MANIFEST1"
| "message_type (Msg_Manifest2 m) = MSG_MANIFEST2"
| "message_type (Msg_Create m) = MSG_CREATE"
| "message_type (Msg_Data m) = MSG_DATA"
| "message_type (Msg_FileBegin m) = MSG_FILE_BEGIN"
| "message_type (Msg_Chunk m) = MSG_CHUNK"
| "message_type (Msg_FileCommit m) = MSG_FILE_COMMIT"
| "message_type (Msg_Heartbeat m) = MSG_HEARTBEAT"
| "message_type (Msg_Nack m) = MSG_NACK"

definition encode_message :: "T_Message \<Rightarrow> T_Frame" where
  "encode_message m =
     \<lparr>fr_header = \<lparr>mh_magic = kMagic, mh_version = kVersion, mh_msg_type = message_type m,
        mh_header_len = kHeaderLen, mh_body_len = word_of_nat (length (encode_body m))\<rparr>,
      fr_body = encode_body m\<rparr>"

fun decode_body :: "EM_MessageType \<Rightarrow> T_Message reader" where
  "decode_body MSG_HELLO = rbind decode_hello (\<lambda>m. rret (Msg_Hello m))"
| "decode_body MSG_MANIFEST1 = rbind decode_manifest1 (\<lambda>m. rret (Msg_Manifest1 m))"
| "decode_body MSG_MANIFEST2 = rbind decode_manifest2 (\<lambda>m. rret (Msg_Manifest2 m))"
| "decode_body MSG_CREATE = rbind decode_create (\<lambda>m. rret (Msg_Create m))"
| "decode_body MSG_DATA = rbind decode_data (\<lambda>m. rret (Msg_Data m))"
| "decode_body MSG_FILE_BEGIN = rbind decode_file_begin (\<lambda>m. rret (Msg_FileBegin m))"
| "decode_body MSG_CHUNK = rbind decode_chunk (\<lambda>m. rret (Msg_Chunk m))"
| "decode_body MSG_FILE_COMMIT = rbind decode_file_commit (\<lambda>m. rret (Msg_FileCommit m))"
| "decode_body MSG_HEARTBEAT = rbind decode_heartbeat (\<lambda>m. rret (Msg_Heartbeat m))"
| "decode_body MSG_NACK = rbind decode_nack (\<lambda>m. rret (Msg_Nack m))"
| "decode_body (MSG_unlisted _) = rfail (runtime_error ''unsupported message type'')"

definition decode_message :: "T_Frame \<Rightarrow> T_Message result" where
  "decode_message frame =
     (if mh_magic (fr_header frame) \<noteq> kMagic then Inl (runtime_error ''bad frame magic'')
      else if mh_version (fr_header frame) \<noteq> kVersion
      then Inl (runtime_error ''unsupported frame version'')
      else case decode_body (mh_msg_type (fr_header frame)) (fr_body frame) of
        Inl e \<Rightarrow> Inl e
      | Inr (message, rest) \<Rightarrow>
          (case Reader_done rest of Inl e \<Rightarrow> Inl e | Inr _ \<Rightarrow> Inr message))"

definition encode_frame :: "T_Message \<Rightarrow> Bytes" where
  "encode_frame m =
     (let frame = encode_message m in write_header_prefix (fr_header frame) @ fr_body frame)"

text \<open>\<open>header_len + body_len\<close> is computed in \<open>std::uint32_t\<close> (the 16-bit operand is promoted), so
  the sum wraps at \<open>2 ^ 32\<close> before it is compared with the size.\<close>

definition decode_frame :: "Bytes \<Rightarrow> T_Frame result" where
  "decode_frame bytes =
     (if length bytes < unat kHeaderLen then Inl (runtime_error ''truncated frame header'')
      else case read_header_prefix (take (unat kHeaderLen) bytes) of
        Inl e \<Rightarrow> Inl e
      | Inr (header, rest) \<Rightarrow>
          (case Reader_done rest of
            Inl e \<Rightarrow> Inl e
          | Inr _ \<Rightarrow>
              if mh_header_len header \<noteq> kHeaderLen
              then Inl (runtime_error ''unsupported header length'')
              else if length bytes \<noteq> unat ((ucast (mh_header_len header) :: u32) + mh_body_len header)
              then Inl (runtime_error ''frame length mismatch'')
              else Inr \<lparr>fr_header = header, fr_body = drop (unat (mh_header_len header)) bytes\<rparr>))"

end
