(* ===== verification/Protocol_Codec.thy ===== *)
theory Protocol_Codec
  imports Protocol
begin

text \<open>
  Correctness of the wire format. Each structure of theory \<open>Protocol\<close> interprets the \<open>codec\<close>
  contract; \<open>message_ok\<close> says which messages the format can carry: enumerators in canonical
  form, and every string, byte string and vector shorter than \<open>2 ^ 32\<close>, since the writer casts
  their size to \<open>std::uint32_t\<close>.
\<close>

section \<open>Which values the format carries\<close>

abbreviation role_ok :: "EM_Role \<Rightarrow> bool" where
  "role_ok x \<equiv> role_of_u8 (role_to_u8 x) = x"

abbreviation compression_ok :: "EM_Compression \<Rightarrow> bool" where
  "compression_ok x \<equiv> compression_of_u8 (compression_to_u8 x) = x"

abbreviation checksum_algo_ok :: "EM_ChecksumAlgo \<Rightarrow> bool" where
  "checksum_algo_ok x \<equiv> checksum_algo_of_u8 (checksum_algo_to_u8 x) = x"

abbreviation entry_kind_ok :: "EM_EntryKind \<Rightarrow> bool" where
  "entry_kind_ok x \<equiv> entry_kind_of_u8 (entry_kind_to_u8 x) = x"

abbreviation manifest2_action_ok :: "EM_Manifest2Action \<Rightarrow> bool" where
  "manifest2_action_ok x \<equiv> manifest2_action_of_u8 (manifest2_action_to_u8 x) = x"

abbreviation nack_reason_ok :: "EM_NackReason \<Rightarrow> bool" where
  "nack_reason_ok x \<equiv> nack_reason_of_u8 (nack_reason_to_u8 x) = x"

definition checksum_ok :: "T_FileChecksum \<Rightarrow> bool" where
  "checksum_ok c \<longleftrightarrow> checksum_algo_ok (ck_algo c) \<and> len_ok (ck_value c)"

definition manifest_entry_ok :: "T_ManifestEntry \<Rightarrow> bool" where
  "manifest_entry_ok e \<longleftrightarrow> entry_kind_ok (me_kind e) \<and> len_ok (me_name e) \<and>
     len_ok (me_link_target e) \<and> checksum_ok (me_checksum e)"

definition manifest1_stream_ok :: "T_Manifest1Stream \<Rightarrow> bool" where
  "manifest1_stream_ok s \<longleftrightarrow> len_ok (ms_root s) \<and> len_ok (ms_entries s) \<and>
     list_all manifest_entry_ok (ms_entries s)"

definition manifest2_stream_ok :: "T_Manifest2Stream \<Rightarrow> bool" where
  "manifest2_stream_ok s \<longleftrightarrow> manifest2_action_ok (m2s_action s)"

definition hello_ok :: "T_Hello \<Rightarrow> bool" where
  "hello_ok m \<longleftrightarrow> len_ok (he_node_id m) \<and> role_ok (he_role m) \<and>
     len_ok (he_supported_compression m) \<and> list_all compression_ok (he_supported_compression m) \<and>
     len_ok (he_supported_checksum m) \<and> list_all checksum_algo_ok (he_supported_checksum m)"

definition manifest1_ok :: "T_Manifest1 \<Rightarrow> bool" where
  "manifest1_ok m \<longleftrightarrow> len_ok (m1_streams m) \<and> list_all manifest1_stream_ok (m1_streams m)"

definition manifest2_ok :: "T_Manifest2 \<Rightarrow> bool" where
  "manifest2_ok m \<longleftrightarrow> len_ok (m2_streams m) \<and> list_all manifest2_stream_ok (m2_streams m)"

definition create_ok :: "T_Create \<Rightarrow> bool" where
  "create_ok m \<longleftrightarrow> entry_kind_ok (cr_kind m) \<and> len_ok (cr_name m) \<and>
     len_ok (cr_link_target m) \<and> checksum_ok (cr_prev_checksum m)"

definition data_ok :: "T_Data \<Rightarrow> bool" where
  "data_ok m \<longleftrightarrow> compression_ok (da_compression m) \<and> checksum_algo_ok (da_checksum_algo m) \<and>
     len_ok (da_checksum m) \<and> len_ok (da_payload m)"

definition file_begin_ok :: "T_FileBegin \<Rightarrow> bool" where
  "file_begin_ok m \<longleftrightarrow> len_ok (fb_name m) \<and> checksum_ok (fb_file_checksum m) \<and>
     checksum_ok (fb_prev_checksum m)"

definition chunk_ok :: "T_Chunk \<Rightarrow> bool" where
  "chunk_ok m \<longleftrightarrow> compression_ok (ch_compression m) \<and> checksum_algo_ok (ch_checksum_algo m) \<and>
     len_ok (ch_checksum m) \<and> len_ok (ch_payload m)"

definition heartbeat_ok :: "T_Heartbeat \<Rightarrow> bool" where
  "heartbeat_ok m \<longleftrightarrow> len_ok (hb_received_chunks m) \<and> len_ok (hb_missing_ranges m)"

definition nack_ok :: "T_Nack \<Rightarrow> bool" where
  "nack_ok m \<longleftrightarrow> nack_reason_ok (nk_reason m) \<and> len_ok (nk_detail m)"

fun message_ok :: "T_Message \<Rightarrow> bool" where
  "message_ok (Msg_Hello m) = hello_ok m"
| "message_ok (Msg_Manifest1 m) = manifest1_ok m"
| "message_ok (Msg_Manifest2 m) = manifest2_ok m"
| "message_ok (Msg_Create m) = create_ok m"
| "message_ok (Msg_Data m) = data_ok m"
| "message_ok (Msg_FileBegin m) = file_begin_ok m"
| "message_ok (Msg_Chunk m) = chunk_ok m"
| "message_ok (Msg_FileCommit m) = True"
| "message_ok (Msg_Heartbeat m) = heartbeat_ok m"
| "message_ok (Msg_Nack m) = nack_ok m"

section \<open>Codecs of the structures\<close>

lemma enum_codec:
  assumes "\<And>b. enc (dec b) = b"
  shows "codec (\<lambda>x. Writer_u8 (enc x)) (rbind Reader_u8 (\<lambda>b. rret (dec b))) (\<lambda>x. dec (enc x) = x)"
  by unfold_locales (auto simp: wire_simps wire_inv assms dest!: u8.write_read)

interpretation checksum: codec write_checksum read_checksum checksum_ok
  by unfold_locales
    (auto simp: write_checksum_def read_checksum_def checksum_ok_def wire_simps wire_inv
        dest!: wire_read_invs)

lemmas [wire_simps] = checksum.read_write

interpretation manifest_entry: codec write_manifest_entry read_manifest_entry manifest_entry_ok
  by unfold_locales
    (auto simp: write_manifest_entry_def read_manifest_entry_def manifest_entry_ok_def
        wire_simps wire_inv dest!: wire_read_invs checksum.write_read)

interpretation entries:
  codec "write_vec write_manifest_entry" "read_vec read_manifest_entry"
    "\<lambda>xs. len_ok xs \<and> list_all manifest_entry_ok xs"
  by (rule manifest_entry.vec_codec)

interpretation manifest1_stream:
  codec write_manifest1_stream read_manifest1_stream manifest1_stream_ok
  by unfold_locales
    (auto simp: write_manifest1_stream_def read_manifest1_stream_def manifest1_stream_ok_def
        entries.read_write wire_simps wire_inv dest!: wire_read_invs entries.write_read)

interpretation manifest1_streams:
  codec "write_vec write_manifest1_stream" "read_vec read_manifest1_stream"
    "\<lambda>xs. len_ok xs \<and> list_all manifest1_stream_ok xs"
  by (rule manifest1_stream.vec_codec)

interpretation manifest2_stream:
  codec write_manifest2_stream read_manifest2_stream manifest2_stream_ok
  by unfold_locales
    (auto simp: write_manifest2_stream_def read_manifest2_stream_def manifest2_stream_ok_def
        wire_simps wire_inv dest!: wire_read_invs)

interpretation manifest2_streams:
  codec "write_vec write_manifest2_stream" "read_vec read_manifest2_stream"
    "\<lambda>xs. len_ok xs \<and> list_all manifest2_stream_ok xs"
  by (rule manifest2_stream.vec_codec)

interpretation received_chunk: codec write_received_chunk read_received_chunk "\<lambda>_. True"
  by unfold_locales
    (auto simp: write_received_chunk_def read_received_chunk_def wire_simps wire_inv
        dest!: wire_read_invs)

interpretation received_chunks:
  codec "write_vec write_received_chunk" "read_vec read_received_chunk"
    "\<lambda>xs. len_ok xs \<and> list_all (\<lambda>_. True) xs"
  by (rule received_chunk.vec_codec)

interpretation missing_range:
  codec write_missing_chunk_range read_missing_chunk_range "\<lambda>_. True"
  by unfold_locales
    (auto simp: write_missing_chunk_range_def read_missing_chunk_range_def wire_simps wire_inv
        dest!: wire_read_invs)

interpretation missing_ranges:
  codec "write_vec write_missing_chunk_range" "read_vec read_missing_chunk_range"
    "\<lambda>xs. len_ok xs \<and> list_all (\<lambda>_. True) xs"
  by (rule missing_range.vec_codec)

interpretation header: codec write_header_prefix read_header_prefix
    "\<lambda>h. msg_type_of_u8 (msg_type_to_u8 (mh_msg_type h)) = mh_msg_type h"
  by unfold_locales
    (auto simp: write_header_prefix_def read_header_prefix_def wire_simps wire_inv
        dest!: wire_read_invs)

interpretation compressions:
  codec "write_vec (\<lambda>c. Writer_u8 (compression_to_u8 c))"
    "read_vec (rbind Reader_u8 (\<lambda>b. rret (compression_of_u8 b)))"
    "\<lambda>xs. len_ok xs \<and> list_all compression_ok xs"
  by (rule codec.vec_codec, rule enum_codec) simp

interpretation checksum_algos:
  codec "write_vec (\<lambda>c. Writer_u8 (checksum_algo_to_u8 c))"
    "read_vec (rbind Reader_u8 (\<lambda>b. rret (checksum_algo_of_u8 b)))"
    "\<lambda>xs. len_ok xs \<and> list_all checksum_algo_ok xs"
  by (rule codec.vec_codec, rule enum_codec) simp

section \<open>Codecs of the message bodies\<close>

interpretation hello: codec encode_body_hello decode_hello hello_ok
  by unfold_locales
    (auto simp: encode_body_hello_def decode_hello_def hello_ok_def compressions.read_write
        checksum_algos.read_write wire_simps wire_inv
      dest!: wire_read_invs compressions.write_read checksum_algos.write_read)

interpretation manifest1: codec encode_body_manifest1 decode_manifest1 manifest1_ok
  by unfold_locales
    (auto simp: encode_body_manifest1_def decode_manifest1_def manifest1_ok_def
        manifest1_streams.read_write wire_simps wire_inv
      dest!: wire_read_invs manifest1_streams.write_read)

interpretation manifest2: codec encode_body_manifest2 decode_manifest2 manifest2_ok
  by unfold_locales
    (auto simp: encode_body_manifest2_def decode_manifest2_def manifest2_ok_def
        manifest2_streams.read_write wire_simps wire_inv
      dest!: wire_read_invs manifest2_streams.write_read)

interpretation create: codec encode_body_create decode_create create_ok
  by unfold_locales
    (auto simp: encode_body_create_def decode_create_def create_ok_def wire_simps wire_inv
        dest!: wire_read_invs checksum.write_read)

interpretation data: codec encode_body_data decode_data data_ok
  by unfold_locales
    (auto simp: encode_body_data_def decode_data_def data_ok_def wire_simps wire_inv
        split: if_splits dest!: wire_read_invs)

interpretation file_begin: codec encode_body_file_begin decode_file_begin file_begin_ok
  by unfold_locales
    (auto simp: encode_body_file_begin_def decode_file_begin_def file_begin_ok_def
        wire_simps wire_inv dest!: wire_read_invs checksum.write_read)

interpretation chunk: codec encode_body_chunk decode_chunk chunk_ok
  by unfold_locales
    (auto simp: encode_body_chunk_def decode_chunk_def chunk_ok_def wire_simps wire_inv
        split: if_splits dest!: wire_read_invs)

interpretation file_commit: codec encode_body_file_commit decode_file_commit "\<lambda>_. True"
  by unfold_locales
    (auto simp: encode_body_file_commit_def decode_file_commit_def wire_simps wire_inv
        dest!: wire_read_invs)

interpretation heartbeat: codec encode_body_heartbeat decode_heartbeat heartbeat_ok
  by unfold_locales
    (auto simp: encode_body_heartbeat_def decode_heartbeat_def heartbeat_ok_def
        received_chunks.read_write missing_ranges.read_write list.pred_True wire_simps wire_inv
      dest!: wire_read_invs received_chunks.write_read missing_ranges.write_read)

interpretation nack: codec encode_body_nack decode_nack nack_ok
  by unfold_locales
    (auto simp: encode_body_nack_def decode_nack_def nack_ok_def wire_simps wire_inv
        dest!: wire_read_invs)

lemmas body_reads =
  hello.read_write manifest1.read_write manifest2.read_write create.read_write data.read_write
  file_begin.read_write chunk.read_write file_commit.read_write heartbeat.read_write
  nack.read_write

lemmas body_invs =
  hello.write_read manifest1.write_read manifest2.write_read create.write_read data.write_read
  file_begin.write_read chunk.write_read file_commit.write_read heartbeat.write_read
  nack.write_read

section \<open>Messages and frames\<close>

lemma decode_body_encode:
  "message_ok m \<Longrightarrow> decode_body (message_type m) (encode_body m @ rest) = Inr (m, rest)"
  by (cases m) (simp_all add: body_reads)

lemma decode_body_inv:
  "decode_body t bs = Inr (m, rest) \<Longrightarrow>
     message_ok m \<and> t = message_type m \<and> bs = encode_body m @ rest"
  by (cases t) (auto simp: wire_inv dest!: body_invs)

lemma message_type_canonical [simp]:
  "msg_type_of_u8 (msg_type_to_u8 (message_type m)) = message_type m"
  by (cases m) (simp_all add: msg_type_of_u8_def)

lemma length_header [simp]: "length (write_header_prefix h) = 12"
  by (simp add: write_header_prefix_def)

lemma decode_encode_message:
  assumes "message_ok m"
  shows "decode_message (encode_message m) = Inr m"
  using decode_body_encode [OF assms, of "[]"]
  by (simp add: decode_message_def encode_message_def Reader_done_def)

lemma decode_message_inv:
  assumes "decode_message f = Inr m"
  shows "message_ok m \<and> fr_body f = encode_body m \<and> mh_msg_type (fr_header f) = message_type m \<and>
    mh_magic (fr_header f) = kMagic \<and> mh_version (fr_header f) = kVersion"
proof -
  from assms obtain rest where
      "decode_body (mh_msg_type (fr_header f)) (fr_body f) = Inr (m, rest)" "rest = []"
      "mh_magic (fr_header f) = kMagic" "mh_version (fr_header f) = kVersion"
    by (auto simp: decode_message_def Reader_done_def split: if_splits sum.splits prod.splits)
  with decode_body_inv [OF this(1)] show ?thesis by simp
qed

lemma decode_frame_inv:
  assumes "decode_frame bytes = Inr f"
  shows "bytes = write_header_prefix (fr_header f) @ fr_body f \<and> mh_header_len (fr_header f) = kHeaderLen \<and>
    unat (mh_body_len (fr_header f)) = length (fr_body f)"
proof -
  from assms obtain h where
      len: "12 \<le> length bytes" and h: "read_header_prefix (take 12 bytes) = Inr (h, [])"
      and hl: "mh_header_len h = kHeaderLen"
      and total: "length bytes = unat ((ucast (mh_header_len h) :: u32) + mh_body_len h)"
      and f: "f = \<lparr>fr_header = h, fr_body = drop 12 bytes\<rparr>"
    by (auto simp: decode_frame_def Reader_done_def kHeaderLen_def
        split: if_splits sum.splits prod.splits)
  from header.write_read [OF h] have "take 12 bytes = write_header_prefix h" by simp
  then have "bytes = write_header_prefix h @ drop 12 bytes"
    by (metis append_take_drop_id)
  moreover have "unat (mh_body_len h) = length bytes - 12"
    using total len by (simp add: hl kHeaderLen_def) unat_arith
  ultimately show ?thesis using f hl by simp
qed

lemma decode_frame_write:
  assumes "mh_header_len h = kHeaderLen"
    and "msg_type_of_u8 (msg_type_to_u8 (mh_msg_type h)) = mh_msg_type h"
    and "unat (mh_body_len h) = length body" and "12 + length body < 2 ^ 32"
  shows "decode_frame (write_header_prefix h @ body) = Inr \<lparr>fr_header = h, fr_body = body\<rparr>"
proof -
  have "read_header_prefix (write_header_prefix h) = Inr (h, [])"
    using header.read_write [of h "[]"] assms(2) by simp
  moreover have "unat (12 + mh_body_len h) = 12 + length body"
    using assms(3,4) by (simp add: unat_word_ariths)
  ultimately show ?thesis
    using assms(1) by (simp add: decode_frame_def kHeaderLen_def Reader_done_def)
qed


lemma unat_of_nat_self: "word_of_nat (unat w) = w"
  by simp

lemma encode_frame_conv:
  "encode_frame m = write_header_prefix (fr_header (encode_message m)) @ encode_body m"
  by (simp add: encode_frame_def encode_message_def)

lemma length_encode_frame: "length (encode_frame m) = 12 + length (encode_body m)"
  by (simp add: encode_frame_conv)

lemma decode_frame_encode:
  assumes "12 + length (encode_body m) < 2 ^ 32"
  shows "decode_frame (encode_frame m) = Inr (encode_message m)"
proof -
  have "decode_frame (write_header_prefix (fr_header (encode_message m)) @ encode_body m) =
      Inr \<lparr>fr_header = fr_header (encode_message m), fr_body = encode_body m\<rparr>"
    using assms by (intro decode_frame_write) (simp_all add: encode_message_def unat_of_nat)
  then show ?thesis by (simp add: encode_frame_conv encode_message_def)
qed

lemma decode_frame_length:
  assumes "decode_frame bytes = Inr f"
  shows "length bytes = 12 + length (fr_body f)" and "12 + length (fr_body f) < 2 ^ 32"
proof -
  show "length bytes = 12 + length (fr_body f)"
    using arg_cong [OF conjunct1 [OF decode_frame_inv [OF assms]], of length] by simp
  moreover have "length bytes < 2 ^ 32"
    using assms by (auto simp: decode_frame_def split: if_splits sum.splits prod.splits)
  ultimately show "12 + length (fr_body f) < 2 ^ 32" by simp
qed

text \<open>C1: Frame round trip. Every message whose strings, byte strings and vectors are shorter
  than \<open>2 ^ 32\<close> and whose frame fits the 32-bit length is read back unchanged: \<open>decode_frame\<close>
  recovers the frame from its bytes, and \<open>decode_message\<close> the message from the frame.\<close>

theorem frame_roundtrip:
  assumes "message_ok m" and "12 + length (encode_body m) < 2 ^ 32"
  shows "decode_frame (encode_frame m) = Inr (encode_message m) \<and>
    decode_message (encode_message m) = Inr m"
  using decode_frame_encode [OF assms(2)] decode_encode_message [OF assms(1)] by simp

definition sample_commit :: T_Message where
  "sample_commit = Msg_FileCommit \<lparr>fc_stream_id = 3, fc_seq = 2, fc_file_id = 7\<rparr>"

definition sample_chunk :: T_Message where
  "sample_chunk = Msg_Chunk \<lparr>ch_stream_id = 1, ch_seq = 3, ch_file_id = 2, ch_chunk_index = 0,
     ch_offset = 0, ch_raw_len = 2, ch_compression = Compression_NONE,
     ch_checksum_algo = CRC32C, ch_checksum = [1, 2, 3, 4], ch_payload = [10, 20]\<rparr>"

theorem frame_roundtrip_witness:
  "decode_frame (encode_frame sample_chunk) = Inr (encode_message sample_chunk) \<and>
   decode_message (encode_message sample_chunk) = Inr sample_chunk"
  by (rule frame_roundtrip)
    (simp_all add: sample_chunk_def chunk_ok_def compression_of_u8_def checksum_algo_of_u8_def
      len_ok_iff encode_body_chunk_def Writer_bytes_def)

text \<open>C2: The wire format is canonical: whatever byte string the two decoders accept is exactly
  the encoding of the message they return, so no two byte strings stand for one message and no
  accepted frame carries trailing, reordered or ignored bytes.\<close>

theorem frame_canonical:
  assumes "decode_frame bytes = Inr f" and "decode_message f = Inr m"
  shows "bytes = encode_frame m \<and> f = encode_message m \<and> message_ok m"
proof -
  note fr = decode_frame_inv [OF assms(1)] and ms = decode_message_inv [OF assms(2)]
  have "mh_body_len (fr_header f) = word_of_nat (length (encode_body m))"
    using fr ms by (metis unat_of_nat_self)
  then have "f = encode_message m"
    using fr ms by (simp add: encode_message_def)
  then show ?thesis using fr ms by (simp add: encode_frame_conv)
qed

theorem frame_canonical_witness:
  "encode_frame sample_commit = encode_frame sample_commit \<and>
   encode_message sample_commit = encode_message sample_commit \<and> message_ok sample_commit"
  by (rule frame_canonical)
    (simp_all add: decode_frame_encode decode_encode_message sample_commit_def
      encode_body_file_commit_def)

lemma decode_frame_same_header:
  assumes "decode_frame b = Inr f" and "decode_frame b' = Inr f'" and "take 12 b = take 12 b'"
  shows "length b = length b'"
proof -
  have hdr: "take 12 c = write_header_prefix (fr_header g)" if "decode_frame c = Inr g" for c g
    using arg_cong [OF conjunct1 [OF decode_frame_inv [OF that]], of "take 12"] by simp
  have ok: "msg_type_of_u8 (msg_type_to_u8 (mh_msg_type (fr_header g))) = mh_msg_type (fr_header g)"
    if "decode_frame c = Inr g" for c g
    using that header.write_read
    by (auto simp: decode_frame_def split: if_splits sum.splits prod.splits)
  have "write_header_prefix (fr_header f) @ [] = write_header_prefix (fr_header f') @ []"
    using hdr [OF assms(1)] hdr [OF assms(2)] assms(3) by simp
  then have "fr_header f = fr_header f'"
    using header.put_inj ok [OF assms(1)] ok [OF assms(2)] by blast
  then show ?thesis
    using decode_frame_inv [OF assms(1)] decode_frame_inv [OF assms(2)]
      decode_frame_length(1) [OF assms(1)] decode_frame_length(1) [OF assms(2)] by simp
qed

text \<open>C3: Truncation and overrun are detected: no strict prefix of an accepted frame is accepted,
  and neither is an accepted frame with bytes appended.\<close>

theorem truncated_frame_rejected:
  assumes "decode_frame bytes = Inr f"
  shows "(\<forall>k < length bytes. \<exists>e. decode_frame (take k bytes) = Inl e) \<and>
    (\<forall>extra. extra \<noteq> [] \<longrightarrow> (\<exists>e. decode_frame (bytes @ extra) = Inl e))"
proof (intro conjI allI impI)
  note len = decode_frame_length(1) [OF assms]
  fix k assume k: "k < length bytes"
  show "\<exists>e. decode_frame (take k bytes) = Inl e"
  proof (cases "decode_frame (take k bytes)")
    case (Inr g)
    from decode_frame_length(1) [OF Inr] have "12 \<le> k" using k by simp
    then have "take 12 (take k bytes) = take 12 bytes" by (simp add: min_def)
    then show ?thesis using decode_frame_same_header [OF Inr assms] k by simp
  qed blast
next
  note len = decode_frame_length(1) [OF assms]
  fix extra :: Bytes assume "extra \<noteq> []"
  show "\<exists>e. decode_frame (bytes @ extra) = Inl e"
  proof (cases "decode_frame (bytes @ extra)")
    case (Inr g)
    have "take 12 (bytes @ extra) = take 12 bytes" using len by simp
    then show ?thesis using decode_frame_same_header [OF Inr assms] \<open>extra \<noteq> []\<close> by simp
  qed blast
qed

theorem truncated_frame_rejected_witness:
  "(\<exists>e. decode_frame (take 20 (encode_frame sample_commit)) = Inl e) \<and>
   (\<exists>e. decode_frame (encode_frame sample_commit @ [0]) = Inl e)"
proof -
  have len: "length (encode_frame sample_commit) = 36"
    by (simp add: length_encode_frame sample_commit_def encode_body_file_commit_def)
  have "decode_frame (encode_frame sample_commit) = Inr (encode_message sample_commit)"
    by (simp add: decode_frame_encode sample_commit_def encode_body_file_commit_def)
  from truncated_frame_rejected [OF this] show ?thesis by (simp add: len)
qed

end
