(* ===== verification/FileSystem.thy ===== *)
theory FileSystem
  imports Prelude "HOL-Library.AList"
begin

text \<open>
  The part of POSIX and of \<open>std::filesystem\<close> the program runs on. A file system is an
  association list from absolute paths (lists of components) to nodes; path resolution follows
  symbolic links the way the kernel does, with the Linux limit of 40 links. What the system does
  beyond this (permissions, full disks, failing devices), the message texts of the C library, the
  third-party checksum \<open>crc32c::Extend\<close> and \<open>std::regex\<close> are the fields of a record \<open>system\<close>
  that every operation using them takes as an argument.
\<close>

section \<open>Paths\<close>

type_synonym path = "string list"

datatype node = File Bytes | Dir | Symlink string

type_synonym filesystem = "(path \<times> node) list"

abbreviation slash :: char where
  "slash \<equiv> CHR 0x2F"

fun split_slash :: "string \<Rightarrow> string list" where
  "split_slash [] = [[]]"
| "split_slash (c # cs) =
     (if c = slash then [] # split_slash cs
      else case split_slash cs of [] \<Rightarrow> [[c]] | p # ps \<Rightarrow> (c # p) # ps)"

text \<open>The components \<open>std::filesystem::path\<close> iterates over for a relative name: repeated
  separators count once, and a trailing separator yields a final empty component.\<close>

definition path_parts :: "string \<Rightarrow> path" where
  "path_parts name =
     (let parts = filter (\<lambda>p. p \<noteq> []) (split_slash name)
      in if name \<noteq> [] \<and> last name = slash \<and> parts \<noteq> [] then parts @ [[]] else parts)"

definition is_absolute :: "string \<Rightarrow> bool" where
  "is_absolute name \<longleftrightarrow> name \<noteq> [] \<and> hd name = slash"

fun join_slash :: "path \<Rightarrow> string" where
  "join_slash [] = []"
| "join_slash [p] = p"
| "join_slash (p # ps) = p @ slash # join_slash ps"

definition path_string :: "path \<Rightarrow> string" where
  "path_string p = slash # join_slash p"

definition parent_path :: "path \<Rightarrow> path" where
  "parent_path p = butlast p"

section \<open>The environment\<close>

datatype io_op = IO_open_read | IO_open_write | IO_write | IO_mkdir | IO_symlink | IO_fsync | IO_rename

record system =
  sy_fails :: "io_op \<Rightarrow> path \<Rightarrow> bool"
  sy_message :: "io_op \<Rightarrow> path \<Rightarrow> string"
  sy_extend :: "u32 \<Rightarrow> Bytes \<Rightarrow> u32"
  sy_regex :: "string \<Rightarrow> string + (string \<Rightarrow> bool)"

section \<open>Path resolution\<close>

abbreviation fs_lookup :: "filesystem \<Rightarrow> path \<Rightarrow> node option" where
  "fs_lookup fs p \<equiv> map_of fs p"

datatype walk_result = Found path | Missing path | NoEntry | Loop

text \<open>\<open>walk fuel fs follow cur rest\<close> resolves \<open>rest\<close> from the directory \<open>cur\<close>: the node found, the
  place where a missing last component would go, or failure. \<open>follow\<close> says whether a symbolic
  link in the last position is followed.\<close>

function walk :: "nat \<Rightarrow> filesystem \<Rightarrow> bool \<Rightarrow> path \<Rightarrow> path \<Rightarrow> walk_result" where
  "walk fuel fs follow cur [] = Found cur"
| "walk fuel fs follow cur (c # rest) =
     (if c = [] \<or> c = ''.'' then walk fuel fs follow cur rest
      else if c = ''..'' then walk fuel fs follow (butlast cur) rest
      else case fs_lookup fs (cur @ [c]) of
        None \<Rightarrow> if rest = [] then Missing (cur @ [c]) else NoEntry
      | Some Dir \<Rightarrow> walk fuel fs follow (cur @ [c]) rest
      | Some (File _) \<Rightarrow> if rest = [] then Found (cur @ [c]) else NoEntry
      | Some (Symlink target) \<Rightarrow>
          if rest = [] \<and> \<not> follow then Found (cur @ [c])
          else if fuel = 0 then Loop
          else walk (fuel - 1) fs follow (if is_absolute target then [] else cur)
                 (path_parts target @ rest))"
  by pat_completeness auto

termination
  by (relation "measures [\<lambda>(fuel, fs, follow, cur, rest). fuel, \<lambda>(fuel, fs, follow, cur, rest). length rest]")
    auto

definition kMaxSymlinks :: nat where
  "kMaxSymlinks = 40"

definition resolve :: "filesystem \<Rightarrow> path \<Rightarrow> walk_result" where
  "resolve fs p = walk kMaxSymlinks fs True [] p"

definition resolve_nofollow :: "filesystem \<Rightarrow> path \<Rightarrow> walk_result" where
  "resolve_nofollow fs p = walk kMaxSymlinks fs False [] p"

text \<open>The node at a resolved path; the root directory has no entry of its own.\<close>

definition node_here :: "filesystem \<Rightarrow> path \<Rightarrow> node option" where
  "node_here fs q = (if q = [] then Some Dir else fs_lookup fs q)"

definition node_at :: "filesystem \<Rightarrow> path \<Rightarrow> node option" where
  "node_at fs p = (case resolve fs p of Found q \<Rightarrow> node_here fs q | _ \<Rightarrow> None)"

definition file_at :: "filesystem \<Rightarrow> path \<Rightarrow> Bytes option" where
  "file_at fs p = (case node_at fs p of Some (File bytes) \<Rightarrow> Some bytes | _ \<Rightarrow> None)"

section \<open>Queries\<close>

text \<open>\<open>std::filesystem::exists\<close> without an error code throws when resolution fails for another
  reason than a missing entry, here a cycle of links.\<close>

definition fs_exists :: "filesystem \<Rightarrow> path \<Rightarrow> bool result" where
  "fs_exists fs p =
     (if resolve fs p = Loop then Inl (filesystem_error ''cannot get file status'')
      else Inr (node_at fs p \<noteq> None))"

text \<open>The overload with an error code reports \<open>false\<close> instead.\<close>

definition fs_exists_ec :: "filesystem \<Rightarrow> path \<Rightarrow> bool" where
  "fs_exists_ec fs p \<longleftrightarrow> node_at fs p \<noteq> None"

definition file_size_or_zero :: "filesystem \<Rightarrow> path \<Rightarrow> u64" where
  "file_size_or_zero fs p = (case file_at fs p of Some bytes \<Rightarrow> word_of_nat (length bytes) | None \<Rightarrow> 0)"

text \<open>The entries a \<open>directory_iterator\<close> visits for which \<open>is_directory\<close> holds.\<close>

definition subdirectories :: "filesystem \<Rightarrow> path \<Rightarrow> path list" where
  "subdirectories fs p =
     (case resolve fs p of
        Found dir \<Rightarrow>
          filter (\<lambda>q. node_at fs q = Some Dir)
            (map (\<lambda>q. p @ [last q]) (filter (\<lambda>q. q \<noteq> [] \<and> parent_path q = dir) (map fst fs)))
      | _ \<Rightarrow> [])"

section \<open>Updates\<close>

text \<open>Opening an output stream that creates (and optionally truncates) the file: the resolved path
  and the file system after the open, or failure.\<close>

definition open_create :: "system \<Rightarrow> filesystem \<Rightarrow> path \<Rightarrow> bool \<Rightarrow> (path \<times> filesystem) option" where
  "open_create sys fs p trunc =
     (if sy_fails sys IO_open_write p then None
      else case resolve fs p of
        Found q \<Rightarrow>
          (case node_here fs q of
             Some (File bytes) \<Rightarrow> Some (q, if trunc then AList.update q (File []) fs else fs)
           | _ \<Rightarrow> None)
      | Missing q \<Rightarrow> Some (q, AList.update q (File []) fs)
      | _ \<Rightarrow> None)"

text \<open>Opening an existing regular file for reading and writing.\<close>

definition open_existing :: "system \<Rightarrow> filesystem \<Rightarrow> path \<Rightarrow> path option" where
  "open_existing sys fs p =
     (if sy_fails sys IO_open_write p then None
      else case resolve fs p of
        Found q \<Rightarrow> (case node_here fs q of Some (File _) \<Rightarrow> Some q | _ \<Rightarrow> None)
      | _ \<Rightarrow> None)"

definition overwrite :: "nat \<Rightarrow> Bytes \<Rightarrow> Bytes \<Rightarrow> Bytes" where
  "overwrite offset data bytes =
     take offset bytes @ replicate (offset - length bytes) 0 @ data @ drop (offset + length data) bytes"

definition write_at :: "filesystem \<Rightarrow> path \<Rightarrow> nat \<Rightarrow> Bytes \<Rightarrow> filesystem" where
  "write_at fs q offset data =
     (case fs_lookup fs q of
        Some (File bytes) \<Rightarrow> AList.update q (File (overwrite offset data bytes)) fs
      | _ \<Rightarrow> fs)"

definition append_to :: "filesystem \<Rightarrow> path \<Rightarrow> Bytes \<Rightarrow> filesystem" where
  "append_to fs q data =
     (case fs_lookup fs q of
        Some (File bytes) \<Rightarrow> AList.update q (File (bytes @ data)) fs
      | _ \<Rightarrow> fs)"

definition create_directory :: "system \<Rightarrow> filesystem \<Rightarrow> path \<Rightarrow> string + filesystem" where
  "create_directory sys fs p =
     (case resolve fs p of
        Found q \<Rightarrow> if node_at fs p = Some Dir then Inr fs else Inl (sy_message sys IO_mkdir p)
      | Missing q \<Rightarrow>
          if sy_fails sys IO_mkdir p then Inl (sy_message sys IO_mkdir p)
          else Inr (AList.update q Dir fs)
      | _ \<Rightarrow> Inl (sy_message sys IO_mkdir p))"

text \<open>\<open>create_directories\<close> creates the missing prefixes from the top; directories created before a
  failure remain.\<close>

fun create_prefixes :: "system \<Rightarrow> filesystem \<Rightarrow> path \<Rightarrow> path \<Rightarrow> string option \<times> filesystem" where
  "create_prefixes sys fs done [] = (None, fs)"
| "create_prefixes sys fs done (c # rest) =
     (case create_directory sys fs (done @ [c]) of
        Inl message \<Rightarrow> (Some message, fs)
      | Inr fs' \<Rightarrow> create_prefixes sys fs' (done @ [c]) rest)"

definition create_directories :: "system \<Rightarrow> filesystem \<Rightarrow> path \<Rightarrow> string option \<times> filesystem" where
  "create_directories sys fs p = create_prefixes sys fs [] p"

definition create_symlink :: "system \<Rightarrow> filesystem \<Rightarrow> string \<Rightarrow> path \<Rightarrow> string + filesystem" where
  "create_symlink sys fs target p =
     (case resolve_nofollow fs p of
        Missing q \<Rightarrow>
          if sy_fails sys IO_symlink p then Inl (sy_message sys IO_symlink p)
          else Inr (AList.update q (Symlink target) fs)
      | _ \<Rightarrow> Inl (sy_message sys IO_symlink p))"

text \<open>\<open>rename\<close> of a node that is not a directory, the only use the program makes of it: the target
  entry is replaced unless it is a directory.\<close>

definition rename_file :: "system \<Rightarrow> filesystem \<Rightarrow> path \<Rightarrow> path \<Rightarrow> string + filesystem" where
  "rename_file sys fs old new =
     (if sy_fails sys IO_rename new then Inl (sy_message sys IO_rename new)
      else case resolve_nofollow fs old of
        Found p \<Rightarrow>
          (case node_here fs p of
             None \<Rightarrow> Inl (sy_message sys IO_rename new)
           | Some Dir \<Rightarrow> Inl (sy_message sys IO_rename new)
           | Some n \<Rightarrow>
               (case resolve_nofollow fs new of
                  Found q \<Rightarrow>
                    if node_here fs q = Some Dir then Inl (sy_message sys IO_rename new)
                    else Inr (AList.update q n (AList.delete p fs))
                | Missing q \<Rightarrow> Inr (AList.update q n (AList.delete p fs))
                | _ \<Rightarrow> Inl (sy_message sys IO_rename new)))
      | _ \<Rightarrow> Inl (sy_message sys IO_rename new))"

definition is_prefix :: "path \<Rightarrow> path \<Rightarrow> bool" where
  "is_prefix p q \<longleftrightarrow> length p \<le> length q \<and> take (length p) q = p"

definition remove_all :: "filesystem \<Rightarrow> path \<Rightarrow> filesystem" where
  "remove_all fs p =
     (case resolve_nofollow fs p of
        Found q \<Rightarrow> filter (\<lambda>(r, _). \<not> is_prefix q r) fs
      | _ \<Rightarrow> fs)"

definition fsync_ok :: "system \<Rightarrow> filesystem \<Rightarrow> path \<Rightarrow> bool" where
  "fsync_ok sys fs p \<longleftrightarrow> \<not> sy_fails sys IO_open_read p \<and> node_at fs p \<noteq> None \<and> \<not> sy_fails sys IO_fsync p"

section \<open>Resolution of plain paths\<close>

text \<open>
  \<open>plain fs p\<close>: the components of \<open>p\<close> are ordinary names and every proper ancestor is a real
  directory, so that \<open>p\<close> resolves to itself.
\<close>

definition proper :: "string \<Rightarrow> bool" where
  "proper c \<longleftrightarrow> c \<noteq> [] \<and> c \<noteq> ''.'' \<and> c \<noteq> ''..''"

definition plain :: "filesystem \<Rightarrow> path \<Rightarrow> bool" where
  "plain fs p \<longleftrightarrow> p \<noteq> [] \<and> list_all proper p \<and>
     list_all (\<lambda>k. fs_lookup fs (take k p) = Some Dir) [1..<length p]"

lemma lookup_update [simp]: "fs_lookup (AList.update q n fs) p = (if p = q then Some n else fs_lookup fs p)"
  by (simp add: update_conv')

lemma lookup_delete [simp]: "fs_lookup (AList.delete q fs) p = (if p = q then None else fs_lookup fs p)"
  by (simp add: delete_conv')

lemma plainI:
  "p \<noteq> [] \<Longrightarrow> list_all proper p \<Longrightarrow> (\<And>k. 0 < k \<Longrightarrow> k < length p \<Longrightarrow> fs_lookup fs (take k p) = Some Dir) \<Longrightarrow>
     plain fs p"
  by (auto simp: plain_def list_all_iff)

lemma plainD:
  assumes "plain fs p"
  shows "p \<noteq> []" and "list_all proper p"
    and "0 < k \<Longrightarrow> k < length p \<Longrightarrow> fs_lookup fs (take k p) = Some Dir"
  using assms by (auto simp: plain_def list_all_iff)

lemma walk_dirs:
  assumes "rest \<noteq> []" and "list_all proper rest"
    and "\<And>k. 0 < k \<Longrightarrow> k < length rest \<Longrightarrow> fs_lookup fs (cur @ take k rest) = Some Dir"
    and "\<And>t. fs_lookup fs (cur @ rest) \<noteq> Some (Symlink t)"
  shows "walk n fs follow cur rest =
    (if fs_lookup fs (cur @ rest) = None then Missing (cur @ rest) else Found (cur @ rest))"
  using assms
proof (induction rest arbitrary: cur)
  case (Cons c rest)
  have c: "c \<noteq> []" "c \<noteq> ''.''" "c \<noteq> ''..''" using Cons.prems(2) by (simp_all add: proper_def)
  show ?case
  proof (cases "rest = []")
    case True
    then show ?thesis using c Cons.prems(4) by (auto split: option.splits node.splits)
  next
    case False
    have dir: "fs_lookup fs (cur @ [c]) = Some Dir"
      using Cons.prems(3) [of 1] False by (cases rest) auto
    have "walk n fs follow (cur @ [c]) rest =
        (if fs_lookup fs ((cur @ [c]) @ rest) = None then Missing ((cur @ [c]) @ rest)
         else Found ((cur @ [c]) @ rest))"
    proof (rule Cons.IH [OF False])
      fix k assume "0 < k" "k < length rest"
      then show "fs_lookup fs ((cur @ [c]) @ take k rest) = Some Dir"
        using Cons.prems(3) [of "Suc k"] by simp
    qed (use Cons.prems in auto)
    then show ?thesis using c dir by simp
  qed
qed simp

lemma resolve_plain:
  assumes "plain fs p" and "\<And>t. fs_lookup fs p \<noteq> Some (Symlink t)"
  shows "resolve fs p = (if fs_lookup fs p = None then Missing p else Found p)"
    and "resolve_nofollow fs p = (if fs_lookup fs p = None then Missing p else Found p)"
  using walk_dirs [of p fs "[]" kMaxSymlinks] assms plainD [OF assms(1)]
  by (simp_all add: resolve_def resolve_nofollow_def)

lemma node_at_plain: "plain fs p \<Longrightarrow> (\<And>t. fs_lookup fs p \<noteq> Some (Symlink t)) \<Longrightarrow> node_at fs p = fs_lookup fs p"
  using plainD(1) [of fs p] by (simp add: node_at_def node_here_def resolve_plain)

lemma file_at_plain: "plain fs p \<Longrightarrow> fs_lookup fs p = Some (File b) \<Longrightarrow> file_at fs p = Some b"
  by (simp add: file_at_def node_at_plain)

lemma exists_plain:
  "plain fs p \<Longrightarrow> (\<And>t. fs_lookup fs p \<noteq> Some (Symlink t)) \<Longrightarrow> fs_exists fs p = Inr (fs_lookup fs p \<noteq> None)"
  by (simp add: fs_exists_def node_at_plain resolve_plain)

text \<open>Changes that keep directories keep plain paths plain.\<close>

lemma plain_mono:
  assumes "plain fs p" and "\<And>q. fs_lookup fs q = Some Dir \<Longrightarrow> fs_lookup fs' q = Some Dir"
  shows "plain fs' p"
  using assms plainD [OF assms(1)] by (intro plainI) auto

lemma plain_update: "plain fs p \<Longrightarrow> fs_lookup fs q \<noteq> Some Dir \<Longrightarrow> plain (AList.update q n fs) p"
  by (erule plain_mono) auto

lemma plain_prefix: "plain fs (p @ q) \<Longrightarrow> p \<noteq> [] \<Longrightarrow> plain fs p"
proof -
  assume plain: "plain fs (p @ q)" and "p \<noteq> []"
  show "plain fs p"
  proof (rule plainI [OF \<open>p \<noteq> []\<close>])
    show "list_all proper p" using plainD(2) [OF plain] by simp
    show "fs_lookup fs (take k p) = Some Dir" if "0 < k" "k < length p" for k
      using plainD(3) [OF plain, of k] that by simp
  qed
qed

lemma plain_append:
  assumes "plain fs p" and "fs_lookup fs p = Some Dir" and "list_all proper q"
    and "\<And>k. 0 < k \<Longrightarrow> k < length q \<Longrightarrow> fs_lookup fs (p @ take k q) = Some Dir"
  shows "plain fs (p @ q)"
proof (rule plainI)
  fix k assume k: "0 < k" "k < length (p @ q)"
  consider "k < length p" | "k = length p" | "0 < k - length p" "k - length p < length q"
    using k by fastforce
  then show "fs_lookup fs (take k (p @ q)) = Some Dir"
    by cases (use k assms plainD [OF assms(1)] in auto)
qed (use assms plainD [OF assms(1)] in auto)

lemma plain_snoc: "plain fs p \<Longrightarrow> fs_lookup fs p = Some Dir \<Longrightarrow> proper c \<Longrightarrow> plain fs (p @ [c])"
  by (rule plain_append) auto

section \<open>Updates at plain paths\<close>

lemma open_create_plain:
  assumes "plain fs p" and "open_create sys fs p trunc = Some (q, fs')"
    and "\<And>t. fs_lookup fs p \<noteq> Some (Symlink t)"
  shows "q = p" and "fs_lookup fs p = None \<Longrightarrow> fs' = AList.update p (File []) fs"
    and "fs_lookup fs p = Some (File b) \<Longrightarrow> fs' = (if trunc then AList.update p (File []) fs else fs)"
  using assms(2) resolve_plain(1) [OF assms(1,3)]
    plainD(1) [OF assms(1)]
  by (auto simp: open_create_def node_here_def split: if_splits option.splits node.splits)

lemma open_existing_plain:
  assumes "plain fs p" and "fs_lookup fs p = Some (File b)"
  shows "open_existing sys fs p = (if sy_fails sys IO_open_write p then None else Some p)"
  using resolve_plain(1) [OF assms(1)] assms(2) plainD(1) [OF assms(1)]
  by (simp add: open_existing_def node_here_def)

lemma create_directory_plain:
  assumes "plain fs p" and "\<And>t. fs_lookup fs p \<noteq> Some (Symlink t)" and "create_directory sys fs p = Inr fs'"
  shows "fs_lookup fs' = (fs_lookup fs)(p \<mapsto> Dir)" and "fs_lookup fs p \<in> {None, Some Dir}"
  using assms(3) resolve_plain(1) [OF assms(1,2)] node_at_plain [OF assms(1,2)]
  by (auto simp: create_directory_def update_conv' fun_upd_idem split: if_splits)

lemma create_prefixes_plain:
  assumes "create_prefixes sys fs done rest = (None, fs')"
    and "list_all proper (done @ rest)"
    and "\<And>k. 0 < k \<Longrightarrow> k \<le> length done \<Longrightarrow> fs_lookup fs (take k done) = Some Dir"
    and "\<And>k t. 0 < k \<Longrightarrow> k \<le> length rest \<Longrightarrow> fs_lookup fs (done @ take k rest) \<noteq> Some (Symlink t)"
  shows "(\<forall>k. 0 < k \<longrightarrow> k \<le> length (done @ rest) \<longrightarrow> fs_lookup fs' (take k (done @ rest)) = Some Dir) \<and>
    (\<forall>q. fs_lookup fs' q = fs_lookup fs q \<or>
       (fs_lookup fs q = None \<and> fs_lookup fs' q = Some Dir \<and>
        (\<exists>k. 0 < k \<and> k \<le> length (done @ rest) \<and> q = take k (done @ rest))))"
  using assms
proof (induction rest arbitrary: "done" fs)
  case Nil
  then show ?case by simp
next
  case (Cons c rest)
  from Cons.prems(1) obtain fs1 where c: "create_directory sys fs (done @ [c]) = Inr fs1"
      and rest: "create_prefixes sys fs1 (done @ [c]) rest = (None, fs')"
    by (auto split: sum.splits)
  have plain: "plain fs (done @ [c])"
    using Cons.prems(2,3) by (intro plainI) (auto simp: take_append)
  have nolink: "fs_lookup fs (done @ [c]) \<noteq> Some (Symlink t)" for t
    using Cons.prems(4) [of 1 t] by simp
  note fs1 = create_directory_plain [OF plain nolink c]
  have IH: "(\<forall>k. 0 < k \<longrightarrow> k \<le> length ((done @ [c]) @ rest) \<longrightarrow>
        fs_lookup fs' (take k ((done @ [c]) @ rest)) = Some Dir) \<and>
      (\<forall>q. fs_lookup fs' q = fs_lookup fs1 q \<or>
         (fs_lookup fs1 q = None \<and> fs_lookup fs' q = Some Dir \<and>
          (\<exists>k. 0 < k \<and> k \<le> length ((done @ [c]) @ rest) \<and> q = take k ((done @ [c]) @ rest))))"
  proof (rule Cons.IH [OF rest])
    fix k assume k: "0 < k" "k \<le> length (done @ [c])"
    then show "fs_lookup fs1 (take k (done @ [c])) = Some Dir"
      using Cons.prems(3) [of k] by (cases "k \<le> length done") (auto simp: fs1(1) take_append le_Suc_eq)
  next
    fix k t assume "0 < k" "k \<le> length rest"
    then show "fs_lookup fs1 ((done @ [c]) @ take k rest) \<noteq> Some (Symlink t)"
      using Cons.prems(4) [of "Suc k" t] by (simp add: fs1(1))
  qed (use Cons.prems in auto)
  show ?case
  proof (intro conjI allI impI)
    fix k assume "0 < k" "k \<le> length (done @ c # rest)"
    then show "fs_lookup fs' (take k (done @ c # rest)) = Some Dir" using IH by simp
  next
    fix q
    have k: "\<exists>k. 0 < k \<and> k \<le> length (done @ c # rest) \<and> done @ [c] = take k (done @ c # rest)"
      by (rule exI [of _ "Suc (length done)"]) simp
    show "fs_lookup fs' q = fs_lookup fs q \<or>
        (fs_lookup fs q = None \<and> fs_lookup fs' q = Some Dir \<and>
         (\<exists>k. 0 < k \<and> k \<le> length (done @ c # rest) \<and> q = take k (done @ c # rest)))"
    proof (cases "q = done @ [c]")
      case True
      then have "fs_lookup fs1 q = Some Dir" using fs1(1) by simp
      then have "fs_lookup fs' q = Some Dir" using spec [OF conjunct2 [OF IH], of q] by simp
      moreover have "fs_lookup fs q = None \<or> fs_lookup fs q = Some Dir" using True fs1(2) by simp
      ultimately show ?thesis using k [folded True] by (elim disjE) (simp_all only: simp_thms)
    next
      case False
      then show ?thesis using spec [OF conjunct2 [OF IH], of q] fs1(1) by simp
    qed
  qed
qed

section \<open>Well-formed trees\<close>

text \<open>\<open>fs_ok\<close>: every node lies in a directory. \<open>no_links\<close>: no prefix of the path is a symbolic link.\<close>

definition fs_ok :: "filesystem \<Rightarrow> bool" where
  "fs_ok fs \<longleftrightarrow> list_all (\<lambda>(p, n). plain fs p) fs"

definition no_links :: "filesystem \<Rightarrow> path \<Rightarrow> bool" where
  "no_links fs p \<longleftrightarrow>
     list_all (\<lambda>k. case fs_lookup fs (take k p) of Some (Symlink _) \<Rightarrow> False | _ \<Rightarrow> True) [1..<Suc (length p)]"

lemma fs_ok_plain: "fs_ok fs \<Longrightarrow> fs_lookup fs p = Some n \<Longrightarrow> plain fs p"
  by (auto simp: fs_ok_def list_all_iff dest!: map_of_SomeD)

lemma fs_okI: "(\<And>p n. fs_lookup fs p = Some n \<Longrightarrow> plain fs p) \<Longrightarrow> fs_ok fs"
  by (auto simp: fs_ok_def list_all_iff) (metis not_None_eq weak_map_of_SomeI)

text \<open>Replacing the node of one plain path that is no directory keeps the tree well-formed.\<close>

lemma fs_ok_change:
  assumes "fs_ok fs" and "plain fs p" and "fs_lookup fs p \<noteq> Some Dir"
    and "\<And>q. q \<noteq> p \<Longrightarrow> fs_lookup fs' q = fs_lookup fs q"
  shows "fs_ok fs'"
proof (rule fs_okI)
  fix q n assume q: "fs_lookup fs' q = Some n"
  have dirs: "fs_lookup fs r = Some Dir \<Longrightarrow> fs_lookup fs' r = Some Dir" for r using assms(3,4) by metis
  have "plain fs q" using assms q fs_ok_plain by metis
  then show "plain fs' q" using plain_mono dirs by blast
qed

lemma no_linksD: "no_links fs p \<Longrightarrow> 0 < k \<Longrightarrow> k \<le> length p \<Longrightarrow> fs_lookup fs (take k p) \<noteq> Some (Symlink t)"
  by (auto simp: no_links_def list_all_iff less_Suc_eq_le simp del: upt_Suc split: option.splits node.splits)
     (metis atLeastAtMost_iff Suc_leI atLeastLessThanSuc_atLeastAtMost atLeastLessThan_iff node.simps(12) option.simps(5))

lemma walk_no_links:
  assumes "list_all proper rest"
    and "\<And>k t. 0 < k \<Longrightarrow> k \<le> length rest \<Longrightarrow> fs_lookup fs (cur @ take k rest) \<noteq> Some (Symlink t)"
  shows "walk n fs follow cur rest = Found (cur @ rest) \<and> (rest = [] \<or> fs_lookup fs (cur @ rest) \<noteq> None) \<or>
    walk n fs follow cur rest = Missing (cur @ rest) \<and> fs_lookup fs (cur @ rest) = None \<or>
    walk n fs follow cur rest = NoEntry"
  using assms
proof (induction rest arbitrary: cur)
  case Nil
  then show ?case by simp
next
  case (Cons c rest)
  have c: "c \<noteq> []" "c \<noteq> ''.''" "c \<noteq> ''..''" using Cons.prems(1) by (simp_all add: proper_def)
  have nolink: "fs_lookup fs (cur @ [c]) \<noteq> Some (Symlink t)" for t
    using Cons.prems(2) [of 1 t] by simp
  show ?case
  proof (cases "fs_lookup fs (cur @ [c]) = Some Dir")
    case True
    have "fs_lookup fs ((cur @ [c]) @ take k rest) \<noteq> Some (Symlink t)" if "0 < k" "k \<le> length rest" for k t
      using Cons.prems(2) [of "Suc k" t] that by simp
    from Cons.IH [OF _ this] Cons.prems(1) True c show ?thesis by auto
  next
    case False
    then show ?thesis using c nolink by (auto split: option.splits node.splits)
  qed
qed

lemma resolve_no_links:
  assumes "fs_ok fs" and "no_links fs p" and "list_all proper p" and "p \<noteq> []"
  shows "node_at fs p = fs_lookup fs p" and "resolve fs p \<noteq> Loop"
    and "fs_exists fs p = Inr (fs_lookup fs p \<noteq> None)"
proof -
  have w: "resolve fs p = Found p \<and> fs_lookup fs p \<noteq> None \<or>
      resolve fs p = Missing p \<and> fs_lookup fs p = None \<or> resolve fs p = NoEntry"
    using walk_no_links [of p fs "[]" kMaxSymlinks True] assms(3,4) no_linksD [OF assms(2)]
    by (auto simp: resolve_def)
  show n: "node_at fs p = fs_lookup fs p"
  proof (cases "fs_lookup fs p")
    case None
    with w show ?thesis by (auto simp: node_at_def node_here_def)
  next
    case (Some m)
    have "fs_lookup fs p \<noteq> Some (Symlink t)" for t
      using no_linksD [OF assms(2), of "length p" t] assms(4) by simp
    with fs_ok_plain [OF assms(1) Some] show ?thesis by (rule node_at_plain)
  qed
  show "resolve fs p \<noteq> Loop" using w by auto
  with n show "fs_exists fs p = Inr (fs_lookup fs p \<noteq> None)" by (simp add: fs_exists_def)
qed

text \<open>Creating the parents of a link-free path: afterwards the path is plain, and the only changes
  are new directories at its prefixes.\<close>

lemma create_parents:
  assumes "create_directories sys fs (parent_path p) = (None, fs')" and "no_links fs p"
    and "list_all proper p" and "p \<noteq> []"
  shows "plain fs' p" and "fs_lookup fs' p = fs_lookup fs p"
    and "fs_lookup fs q = Some n \<Longrightarrow> fs_lookup fs' q = Some n"
    and "fs_lookup fs q = None \<Longrightarrow> fs_lookup fs' q \<in> {None, Some Dir}"
proof -
  have parent: "take k (butlast p) = take k p" if "k \<le> length (butlast p)" for k
    using that assms(4) by (cases p rule: rev_cases) auto
  have c: "(\<forall>k. 0 < k \<longrightarrow> k \<le> length (butlast p) \<longrightarrow> fs_lookup fs' (take k (butlast p)) = Some Dir) \<and>
    (\<forall>q. fs_lookup fs' q = fs_lookup fs q \<or>
       (fs_lookup fs q = None \<and> fs_lookup fs' q = Some Dir \<and>
        (\<exists>k. 0 < k \<and> k \<le> length (butlast p) \<and> q = take k (butlast p))))"
    (is ?c)
  proof -
    have "list_all proper (butlast p)" using assms(3) by (auto simp: list_all_iff dest: in_set_butlastD)
    moreover have "fs_lookup fs (take k (butlast p)) \<noteq> Some (Symlink t)"
      if "0 < k" "k \<le> length (butlast p)" for k t
      using no_linksD [OF assms(2), of k t] that parent [OF that(2)] by simp
    ultimately show ?c
      using create_prefixes_plain [of sys fs "[]" "butlast p" fs'] assms(1)
      by (simp add: create_directories_def parent_path_def)
  qed
  show "plain fs' p"
  proof (rule plainI [OF assms(4,3)])
    fix k assume k: "0 < k" "k < length p"
    then have "k \<le> length (butlast p)" by simp
    with k conjunct1 [OF c] parent [of k] show "fs_lookup fs' (take k p) = Some Dir" by metis
  qed
  have "p \<noteq> take k (butlast p)" if "k \<le> length (butlast p)" for k
  proof
    assume "p = take k (butlast p)"
    then have "length p \<le> length (butlast p)" by (metis length_take min.cobounded1)
    then have "length p \<le> length p - 1" by (simp only: length_butlast)
    moreover have "0 < length p" using assms(4) by simp
    ultimately show False by linarith
  qed
  then show "fs_lookup fs' p = fs_lookup fs p" using spec [OF conjunct2 [OF c], of p] by auto
  show "fs_lookup fs q = Some n \<Longrightarrow> fs_lookup fs' q = Some n"
    and "fs_lookup fs q = None \<Longrightarrow> fs_lookup fs' q \<in> {None, Some Dir}"
    using spec [OF conjunct2 [OF c], of q] by auto
qed

text \<open>\<open>free_path\<close>: nothing is at the path and nothing but directories on the way to it.\<close>

definition free_path :: "filesystem \<Rightarrow> path \<Rightarrow> bool" where
  "free_path fs p \<longleftrightarrow> p \<noteq> [] \<and> list_all proper p \<and> fs_lookup fs p = None \<and>
     list_all (\<lambda>k. fs_lookup fs (take k p) \<in> {None, Some Dir}) [1..<length p]"

lemma free_pathD:
  assumes "free_path fs p"
  shows "p \<noteq> []" and "list_all proper p" and "fs_lookup fs p = None"
    and "0 < k \<Longrightarrow> k < length p \<Longrightarrow> fs_lookup fs (take k p) = None \<or> fs_lookup fs (take k p) = Some Dir"
    and "no_links fs p"
proof -
  show *: "p \<noteq> []" "list_all proper p" "fs_lookup fs p = None"
    "0 < k \<Longrightarrow> k < length p \<Longrightarrow> fs_lookup fs (take k p) = None \<or> fs_lookup fs (take k p) = Some Dir" for k
    using assms by (auto simp: free_path_def list_all_iff)
  show "no_links fs p"
    unfolding no_links_def list_all_iff
  proof
    fix k assume "k \<in> set [1..<Suc (length p)]"
    then have "0 < k" "k \<le> length p" by auto
    then show "case fs_lookup fs (take k p) of Some (Symlink _) \<Rightarrow> False | _ \<Rightarrow> True"
      using *(3) *(4) [of k] by (cases "k = length p") auto
  qed
qed

lemma free_path_change:
  assumes "free_path fs p" and "\<not> is_prefix t p" and "\<And>q. q \<noteq> t \<Longrightarrow> fs_lookup fs' q = fs_lookup fs q"
  shows "free_path fs' p"
proof -
  have "take k p \<noteq> t" for k
  proof
    assume "take k p = t"
    then have "is_prefix t p" by (cases "k \<le> length p") (auto simp: is_prefix_def min_def)
    with assms(2) show False ..
  qed
  from this [of "length p"] this assms show ?thesis by (simp add: free_path_def)
qed

lemma create_prefixes_succeeds:
  assumes "\<And>q. \<not> sy_fails sys IO_mkdir q" and "list_all proper (done @ rest)"
    and "\<And>k. 0 < k \<Longrightarrow> k \<le> length done \<Longrightarrow> fs_lookup fs (take k done) = Some Dir"
    and "\<And>k. 0 < k \<Longrightarrow> k \<le> length rest \<Longrightarrow>
      fs_lookup fs (done @ take k rest) = None \<or> fs_lookup fs (done @ take k rest) = Some Dir"
  shows "\<exists>fs'. create_prefixes sys fs done rest = (None, fs')"
  using assms(2-4)
proof (induction rest arbitrary: "done" fs)
  case Nil
  then show ?case by simp
next
  case (Cons c rest)
  have plain: "plain fs (done @ [c])"
    using Cons.prems(1,2) by (intro plainI) (auto simp: take_append)
  have at: "fs_lookup fs (done @ [c]) = None \<or> fs_lookup fs (done @ [c]) = Some Dir"
    using Cons.prems(3) [of 1] by simp
  then have nolink: "fs_lookup fs (done @ [c]) \<noteq> Some (Symlink t)" for t by auto
  obtain fs1 where c: "create_directory sys fs (done @ [c]) = Inr fs1"
    using at resolve_plain(1) [OF plain nolink] node_at_plain [OF plain nolink] assms(1)
    by (auto simp: create_directory_def)
  note fs1 = create_directory_plain(1) [OF plain nolink c]
  have "\<exists>fs'. create_prefixes sys fs1 (done @ [c]) rest = (None, fs')"
  proof (rule Cons.IH)
    fix k assume "0 < k" "k \<le> length (done @ [c])"
    then show "fs_lookup fs1 (take k (done @ [c])) = Some Dir"
      using Cons.prems(2) [of k] by (cases "k \<le> length done") (auto simp: fs1 take_append le_Suc_eq)
  next
    fix k assume "0 < k" "k \<le> length rest"
    then show "fs_lookup fs1 ((done @ [c]) @ take k rest) = None \<or>
        fs_lookup fs1 ((done @ [c]) @ take k rest) = Some Dir"
      using Cons.prems(3) [of "Suc k"] by (simp add: fs1)
  qed (use Cons.prems in auto)
  then show ?case using c by simp
qed

lemma create_parents_succeeds:
  assumes "\<And>q. \<not> sy_fails sys IO_mkdir q" and "free_path fs p"
  shows "\<exists>fs'. create_directories sys fs (parent_path p) = (None, fs')"
  unfolding create_directories_def parent_path_def
proof (rule create_prefixes_succeeds [OF assms(1)])
  show "list_all proper ([] @ butlast p)"
    using free_pathD(2) [OF assms(2)] by (auto simp: list_all_iff dest: in_set_butlastD)
  fix k assume k: "0 < k" "k \<le> length (butlast p)"
  have "take k (butlast p) = take k p" using k free_pathD(1) [OF assms(2)] by (cases p rule: rev_cases) auto
  moreover have "k < length p" using k unfolding length_butlast by linarith
  ultimately show "fs_lookup fs ([] @ take k (butlast p)) = None \<or> fs_lookup fs ([] @ take k (butlast p)) = Some Dir"
    using free_pathD(4) [OF assms(2) k(1)] by simp
qed simp

end
