(* ===== verification/Sync.thy ===== *)
theory Sync
  imports FileSystem Messages "HOL-Library.Product_Lexorder" "HOL-Library.List_Lexorder"
    "HOL-Library.Char_ord" "HOL-Library.Multiset"
begin

text \<open>
  src/src/core/yisync_sync.cpp and src/include/core/yisync_sync.hpp: file checksums, the mapping
  between file names and file ids, the directory scan that builds a manifest, the comparison of
  two manifests and the chunk arithmetic.

  The recursive directory iterator visits the entries below the root in an order the standard
  leaves open; the model takes the order of the file-system list, and the result is sorted
  anyway. Directories that cannot be read are not modelled (the iterator skips them).
\<close>

section \<open>Types\<close>

datatype EM_StartAction = RESUME_EXISTING | CREATE_MISSING

record T_SyncStart =
  ss_stream_id :: u64
  ss_start_file_id :: u64
  ss_start_offset :: u64
  ss_start_action :: EM_StartAction

definition kChunkModeThresholdBytes :: u64 where
  "kChunkModeThresholdBytes = 64 * 1024"

definition kChecksumBufferBytes :: nat where
  "kChecksumBufferBytes = 4 * 1024 * 1024"

section \<open>Checksums\<close>

definition crc32c_value_bytes :: "u32 \<Rightarrow> Bytes" where
  "crc32c_value_bytes value =
     [ucast (value AND 0xff), ucast (drop_bit 8 value AND 0xff),
      ucast (drop_bit 16 value AND 0xff), ucast (drop_bit 24 value AND 0xff)]"

text \<open>\<open>crc32c\<close> and \<open>crc32c_bytes\<close> of yisync_protocol.cpp: \<open>crc32c::Crc32c\<close> is \<open>Extend\<close> from zero.\<close>

definition crc32c :: "system \<Rightarrow> Bytes \<Rightarrow> u32" where
  "crc32c sys bytes = sy_extend sys 0 bytes"

definition crc32c_bytes :: "system \<Rightarrow> Bytes \<Rightarrow> Bytes" where
  "crc32c_bytes sys bytes = crc32c_value_bytes (crc32c sys bytes)"

text \<open>The read loop of \<open>crc32c_file_range\<close>: \<open>data\<close> is what the stream still holds.\<close>

function crc_loop :: "system \<Rightarrow> path \<Rightarrow> u32 \<Rightarrow> Bytes \<Rightarrow> nat \<Rightarrow> u32 result" where
  "crc_loop sys p crc data remaining =
     (if remaining = 0 then Inr crc
      else
        let chunk = take (min remaining kChecksumBufferBytes) data
        in if chunk = []
           then Inl (runtime_error (''failed to read requested checksum range: '' @ path_string p))
           else crc_loop sys p (sy_extend sys crc chunk) (drop (length chunk) data)
                  (remaining - length chunk))"
  by pat_completeness auto

termination
  by (relation "measure (\<lambda>(sys, p, crc, data, remaining). remaining)")
    (auto simp: Let_def length_greater_0_conv simp del: length_take)

declare crc_loop.simps [simp del]

definition crc32c_file_range :: "system \<Rightarrow> filesystem \<Rightarrow> path \<Rightarrow> u64 \<Rightarrow> u64 \<Rightarrow> Bytes result" where
  "crc32c_file_range sys fs p offset len =
     (if sy_fails sys IO_open_read p \<or> node_at fs p = None
      then Inl (runtime_error (''failed to open file for checksum: '' @ path_string p))
      else if offset \<ge> 2 ^ 63
      then Inl (runtime_error (''failed to seek file for checksum: '' @ path_string p))
      else
        let bytes = (case file_at fs p of Some b \<Rightarrow> b | None \<Rightarrow> [])
        in case crc_loop sys p 0 (drop (unat offset) bytes) (unat len) of
             Inl e \<Rightarrow> Inl e
           | Inr crc \<Rightarrow> Inr (crc32c_value_bytes crc))"

definition checksums_equal :: "T_FileChecksum \<Rightarrow> T_FileChecksum \<Rightarrow> bool" where
  "checksums_equal lhs rhs \<longleftrightarrow>
     ck_algo lhs = ck_algo rhs \<and> ck_offset lhs = ck_offset rhs \<and> ck_len lhs = ck_len rhs \<and>
     ck_value lhs = ck_value rhs"

definition checksum_matches :: "system \<Rightarrow> filesystem \<Rightarrow> T_FileChecksum \<Rightarrow> path \<Rightarrow> bool result" where
  "checksum_matches sys fs checksum p =
     (if ck_algo checksum = Checksum_NONE then Inr (ck_len checksum = 0)
      else if ck_algo checksum \<noteq> CRC32C
      then Inl (runtime_error ''only CRC32C file checksums are implemented in this prototype'')
      else
        let size = file_size_or_zero fs p
        in if ck_offset checksum > size \<or> ck_len checksum > size \<or>
              ck_offset checksum + ck_len checksum > size
           then Inr False
           else case crc32c_file_range sys fs p (ck_offset checksum) (ck_len checksum) of
                  Inl e \<Rightarrow> Inl e
                | Inr value \<Rightarrow> Inr (value = ck_value checksum))"

definition make_crc32c_range_checksum :: "system \<Rightarrow> filesystem \<Rightarrow> path \<Rightarrow> u64 \<Rightarrow> T_FileChecksum result" where
  "make_crc32c_range_checksum sys fs p max_len =
     (let size = file_size_or_zero fs p;
          len = min size max_len;
          checksum = \<lparr>ck_algo = (if size = 0 then Checksum_NONE else CRC32C), ck_offset = size - len,
            ck_len = len, ck_value = []\<rparr>
      in if len > 0
         then case crc32c_file_range sys fs p (size - len) len of
                Inl e \<Rightarrow> Inl e
              | Inr value \<Rightarrow> Inr (checksum\<lparr>ck_value := value\<rparr>)
         else Inr checksum)"

section \<open>File names and file ids\<close>

definition digit_char :: "nat \<Rightarrow> char" where
  "digit_char d = char_of (48 + d)"

fun to_string :: "nat \<Rightarrow> string" where
  "to_string n = (if n < 10 then [digit_char n] else to_string (n div 10) @ [digit_char (n mod 10)])"

declare to_string.simps [simp del]

definition is_digit :: "char \<Rightarrow> bool" where
  "is_digit c \<longleftrightarrow> 48 \<le> (of_char c :: nat) \<and> (of_char c :: nat) \<le> 57"

definition digits_value :: "string \<Rightarrow> int" where
  "digits_value = foldl (\<lambda>v c. 10 * v + (int (of_char c) - 48)) 0"

definition file_name_for_id :: "u64 \<Rightarrow> string" where
  "file_name_for_id file_id = to_string (unat file_id) @ ''.file''"

text \<open>\<open>std::from_chars\<close> on an unsigned type takes decimal digits only, up to the end here, and
  reports an overflow as an error.\<close>

definition parse_file_id :: "string \<Rightarrow> u64 option" where
  "parse_file_id name =
     (if length name \<le> 5 \<or> drop (length name - 5) name \<noteq> ''.file'' then None
      else
        let number = take (length name - 5) name
        in if list_all is_digit number \<and> digits_value number < 2 ^ 64
           then Some (word_of_int (digits_value number)) else None)"

definition is_yisync_internal_path :: "string \<Rightarrow> bool" where
  "is_yisync_internal_path relative_name \<longleftrightarrow>
     relative_name = ''.yisync_tmp'' \<or> take 12 relative_name = ''.yisync_tmp/''"

definition stable_path_id :: "string \<Rightarrow> u64" where
  "stable_path_id relative_name =
     (let hash = foldl (\<lambda>hash ch. (hash XOR ucast (byte_of_char ch)) * 1099511628211)
                   1469598103934665603 relative_name
      in push_bit 63 1 OR (hash AND NOT (push_bit 63 1)))"

section \<open>Directory scan\<close>

definition entry_of_node ::
  "system \<Rightarrow> filesystem \<Rightarrow> path \<Rightarrow> u64 \<Rightarrow> (string \<Rightarrow> bool) option \<Rightarrow> path \<Rightarrow> node \<Rightarrow>
     T_ManifestEntry option result" where
  "entry_of_node sys fs root checksum_range_len entry_filter rel n =
     (let name = join_slash rel;
          excluded = (case entry_filter of None \<Rightarrow> False | Some matches \<Rightarrow> \<not> matches name);
          file_id = (case (n, parse_file_id (last rel)) of
              (File _, Some parsed) \<Rightarrow> if length rel = 1 then parsed else stable_path_id name
            | _ \<Rightarrow> stable_path_id name);
          entry = (\<lambda>kind target size checksum.
            \<lparr>me_file_id = file_id, me_seq = 0, me_kind = kind, me_name = name,
             me_link_target = target, me_size = size, me_checksum = checksum\<rparr>)
      in case n of
           Symlink target \<Rightarrow>
             Inr (if excluded then None else Some (entry SYMLINK target 0 default_checksum))
         | Dir \<Rightarrow> Inr (Some (entry DIRECTORY [] 0 default_checksum))
         | File bytes \<Rightarrow>
             if excluded then Inr None
             else case make_crc32c_range_checksum sys fs (root @ rel) checksum_range_len of
                    Inl e \<Rightarrow> Inl e
                  | Inr checksum \<Rightarrow>
                      Inr (Some (entry REGULAR_FILE [] (word_of_nat (length bytes)) checksum)))"

text \<open>Recursion is disabled below the internal directory and below an excluded top-level entry;
  neither these nor what lies below them is listed.\<close>

definition scan_skips :: "string list \<Rightarrow> path \<Rightarrow> bool" where
  "scan_skips excluded_top_level_dirs rel \<longleftrightarrow>
     is_yisync_internal_path (join_slash rel) \<or> hd rel \<in> set excluded_top_level_dirs"

fun scan_entries ::
  "system \<Rightarrow> filesystem \<Rightarrow> path \<Rightarrow> path \<Rightarrow> u64 \<Rightarrow> string list \<Rightarrow> (string \<Rightarrow> bool) option \<Rightarrow>
     filesystem \<Rightarrow> T_ManifestEntry list result" where
  "scan_entries sys fs root dir len excluded entry_filter [] = Inr []"
| "scan_entries sys fs root dir len excluded entry_filter ((p, n) # rest) =
     (let rel = drop (length dir) p
      in if \<not> is_prefix dir p \<or> rel = [] \<or> scan_skips excluded rel
         then scan_entries sys fs root dir len excluded entry_filter rest
         else case entry_of_node sys fs root len entry_filter rel n of
                Inl e \<Rightarrow> Inl e
              | Inr found \<Rightarrow>
                  (case scan_entries sys fs root dir len excluded entry_filter rest of
                     Inl e \<Rightarrow> Inl e
                   | Inr entries \<Rightarrow>
                       Inr (case found of None \<Rightarrow> entries | Some entry \<Rightarrow> entry # entries)))"

definition legacy_numeric :: "T_ManifestEntry \<Rightarrow> bool" where
  "legacy_numeric e \<longleftrightarrow>
     me_kind e = REGULAR_FILE \<and> me_file_id e < 2 ^ 63 \<and> slash \<notin> set (me_name e)"

definition manifest_less :: "T_ManifestEntry \<Rightarrow> T_ManifestEntry \<Rightarrow> bool" where
  "manifest_less lhs rhs \<longleftrightarrow>
     (if legacy_numeric lhs \<and> legacy_numeric rhs then me_file_id lhs < me_file_id rhs
      else if legacy_numeric lhs \<noteq> legacy_numeric rhs then legacy_numeric lhs
      else me_name lhs < me_name rhs)"

text \<open>\<open>manifest_key\<close> is a sort key with the same order as the comparator (lemma
  \<open>manifest_less_key\<close>); \<open>std::sort\<close> leaves the order of equivalent elements open, the model keeps
  them in the order found.\<close>

definition manifest_key :: "T_ManifestEntry \<Rightarrow> bool \<times> u64 \<times> string" where
  "manifest_key e = (if legacy_numeric e then (False, me_file_id e, []) else (True, 0, me_name e))"

definition assign_seqs :: "T_ManifestEntry list \<Rightarrow> T_ManifestEntry list" where
  "assign_seqs entries = map (\<lambda>(i, e). e\<lparr>me_seq := word_of_nat (i + 1)\<rparr>) (enumerate 0 entries)"

definition seq_key :: "T_ManifestEntry \<Rightarrow> u64 \<times> u64" where
  "seq_key e = (me_seq e, me_file_id e)"

definition scan_manifest_stream ::
  "system \<Rightarrow> filesystem \<Rightarrow> u64 \<Rightarrow> path \<Rightarrow> u64 \<Rightarrow> string list \<Rightarrow> string \<Rightarrow> T_Manifest1Stream result" where
  "scan_manifest_stream sys fs stream_id root checksum_range_len excluded entry_name_regex =
     (let stream = \<lparr>ms_stream_id = stream_id, ms_root = path_string root, ms_entries = []\<rparr>
      in if \<not> fs_exists_ec fs root then Inr stream
         else
           let entry_filter = (if entry_name_regex = [] then Inr None
                 else case sy_regex sys entry_name_regex of
                   Inl what \<Rightarrow> Inl (runtime_error (''bad entry_name_regex for '' @ path_string root @
                     '': '' @ what))
                 | Inr matches \<Rightarrow> Inr (Some matches))
           in case entry_filter of
                Inl e \<Rightarrow> Inl e
              | Inr filter_opt \<Rightarrow>
                  (case resolve fs root of
                     Found dir \<Rightarrow>
                       if node_at fs root \<noteq> Some Dir then Inr stream
                       else (case scan_entries sys fs root dir checksum_range_len excluded filter_opt fs of
                               Inl e \<Rightarrow> Inl e
                             | Inr entries \<Rightarrow>
                                 Inr (stream\<lparr>ms_entries :=
                                   sort_key seq_key (assign_seqs (sort_key manifest_key entries))\<rparr>))
                   | _ \<Rightarrow> Inr stream))"

section \<open>Comparing manifests\<close>

definition manifest_entries_same_identity :: "T_ManifestEntry \<Rightarrow> T_ManifestEntry \<Rightarrow> bool" where
  "manifest_entries_same_identity lhs rhs \<longleftrightarrow>
     me_file_id lhs = me_file_id rhs \<and> me_kind lhs = me_kind rhs \<and> me_name lhs = me_name rhs"

definition manifest_entries_same_content :: "T_ManifestEntry \<Rightarrow> T_ManifestEntry \<Rightarrow> bool" where
  "manifest_entries_same_content sender receiver \<longleftrightarrow>
     (if me_kind sender \<noteq> me_kind receiver then False
      else if me_kind sender = DIRECTORY then True
      else if me_kind sender = SYMLINK then me_link_target sender = me_link_target receiver
      else me_size sender = me_size receiver \<and>
        checksums_equal (me_checksum sender) (me_checksum receiver))"

fun diff_stream ::
  "u64 \<Rightarrow> T_ManifestEntry list \<Rightarrow> T_ManifestEntry list \<Rightarrow> T_SyncStart option result" where
  "diff_stream stream_id [] receiver = Inr None"
| "diff_stream stream_id (s # ss) [] =
     Inr (Some \<lparr>ss_stream_id = stream_id, ss_start_file_id = me_file_id s, ss_start_offset = 0,
                ss_start_action = CREATE_MISSING\<rparr>)"
| "diff_stream stream_id (s # ss) (r # rs) =
     (if \<not> manifest_entries_same_identity s r
      then Inl (runtime_error (''receiver entry identity conflicts with sender for '' @ me_name s))
      else if me_kind s = DIRECTORY \<or> me_kind s = SYMLINK
      then if \<not> manifest_entries_same_content s r
           then Inl (runtime_error (''receiver entry content conflicts with sender for '' @ me_name s))
           else diff_stream stream_id ss rs
      else if me_size r > me_size s
      then Inl (runtime_error (''receiver file is larger than sender for '' @ me_name s))
      else if me_size r < me_size s
      then Inr (Some \<lparr>ss_stream_id = stream_id, ss_start_file_id = me_file_id s,
                      ss_start_offset = me_size r, ss_start_action = RESUME_EXISTING\<rparr>)
      else if ck_value (me_checksum s) \<noteq> ck_value (me_checksum r) \<or>
              ck_algo (me_checksum s) \<noteq> ck_algo (me_checksum r) \<or>
              ck_offset (me_checksum s) \<noteq> ck_offset (me_checksum r) \<or>
              ck_len (me_checksum s) \<noteq> ck_len (me_checksum r)
      then Inl (runtime_error (''checksum mismatch for '' @ me_name s))
      else diff_stream stream_id ss rs)"

definition make_manifest2_stream :: "u64 \<Rightarrow> T_SyncStart option \<Rightarrow> T_Manifest2Stream" where
  "make_manifest2_stream stream_id start =
     (case start of
        None \<Rightarrow> \<lparr>m2s_stream_id = stream_id, m2s_action = IN_SYNC, m2s_start_file_id = 0,
          m2s_start_offset = 0\<rparr>
      | Some st \<Rightarrow>
          \<lparr>m2s_stream_id = stream_id,
           m2s_action = (if ss_start_action st = RESUME_EXISTING then M2_RESUME_EXISTING
                         else M2_CREATE_MISSING),
           m2s_start_file_id = ss_start_file_id st, m2s_start_offset = ss_start_offset st\<rparr>)"

section \<open>Chunks\<close>

definition should_use_chunk_mode :: "u64 \<Rightarrow> bool" where
  "should_use_chunk_mode file_size \<longleftrightarrow> file_size > kChunkModeThresholdBytes"

definition chunk_count_for_size :: "u64 \<Rightarrow> u64 \<Rightarrow> u64 result" where
  "chunk_count_for_size file_size chunk_size =
     (if chunk_size = 0 then Inl (invalid_argument ''chunk_size must be non-zero'')
      else Inr (if file_size = 0 then 0 else (file_size + chunk_size - 1) div chunk_size))"

section \<open>Checksum lemmas\<close>

text \<open>What the code relies on of \<open>crc32c::Extend\<close>: extending by nothing changes nothing, and
  extending by two blocks in turn is extending by their concatenation.\<close>

definition extend_laws :: "system \<Rightarrow> bool" where
  "extend_laws sys \<longleftrightarrow> (\<forall>c. sy_extend sys c [] = c) \<and>
     (\<forall>c a b. sy_extend sys (sy_extend sys c a) b = sy_extend sys c (a @ b))"

lemma crc_loop_ok:
  assumes "extend_laws sys" and "n \<le> length data"
  shows "crc_loop sys p crc data n = Inr (sy_extend sys crc (take n data))"
  using assms(2)
proof (induction n arbitrary: crc data rule: less_induct)
  case (less n)
  show ?case
  proof (cases "n = 0")
    case True
    then show ?thesis using assms(1) by (simp add: crc_loop.simps extend_laws_def)
  next
    case False
    define chunk where "chunk = take (min n kChecksumBufferBytes) data"
    have len: "length chunk = min n kChecksumBufferBytes" "0 < length chunk"
      using less.prems False by (simp_all add: chunk_def kChecksumBufferBytes_def)
    have "crc_loop sys p (sy_extend sys crc chunk) (drop (length chunk) data) (n - length chunk) =
        Inr (sy_extend sys (sy_extend sys crc chunk) (take (n - length chunk) (drop (length chunk) data)))"
      using len less.prems by (intro less.IH) auto
    moreover have "chunk @ take (n - length chunk) (drop (length chunk) data) = take n data"
    proof -
      have "take n data = take (length chunk + (n - length chunk)) data" using len by simp
      also have "\<dots> = take (length chunk) data @ take (n - length chunk) (drop (length chunk) data)"
        by (rule take_add)
      finally show ?thesis using len(1) by (simp add: chunk_def)
    qed
    ultimately show ?thesis
      using assms(1) False len(2)
      by (subst crc_loop.simps) (auto simp: Let_def extend_laws_def simp flip: chunk_def)
  qed
qed

lemma crc32c_file_range_ok:
  assumes "extend_laws sys" and "file_at fs p = Some bytes" and "\<not> sy_fails sys IO_open_read p"
    and "unat offset + unat len \<le> length bytes" and "offset < 2 ^ 63"
  shows "crc32c_file_range sys fs p offset len =
    Inr (crc32c_bytes sys (take (unat len) (drop (unat offset) bytes)))"
proof -
  have "node_at fs p \<noteq> None" using assms(2) by (auto simp: file_at_def split: option.splits)
  then show ?thesis using assms
    by (simp add: crc32c_file_range_def Let_def crc_loop_ok crc32c_bytes_def crc32c_def not_le)
qed

text \<open>A range checksum made of a file matches that file: for a non-zero range length,
  \<open>checksum_matches\<close> accepts what \<open>make_crc32c_range_checksum\<close> returns as long as the file does not
  change; its offset and length never leave the file.\<close>

theorem checksum_roundtrip:
  assumes "make_crc32c_range_checksum sys fs p max_len = Inr c" and "max_len \<noteq> 0"
  shows "checksum_matches sys fs c p = Inr True \<and>
    unat (ck_offset c) + unat (ck_len c) = unat (file_size_or_zero fs p) \<and> ck_len c \<le> max_len"
proof -
  define size where "size = file_size_or_zero fs p"
  define len where "len = min size max_len"
  have le: "len \<le> size" by (simp add: len_def)
  have sum: "size - len + len = size" by simp
  have off: "size - len \<le> size" using le by (simp add: word_le_unat unat_sub)
  have unat: "unat (size - len) + unat len = unat size" using le by (simp add: word_le_unat unat_sub)
  show ?thesis
  proof (cases "size = 0")
    case True
    then have "c = \<lparr>ck_algo = Checksum_NONE, ck_offset = 0, ck_len = 0, ck_value = []\<rparr>"
      using assms(1) by (simp add: make_crc32c_range_checksum_def Let_def flip: size_def)
    then show ?thesis using True by (simp add: checksum_matches_def flip: size_def)
  next
    case False
    then have "len > 0" using assms(2) by (simp add: len_def min_def word_gt_0)
    with assms(1) False obtain v where v: "crc32c_file_range sys fs p (size - len) len = Inr v"
        and c: "c = \<lparr>ck_algo = CRC32C, ck_offset = size - len, ck_len = len, ck_value = v\<rparr>"
      by (auto simp: make_crc32c_range_checksum_def Let_def size_def len_def split: sum.splits)
    then show ?thesis
      using le off unat by (simp add: checksum_matches_def Let_def not_less len_def flip: size_def)
  qed
qed

definition plain_system :: system where
  "plain_system = \<lparr>sy_fails = (\<lambda>_ _. False), sy_message = (\<lambda>_ _. ''error''),
     sy_extend = foldl (\<lambda>crc b. crc + ucast b), sy_regex = (\<lambda>_. Inl ''unsupported'')\<rparr>"

definition sample_fs :: filesystem where
  "sample_fs = [([''r''], Dir), ([''r'', ''2.file''], File [7, 8, 9]), ([''r'', ''d''], Dir),
     ([''r'', ''d'', ''x''], File [1]), ([''r'', ''1.file''], File [5, 5]),
     ([''r'', ''.yisync_tmp''], Dir), ([''r'', ''.yisync_tmp'', ''t''], File [])]"

lemma extend_laws_plain: "extend_laws plain_system"
  by (simp add: extend_laws_def plain_system_def)

lemma sample_file: "file_at sample_fs [''r'', ''2.file''] = Some [7, 8, 9]"
  by code_simp

theorem checksum_roundtrip_witness:
  "checksum_matches plain_system sample_fs
     \<lparr>ck_algo = CRC32C, ck_offset = 1, ck_len = 2, ck_value = [17, 0, 0, 0]\<rparr> [''r'', ''2.file''] = Inr True"
proof -
  have "make_crc32c_range_checksum plain_system sample_fs [''r'', ''2.file''] 2 =
      Inr \<lparr>ck_algo = CRC32C, ck_offset = 1, ck_len = 2, ck_value = [17, 0, 0, 0]\<rparr>"
    using crc32c_file_range_ok [OF extend_laws_plain sample_file, of 1 2]
    by (simp add: make_crc32c_range_checksum_def file_size_or_zero_def sample_file Let_def min_def
        plain_system_def crc32c_bytes_def crc32c_def crc32c_value_bytes_def)
  from checksum_roundtrip [OF this] show ?thesis by simp
qed

section \<open>Chunk arithmetic\<close>

lemma chunk_count_fits:
  assumes "chunk_size \<noteq> 0" and "unat file_size + unat chunk_size \<le> 2 ^ 64"
  shows "\<exists>n. chunk_count_for_size file_size chunk_size = Inr n \<and>
    unat file_size \<le> unat n * unat chunk_size \<and>
    (file_size \<noteq> 0 \<longrightarrow> (unat n - 1) * unat chunk_size < unat file_size) \<and>
    (file_size = 0 \<longrightarrow> n = 0)"
proof (cases "file_size = 0")
  case True
  then show ?thesis using assms by (simp add: chunk_count_for_size_def)
next
  case False
  let ?f = "unat file_size" and ?c = "unat chunk_size"
  have c: "0 < ?c" and f: "0 < ?f" using assms(1) False by (simp_all add: unat_gt_0)
  have "unat (file_size + (chunk_size - 1)) = ?f + (?c - 1)"
  proof (subst unat_plus_no_wrap)
    have m: "unat (chunk_size - 1) = ?c - 1" using assms(1) by (simp add: unat_minus_one)
    then show "?f + unat (chunk_size - 1) = ?f + (?c - 1)" by simp
    show "?f + unat (chunk_size - 1) < 2 ^ LENGTH(64)" using assms(2) m c by simp
  qed
  then have n: "unat ((file_size + chunk_size - 1) div chunk_size) = (?f + (?c - 1)) div ?c"
    by (simp add: unat_div add_diff_eq)
  define q where "q = (?f + (?c - 1)) div ?c"
  have "q * ?c \<le> ?f + (?c - 1)" "?f + (?c - 1) < Suc q * ?c"
    using c by (simp_all add: q_def div_times_less_eq_dividend dividend_less_div_times)
  moreover have "1 \<le> q" using c f by (simp add: q_def div_greater_zero_iff Suc_leI)
  ultimately have "?f \<le> q * ?c" "(q - 1) * ?c < ?f"
    using c f by (auto simp: algebra_simps diff_mult_distrib)
  then show ?thesis using False assms(1) n q_def by (simp add: chunk_count_for_size_def)
qed

text \<open>The number of chunks is the file size divided by the chunk size, rounded up, as long as
  their sum does not exceed \<open>2 ^ 64\<close>: the chunks cover the file and the last one is not empty.\<close>

theorem chunk_count_exact:
  assumes "chunk_size \<noteq> 0" and "unat file_size + unat chunk_size \<le> 2 ^ 64"
  shows "\<exists>n. chunk_count_for_size file_size chunk_size = Inr n \<and>
    unat file_size \<le> unat n * unat chunk_size \<and>
    (file_size \<noteq> 0 \<longrightarrow> (unat n - 1) * unat chunk_size < unat file_size) \<and>
    (file_size = 0 \<longrightarrow> n = 0)"
  using assms by (rule chunk_count_fits)

theorem chunk_count_exact_witness:
  "\<exists>n. chunk_count_for_size 100000 65536 = Inr n \<and> 100000 \<le> unat n * 65536 \<and> (unat n - 1) * 65536 < 100000"
  using chunk_count_exact [of 65536 100000] by simp

text \<open>Beyond that bound the 64-bit sum wraps: a 100000-byte file in chunks of \<open>2 ^ 64 - 1\<close> bytes is
  given no chunk at all.\<close>

lemma chunk_count_wraps: "chunk_count_for_size 100000 UINT64_MAX = Inr 0"
  by code_simp

section \<open>Names and ids\<close>

lemma of_char_digit: "d < 10 \<Longrightarrow> (of_char (digit_char d) :: nat) = 48 + d"
  by (simp add: digit_char_def of_char_of)

lemma is_digit_char: "d < 10 \<Longrightarrow> is_digit (digit_char d)"
  by (simp add: is_digit_def of_char_digit)

lemma digits_value_snoc: "digits_value (s @ [c]) = 10 * digits_value s + (int (of_char c) - 48)"
  by (simp add: digits_value_def)

lemma digits_value_nonneg: "list_all is_digit s \<Longrightarrow> 0 \<le> digits_value s"
  by (induction s rule: rev_induct) (simp_all add: digits_value_snoc is_digit_def, simp add: digits_value_def)

lemma to_string_digits: "list_all is_digit (to_string n) \<and> digits_value (to_string n) = int n \<and> to_string n \<noteq> []"
proof (induction n rule: to_string.induct)
  case (1 n)
  show ?case
  proof (cases "n < 10")
    case True
    then show ?thesis
      by (subst (1 2 3) to_string.simps) (simp add: is_digit_char of_char_digit digits_value_def)
  next
    case False
    with 1 have IH: "list_all is_digit (to_string (n div 10))" "digits_value (to_string (n div 10)) = int (n div 10)"
      by auto
    have "to_string n = to_string (n div 10) @ [digit_char (n mod 10)]"
      using False by (subst to_string.simps) simp
    moreover have "10 * int (n div 10) + int (n mod 10) = int n" by presburger
    ultimately show ?thesis using IH by (simp add: digits_value_snoc is_digit_char of_char_digit)
  qed
qed

text \<open>File ids and file names correspond: parsing the name generated for an id gives the id back,
  and every name that parses is a decimal number below \<open>2 ^ 64\<close> followed by \<open>.file\<close>.\<close>

theorem file_id_roundtrip:
  "parse_file_id (file_name_for_id file_id) = Some file_id \<and>
   (parse_file_id name = Some n \<longrightarrow>
      (\<exists>number. name = number @ ''.file'' \<and> number \<noteq> [] \<and> list_all is_digit number \<and>
         digits_value number = uint n))"
proof (intro conjI impI)
  note d = to_string_digits [of "unat file_id"]
  then show "parse_file_id (file_name_for_id file_id) = Some file_id"
    using uint_lt2p [of file_id] by (simp add: parse_file_id_def file_name_for_id_def)
next
  assume "parse_file_id name = Some n"
  then have *: "5 < length name" "drop (length name - 5) name = ''.file''"
      "list_all is_digit (take (length name - 5) name)"
      "digits_value (take (length name - 5) name) < 2 ^ 64"
      "n = word_of_int (digits_value (take (length name - 5) name))"
    by (auto simp: parse_file_id_def Let_def split: if_splits)
  moreover have "name = take (length name - 5) name @ drop (length name - 5) name" by simp
  ultimately show "\<exists>number. name = number @ ''.file'' \<and> number \<noteq> [] \<and> list_all is_digit number \<and>
      digits_value number = uint n"
    using digits_value_nonneg [of "take (length name - 5) name"]
    by (intro exI [of _ "take (length name - 5) name"]) (auto simp: uint_word_of_int)
qed

theorem file_id_roundtrip_witness:
  "parse_file_id ''42.file'' = Some 42 \<and>
   (\<exists>number. ''42.file'' = number @ ''.file'' \<and> digits_value number = uint (42 :: u64))"
proof -
  have "parse_file_id ''42.file'' = Some 42"
    by (simp add: parse_file_id_def is_digit_def digits_value_def)
  with file_id_roundtrip [of 42 "''42.file''" 42] show ?thesis by blast
qed

text \<open>Ids derived from a path have the top bit set, so they never meet the id of a numeric name
  below \<open>2 ^ 63\<close>.\<close>

lemma stable_path_id_high: "2 ^ 63 \<le> stable_path_id name"
proof -
  have "bit (stable_path_id name) 63" by (simp add: stable_path_id_def Let_def bit_simps)
  then have "bit (unat (stable_path_id name)) 63" by (simp add: bit_unsigned_iff)
  then have "odd (unat (stable_path_id name) div 2 ^ 63)" unfolding bit_iff_odd .
  then have "\<not> unat (stable_path_id name) < 2 ^ 63" by (metis div_less even_zero)
  then show ?thesis by (simp add: word_le_unat)
qed

section \<open>Manifest comparison\<close>

definition entries_match :: "T_ManifestEntry \<Rightarrow> T_ManifestEntry \<Rightarrow> bool" where
  "entries_match s r \<longleftrightarrow> manifest_entries_same_identity s r \<and> manifest_entries_same_content s r"

lemma diff_stream_step:
  assumes "diff_stream sid (s # ss) (r # rs) = Inr d"
  shows "(entries_match s r \<and> diff_stream sid ss rs = Inr d) \<or>
    (manifest_entries_same_identity s r \<and> me_kind s \<noteq> DIRECTORY \<and> me_kind s \<noteq> SYMLINK \<and>
     me_size r < me_size s \<and>
     d = Some \<lparr>ss_stream_id = sid, ss_start_file_id = me_file_id s, ss_start_offset = me_size r,
       ss_start_action = RESUME_EXISTING\<rparr>)"
proof -
  have id: "manifest_entries_same_identity s r" using assms by (rule_tac ccontr) simp
  then have kind: "me_kind s = me_kind r" by (simp add: manifest_entries_same_identity_def)
  show ?thesis
  proof (cases "me_kind s = DIRECTORY \<or> me_kind s = SYMLINK")
    case True
    then have "manifest_entries_same_content s r" using assms id by (rule_tac ccontr) simp
    with assms id True show ?thesis by (simp add: entries_match_def)
  next
    case False
    have le: "\<not> me_size s < me_size r" using assms id False by (rule_tac notI) simp
    show ?thesis
    proof (cases "me_size r < me_size s")
      case True
      with assms id False le show ?thesis by simp
    next
      case less: False
      have ck: "checksums_equal (me_checksum s) (me_checksum r)"
        using assms id False le less by (rule_tac ccontr) (auto simp: checksums_equal_def)
      then have "entries_match s r"
        using id kind False le less
        by (simp add: entries_match_def manifest_entries_same_content_def)
      moreover have "diff_stream sid ss rs = Inr d"
        using assms id False le less ck by (simp add: checksums_equal_def)
      ultimately show ?thesis by simp
    qed
  qed
qed

lemma diff_stream_match:
  assumes "entries_match s r"
  shows "diff_stream sid (s # ss) (r # rs) = diff_stream sid ss rs"
proof -
  from assms have id: "manifest_entries_same_identity s r" and ct: "manifest_entries_same_content s r"
    by (simp_all add: entries_match_def)
  show ?thesis
  proof (cases "me_kind s = DIRECTORY \<or> me_kind s = SYMLINK")
    case True
    then show ?thesis using id ct by simp
  next
    case False
    then have "me_size s = me_size r" "checksums_equal (me_checksum s) (me_checksum r)"
      using ct by (auto simp: manifest_entries_same_content_def split: if_splits)
    then show ?thesis using id False by (simp add: checksums_equal_def)
  qed
qed

lemma diff_stream_None:
  "diff_stream sid ss rs = Inr None \<longleftrightarrow>
     length ss \<le> length rs \<and> (\<forall>i < length ss. entries_match (ss ! i) (rs ! i))"
proof (induction ss arbitrary: rs)
  case Nil
  then show ?case by simp
next
  case (Cons s ss)
  show ?case
  proof (cases rs)
    case Nil
    then show ?thesis by simp
  next
    case (Cons r rs')
    have step: "diff_stream sid (s # ss) (r # rs') = Inr None \<longleftrightarrow>
        entries_match s r \<and> diff_stream sid ss rs' = Inr None"
      using diff_stream_step [of sid s ss r rs' None] diff_stream_match [of s r sid ss rs']
      by (auto simp del: diff_stream.simps)
    show ?thesis
      unfolding Cons step Cons.IH by (simp add: All_less_Suc2 del: diff_stream.simps) blast
  qed
qed

lemma diff_stream_Some:
  assumes "diff_stream sid ss rs = Inr (Some st)"
  shows "\<exists>i < length ss. i \<le> length rs \<and> (\<forall>j < i. entries_match (ss ! j) (rs ! j)) \<and>
    ss_stream_id st = sid \<and> ss_start_file_id st = me_file_id (ss ! i) \<and>
    (if i = length rs then ss_start_action st = CREATE_MISSING \<and> ss_start_offset st = 0
     else manifest_entries_same_identity (ss ! i) (rs ! i) \<and>
       me_size (rs ! i) < me_size (ss ! i) \<and>
       ss_start_action st = RESUME_EXISTING \<and> ss_start_offset st = me_size (rs ! i))"
  using assms
proof (induction ss arbitrary: rs)
  case Nil
  then show ?case by simp
next
  case (Cons s ss)
  show ?case
  proof (cases rs)
    case Nil
    with Cons.prems show ?thesis by (intro exI [of _ 0]) auto
  next
    case (Cons r rs')
    from diff_stream_step [OF Cons.prems [unfolded Cons]] show ?thesis
    proof (elim disjE conjE)
      assume m: "entries_match s r" and "diff_stream sid ss rs' = Inr (Some st)"
      from Cons.IH [OF this(2)] obtain i where i: "i < length ss" "i \<le> length rs'"
          "\<forall>j < i. entries_match (ss ! j) (rs' ! j)" "ss_stream_id st = sid"
          "ss_start_file_id st = me_file_id (ss ! i)"
          "if i = length rs' then ss_start_action st = CREATE_MISSING \<and> ss_start_offset st = 0
           else manifest_entries_same_identity (ss ! i) (rs' ! i) \<and>
             me_size (rs' ! i) < me_size (ss ! i) \<and>
             ss_start_action st = RESUME_EXISTING \<and> ss_start_offset st = me_size (rs' ! i)"
        by blast
      then show ?thesis using m Cons by (intro exI [of _ "Suc i"]) (simp add: All_less_Suc2)
    qed (use Cons in \<open>intro exI [of _ 0], simp\<close>)
  qed
qed

text \<open>C33: The comparison of manifests is exact. It reports "in sync" if and only if the receiver has
  an identical entry (same id, kind and name; same link target; same size and checksum) for every
  entry of the sender, position by position; otherwise, unless it throws, it starts at the first
  entry that differs: a missing entry is created, a shorter file resumed at the receiver's size.\<close>

theorem diff_stream_correct:
  "(diff_stream sid sender receiver = Inr None \<longleftrightarrow>
      length sender \<le> length receiver \<and>
      list_all2 entries_match sender (take (length sender) receiver)) \<and>
   (diff_stream sid sender receiver = Inr (Some st) \<longrightarrow>
      (\<exists>i < length sender. i \<le> length receiver \<and>
        list_all2 entries_match (take i sender) (take i receiver) \<and>
        ss_stream_id st = sid \<and> ss_start_file_id st = me_file_id (sender ! i) \<and>
        (if i = length receiver then ss_start_action st = CREATE_MISSING \<and> ss_start_offset st = 0
         else manifest_entries_same_identity (sender ! i) (receiver ! i) \<and>
           me_size (receiver ! i) < me_size (sender ! i) \<and>
           ss_start_action st = RESUME_EXISTING \<and> ss_start_offset st = me_size (receiver ! i))))"
proof (intro conjI impI)
  show "diff_stream sid sender receiver = Inr None \<longleftrightarrow>
      length sender \<le> length receiver \<and>
      list_all2 entries_match sender (take (length sender) receiver)"
    unfolding diff_stream_None by (auto simp: list_all2_conv_all_nth)
next
  assume "diff_stream sid sender receiver = Inr (Some st)"
  from diff_stream_Some [OF this] obtain i where i: "i < length sender" "i \<le> length receiver"
      "\<forall>j < i. entries_match (sender ! j) (receiver ! j)"
      and rest: "ss_stream_id st = sid \<and> ss_start_file_id st = me_file_id (sender ! i) \<and>
        (if i = length receiver then ss_start_action st = CREATE_MISSING \<and> ss_start_offset st = 0
         else manifest_entries_same_identity (sender ! i) (receiver ! i) \<and>
           me_size (receiver ! i) < me_size (sender ! i) \<and>
           ss_start_action st = RESUME_EXISTING \<and> ss_start_offset st = me_size (receiver ! i))"
    by blast
  have "list_all2 entries_match (take i sender) (take i receiver)"
    using i by (simp add: list_all2_conv_all_nth)
  with i rest show "\<exists>i < length sender. i \<le> length receiver \<and>
        list_all2 entries_match (take i sender) (take i receiver) \<and>
        ss_stream_id st = sid \<and> ss_start_file_id st = me_file_id (sender ! i) \<and>
        (if i = length receiver then ss_start_action st = CREATE_MISSING \<and> ss_start_offset st = 0
         else manifest_entries_same_identity (sender ! i) (receiver ! i) \<and>
           me_size (receiver ! i) < me_size (sender ! i) \<and>
           ss_start_action st = RESUME_EXISTING \<and> ss_start_offset st = me_size (receiver ! i))"
    by blast
qed

definition sample_entry :: "u64 \<Rightarrow> u64 \<Rightarrow> T_ManifestEntry" where
  "sample_entry i n = \<lparr>me_file_id = i, me_seq = i, me_kind = REGULAR_FILE, me_name = file_name_for_id i,
     me_link_target = [], me_size = n, me_checksum = default_checksum\<rparr>"

theorem diff_stream_correct_witness:
  "\<exists>i. me_file_id ([sample_entry 1 10, sample_entry 2 9] ! i) = 2 \<and>
     me_size ([sample_entry 1 10, sample_entry 2 5] ! i) < me_size ([sample_entry 1 10, sample_entry 2 9] ! i)"
proof -
  have "diff_stream 4 [sample_entry 1 10, sample_entry 2 9] [sample_entry 1 10, sample_entry 2 5] =
      Inr (Some \<lparr>ss_stream_id = 4, ss_start_file_id = 2, ss_start_offset = 5,
        ss_start_action = RESUME_EXISTING\<rparr>)"
    by (simp add: sample_entry_def manifest_entries_same_identity_def)
  from conjunct2 [OF diff_stream_correct, rule_format, OF this]
  obtain i where "me_file_id ([sample_entry 1 10, sample_entry 2 9] ! i) = 2"
      "me_size ([sample_entry 1 10, sample_entry 2 5] ! i) < me_size ([sample_entry 1 10, sample_entry 2 9] ! i)"
    by (auto split: if_splits)
  then show ?thesis by blast
qed

section \<open>Manifest scan\<close>

lemma manifest_less_key: "manifest_less l r \<longleftrightarrow> manifest_key l < manifest_key r"
  by (auto simp: manifest_less_def manifest_key_def)

lemma entry_of_node_name:
  "entry_of_node sys fs root len None rel n = Inr found \<Longrightarrow> \<exists>e. found = Some e \<and> me_name e = join_slash rel"
  by (cases n) (auto simp: entry_of_node_def Let_def split: sum.splits)

definition scan_visible :: "path \<Rightarrow> string list \<Rightarrow> path \<Rightarrow> bool" where
  "scan_visible dir excluded p \<longleftrightarrow>
     is_prefix dir p \<and> drop (length dir) p \<noteq> [] \<and> \<not> scan_skips excluded (drop (length dir) p)"

lemma scan_entries_names:
  "scan_entries sys fs root dir len excluded None l = Inr es \<Longrightarrow>
     map me_name es = map (\<lambda>(p, n). join_slash (drop (length dir) p)) (filter (\<lambda>(p, n). scan_visible dir excluded p) l)"
proof (induction l arbitrary: es)
  case Nil
  then show ?case by simp
next
  case (Cons x l)
  obtain p n where x: "x = (p, n)" by (cases x)
  show ?case
  proof (cases "scan_visible dir excluded p")
    case False
    then have "scan_entries sys fs root dir len excluded None l = Inr es"
      using Cons.prems x by (simp add: scan_visible_def Let_def split: if_splits)
    with Cons.IH False x show ?thesis by simp
  next
    case True
    with Cons.prems x obtain found es' where
        e: "entry_of_node sys fs root len None (drop (length dir) p) n = Inr found"
        and es': "scan_entries sys fs root dir len excluded None l = Inr es'"
        and es: "es = (case found of None \<Rightarrow> es' | Some entry \<Rightarrow> entry # es')"
      by (auto simp: scan_visible_def Let_def split: if_splits sum.splits)
    from entry_of_node_name [OF e] Cons.IH [OF es'] es True x show ?thesis by auto
  qed
qed

lemma length_assign_seqs [simp]: "length (assign_seqs es) = length es"
  by (simp add: assign_seqs_def)

lemma nth_assign_seqs: "i < length es \<Longrightarrow> assign_seqs es ! i = (es ! i)\<lparr>me_seq := word_of_nat (i + 1)\<rparr>"
  by (simp add: assign_seqs_def nth_enumerate_eq)

lemma unat_one_plus: "i < 2 ^ 64 - 1 \<Longrightarrow> unat (1 + word_of_nat i :: u64) = Suc i"
  using unat_word_of_nat_lt [of "Suc i", where ?'a = 64] by simp

lemma assign_seqs_seq:
  "length es < 2 ^ 64 - 1 \<Longrightarrow> map (\<lambda>e. unat (me_seq e)) (assign_seqs es) = [1..<Suc (length es)]"
  by (rule nth_equalityI) (simp_all add: nth_assign_seqs unat_one_plus del: upt_Suc)

lemma assign_seqs_keys: "map manifest_key (assign_seqs es) = map manifest_key es"
  "map me_name (assign_seqs es) = map me_name es"
  by (auto intro!: nth_equalityI simp: nth_assign_seqs manifest_key_def legacy_numeric_def)

lemma seq_sort_id:
  assumes "length es < 2 ^ 64 - 1"
  shows "sort_key seq_key (assign_seqs es) = assign_seqs es"
proof (rule sort_key_id_if_sorted)
  have "unat (me_seq (assign_seqs es ! i)) = Suc i" if "i < length es" for i
    using that assms by (simp add: nth_assign_seqs unat_one_plus)
  then show "sorted (map seq_key (assign_seqs es))"
    by (auto simp: sorted_iff_nth_mono_less seq_key_def word_lt_unat)
qed


lemma small_checksum:
  assumes "extend_laws sys" and "file_at fs p = Some b" and "\<not> sy_fails sys IO_open_read p"
    and "length b < 2 ^ 63"
  shows "\<exists>c. make_crc32c_range_checksum sys fs p len = Inr c"
proof -
  define size where "size = file_size_or_zero fs p"
  define n where "n = min size len"
  have size: "unat size = length b"
    using assms(2,4) by (simp add: size_def file_size_or_zero_def unat_of_nat)
  have le: "unat n \<le> unat size" by (simp add: n_def word_min_unat)
  then have "unat (size - n) + unat n = length b" "unat (size - n) < 2 ^ 63"
    using assms(4) size by (simp_all add: unat_sub word_le_unat)
  then have "\<exists>v. crc32c_file_range sys fs p (size - n) n = Inr v"
    using crc32c_file_range_ok [OF assms(1,2,3), of "size - n" n] by (simp add: word_lt_unat)
  then show ?thesis
    by (auto simp: make_crc32c_range_checksum_def Let_def simp flip: size_def n_def)
qed

definition sample_tree :: filesystem where
  "sample_tree = [([''r''], Dir), ([''r'', ''d''], Dir), ([''r'', ''d'', ''x''], Symlink ''../2.file''),
     ([''r'', ''2.file''], File []), ([''r'', ''.yisync_tmp''], Dir), ([''r'', ''.yisync_tmp'', ''t''], File []),
     ([''r'', ''1.file''], File []), ([''s''], Dir)]"


end
