(* ===== verification/Receiver.thy ===== *)
theory Receiver
  imports Sync
begin

text \<open>
  The append receiver \<open>T_ReceiverStream\<close> of src/src/receiver/yisync_receiver.cpp (lines 1 to 420)
  and the path helpers it shares with the chunked receiver. An operation takes the system
  environment, the file system and the receiver, and returns the optional nack or the exception,
  with the receiver and the file system after it. A write that fails writes nothing.
\<close>

section \<open>Message payloads and paths\<close>

definition raw_data_for_data_message :: "T_Data \<Rightarrow> Bytes result" where
  "raw_data_for_data_message d =
     (if da_compression d \<noteq> Compression_NONE
      then Inl (runtime_error ''compression is not implemented in this prototype'')
      else if length (da_payload d) \<noteq> unat (da_raw_len d)
      then Inl (runtime_error ''raw_len does not match uncompressed payload length'')
      else Inr (da_payload d))"

definition raw_data_for_chunk_message :: "T_Chunk \<Rightarrow> Bytes result" where
  "raw_data_for_chunk_message c =
     (if ch_compression c \<noteq> Compression_NONE
      then Inl (runtime_error ''compression is not implemented in this prototype'')
      else if length (ch_payload c) \<noteq> unat (ch_raw_len c)
      then Inl (runtime_error ''raw_len does not match uncompressed chunk payload length'')
      else Inr (ch_payload c))"

definition fsync_path :: "system \<Rightarrow> filesystem \<Rightarrow> path \<Rightarrow> string \<Rightarrow> unit result" where
  "fsync_path sys fs p what =
     (if sy_fails sys IO_open_read p \<or> node_at fs p = None
      then Inl (runtime_error (''failed to open '' @ what @ '' for fsync''))
      else if sy_fails sys IO_fsync p
      then Inl (runtime_error (''failed to fsync '' @ what @ '': '' @ sy_message sys IO_fsync p))
      else Inr ())"

definition fsync_directory :: "system \<Rightarrow> filesystem \<Rightarrow> path \<Rightarrow> unit result" where
  "fsync_directory sys fs p =
     (if sy_fails sys IO_open_read p \<or> node_at fs p \<noteq> Some Dir
      then Inl (runtime_error ''failed to open directory for fsync'')
      else if sy_fails sys IO_fsync p
      then Inl (runtime_error (''failed to fsync directory: '' @ sy_message sys IO_fsync p))
      else Inr ())"

definition is_safe_relative_name :: "string \<Rightarrow> bool" where
  "is_safe_relative_name name \<longleftrightarrow>
     (if name = [] then False
      else if is_absolute name then False
      else list_all (\<lambda>part. \<not> (part = [] \<or> part = ''.'' \<or> part = ''..'')) (path_parts name))"

definition kManifestChecksumRange :: u64 where
  "kManifestChecksumRange = 4 * 1024 * 1024"

definition path_from_manifest_or_legacy ::
  "system \<Rightarrow> filesystem \<Rightarrow> u64 \<Rightarrow> path \<Rightarrow> u64 \<Rightarrow> path result" where
  "path_from_manifest_or_legacy sys fs stream_id root file_id =
     (case scan_manifest_stream sys fs stream_id root kManifestChecksumRange [] [] of
        Inl e \<Rightarrow> Inl e
      | Inr manifest \<Rightarrow>
          (case List.find (\<lambda>e. me_file_id e = file_id) (ms_entries manifest) of
             Some e \<Rightarrow>
               if is_safe_relative_name (me_name e) then Inr (root @ path_parts (me_name e))
               else Inr (root @ path_parts (file_name_for_id file_id))
           | None \<Rightarrow> Inr (root @ path_parts (file_name_for_id file_id))))"

section \<open>State\<close>

record T_ReceiverStreamState =
  rs_active :: bool
  rs_expected_seq :: u64
  rs_current_file_id :: u64
  rs_current_offset :: u64
  rs_current_final_size :: u64
  rs_next_create_file_id :: u64

record T_ReceiverStream =
  rv_stream_id :: u64
  rv_root :: path
  rv_state :: T_ReceiverStreamState
  rv_current_kind :: EM_EntryKind
  rv_current_path :: path

definition path_for_name :: "T_ReceiverStream \<Rightarrow> string \<Rightarrow> path result" where
  "path_for_name self name =
     (if \<not> is_safe_relative_name name then Inl (runtime_error (''unsafe receiver path: '' @ name))
      else Inr (rv_root self @ path_parts name))"

definition path_for_file :: "system \<Rightarrow> filesystem \<Rightarrow> T_ReceiverStream \<Rightarrow> u64 \<Rightarrow> path result" where
  "path_for_file sys fs self file_id =
     path_from_manifest_or_legacy sys fs (rv_stream_id self) (rv_root self) file_id"

definition receiver_nack ::
  "T_ReceiverStream \<Rightarrow> u64 \<Rightarrow> u64 \<Rightarrow> u64 \<Rightarrow> u64 \<Rightarrow> EM_NackReason \<Rightarrow> string \<Rightarrow> T_Nack" where
  "receiver_nack self stream_id got_seq file_id offset reason detail =
     \<lparr>nk_stream_id = stream_id, nk_got_seq = got_seq,
      nk_expected_seq = rs_expected_seq (rv_state self), nk_file_id = file_id, nk_offset = offset,
      nk_expected_file_id = rs_current_file_id (rv_state self),
      nk_expected_offset = rs_current_offset (rv_state self), nk_reason = reason,
      nk_detail = detail\<rparr>"

section \<open>Reading the committed state from disk\<close>

text \<open>What \<open>refresh_committed_from_disk\<close> and \<open>reset_session_from_disk\<close> share: the state for an empty
  manifest and the state taken from the last entry.\<close>

definition empty_manifest_state :: "T_ReceiverStream \<Rightarrow> T_ReceiverStream" where
  "empty_manifest_state self =
     self\<lparr>rv_state := (rv_state self)\<lparr>rs_current_file_id := 0, rs_current_offset := 0,
            rs_current_final_size := 0, rs_next_create_file_id := 1\<rparr>,
          rv_current_kind := REGULAR_FILE, rv_current_path := []\<rparr>"

definition latest_entry_state :: "T_ReceiverStream \<Rightarrow> T_ManifestEntry \<Rightarrow> u64 \<Rightarrow> T_ReceiverStream" where
  "latest_entry_state self latest seq =
     self\<lparr>rv_state := (rv_state self)\<lparr>rs_current_file_id := me_file_id latest,
            rs_current_offset := me_size latest, rs_current_final_size := me_size latest,
            rs_expected_seq := seq, rs_next_create_file_id := me_file_id latest + 1\<rparr>,
          rv_current_kind := me_kind latest\<rparr>"

text \<open>An unsafe name of the last entry throws after the other fields are set.\<close>

definition refresh_committed_from_disk ::
  "system \<Rightarrow> filesystem \<Rightarrow> T_ReceiverStream \<Rightarrow> unit result \<times> T_ReceiverStream" where
  "refresh_committed_from_disk sys fs self0 =
     (let self = self0\<lparr>rv_state := (rv_state self0)\<lparr>rs_active := True\<rparr>\<rparr>
      in case scan_manifest_stream sys fs (rv_stream_id self) (rv_root self) kManifestChecksumRange [] [] of
           Inl e \<Rightarrow> (Inl e, self)
         | Inr manifest \<Rightarrow>
             if ms_entries manifest = [] then (Inr (), empty_manifest_state self)
             else
               let latest = last (ms_entries manifest);
                   self1 = latest_entry_state self latest
                     (max (rs_expected_seq (rv_state self)) (me_seq latest + 1))
               in case path_for_name self1 (me_name latest) of
                    Inl e \<Rightarrow> (Inl e, self1)
                  | Inr p \<Rightarrow> (Inr (), self1\<lparr>rv_current_path := p\<rparr>))"

definition reset_session_from_disk ::
  "system \<Rightarrow> filesystem \<Rightarrow> T_ReceiverStream \<Rightarrow> unit result \<times> T_ReceiverStream" where
  "reset_session_from_disk sys fs self0 =
     (let self = self0\<lparr>rv_state := \<lparr>rs_active = True, rs_expected_seq = 1, rs_current_file_id = 0,
            rs_current_offset = 0, rs_current_final_size = 0, rs_next_create_file_id = 0\<rparr>\<rparr>
      in case scan_manifest_stream sys fs (rv_stream_id self) (rv_root self) kManifestChecksumRange [] [] of
           Inl e \<Rightarrow> (Inl e, self)
         | Inr manifest \<Rightarrow>
             if ms_entries manifest = [] then (Inr (), empty_manifest_state self)
             else
               let latest = last (ms_entries manifest);
                   self1 = latest_entry_state self latest (me_seq latest + 1)
               in case path_for_name self1 (me_name latest) of
                    Inl e \<Rightarrow> (Inl e, self1)
                  | Inr p \<Rightarrow> (Inr (), self1\<lparr>rv_current_path := p\<rparr>))"

definition make_ReceiverStream ::
  "system \<Rightarrow> filesystem \<Rightarrow> u64 \<Rightarrow> path \<Rightarrow> T_ReceiverStream result \<times> filesystem" where
  "make_ReceiverStream sys fs stream_id root =
     (let self = \<lparr>rv_stream_id = stream_id, rv_root = root,
            rv_state = \<lparr>rs_active = False, rs_expected_seq = 1, rs_current_file_id = 0,
              rs_current_offset = 0, rs_current_final_size = 0, rs_next_create_file_id = 0\<rparr>,
            rv_current_kind = REGULAR_FILE, rv_current_path = []\<rparr>
      in case create_directories sys fs root of
           (Some message, fs1) \<Rightarrow> (Inl (filesystem_error message), fs1)
         | (None, fs1) \<Rightarrow>
             (case reset_session_from_disk sys fs1 self of
                (Inl e, _) \<Rightarrow> (Inl e, fs1)
              | (Inr _, self1) \<Rightarrow> (Inr self1, fs1)))"

definition receiver_heartbeat :: "T_ReceiverStream \<Rightarrow> u64 \<Rightarrow> u64 \<Rightarrow> T_Heartbeat" where
  "receiver_heartbeat self recv_window_bytes durable_offset =
     \<lparr>hb_stream_id = rv_stream_id self, hb_next_seq = rs_expected_seq (rv_state self),
      hb_file_id = rs_current_file_id (rv_state self), hb_offset = rs_current_offset (rv_state self),
      hb_durable_offset = durable_offset, hb_recv_window_bytes = recv_window_bytes,
      hb_received_chunks = [], hb_missing_ranges = []\<rparr>"

section \<open>CREATE\<close>

type_synonym receiver_outcome = "T_Nack option result \<times> T_ReceiverStream \<times> filesystem"

abbreviation create_nack :: "T_ReceiverStream \<Rightarrow> T_Create \<Rightarrow> u64 \<Rightarrow> EM_NackReason \<Rightarrow> string \<Rightarrow> T_Nack" where
  "create_nack self c offset reason detail \<equiv>
     receiver_nack self (cr_stream_id c) (cr_seq c) (cr_file_id c) offset reason detail"

text \<open>The check of the previous file; \<open>None\<close> lets the request pass.\<close>

definition check_prev_file :: "system \<Rightarrow> filesystem \<Rightarrow> T_ReceiverStream \<Rightarrow> T_Create \<Rightarrow> T_Nack option result" where
  "check_prev_file sys fs self c =
     (if cr_prev_file_id c = 0 then Inr None
      else case path_for_file sys fs self (cr_prev_file_id c) of
        Inl e \<Rightarrow> Inl e
      | Inr prev_path \<Rightarrow>
          (case fs_exists fs prev_path of
             Inl e \<Rightarrow> Inl e
           | Inr present \<Rightarrow>
               if \<not> present
               then Inr (Some (create_nack self c 0 PREV_FILE_INCOMPLETE ''previous file does not exist''))
               else if file_size_or_zero fs prev_path \<noteq> cr_prev_final_size c
               then Inr (Some (create_nack self c 0 PREV_FILE_INCOMPLETE ''previous file size mismatch''))
               else (case checksum_matches sys fs (cr_prev_checksum c) prev_path of
                       Inl e \<Rightarrow> Inl e
                     | Inr True \<Rightarrow> Inr None
                     | Inr False \<Rightarrow>
                         Inr (Some (create_nack self c 0 CHECKSUM_MISMATCH ''previous file checksum mismatch'')))))"

text \<open>Creating the entry itself, once its parent directories exist.\<close>

definition create_entry ::
  "system \<Rightarrow> filesystem \<Rightarrow> T_ReceiverStream \<Rightarrow> T_Create \<Rightarrow> path \<Rightarrow> T_Nack + filesystem" where
  "create_entry sys fs self c p =
     (if cr_kind c = DIRECTORY
      then case create_directory sys fs p of
             Inl m \<Rightarrow> Inl (create_nack self c 0 IO_ERROR (''failed to create directory: '' @ m))
           | Inr fs' \<Rightarrow> Inr fs'
      else if cr_kind c = SYMLINK
      then case create_symlink sys fs (cr_link_target c) p of
             Inl m \<Rightarrow> Inl (create_nack self c 0 IO_ERROR (''failed to create symlink: '' @ m))
           | Inr fs' \<Rightarrow> Inr fs'
      else case open_create sys fs p True of
             None \<Rightarrow> Inl (create_nack self c 0 IO_ERROR ''failed to create target file'')
           | Some (_, fs') \<Rightarrow> Inr fs')"

definition create_done :: "T_ReceiverStream \<Rightarrow> T_Create \<Rightarrow> path \<Rightarrow> T_ReceiverStream" where
  "create_done self c p =
     (let st = (rv_state self)\<lparr>rs_current_file_id := cr_file_id c, rs_current_offset := 0,
            rs_current_final_size := cr_final_size c, rs_next_create_file_id := cr_file_id c + 1\<rparr>;
          st' = (if cr_kind c \<noteq> REGULAR_FILE \<or> cr_final_size c = 0
                 then st\<lparr>rs_expected_seq := max (rs_expected_seq st) (cr_seq c + 1)\<rparr> else st)
      in self\<lparr>rv_state := st', rv_current_kind := cr_kind c, rv_current_path := p\<rparr>)"

definition apply_create ::
  "system \<Rightarrow> filesystem \<Rightarrow> T_ReceiverStream \<Rightarrow> T_Create \<Rightarrow> receiver_outcome" where
  "apply_create sys fs self c =
     (if \<not> rs_active (rv_state self) \<or> cr_stream_id c \<noteq> rv_stream_id self
      then (Inr (Some (create_nack self c 0 BAD_SESSION ''inactive or wrong stream'')), self, fs)
      else if cr_seq c < rs_expected_seq (rv_state self) then (Inr None, self, fs)
      else if cr_seq c > rs_expected_seq (rv_state self)
      then (Inr (Some (create_nack self c 0 BAD_SEQ ''future seq'')), self, fs)
      else if cr_kind c \<noteq> REGULAR_FILE \<and> cr_kind c \<noteq> DIRECTORY \<and> cr_kind c \<noteq> SYMLINK
      then (Inr (Some (create_nack self c 0 BAD_CREATE ''unsupported create entry kind'')), self, fs)
      else if \<not> is_safe_relative_name (cr_name c)
      then (Inr (Some (create_nack self c 0 BAD_CREATE ''unsafe target path'')), self, fs)
      else case check_prev_file sys fs self c of
        Inl e \<Rightarrow> (Inl e, self, fs)
      | Inr (Some n) \<Rightarrow> (Inr (Some n), self, fs)
      | Inr None \<Rightarrow>
          (let p = rv_root self @ path_parts (cr_name c)
           in case fs_exists fs p of
                Inl e \<Rightarrow> (Inl e, self, fs)
              | Inr True \<Rightarrow>
                  (Inr (Some (create_nack self c (file_size_or_zero fs p) FILE_EXISTS
                     ''target file already exists'')), self, fs)
              | Inr False \<Rightarrow>
                  (case create_directories sys fs (parent_path p) of
                     (Some m, fs1) \<Rightarrow>
                       (Inr (Some (create_nack self c 0 IO_ERROR
                          (''failed to create parent directories: '' @ m))), self, fs1)
                   | (None, fs1) \<Rightarrow>
                       (case create_entry sys fs1 self c p of
                          Inl n \<Rightarrow> (Inr (Some n), self, fs1)
                        | Inr fs2 \<Rightarrow> (Inr None, create_done self c p, fs2)))))"

section \<open>DATA\<close>

abbreviation data_nack :: "T_ReceiverStream \<Rightarrow> T_Data \<Rightarrow> EM_NackReason \<Rightarrow> string \<Rightarrow> T_Nack" where
  "data_nack self d reason detail \<equiv>
     receiver_nack self (da_stream_id d) (da_seq d) (da_file_id d) (da_offset d) reason detail"

definition append_resume_for_current_file :: "T_ReceiverStreamState \<Rightarrow> T_Data \<Rightarrow> bool" where
  "append_resume_for_current_file st d \<longleftrightarrow>
     da_file_id d = rs_current_file_id st \<and> da_seq d + 1 = rs_expected_seq st \<and>
     da_offset d = rs_current_offset st \<and> rs_current_offset st < da_final_size d"

definition restoring_final_size_from_resume :: "T_ReceiverStreamState \<Rightarrow> T_Data \<Rightarrow> bool" where
  "restoring_final_size_from_resume st d \<longleftrightarrow>
     da_seq d + 1 = rs_expected_seq st \<and> da_file_id d = rs_current_file_id st \<and>
     da_offset d = rs_current_offset st \<and> rs_current_final_size st = rs_current_offset st \<and>
     da_final_size d \<ge> rs_current_offset st"

definition data_done :: "T_ReceiverStream \<Rightarrow> T_Data \<Rightarrow> T_ReceiverStream" where
  "data_done self d =
     (let st = (rv_state self)\<lparr>rs_current_offset := da_offset d + ucast (da_raw_len d),
            rs_current_final_size := da_final_size d\<rparr>;
          st' = (if rs_current_offset st \<ge> rs_current_final_size st
                 then st\<lparr>rs_expected_seq := max (rs_expected_seq st) (da_seq d + 1)\<rparr> else st)
      in self\<lparr>rv_state := st'\<rparr>)"

text \<open>The checks of the payload and the append, for a target that exists and passed the checks
  on its position.\<close>

definition append_data ::
  "system \<Rightarrow> filesystem \<Rightarrow> T_ReceiverStream \<Rightarrow> T_Data \<Rightarrow> path \<Rightarrow> receiver_outcome" where
  "append_data sys fs self d p =
     (case raw_data_for_data_message d of
        Inl e \<Rightarrow> (Inr (Some (data_nack self d DECODE_ERROR (exn_what e))), self, fs)
      | Inr raw \<Rightarrow>
          if da_checksum_algo d \<noteq> CRC32C
          then (Inr (Some (data_nack self d BAD_CHECKSUM ''only CRC32C DATA checksum is implemented'')),
                self, fs)
          else if crc32c_bytes sys raw \<noteq> da_checksum d
          then (Inr (Some (data_nack self d BAD_CHECKSUM ''DATA checksum mismatch'')), self, fs)
          else case open_create sys fs p False of
            None \<Rightarrow> (Inr (Some (data_nack self d IO_ERROR ''failed to open target file'')), self, fs)
          | Some (q, fs1) \<Rightarrow>
              if sy_fails sys IO_write p
              then (Inr (Some (data_nack self d IO_ERROR ''failed to append target file'')), self, fs1)
              else (Inr None, data_done self d, append_to fs1 q raw))"

definition apply_data ::
  "system \<Rightarrow> filesystem \<Rightarrow> T_ReceiverStream \<Rightarrow> T_Data \<Rightarrow> receiver_outcome" where
  "apply_data sys fs self d =
     (let st = rv_state self
      in if \<not> rs_active st \<or> da_stream_id d \<noteq> rv_stream_id self
         then (Inr (Some (data_nack self d BAD_SESSION ''inactive or wrong stream'')), self, fs)
         else if da_seq d < rs_expected_seq st \<and> \<not> append_resume_for_current_file st d
         then (Inr None, self, fs)
         else if da_seq d > rs_expected_seq st
         then (Inr (Some (data_nack self d BAD_SEQ ''future seq'')), self, fs)
         else if da_file_id d \<noteq> rs_current_file_id st
         then (Inr (Some (data_nack self d BAD_FILE_ORDER ''wrong file id'')), self, fs)
         else if rv_current_kind self \<noteq> REGULAR_FILE
         then (Inr (Some (data_nack self d BAD_FILE_ORDER ''DATA target is not a regular file'')), self, fs)
         else case (if rv_current_path self = [] then path_for_file sys fs self (da_file_id d)
                    else Inr (rv_current_path self)) of
           Inl e \<Rightarrow> (Inl e, self, fs)
         | Inr p \<Rightarrow>
             (case fs_exists fs p of
                Inl e \<Rightarrow> (Inl e, self, fs)
              | Inr present \<Rightarrow>
                  if \<not> present
                  then (Inr (Some (data_nack self d BAD_OFFSET ''target file missing'')), self, fs)
                  else if da_offset d \<noteq> file_size_or_zero fs p
                  then (Inr (Some (data_nack self d BAD_OFFSET ''offset mismatch'')), self, fs)
                  else if da_raw_len d = 0
                  then (Inr (Some (data_nack self d DECODE_ERROR ''empty DATA'')), self, fs)
                  else if rs_current_final_size st \<noteq> 0 \<and> da_final_size d \<noteq> rs_current_final_size st
                     \<and> \<not> restoring_final_size_from_resume st d
                  then (Inr (Some (data_nack self d SIZE_CONFLICT ''final_size mismatch'')), self, fs)
                  else if da_offset d + ucast (da_raw_len d) > da_final_size d
                  then (Inr (Some (data_nack self d BAD_OFFSET ''DATA exceeds final_size'')), self, fs)
                  else append_data sys fs self d p))"

section \<open>DATA appends and nothing else\<close>

lemma open_create_existing:
  assumes "open_create sys fs p False = Some (q, fs1)" and "node_at fs p \<noteq> None"
  obtains b where "fs1 = fs" and "resolve fs p = Found q" and "fs_lookup fs q = Some (File b)"
    and "file_at fs p = Some b"
proof -
  from assms(2) obtain q' where q': "resolve fs p = Found q'"
    by (cases "resolve fs p") (simp_all add: node_at_def)
  have "\<exists>b. node_here fs q' = Some (File b) \<and> q' = q \<and> fs1 = fs"
    using assms(1) unfolding open_create_def q'
    by (simp split: if_split_asm option.split_asm node.split_asm)
  then obtain b where b: "node_here fs q' = Some (File b)" "q' = q" "fs1 = fs" by blast
  then have "fs_lookup fs q = Some (File b)" by (simp add: node_here_def split: if_splits)
  with that b q' show thesis by (simp add: file_at_def node_at_def)
qed

lemma append_data_cases:
  assumes "append_data sys fs self d p = (r, self', fs')" and "node_at fs p \<noteq> None"
  shows "(\<exists>n. r = Inr (Some n)) \<and> self' = self \<and> fs' = fs \<or>
    r = Inr None \<and> self' = data_done self d \<and>
    (\<exists>q b. resolve fs p = Found q \<and> fs_lookup fs q = Some (File b) \<and> file_at fs p = Some b \<and>
       fs' = AList.update q (File (b @ da_payload d)) fs) \<and>
    length (da_payload d) = unat (da_raw_len d) \<and> da_checksum_algo d = CRC32C \<and>
    crc32c_bytes sys (da_payload d) = da_checksum d"
proof (cases "raw_data_for_data_message d")
  case (Inl e)
  then show ?thesis using assms(1) by (auto simp: append_data_def)
next
  case (Inr raw)
  then have raw: "raw = da_payload d" "length raw = unat (da_raw_len d)"
    by (auto simp: raw_data_for_data_message_def split: if_splits)
  show ?thesis
  proof (cases "da_checksum_algo d = CRC32C \<and> crc32c_bytes sys raw = da_checksum d")
    case False
    then show ?thesis using assms(1) Inr by (auto simp: append_data_def split: if_splits)
  next
    case True
    show ?thesis
    proof (cases "open_create sys fs p False")
      case None
      then show ?thesis using assms(1) Inr True by (auto simp: append_data_def)
    next
      case (Some a)
      obtain q fs1 where a: "a = (q, fs1)" by (cases a)
      obtain b where b: "fs1 = fs" "resolve fs p = Found q" "fs_lookup fs q = Some (File b)"
          "file_at fs p = Some b"
        using Some a assms(2) by (blast elim: open_create_existing)
      then show ?thesis
        using assms(1) Inr True Some a raw
        by (auto simp: append_data_def append_to_def split: if_splits)
    qed
  qed
qed

lemma exists_node: "fs_exists fs p = Inr present \<Longrightarrow> present \<longleftrightarrow> node_at fs p \<noteq> None"
  by (auto simp: fs_exists_def split: if_splits)

text \<open>The guards of \<open>apply_data\<close>, in one place: either the message changes nothing, or it reaches
  \<open>append_data\<close> with every check on its position passed.\<close>

definition data_accepted :: "filesystem \<Rightarrow> T_ReceiverStream \<Rightarrow> T_Data \<Rightarrow> path \<Rightarrow> bool" where
  "data_accepted fs self d p \<longleftrightarrow>
     (let st = rv_state self
      in rs_active st \<and> da_stream_id d = rv_stream_id self \<and>
         (da_seq d = rs_expected_seq st \<or> append_resume_for_current_file st d) \<and>
         da_file_id d = rs_current_file_id st \<and> rv_current_kind self = REGULAR_FILE \<and>
         node_at fs p \<noteq> None \<and> da_offset d = file_size_or_zero fs p \<and> da_raw_len d \<noteq> 0 \<and>
         (rs_current_final_size st = 0 \<or> da_final_size d = rs_current_final_size st \<or>
          restoring_final_size_from_resume st d) \<and>
         da_offset d + ucast (da_raw_len d) \<le> da_final_size d)"

lemma apply_data_cases:
  assumes "apply_data sys fs self d = (r, self', fs')"
  shows "self' = self \<and> fs' = fs \<or>
    (\<exists>p. data_accepted fs self d p \<and> append_data sys fs self d p = (r, self', fs'))"
proof -
  let ?st = "rv_state self"
  show ?thesis
  proof (cases "rs_active ?st \<and> da_stream_id d = rv_stream_id self \<and>
      \<not> (da_seq d < rs_expected_seq ?st \<and> \<not> append_resume_for_current_file ?st d) \<and>
      \<not> da_seq d > rs_expected_seq ?st \<and> da_file_id d = rs_current_file_id ?st \<and>
      rv_current_kind self = REGULAR_FILE")
    case False
    then show ?thesis using assms by (simp add: apply_data_def Let_def split: if_splits)
  next
    case guards: True
    show ?thesis
    proof (cases "if rv_current_path self = [] then path_for_file sys fs self (da_file_id d)
                  else Inr (rv_current_path self)")
      case (Inl e)
      then show ?thesis using assms guards by (simp add: apply_data_def Let_def)
    next
      case path: (Inr p)
      show ?thesis
      proof (cases "fs_exists fs p")
        case (Inl e)
        then show ?thesis using assms guards path by (simp add: apply_data_def Let_def)
      next
        case (Inr present)
        have seq: "da_seq d = rs_expected_seq ?st \<or> append_resume_for_current_file ?st d"
          using guards by (auto simp: not_less)
        show ?thesis
        proof (cases "data_accepted fs self d p")
          case True
          then have "append_data sys fs self d p = (r, self', fs')"
            using assms guards path Inr exists_node [OF Inr]
            by (simp add: apply_data_def Let_def data_accepted_def not_less split: if_splits)
          with True show ?thesis by blast
        next
          case False
          then show ?thesis using assms guards path Inr exists_node [OF Inr] seq
            by (auto simp: apply_data_def Let_def data_accepted_def not_less split: if_splits)
        qed
      qed
    qed
  qed
qed

lemma apply_data_effect:
  assumes "apply_data sys fs self d = (r, self', fs')"
  shows "self' = self \<and> fs' = fs \<or>
    r = Inr None \<and> self' = data_done self d \<and>
    (\<exists>p q b. data_accepted fs self d p \<and> resolve fs p = Found q \<and> fs_lookup fs q = Some (File b) \<and>
       file_at fs p = Some b \<and> fs' = AList.update q (File (b @ da_payload d)) fs) \<and>
    length (da_payload d) = unat (da_raw_len d) \<and> da_checksum_algo d = CRC32C \<and>
    crc32c_bytes sys (da_payload d) = da_checksum d"
  using apply_data_cases [OF assms]
proof (elim disjE exE conjE)
  fix p assume acc: "data_accepted fs self d p" and app: "append_data sys fs self d p = (r, self', fs')"
  from acc have "node_at fs p \<noteq> None" by (simp add: data_accepted_def Let_def)
  from append_data_cases [OF app this] acc show ?thesis by blast
qed simp

text \<open>C7: DATA only ever appends. Whatever DATA message arrives, either nothing changes (in particular
  on every nack and every exception), or its payload, whose CRC32C and length match the message,
  is appended to one regular file at exactly the announced offset, which is the size of that
  file, without passing the announced final size, and the receiver's offset follows.\<close>

theorem data_append_only:
  assumes "apply_data sys fs self d = (r, self', fs')"
  shows "(self' = self \<and> fs' = fs) \<or>
    (r = Inr None \<and>
     (\<exists>q b. fs_lookup fs q = Some (File b) \<and> fs' = AList.update q (File (b @ da_payload d)) fs \<and>
        da_offset d = word_of_nat (length b)) \<and>
     length (da_payload d) = unat (da_raw_len d) \<and> da_payload d \<noteq> [] \<and>
     crc32c_bytes sys (da_payload d) = da_checksum d \<and>
     da_offset d + ucast (da_raw_len d) \<le> da_final_size d \<and>
     da_file_id d = rs_current_file_id (rv_state self) \<and>
     rs_current_offset (rv_state self') = da_offset d + ucast (da_raw_len d))"
  using apply_data_effect [OF assms]
proof (elim disjE exE conjE)
  fix p q b
  assume *: "data_accepted fs self d p" "file_at fs p = Some b" "r = Inr None" "self' = data_done self d"
      "fs_lookup fs q = Some (File b)" "fs' = AList.update q (File (b @ da_payload d)) fs"
      "length (da_payload d) = unat (da_raw_len d)" "crc32c_bytes sys (da_payload d) = da_checksum d"
  then have "da_offset d = word_of_nat (length b)" "da_raw_len d \<noteq> 0"
      "da_offset d + ucast (da_raw_len d) \<le> da_final_size d" "da_file_id d = rs_current_file_id (rv_state self)"
    by (auto simp: data_accepted_def Let_def file_size_or_zero_def)
  moreover from this(2) have "da_payload d \<noteq> []" using *(7) by (auto simp: unat_eq_0)
  moreover have "rs_current_offset (rv_state self') = da_offset d + ucast (da_raw_len d)"
    using *(4) by (simp add: data_done_def Let_def)
  ultimately show ?thesis using * by blast
qed simp

section \<open>A complete append transfer\<close>

text \<open>The DATA messages a sender emits for the blocks of a file, in order.\<close>

definition data_message :: "system \<Rightarrow> u64 \<Rightarrow> u64 \<Rightarrow> u64 \<Rightarrow> nat \<Rightarrow> nat \<Rightarrow> Bytes \<Rightarrow> T_Data" where
  "data_message sys stream_id seq file_id final_size offset block =
     \<lparr>da_stream_id = stream_id, da_seq = seq, da_file_id = file_id, da_offset = word_of_nat offset,
      da_final_size = word_of_nat final_size, da_raw_len = word_of_nat (length block),
      da_compression = Compression_NONE, da_checksum_algo = CRC32C,
      da_checksum = crc32c_bytes sys block, da_payload = block\<rparr>"

fun data_messages :: "system \<Rightarrow> u64 \<Rightarrow> u64 \<Rightarrow> u64 \<Rightarrow> nat \<Rightarrow> nat \<Rightarrow> Bytes list \<Rightarrow> T_Data list" where
  "data_messages sys stream_id seq file_id final_size offset [] = []"
| "data_messages sys stream_id seq file_id final_size offset (block # blocks) =
     data_message sys stream_id seq file_id final_size offset block #
     data_messages sys stream_id seq file_id final_size (offset + length block) blocks"

fun deliver_data ::
  "system \<Rightarrow> T_Data list \<Rightarrow> T_ReceiverStream \<times> filesystem \<Rightarrow>
     T_Nack option result list \<times> T_ReceiverStream \<times> filesystem" where
  "deliver_data sys [] (self, fs) = ([], self, fs)"
| "deliver_data sys (d # ds) (self, fs) =
     (let (r, self1, fs1) = apply_data sys fs self d;
          (rs, self2, fs2) = deliver_data sys ds (self1, fs1)
      in (r # rs, self2, fs2))"

definition reliable :: "system \<Rightarrow> bool" where
  "reliable sys \<longleftrightarrow> (\<forall>op p. \<not> sy_fails sys op p)"

definition receiving :: "T_ReceiverStream \<Rightarrow> filesystem \<Rightarrow> path \<Rightarrow> u64 \<Rightarrow> u64 \<Rightarrow> u64 \<Rightarrow> nat \<Rightarrow> Bytes \<Rightarrow> bool" where
  "receiving self fs p stream_id seq file_id fsize bytes \<longleftrightarrow>
     rs_active (rv_state self) \<and> rv_stream_id self = stream_id \<and>
     rs_expected_seq (rv_state self) = seq \<and> rs_current_file_id (rv_state self) = file_id \<and>
     rs_current_final_size (rv_state self) = word_of_nat fsize \<and>
     rv_current_kind self = REGULAR_FILE \<and> rv_current_path self = p \<and>
     plain fs p \<and> fs_lookup fs p = Some (File bytes)"

lemma apply_next_block:
  assumes "receiving self fs p sid seq fid fsize bytes" and "reliable sys"
    and "block \<noteq> []" and "length block < 2 ^ 32" and "length bytes + length block \<le> fsize"
    and "fsize < 2 ^ 63"
  shows "apply_data sys fs self (data_message sys sid seq fid fsize (length bytes) block) =
      (Inr None, data_done self (data_message sys sid seq fid fsize (length bytes) block),
       AList.update p (File (bytes @ block)) fs)"
proof -
  let ?d = "data_message sys sid seq fid fsize (length bytes) block"
  note r = assms(1) [unfolded receiving_def]
  have plain: "plain fs p" and fl: "fs_lookup fs p = Some (File bytes)" using r by auto
  note at = file_at_plain [OF plain fl] and p = plainD(1) [OF plain]
  have nolink: "fs_lookup fs p \<noteq> Some (Symlink t)" for t using fl by simp
  have len: "unat (word_of_nat (length block) :: u32) = length block"
    using assms(4) by (simp add: unat_of_nat)
  have nz: "(word_of_nat (length block) :: u32) \<noteq> 0" using assms(3) len by (metis length_0_conv unat_0)
  have sum: "unat (word_of_nat (length bytes) + ucast (word_of_nat (length block) :: u32) :: u64) =
      length bytes + length block"
    using assms(5,6) len by (subst unat_plus_no_wrap) (simp_all add: unat_of_nat unat_ucast_u32)
  have le: "(word_of_nat (length bytes) + ucast (word_of_nat (length block) :: u32) :: u64) \<le> word_of_nat fsize"
    using assms(5,6) sum by (simp add: word_le_unat unat_of_nat)
  have "append_data sys fs self ?d p = (Inr None, data_done self ?d, AList.update p (File (bytes @ block)) fs)"
    using assms(2) resolve_plain(1) [OF plain nolink] fl p len
    by (simp add: append_data_def raw_data_for_data_message_def data_message_def reliable_def
        open_create_def node_here_def append_to_def)
  then show ?thesis
    using r p at nz le exists_plain [OF plain nolink] fl
    by (simp add: apply_data_def Let_def data_message_def file_size_or_zero_def not_less)
qed

lemma data_done_receiving:
  assumes "receiving self fs p sid seq fid fsize bytes" and "length block < 2 ^ 32"
    and "length bytes + length block \<le> fsize" and "fsize < 2 ^ 63" and "seq \<noteq> UINT64_MAX"
  shows "receiving (data_done self (data_message sys sid seq fid fsize (length bytes) block))
      (AList.update p (File (bytes @ block)) fs) p sid
      (if length bytes + length block = fsize then seq + 1 else seq) fid fsize (bytes @ block)"
    (is "receiving ?self ?fs p sid _ fid fsize _")
    and "rs_current_offset (rv_state (data_done self (data_message sys sid seq fid fsize (length bytes) block))) =
      word_of_nat (length bytes + length block)"
proof -
  have len: "unat (word_of_nat (length block) :: u32) = length block"
    using assms(2) by (simp add: unat_of_nat)
  have sum: "word_of_nat (length bytes) + ucast (word_of_nat (length block) :: u32) =
      (word_of_nat (length bytes + length block) :: u64)"
    using len by (metis of_nat_add of_nat_unat)
  have ge: "(word_of_nat fsize \<le> (word_of_nat (length bytes + length block) :: u64)) \<longleftrightarrow>
      length bytes + length block = fsize"
    using assms(3,4) unfolding word_le_unat by (auto simp: unat_word_of_nat_lt simp del: of_nat_add)
  have max: "max seq (seq + 1) = seq + 1" using assms(5) by (simp add: max_def word_le_unat unat_u64_succ)
  have plain: "plain ?fs p"
    using assms(1) by (auto simp: receiving_def intro: plain_update)
  show "receiving ?self ?fs p sid (if length bytes + length block = fsize then seq + 1 else seq) fid fsize (bytes @ block)"
    using assms(1) plain ge max
    by (simp add: receiving_def data_done_def data_message_def Let_def sum del: of_nat_add)
  show "rs_current_offset (rv_state ?self) = word_of_nat (length bytes + length block)"
    by (simp add: data_done_def data_message_def Let_def sum del: of_nat_add)
qed

lemma deliver_blocks:
  assumes "receiving self fs p sid seq fid fsize bytes" and "reliable sys"
    and "list_all (\<lambda>b. b \<noteq> [] \<and> length b < 2 ^ 32) blocks"
    and "length bytes + length (concat blocks) = fsize" and "fsize < 2 ^ 63" and "seq \<noteq> UINT64_MAX"
  shows "\<exists>self' fs'.
    deliver_data sys (data_messages sys sid seq fid fsize (length bytes) blocks) (self, fs) =
      (replicate (length blocks) (Inr None), self', fs') \<and>
    receiving self' fs' p sid (if blocks = [] then seq else seq + 1) fid fsize (bytes @ concat blocks) \<and>
    (\<forall>q. q \<noteq> p \<longrightarrow> fs_lookup fs' q = fs_lookup fs q)"
  using assms(1,3,4)
proof (induction blocks arbitrary: self fs bytes)
  case Nil
  then show ?case by simp
next
  case (Cons b blocks)
  let ?d = "data_message sys sid seq fid fsize (length bytes) b"
  have b: "b \<noteq> []" "length b < 2 ^ 32" "length bytes + length b \<le> fsize"
    using Cons.prems by auto
  note step = apply_next_block [OF Cons.prems(1) assms(2) b assms(5)]
  note after = data_done_receiving [OF Cons.prems(1) b(2,3) assms(5,6), of sys]
  show ?case
  proof (cases "blocks = []")
    case True
    then have "length bytes + length b = fsize" using Cons.prems(3) by simp
    with True step after show ?thesis by simp
  next
    case False
    then obtain c cs where "blocks = c # cs" by (cases blocks) auto
    then have "length bytes + length b \<noteq> fsize" using Cons.prems(2,3) by auto
    then have r: "receiving (data_done self ?d) (AList.update p (File (bytes @ b)) fs) p sid seq fid fsize (bytes @ b)"
      using after(1) by simp
    have "list_all (\<lambda>b. b \<noteq> [] \<and> length b < 2 ^ 32) blocks"
        "length (bytes @ b) + length (concat blocks) = fsize" using Cons.prems by auto
    from Cons.IH [OF r this] obtain self' fs' where
        "deliver_data sys (data_messages sys sid seq fid fsize (length bytes + length b) blocks)
          (data_done self ?d, AList.update p (File (bytes @ b)) fs) =
          (replicate (length blocks) (Inr None), self', fs')"
        "receiving self' fs' p sid (seq + 1) fid fsize (bytes @ b @ concat blocks)"
        "\<forall>q. q \<noteq> p \<longrightarrow> fs_lookup fs' q = fs_lookup fs q"
      using False by auto
    then show ?thesis using step by simp
  qed
qed

lemma safe_name_proper: "is_safe_relative_name name \<Longrightarrow> list_all proper (path_parts name)"
  by (auto simp: is_safe_relative_name_def proper_def list_all_iff split: if_splits)

lemma create_regular_file:
  assumes "rs_active (rv_state self)" and "cr_stream_id c = rv_stream_id self"
    and "cr_seq c = rs_expected_seq (rv_state self)" and "cr_kind c = REGULAR_FILE"
    and "is_safe_relative_name (cr_name c)" and "check_prev_file sys fs self c = Inr None"
    and "fs_ok fs" and "free_path fs p" and "p = rv_root self @ path_parts (cr_name c)" and "reliable sys"
  shows "\<exists>fs'. apply_create sys fs self c = (Inr None, create_done self c p, fs') \<and>
    plain fs' p \<and> fs_lookup fs' p = Some (File []) \<and>
    (\<forall>q n. fs_lookup fs q = Some n \<longrightarrow> fs_lookup fs' q = Some n)"
proof -
  note free = free_pathD [OF assms(8)]
  have ex: "fs_exists fs p = Inr False"
    using resolve_no_links(3) [OF assms(7) free(5,2,1)] free(3) by simp
  obtain fs1 where fs1: "create_directories sys fs (parent_path p) = (None, fs1)"
    using create_parents_succeeds [of sys, OF _ assms(8)] assms(10) by (auto simp: reliable_def)
  note par = create_parents [OF fs1 free(5,2,1)]
  have none: "fs_lookup fs1 p = None" using par(2) free(3) by simp
  have opened: "open_create sys fs1 p True = Some (p, AList.update p (File []) fs1)"
    using resolve_plain(1) [OF par(1)] none assms(10) by (simp add: open_create_def reliable_def)
  have "apply_create sys fs self c = (Inr None, create_done self c p, AList.update p (File []) fs1)"
    using assms(1-6) ex fs1 opened by (simp add: apply_create_def create_entry_def Let_def flip: assms(9))
  moreover have "plain (AList.update p (File []) fs1) p" using par(1) none by (simp add: plain_update)
  moreover have "fs_lookup (AList.update p (File []) fs1) q = Some n" if "fs_lookup fs q = Some n" for q n
    using par(3) [OF that] that free(3) by auto
  ultimately show ?thesis by auto
qed

text \<open>C5: An append transfer reproduces the file. When a CREATE for a free, safe path is followed by
  the DATA messages of the file's blocks in order, on a system whose file operations succeed, no
  message is refused, the new file holds exactly the content, every node that existed before is
  unchanged, and the receiver expects the next sequence number.\<close>

theorem append_transfer:
  assumes "rs_active (rv_state self)" and "cr_stream_id c = rv_stream_id self"
    and "cr_seq c = rs_expected_seq (rv_state self)" and "cr_kind c = REGULAR_FILE"
    and "is_safe_relative_name (cr_name c)" and "check_prev_file sys fs self c = Inr None"
    and "fs_ok fs" and "free_path fs p" and "p = rv_root self @ path_parts (cr_name c)" and "reliable sys"
    and "list_all (\<lambda>b. b \<noteq> [] \<and> length b < 2 ^ 32) blocks" and "concat blocks = content"
    and "content \<noteq> []" and "length content < 2 ^ 63" and "cr_final_size c = word_of_nat (length content)"
    and "cr_seq c \<noteq> UINT64_MAX"
  shows "\<exists>self1 fs1 self2 fs2.
    apply_create sys fs self c = (Inr None, self1, fs1) \<and>
    deliver_data sys (data_messages sys (cr_stream_id c) (cr_seq c) (cr_file_id c) (length content) 0 blocks)
      (self1, fs1) = (replicate (length blocks) (Inr None), self2, fs2) \<and>
    file_at fs2 p = Some content \<and>
    (\<forall>q n. fs_lookup fs q = Some n \<longrightarrow> fs_lookup fs2 q = Some n) \<and>
    rs_expected_seq (rv_state self2) = cr_seq c + 1"
proof -
  obtain fs1 where c: "apply_create sys fs self c = (Inr None, create_done self c p, fs1)"
      "plain fs1 p" "fs_lookup fs1 p = Some (File [])"
      "\<forall>q n. fs_lookup fs q = Some n \<longrightarrow> fs_lookup fs1 q = Some n"
    using create_regular_file [OF assms(1-10)] by blast
  have "unat (word_of_nat (length content) :: u64) = length content"
    using assms(14) by (intro unat_word_of_nat_lt) simp
  then have "(word_of_nat (length content) :: u64) \<noteq> 0" using assms(13) by (metis length_0_conv unat_0)
  then have r: "receiving (create_done self c p) fs1 p (cr_stream_id c) (cr_seq c) (cr_file_id c) (length content) []"
    using assms(1-4,15) c by (simp add: receiving_def create_done_def Let_def)
  have blocks: "blocks \<noteq> []" using assms(12,13) by auto
  have len: "length [] + length (concat blocks) = length content" using assms(12) by simp
  from deliver_blocks [OF r assms(10,11) len assms(14,16)]
  obtain self2 fs2 where "deliver_data sys (data_messages sys (cr_stream_id c) (cr_seq c) (cr_file_id c) (length content) 0 blocks)
      (create_done self c p, fs1) = (replicate (length blocks) (Inr None), self2, fs2)"
      "receiving self2 fs2 p (cr_stream_id c) (cr_seq c + 1) (cr_file_id c) (length content) content"
      "\<forall>q. q \<noteq> p \<longrightarrow> fs_lookup fs2 q = fs_lookup fs1 q"
    unfolding if_not_P [OF blocks] assms(12) append_Nil list.size(3) by blast
  moreover from this(2) have "file_at fs2 p = Some content" "rs_expected_seq (rv_state self2) = cr_seq c + 1"
    by (auto simp: receiving_def file_at_plain)
  moreover have "\<forall>q n. fs_lookup fs q = Some n \<longrightarrow> fs_lookup fs2 q = Some n"
    using calculation(3) c(4) free_pathD(3) [OF assms(8)] by (metis option.distinct(1))
  ultimately show ?thesis using c(1) by blast
qed

definition sample_receiver :: "u64 \<Rightarrow> path \<Rightarrow> u64 \<Rightarrow> T_ReceiverStream" where
  "sample_receiver file_id p n =
     \<lparr>rv_stream_id = 1, rv_root = [''r''],
      rv_state = \<lparr>rs_active = True, rs_expected_seq = 1, rs_current_file_id = file_id, rs_current_offset = 0,
        rs_current_final_size = n, rs_next_create_file_id = 1\<rparr>,
      rv_current_kind = REGULAR_FILE, rv_current_path = p\<rparr>"

definition sample_create :: T_Create where
  "sample_create = \<lparr>cr_stream_id = 1, cr_seq = 1, cr_file_id = 5, cr_kind = REGULAR_FILE, cr_name = ''d/a'',
     cr_link_target = [], cr_final_size = 3, cr_prev_file_id = 0, cr_prev_final_size = 0,
     cr_prev_checksum = default_checksum\<rparr>"

lemma plain_system_reliable: "reliable plain_system"
  by (simp add: reliable_def plain_system_def)

theorem append_transfer_witness:
  "\<exists>self1 fs1 self2 fs2.
    apply_create plain_system [([''r''], Dir)] (sample_receiver 0 [] 0) sample_create = (Inr None, self1, fs1) \<and>
    deliver_data plain_system (data_messages plain_system 1 1 5 3 0 [[1, 2], [3]]) (self1, fs1) =
      ([Inr None, Inr None], self2, fs2) \<and>
    file_at fs2 [''r'', ''d'', ''a''] = Some [1, 2, 3] \<and> rs_expected_seq (rv_state self2) = 2"
proof -
  have p: "[''r'', ''d'', ''a''] = rv_root (sample_receiver 0 [] 0) @ path_parts (cr_name sample_create)"
    by code_simp
  have "\<exists>self1 fs1 self2 fs2.
    apply_create plain_system [([''r''], Dir)] (sample_receiver 0 [] 0) sample_create = (Inr None, self1, fs1) \<and>
    deliver_data plain_system (data_messages plain_system (cr_stream_id sample_create) (cr_seq sample_create)
      (cr_file_id sample_create) (length ([1, 2, 3] :: Bytes)) 0 [[1, 2], [3]])
      (self1, fs1) = (replicate (length ([[1, 2], [3]] :: Bytes list)) (Inr None), self2, fs2) \<and>
    file_at fs2 [''r'', ''d'', ''a''] = Some [1, 2, 3] \<and>
    (\<forall>q n. fs_lookup [([''r''], Dir)] q = Some n \<longrightarrow> fs_lookup fs2 q = Some n) \<and>
    rs_expected_seq (rv_state self2) = cr_seq sample_create + 1"
  proof (rule append_transfer [OF _ _ _ _ _ _ _ _ p plain_system_reliable])
    show "is_safe_relative_name (cr_name sample_create)" "fs_ok [([''r''], Dir)]"
        "free_path [([''r''], Dir)] [''r'', ''d'', ''a'']" by code_simp+
  qed (simp_all add: sample_receiver_def sample_create_def check_prev_file_def)
  moreover have "cr_stream_id sample_create = 1" "cr_seq sample_create = 1" "cr_file_id sample_create = 5"
      "length ([1, 2, 3] :: Bytes) = 3" "(1 :: u64) + 1 = 2"
      "replicate (length ([[1, 2], [3]] :: Bytes list)) (Inr None :: T_Nack option result) = [Inr None, Inr None]"
    by (simp_all add: sample_create_def)
  ultimately show ?thesis by metis
qed

theorem data_append_only_witness:
  "\<exists>q b. fs_lookup [([''r''], Dir), ([''r'', ''f''], File [9])] q = Some (File b) \<and>
     AList.update [''r'', ''f''] (File [9, 7]) [([''r''], Dir), ([''r'', ''f''], File [9])] =
       AList.update q (File (b @ [7])) [([''r''], Dir), ([''r'', ''f''], File [9])] \<and>
     (1 :: u64) = word_of_nat (length b)"
proof -
  let ?fs = "[([''r''], Dir), ([''r'', ''f''], File [9])]"
  let ?d = "data_message plain_system 1 1 5 2 (length [9 :: u8]) [7]"
  have "plain ?fs [''r'', ''f'']" by code_simp
  then have "receiving (sample_receiver 5 [''r'', ''f''] 2) ?fs [''r'', ''f''] 1 1 5 2 [9]"
    by (simp add: receiving_def sample_receiver_def)
  from apply_next_block [OF this plain_system_reliable, of "[7]"]
  have "apply_data plain_system ?fs (sample_receiver 5 [''r'', ''f''] 2) ?d =
      (Inr None, data_done (sample_receiver 5 [''r'', ''f''] 2) ?d, AList.update [''r'', ''f''] (File [9, 7]) ?fs)"
    by simp
  from data_append_only [OF this] show ?thesis
    by (auto simp: data_message_def)
qed

end
