(* ===== verification/ChunkedReceiver.thy ===== *)
theory ChunkedReceiver
  imports Receiver
begin

text \<open>
  The chunked receiver \<open>T_ChunkedReceiverStream\<close> of src/src/receiver/yisync_receiver.cpp (from
  line 422): a file announced by FILE_BEGIN is assembled from chunks in any order in a temporary
  file, and FILE_COMMIT verifies it, syncs it and renames it to its final path. The map from
  sequence numbers to active files is an association list.
\<close>

section \<open>State\<close>

record ActiveFile =
  af_seq :: u64
  af_file_id :: u64
  af_name :: string
  af_final_size :: u64
  af_chunk_size :: u64
  af_chunk_count :: u64
  af_file_checksum :: T_FileChecksum
  af_prev_file_id :: u64
  af_prev_final_size :: u64
  af_prev_checksum :: T_FileChecksum
  af_temp_path :: path
  af_final_path :: path
  af_received :: "bool list"
  af_received_count :: u64
  af_commit_pending :: bool

record T_ChunkCommitTask =
  ct_root :: path
  ct_temp_root :: path
  ct_temp_path :: path
  ct_final_path :: path
  ct_stream_id :: u64
  ct_seq :: u64
  ct_file_id :: u64
  ct_final_size :: u64
  ct_file_checksum :: T_FileChecksum

record T_ChunkCommitResult =
  cres_stream_id :: u64
  cres_seq :: u64
  cres_file_id :: u64
  cres_final_size :: u64
  cres_final_path :: path

record T_ChunkedReceiverStream =
  ci_stream_id :: u64
  ci_root :: path
  ci_temp_root :: path
  ci_expected_seq :: u64
  ci_current_file_id :: u64
  ci_current_offset :: u64
  ci_active :: "(u64 \<times> ActiveFile) list"

definition default_commit_task :: T_ChunkCommitTask where
  "default_commit_task = \<lparr>ct_root = [], ct_temp_root = [], ct_temp_path = [], ct_final_path = [],
     ct_stream_id = 0, ct_seq = 0, ct_file_id = 0, ct_final_size = 0, ct_file_checksum = default_checksum\<rparr>"

section \<open>Helpers of Impl\<close>

definition final_path_for :: "T_ChunkedReceiverStream \<Rightarrow> u64 \<Rightarrow> string \<Rightarrow> path result" where
  "final_path_for self file_id name =
     (if name = [] then Inr (ci_root self @ path_parts (file_name_for_id file_id))
      else if \<not> is_safe_relative_name name
      then Inl (runtime_error (''unsafe chunk final path: '' @ name))
      else Inr (ci_root self @ path_parts name))"

definition temp_path_for :: "T_ChunkedReceiverStream \<Rightarrow> u64 \<Rightarrow> u64 \<Rightarrow> path" where
  "temp_path_for self seq file_id =
     ci_temp_root self @ [to_string (unat seq) @ ''_'' @ file_name_for_id file_id @ ''.tmp'']"

definition make_commit_task :: "T_ChunkedReceiverStream \<Rightarrow> ActiveFile \<Rightarrow> T_ChunkCommitTask" where
  "make_commit_task self active =
     \<lparr>ct_root = ci_root self, ct_temp_root = ci_temp_root self, ct_temp_path = af_temp_path active,
      ct_final_path = af_final_path active, ct_stream_id = ci_stream_id self, ct_seq = af_seq active,
      ct_file_id = af_file_id active, ct_final_size = af_final_size active,
      ct_file_checksum = af_file_checksum active\<rparr>"

definition chunked_nack ::
  "T_ChunkedReceiverStream \<Rightarrow> u64 \<Rightarrow> u64 \<Rightarrow> u64 \<Rightarrow> u64 \<Rightarrow> EM_NackReason \<Rightarrow> string \<Rightarrow> T_Nack" where
  "chunked_nack self stream_id seq file_id offset reason detail =
     \<lparr>nk_stream_id = stream_id, nk_got_seq = seq, nk_expected_seq = ci_expected_seq self,
      nk_file_id = file_id, nk_offset = offset, nk_expected_file_id = ci_current_file_id self,
      nk_expected_offset = ci_current_offset self, nk_reason = reason, nk_detail = detail\<rparr>"

abbreviation begin_nack :: "T_ChunkedReceiverStream \<Rightarrow> T_FileBegin \<Rightarrow> EM_NackReason \<Rightarrow> string \<Rightarrow> T_Nack" where
  "begin_nack self b reason detail \<equiv>
     chunked_nack self (fb_stream_id b) (fb_seq b) (fb_file_id b) 0 reason detail"

abbreviation chunk_nack :: "T_ChunkedReceiverStream \<Rightarrow> T_Chunk \<Rightarrow> EM_NackReason \<Rightarrow> string \<Rightarrow> T_Nack" where
  "chunk_nack self c reason detail \<equiv>
     chunked_nack self (ch_stream_id c) (ch_seq c) (ch_file_id c) (ch_offset c) reason detail"

abbreviation commit_nack :: "T_ChunkedReceiverStream \<Rightarrow> T_FileCommit \<Rightarrow> EM_NackReason \<Rightarrow> string \<Rightarrow> T_Nack" where
  "commit_nack self c reason detail \<equiv>
     chunked_nack self (fc_stream_id c) (fc_seq c) (fc_file_id c) 0 reason detail"

definition restore_active_from_disk ::
  "system \<Rightarrow> filesystem \<Rightarrow> T_ChunkedReceiverStream \<Rightarrow> T_ChunkedReceiverStream result" where
  "restore_active_from_disk sys fs self =
     (case scan_manifest_stream sys fs (ci_stream_id self) (ci_root self) kManifestChecksumRange [] [] of
        Inl e \<Rightarrow> Inl e
      | Inr manifest \<Rightarrow>
          if ms_entries manifest = [] then Inr self
          else let latest = last (ms_entries manifest)
               in Inr (self\<lparr>ci_current_file_id := me_file_id latest, ci_current_offset := me_size latest,
                        ci_expected_seq := me_seq latest + 1\<rparr>))"

definition chunked_refresh_committed_from_disk ::
  "system \<Rightarrow> filesystem \<Rightarrow> T_ChunkedReceiverStream \<Rightarrow> T_ChunkedReceiverStream result" where
  "chunked_refresh_committed_from_disk sys fs self =
     (case scan_manifest_stream sys fs (ci_stream_id self) (ci_root self) kManifestChecksumRange [] [] of
        Inl e \<Rightarrow> Inl e
      | Inr manifest \<Rightarrow>
          (let self1 = self\<lparr>ci_current_file_id := 0, ci_current_offset := 0\<rparr>
           in if ms_entries manifest = [] then Inr self1
              else let latest = last (ms_entries manifest)
                   in Inr (self1\<lparr>ci_current_file_id := me_file_id latest,
                            ci_current_offset := me_size latest,
                            ci_expected_seq := max (ci_expected_seq self1) (me_seq latest + 1)\<rparr>)))"

definition make_ChunkedReceiverStream ::
  "system \<Rightarrow> filesystem \<Rightarrow> u64 \<Rightarrow> path \<Rightarrow> T_ChunkedReceiverStream result \<times> filesystem" where
  "make_ChunkedReceiverStream sys fs stream_id root =
     (let temp_root = root @ [''.yisync_tmp''];
          self = \<lparr>ci_stream_id = stream_id, ci_root = root, ci_temp_root = temp_root,
            ci_expected_seq = 1, ci_current_file_id = 0, ci_current_offset = 0, ci_active = []\<rparr>
      in case create_directories sys fs root of
           (Some message, fs1) \<Rightarrow> (Inl (filesystem_error message), fs1)
         | (None, fs1) \<Rightarrow>
             (case create_directories sys (remove_all fs1 temp_root) temp_root of
                (Some message, fs2) \<Rightarrow> (Inl (filesystem_error message), fs2)
              | (None, fs2) \<Rightarrow> (restore_active_from_disk sys fs2 self, fs2)))"

section \<open>FILE_BEGIN\<close>

type_synonym chunked_outcome = "T_Nack option result \<times> T_ChunkedReceiverStream \<times> filesystem"

definition check_begin_prev :: "system \<Rightarrow> filesystem \<Rightarrow> T_ChunkedReceiverStream \<Rightarrow> T_FileBegin \<Rightarrow> T_Nack option result" where
  "check_begin_prev sys fs self b =
     (if fb_prev_file_id b = 0 then Inr None
      else case path_from_manifest_or_legacy sys fs (fb_stream_id b) (ci_root self) (fb_prev_file_id b) of
        Inl e \<Rightarrow> Inl e
      | Inr prev_path \<Rightarrow>
          (case fs_exists fs prev_path of
             Inl e \<Rightarrow> Inl e
           | Inr present \<Rightarrow>
               if \<not> present
               then Inr (Some (begin_nack self b PREV_FILE_INCOMPLETE ''previous file does not exist''))
               else if file_size_or_zero fs prev_path \<noteq> fb_prev_final_size b
               then Inr (Some (begin_nack self b PREV_FILE_INCOMPLETE ''previous file size mismatch''))
               else (case checksum_matches sys fs (fb_prev_checksum b) prev_path of
                       Inl e \<Rightarrow> Inl e
                     | Inr True \<Rightarrow> Inr None
                     | Inr False \<Rightarrow>
                         Inr (Some (begin_nack self b CHECKSUM_MISMATCH ''previous file checksum mismatch'')))))"

definition new_active_file :: "T_FileBegin \<Rightarrow> path \<Rightarrow> path \<Rightarrow> ActiveFile" where
  "new_active_file b temp final =
     \<lparr>af_seq = fb_seq b, af_file_id = fb_file_id b, af_name = fb_name b, af_final_size = fb_final_size b,
      af_chunk_size = fb_chunk_size b, af_chunk_count = fb_chunk_count b,
      af_file_checksum = fb_file_checksum b, af_prev_file_id = fb_prev_file_id b,
      af_prev_final_size = fb_prev_final_size b, af_prev_checksum = fb_prev_checksum b,
      af_temp_path = temp, af_final_path = final,
      af_received = replicate (unat (fb_chunk_count b)) False, af_received_count = 0,
      af_commit_pending = False\<rparr>"

definition apply_begin :: "system \<Rightarrow> filesystem \<Rightarrow> T_ChunkedReceiverStream \<Rightarrow> T_FileBegin \<Rightarrow> chunked_outcome" where
  "apply_begin sys fs self b =
     (if fb_stream_id b \<noteq> ci_stream_id self
      then (Inr (Some (begin_nack self b BAD_SESSION ''wrong stream'')), self, fs)
      else if fb_seq b < ci_expected_seq self then (Inr None, self, fs)
      else if fb_seq b > ci_expected_seq self
      then (Inr (Some (begin_nack self b BAD_SEQ ''future seq'')), self, fs)
      else if \<not> should_use_chunk_mode (fb_final_size b)
      then (Inr (Some (begin_nack self b BAD_CHUNK ''file size does not require chunk mode'')), self, fs)
      else if fb_chunk_size b = 0
      then (Inr (Some (begin_nack self b BAD_CHUNK ''chunk_size must be non-zero'')), self, fs)
      else if Inr (fb_chunk_count b) \<noteq> chunk_count_for_size (fb_final_size b) (fb_chunk_size b)
      then (Inr (Some (begin_nack self b BAD_CHUNK ''chunk_count does not match final_size'')), self, fs)
      else if map_of (ci_active self) (fb_seq b) \<noteq> None then (Inr None, self, fs)
      else case check_begin_prev sys fs self b of
        Inl e \<Rightarrow> (Inl e, self, fs)
      | Inr (Some n) \<Rightarrow> (Inr (Some n), self, fs)
      | Inr None \<Rightarrow>
          (case final_path_for self (fb_file_id b) (fb_name b) of
             Inl e \<Rightarrow> (Inr (Some (begin_nack self b BAD_CREATE (exn_what e))), self, fs)
           | Inr final \<Rightarrow>
               (case fs_exists fs final of
                  Inl e \<Rightarrow> (Inl e, self, fs)
                | Inr True \<Rightarrow>
                    (Inr (Some (begin_nack self b FILE_EXISTS ''final file already exists'')), self, fs)
                | Inr False \<Rightarrow>
                    (let temp = temp_path_for self (fb_seq b) (fb_file_id b)
                     in case open_create sys fs temp True of
                          None \<Rightarrow>
                            (Inr (Some (begin_nack self b IO_ERROR ''failed to create chunk temp file'')), self, fs)
                        | Some (_, fs1) \<Rightarrow>
                            (Inr None,
                             self\<lparr>ci_active := AList.update (fb_seq b) (new_active_file b temp final) (ci_active self)\<rparr>,
                             fs1)))))"

section \<open>CHUNK\<close>

definition expected_chunk_len :: "ActiveFile \<Rightarrow> u64 \<Rightarrow> u32" where
  "expected_chunk_len active offset = ucast (min (af_chunk_size active) (af_final_size active - offset))"

definition mark_received :: "ActiveFile \<Rightarrow> nat \<Rightarrow> ActiveFile" where
  "mark_received active index =
     active\<lparr>af_received := (af_received active)[index := True],
       af_received_count := af_received_count active + 1\<rparr>"

text \<open>The checks of the payload and the write into the temporary file; seeking to an offset that is
  negative as a signed 64-bit number fails the stream, and with it the write.\<close>

definition write_chunk ::
  "system \<Rightarrow> filesystem \<Rightarrow> T_ChunkedReceiverStream \<Rightarrow> ActiveFile \<Rightarrow> T_Chunk \<Rightarrow> chunked_outcome" where
  "write_chunk sys fs self active c =
     (case raw_data_for_chunk_message c of
        Inl e \<Rightarrow> (Inr (Some (chunk_nack self c DECODE_ERROR (exn_what e))), self, fs)
      | Inr raw \<Rightarrow>
          if ch_checksum_algo c \<noteq> CRC32C
          then (Inr (Some (chunk_nack self c BAD_CHECKSUM ''only CRC32C CHUNK checksum is implemented'')),
                self, fs)
          else if crc32c_bytes sys raw \<noteq> ch_checksum c
          then (Inr (Some (chunk_nack self c BAD_CHECKSUM ''CHUNK checksum mismatch'')), self, fs)
          else case open_existing sys fs (af_temp_path active) of
            None \<Rightarrow> (Inr (Some (chunk_nack self c IO_ERROR ''failed to open chunk temp file'')), self, fs)
          | Some q \<Rightarrow>
              if ch_offset c \<ge> 2 ^ 63 \<or> sy_fails sys IO_write (af_temp_path active)
              then (Inr (Some (chunk_nack self c IO_ERROR ''failed to write chunk temp file'')), self, fs)
              else (Inr None,
                    self\<lparr>ci_active := AList.update (ch_seq c) (mark_received active (unat (ch_chunk_index c)))
                       (ci_active self)\<rparr>,
                    write_at fs q (unat (ch_offset c)) raw))"

definition apply_chunk :: "system \<Rightarrow> filesystem \<Rightarrow> T_ChunkedReceiverStream \<Rightarrow> T_Chunk \<Rightarrow> chunked_outcome" where
  "apply_chunk sys fs self c =
     (if ch_stream_id c \<noteq> ci_stream_id self
      then (Inr (Some (chunk_nack self c BAD_SESSION ''wrong stream'')), self, fs)
      else if ch_seq c < ci_expected_seq self then (Inr None, self, fs)
      else if ch_seq c > ci_expected_seq self
      then (Inr (Some (chunk_nack self c BAD_SEQ ''future seq'')), self, fs)
      else case map_of (ci_active self) (ch_seq c) of
        None \<Rightarrow> (Inr (Some (chunk_nack self c BAD_CHUNK ''chunk received before FILE_BEGIN'')), self, fs)
      | Some active \<Rightarrow>
          if ch_file_id c \<noteq> af_file_id active
          then (Inr (Some (chunk_nack self c BAD_FILE_ORDER ''chunk file_id mismatch'')), self, fs)
          else if ch_chunk_index c \<ge> af_chunk_count active
          then (Inr (Some (chunk_nack self c BAD_CHUNK ''chunk_index out of range'')), self, fs)
          else if ch_offset c \<noteq> ch_chunk_index c * af_chunk_size active
          then (Inr (Some (chunk_nack self c BAD_OFFSET ''chunk offset mismatch'')), self, fs)
          else if ch_raw_len c \<noteq> expected_chunk_len active (ch_offset c) \<or>
                  ch_offset c + ucast (ch_raw_len c) > af_final_size active
          then (Inr (Some (chunk_nack self c BAD_CHUNK ''chunk raw_len mismatch'')), self, fs)
          else if af_received active ! unat (ch_chunk_index c) then (Inr None, self, fs)
          else write_chunk sys fs self active c)"

section \<open>FILE_COMMIT\<close>

text \<open>\<open>prepare_commit\<close> returns the optional nack and fills the task it is given; the task is left
  as it was when nothing is to be committed.\<close>

definition prepare_commit ::
  "filesystem \<Rightarrow> T_ChunkedReceiverStream \<Rightarrow> T_FileCommit \<Rightarrow> T_ChunkCommitTask \<Rightarrow>
     (T_Nack option \<times> T_ChunkCommitTask) result \<times> T_ChunkedReceiverStream" where
  "prepare_commit fs self c task =
     (if fc_stream_id c \<noteq> ci_stream_id self
      then (Inr (Some (commit_nack self c BAD_SESSION ''wrong stream''), task), self)
      else if fc_seq c < ci_expected_seq self then (Inr (None, task), self)
      else if fc_seq c > ci_expected_seq self
      then (Inr (Some (commit_nack self c BAD_SEQ ''future seq''), task), self)
      else case map_of (ci_active self) (fc_seq c) of
        None \<Rightarrow> (Inr (Some (commit_nack self c BAD_COMMIT ''commit received before FILE_BEGIN''), task), self)
      | Some active \<Rightarrow>
          if fc_file_id c \<noteq> af_file_id active
          then (Inr (Some (commit_nack self c BAD_FILE_ORDER ''commit file_id mismatch''), task), self)
          else if af_commit_pending active
          then (Inr (Some (commit_nack self c BAD_COMMIT ''commit already pending''), task), self)
          else if af_received_count active \<noteq> af_chunk_count active
          then (Inr (Some (commit_nack self c BAD_COMMIT ''not all chunks have been received''), task), self)
          else (case fs_exists fs (af_final_path active) of
                  Inl e \<Rightarrow> (Inl e, self)
                | Inr True \<Rightarrow>
                    (Inr (Some (commit_nack self c FILE_EXISTS ''final file already exists''), task), self)
                | Inr False \<Rightarrow>
                    (let pending = active\<lparr>af_commit_pending := True\<rparr>
                     in (Inr (None, make_commit_task self pending),
                         self\<lparr>ci_active := AList.update (fc_seq c) pending (ci_active self)\<rparr>))))"

definition abort_commit :: "T_ChunkedReceiverStream \<Rightarrow> u64 \<Rightarrow> T_ChunkedReceiverStream" where
  "abort_commit self seq =
     (case map_of (ci_active self) seq of
        None \<Rightarrow> self
      | Some active \<Rightarrow>
          self\<lparr>ci_active := AList.update seq (active\<lparr>af_commit_pending := False\<rparr>) (ci_active self)\<rparr>)"

definition finish_commit :: "T_ChunkedReceiverStream \<Rightarrow> T_ChunkCommitResult \<Rightarrow> T_ChunkedReceiverStream result" where
  "finish_commit self res =
     (if cres_stream_id res \<noteq> ci_stream_id self
      then Inl (runtime_error ''commit result stream mismatch'')
      else case map_of (ci_active self) (cres_seq res) of
        None \<Rightarrow> Inl (runtime_error ''commit result for inactive file'')
      | Some active \<Rightarrow>
          if cres_file_id res \<noteq> af_file_id active
          then Inl (runtime_error ''commit result file mismatch'')
          else Inr (self\<lparr>ci_current_file_id := af_file_id active, ci_current_offset := af_final_size active,
                 ci_expected_seq := max (ci_expected_seq self) (af_seq active + 1),
                 ci_active := AList.delete (cres_seq res) (ci_active self)\<rparr>))"

definition sync_committed :: "system \<Rightarrow> filesystem \<Rightarrow> T_ChunkCommitTask \<Rightarrow> unit result" where
  "sync_committed sys fs task =
     (case fsync_path sys fs (ct_final_path task) ''committed file'' of
        Inl e \<Rightarrow> Inl e
      | Inr _ \<Rightarrow>
          (case fsync_directory sys fs (parent_path (ct_final_path task)) of
             Inl e \<Rightarrow> Inl e
           | Inr _ \<Rightarrow> fsync_directory sys fs (ct_temp_root task)))"

definition write_commit_task ::
  "system \<Rightarrow> filesystem \<Rightarrow> T_ChunkCommitTask \<Rightarrow> T_ChunkCommitResult result \<times> filesystem" where
  "write_commit_task sys fs task =
     (case checksum_matches sys fs (ct_file_checksum task) (ct_temp_path task) of
        Inl e \<Rightarrow> (Inl e, fs)
      | Inr False \<Rightarrow> (Inl (runtime_error ''final file checksum mismatch''), fs)
      | Inr True \<Rightarrow>
          (case fsync_path sys fs (ct_temp_path task) ''chunk temp file'' of
             Inl e \<Rightarrow> (Inl e, fs)
           | Inr _ \<Rightarrow>
               if fs_exists_ec fs (ct_final_path task)
               then (Inl (runtime_error ''final file already exists''), fs)
               else (case create_directories sys fs (parent_path (ct_final_path task)) of
                       (Some m, fs1) \<Rightarrow>
                         (Inl (runtime_error (''failed to create chunk final parent: '' @ m)), fs1)
                     | (None, fs1) \<Rightarrow>
                         (case rename_file sys fs1 (ct_temp_path task) (ct_final_path task) of
                            Inl m \<Rightarrow>
                              (Inl (runtime_error (''failed to commit chunk temp file: '' @ m)), fs1)
                          | Inr fs2 \<Rightarrow>
                              (case sync_committed sys fs2 task of
                                 Inl e \<Rightarrow> (Inl e, fs2)
                               | Inr _ \<Rightarrow>
                                   (Inr \<lparr>cres_stream_id = ct_stream_id task, cres_seq = ct_seq task,
                                      cres_file_id = ct_file_id task, cres_final_size = ct_final_size task,
                                      cres_final_path = ct_final_path task\<rparr>, fs2))))))"

definition apply_commit :: "system \<Rightarrow> filesystem \<Rightarrow> T_ChunkedReceiverStream \<Rightarrow> T_FileCommit \<Rightarrow> chunked_outcome" where
  "apply_commit sys fs self c =
     (case prepare_commit fs self c default_commit_task of
        (Inl e, self1) \<Rightarrow> (Inl e, self1, fs)
      | (Inr (n, task), self1) \<Rightarrow>
          if n \<noteq> None \<or> ct_seq task = 0 then (Inr n, self1, fs)
          else (case write_commit_task sys fs task of
                  (Inl e, fs1) \<Rightarrow>
                    (let self2 = abort_commit self1 (fc_seq c)
                     in (Inr (Some (commit_nack self2 c IO_ERROR (exn_what e))), self2, fs1))
                | (Inr res, fs1) \<Rightarrow>
                    (case finish_commit self1 res of
                       Inl e \<Rightarrow>
                         (let self2 = abort_commit self1 (fc_seq c)
                          in (Inr (Some (commit_nack self2 c IO_ERROR (exn_what e))), self2, fs1))
                     | Inr self2 \<Rightarrow> (Inr None, self2, fs1))))"

section \<open>Missing ranges\<close>

definition highest_received :: "bool list \<Rightarrow> nat \<Rightarrow> nat option" where
  "highest_received received n =
     foldl (\<lambda>h index. if received ! index then Some index else h) None [0..<n]"

function skip_missing :: "bool list \<Rightarrow> nat \<Rightarrow> nat \<Rightarrow> nat" where
  "skip_missing received highest index =
     (if index < highest \<and> \<not> received ! index then skip_missing received highest (index + 1) else index)"
  by pat_completeness auto

termination
  by (relation "measure (\<lambda>(received, highest, index). highest - index)") auto

declare skip_missing.simps [simp del]

lemma skip_missing_ge: "index \<le> skip_missing received highest index"
proof (induction received highest index rule: skip_missing.induct)
  case (1 received highest index)
  then show ?case by (subst skip_missing.simps) auto
qed

lemma skip_missing_gt: "index < highest \<Longrightarrow> \<not> received ! index \<Longrightarrow> index < skip_missing received highest index"
  using skip_missing_ge [of "index + 1" received highest] by (subst skip_missing.simps) auto

function missing_loop :: "bool list \<Rightarrow> nat \<Rightarrow> nat \<Rightarrow> nat \<Rightarrow> (nat \<times> nat) list" where
  "missing_loop received highest budget index =
     (if index < highest \<and> budget > 0
      then if received ! index then missing_loop received highest budget (index + 1)
           else
             let stop = skip_missing received highest index
             in (index, stop - 1) # missing_loop received highest (budget - 1) stop
      else [])"
  by pat_completeness auto

termination
  by (relation "measure (\<lambda>(received, highest, budget, index). highest - index)")
    (auto intro!: diff_less_mono2 skip_missing_gt)

declare missing_loop.simps [simp del]

definition missing_ranges :: "T_ChunkedReceiverStream \<Rightarrow> u64 \<Rightarrow> u64 \<Rightarrow> T_MissingChunkRange list" where
  "missing_ranges self seq max_ranges =
     (if max_ranges = 0 then []
      else case map_of (ci_active self) seq of
        None \<Rightarrow> []
      | Some active \<Rightarrow>
          (case highest_received (af_received active) (unat (af_chunk_count active)) of
             None \<Rightarrow> []
           | Some highest \<Rightarrow>
               map (\<lambda>(first, last_index).
                   \<lparr>mr_seq = af_seq active, mr_file_id = af_file_id active,
                    mr_first_chunk_index = word_of_nat first, mr_last_chunk_index = word_of_nat last_index\<rparr>)
                 (missing_loop (af_received active) highest (unat max_ranges) 0)))"

section \<open>Overwriting a file\<close>

lemma length_overwrite: "length (overwrite off data b) = max (length b) (off + length data)"
  by (auto simp: overwrite_def)

lemma nth_overwrite:
  assumes "k < length (overwrite off data b)"
  shows "overwrite off data b ! k =
    (if off \<le> k \<and> k < off + length data then data ! (k - off) else if k < length b then b ! k else 0)"
proof -
  have len: "length (take off b @ replicate (off - length b) 0) = off" by simp
  consider "k < off" | "off \<le> k" "k < off + length data" | "off + length data \<le> k" by linarith
  then show ?thesis
  proof cases
    case 1
    then show ?thesis by (auto simp: overwrite_def nth_append)
  next
    case 2
    then show ?thesis by (auto simp: overwrite_def nth_append min_def)
  next
    case 3
    then have "k < length b" using assms by (simp add: length_overwrite)
    with 3 show ?thesis by (auto simp: overwrite_def nth_append min_def)
  qed
qed

section \<open>Assembling a file from chunks\<close>

text \<open>
  \<open>chunk_slice cs content i\<close> is the payload of chunk \<open>i\<close>; \<open>assembled\<close> says that a temporary file agrees
  with the content on every chunk marked as received and never reaches past its end.
\<close>

definition chunk_slice :: "nat \<Rightarrow> Bytes \<Rightarrow> nat \<Rightarrow> Bytes" where
  "chunk_slice cs content i = take cs (drop (i * cs) content)"

definition assembled :: "nat \<Rightarrow> Bytes \<Rightarrow> bool list \<Rightarrow> Bytes \<Rightarrow> bool" where
  "assembled cs content received b \<longleftrightarrow> length b \<le> length content \<and>
     (\<forall>k < length content. received ! (k div cs) \<longrightarrow> k < length b \<and> b ! k = content ! k)"

lemma length_slice: "length (chunk_slice cs content i) = min cs (length content - i * cs)"
  by (simp add: chunk_slice_def)

lemma in_chunk: "0 < cs \<Longrightarrow> k div cs = i \<longleftrightarrow> i * cs \<le> k \<and> k < i * cs + (cs :: nat)"
  by (metis add.commute div_nat_eqI dividend_less_div_times div_times_less_eq_dividend mult.commute
      mult_Suc_right times_div_less_eq_dividend)

lemma assembled_write:
  assumes "assembled cs content received b" and "0 < cs" and "i < length received"
    and "i * cs < length content"
  shows "assembled cs content (received[i := True]) (overwrite (i * cs) (chunk_slice cs content i) b)"
proof -
  let ?b = "overwrite (i * cs) (chunk_slice cs content i) b"
  have off: "i * cs + length (chunk_slice cs content i) \<le> length content"
    using assms(4) by (simp add: length_slice)
  then have len: "length ?b \<le> length content"
    using assms(1) by (simp add: length_overwrite assembled_def)
  have "k < length ?b \<and> ?b ! k = content ! k"
    if k: "k < length content" "received[i := True] ! (k div cs)" for k
  proof (cases "k div cs = i")
    case True
    then have r: "i * cs \<le> k" "k < i * cs + cs" using in_chunk [OF assms(2)] by auto
    then have k': "k < i * cs + length (chunk_slice cs content i)" using k(1) by (simp add: length_slice)
    then have "k < length ?b" by (simp add: length_overwrite)
    moreover have "chunk_slice cs content i ! (k - i * cs) = content ! k"
      using r k(1) by (simp add: chunk_slice_def)
    ultimately show ?thesis using r k' by (simp add: nth_overwrite)
  next
    case False
    then have "received ! (k div cs)" using k(2) by (metis nth_list_update_neq)
    then have kb: "k < length b" "b ! k = content ! k"
      using assms(1) k(1) by (auto simp: assembled_def)
    have "\<not> (i * cs \<le> k \<and> k < i * cs + length (chunk_slice cs content i))"
      using False in_chunk [OF assms(2), of k i] by (auto simp: length_slice)
    moreover have "k < length ?b" using kb(1) by (simp add: length_overwrite)
    ultimately show ?thesis using kb by (auto simp: nth_overwrite)
  qed
  with len show ?thesis by (auto simp: assembled_def)
qed

lemma assembled_complete:
  assumes "assembled cs content received b" and "0 < cs"
    and "\<And>i. i < length received \<Longrightarrow> received ! i" and "length content \<le> length received * cs"
  shows "b = content"
proof -
  have "received ! (k div cs)" if "k < length content" for k
    using that assms(2,3,4) by (metis div_less_iff_less_mult order.strict_trans2)
  then have agree: "k < length b \<and> b ! k = content ! k" if "k < length content" for k
    using assms(1) that by (auto simp: assembled_def)
  have "length b = length content"
    using assms(1) agree [of "length content - 1"] by (cases content) (auto simp: assembled_def)
  then show ?thesis using agree by (auto intro: nth_equalityI)
qed

lemma assembled_start: "(\<And>i. i < n \<Longrightarrow> \<not> received ! i) \<Longrightarrow> length content \<le> n * cs \<Longrightarrow> 0 < cs \<Longrightarrow> assembled cs content received []"
  by (auto simp: assembled_def) (metis div_less_iff_less_mult order.strict_trans2)

definition chunk_message :: "system \<Rightarrow> u64 \<Rightarrow> u64 \<Rightarrow> u64 \<Rightarrow> nat \<Rightarrow> Bytes \<Rightarrow> nat \<Rightarrow> T_Chunk" where
  "chunk_message sys stream_id seq file_id cs content i =
     \<lparr>ch_stream_id = stream_id, ch_seq = seq, ch_file_id = file_id, ch_chunk_index = word_of_nat i,
      ch_offset = word_of_nat (i * cs), ch_raw_len = word_of_nat (length (chunk_slice cs content i)),
      ch_compression = Compression_NONE, ch_checksum_algo = CRC32C,
      ch_checksum = crc32c_bytes sys (chunk_slice cs content i), ch_payload = chunk_slice cs content i\<rparr>"

fun deliver_chunks ::
  "system \<Rightarrow> T_Chunk list \<Rightarrow> T_ChunkedReceiverStream \<times> filesystem \<Rightarrow>
     T_Nack option result list \<times> T_ChunkedReceiverStream \<times> filesystem" where
  "deliver_chunks sys [] (self, fs) = ([], self, fs)"
| "deliver_chunks sys (c # cs) (self, fs) =
     (let (r, self1, fs1) = apply_chunk sys fs self c;
          (rs, self2, fs2) = deliver_chunks sys cs (self1, fs1)
      in (r # rs, self2, fs2))"

text \<open>The number of chunks fits the size, and no offset of a chunk wraps.\<close>

definition chunk_layout :: "nat \<Rightarrow> Bytes \<Rightarrow> nat \<Rightarrow> bool" where
  "chunk_layout cs content n \<longleftrightarrow> 0 < cs \<and> cs < 2 ^ 32 \<and> 0 < n \<and> (n - 1) * cs < length content \<and>
     length content \<le> n * cs \<and> length content < 2 ^ 63"

lemma chunk_layout_below:
  assumes "chunk_layout cs content n" and "i < n"
  shows "i * cs < length content"
proof -
  have "i * cs \<le> (n - 1) * cs" using assms(2) by (intro mult_right_mono) auto
  also have "\<dots> < length content" using assms(1) by (simp add: chunk_layout_def)
  finally show ?thesis .
qed

definition assembling ::
  "T_ChunkedReceiverStream \<Rightarrow> filesystem \<Rightarrow> ActiveFile \<Rightarrow> nat \<Rightarrow> Bytes \<Rightarrow> bool" where
  "assembling self fs af cs content \<longleftrightarrow>
     ci_expected_seq self = af_seq af \<and> map_of (ci_active self) (af_seq af) = Some af \<and>
     unat (af_chunk_size af) = cs \<and> unat (af_final_size af) = length content \<and>
     length (af_received af) = unat (af_chunk_count af) \<and>
     unat (af_received_count af) = length (filter (\<lambda>r. r) (af_received af)) \<and>
     chunk_layout cs content (unat (af_chunk_count af)) \<and> \<not> af_commit_pending af \<and>
     plain fs (af_temp_path af) \<and>
     (\<exists>b. fs_lookup fs (af_temp_path af) = Some (File b) \<and> assembled cs content (af_received af) b)"

lemma filter_update_True:
  "i < length xs \<Longrightarrow> \<not> xs ! i \<Longrightarrow>
     length (filter (\<lambda>r. r) (xs[i := True])) = Suc (length (filter (\<lambda>r. r) xs))"
proof (induction xs arbitrary: i)
  case (Cons x xs)
  then show ?case by (cases i) auto
qed simp

lemma unat_of_nat_word: "word_of_nat (unat w) = w"
  by simp

lemma chunk_message_fields:
  assumes "assembling self fs af cs content" and "i < unat (af_chunk_count af)"
    and "c = chunk_message sys sid (af_seq af) (af_file_id af) cs content i"
  shows "unat (ch_chunk_index c) = i" and "ch_chunk_index c < af_chunk_count af"
    and "ch_offset c = ch_chunk_index c * af_chunk_size af" and "unat (ch_offset c) = i * cs"
    and "ch_raw_len c = expected_chunk_len af (ch_offset c)"
    and "unat (ch_raw_len c) = length (chunk_slice cs content i)"
    and "ch_offset c + ucast (ch_raw_len c) \<le> af_final_size af"
proof -
  note a = assms(1) [unfolded assembling_def]
  have lay: "chunk_layout cs content (unat (af_chunk_count af))" using a by simp
  note below = chunk_layout_below [OF lay assms(2)]
  have len64: "length content < 2 ^ 64" using lay by (simp add: chunk_layout_def)
  show i: "unat (ch_chunk_index c) = i"
    using assms(2,3) unat_word_of_nat_le [of i "af_chunk_count af"] by (simp add: chunk_message_def)
  then show "ch_chunk_index c < af_chunk_count af" using assms(2) by (simp add: word_lt_unat)
  have "unat (af_chunk_size af) = cs" using a by simp
  then have cs: "word_of_nat cs = af_chunk_size af" by (metis unat_of_nat_word)
  show off: "unat (ch_offset c) = i * cs"
    using assms(3) below len64 by (simp add: chunk_message_def unat_of_nat del: of_nat_mult)
  show "ch_offset c = ch_chunk_index c * af_chunk_size af"
    using assms(3) cs by (simp add: chunk_message_def)
  have slen: "length (chunk_slice cs content i) < 2 ^ 32"
    using lay by (simp add: length_slice chunk_layout_def min_less_iff_disj)
  show raw: "unat (ch_raw_len c) = length (chunk_slice cs content i)"
    using assms(3) slen by (simp add: chunk_message_def unat_of_nat)
  have "ch_offset c \<le> af_final_size af" using off a below by (simp add: word_le_unat)
  then have "unat (min (af_chunk_size af) (af_final_size af - ch_offset c)) = length (chunk_slice cs content i)"
    using a off by (simp add: word_min_unat unat_sub word_le_unat length_slice)
  then show "ch_raw_len c = expected_chunk_len af (ch_offset c)"
    using raw slen by (simp add: expected_chunk_len_def word_unat_eq_iff unsigned_ucast_eq take_bit_nat_eq_self)
  have "i * cs + length (chunk_slice cs content i) \<le> length content" using below by (simp add: length_slice)
  then show "ch_offset c + ucast (ch_raw_len c) \<le> af_final_size af"
    unfolding word_le_unat using off raw a len64 by (subst unat_plus_no_wrap) simp_all
qed

text \<open>What a chunk may change of the active file: only which chunks are received.\<close>

definition same_file :: "ActiveFile \<Rightarrow> ActiveFile \<Rightarrow> bool" where
  "same_file af af' \<longleftrightarrow>
     af'\<lparr>af_received := af_received af, af_received_count := af_received_count af\<rparr> = af \<and>
     length (af_received af') = length (af_received af)"

lemma same_file_refl: "same_file af af"
  by (simp add: same_file_def)

lemma same_file_trans: "same_file a b \<Longrightarrow> same_file b c \<Longrightarrow> same_file a c"
  by (cases a; cases b; cases c) (simp add: same_file_def)

lemma same_file_fields:
  assumes "same_file af af'"
  shows "af_seq af' = af_seq af" "af_file_id af' = af_file_id af" "af_temp_path af' = af_temp_path af"
    "af_final_path af' = af_final_path af" "af_chunk_count af' = af_chunk_count af"
    "af_file_checksum af' = af_file_checksum af" "af_final_size af' = af_final_size af"
    "length (af_received af') = length (af_received af)"
  using assms by (cases af; cases af'; simp add: same_file_def)+

lemma apply_next_chunk:
  assumes "assembling self fs af cs content" and "reliable sys" and "i < unat (af_chunk_count af)"
  shows "\<exists>self' fs' af'.
    apply_chunk sys fs self (chunk_message sys (ci_stream_id self) (af_seq af) (af_file_id af) cs content i) =
      (Inr None, self', fs') \<and>
    assembling self' fs' af' cs content \<and> same_file af af' \<and> ci_stream_id self' = ci_stream_id self \<and>
    ci_temp_root self' = ci_temp_root self \<and>
    af_received af' = (af_received af)[i := True] \<and>
    (\<forall>q. q \<noteq> af_temp_path af \<longrightarrow> fs_lookup fs' q = fs_lookup fs q)"
proof -
  define c where "c = chunk_message sys (ci_stream_id self) (af_seq af) (af_file_id af) cs content i"
  note a = assms(1) [unfolded assembling_def]
  note f = chunk_message_fields [OF assms(1,3) c_def]
  have sel: "ch_stream_id c = ci_stream_id self" "ch_seq c = af_seq af" "ch_file_id c = af_file_id af"
      "ch_payload c = chunk_slice cs content i" "ch_compression c = Compression_NONE"
      "ch_checksum_algo c = CRC32C" "ch_checksum c = crc32c_bytes sys (chunk_slice cs content i)"
    by (simp_all add: c_def chunk_message_def)
  have act: "map_of (ci_active self) (af_seq af) = Some af" using a by simp
  have reach: "apply_chunk sys fs self c =
      (if af_received af ! i then (Inr None, self, fs) else write_chunk sys fs self af c)"
  proof -
    have "(ch_chunk_index c \<ge> af_chunk_count af) = False"
        "(ch_offset c \<noteq> ch_chunk_index c * af_chunk_size af) = False"
        "(ch_raw_len c \<noteq> expected_chunk_len af (ch_offset c) \<or>
          ch_offset c + ucast (ch_raw_len c) > af_final_size af) = False"
      using f(2,3,5,7) by (simp_all add: not_le not_less)
    moreover have "ci_expected_seq self = af_seq af" using a by simp
    ultimately show ?thesis
      by (simp only: apply_chunk_def sel(1-3) act f(1) less_irrefl simp_thms if_False option.case)
  qed
  show ?thesis
  proof (cases "af_received af ! i")
    case True
    then have "(af_received af)[i := True] = af_received af" by (metis list_update_id)
    with True reach assms(1) same_file_refl [of af] show ?thesis unfolding c_def [symmetric] by auto
  next
    case False
    obtain b where b: "fs_lookup fs (af_temp_path af) = Some (File b)" "assembled cs content (af_received af) b"
      using a by blast
    have plain: "plain fs (af_temp_path af)" using a by simp
    define fs' where "fs' = AList.update (af_temp_path af) (File (overwrite (i * cs) (chunk_slice cs content i) b)) fs"
    define af' where "af' = mark_received af i"
    define self' where "self' = self\<lparr>ci_active := AList.update (af_seq af) af' (ci_active self)\<rparr>"
    have "length content < 2 ^ 63" using a by (simp add: chunk_layout_def)
    then have "\<not> ch_offset c \<ge> 2 ^ 63"
      using f(4) chunk_layout_below [of cs content "unat (af_chunk_count af)" i] a assms(3) by (simp add: word_le_unat)
    then have w: "write_chunk sys fs self af c = (Inr None, self', fs')"
      using assms(2) open_existing_plain [OF plain b(1)] b(1) f(1,4,6)
      by (simp add: write_chunk_def raw_data_for_chunk_message_def sel reliable_def write_at_def
          fs'_def self'_def af'_def)
    have same: "same_file af af'" by (simp add: same_file_def af'_def mark_received_def)
    have il: "i < length (af_received af)" using a assms(3) by simp
    have lay: "chunk_layout cs content (unat (af_chunk_count af))" using a by simp
    have "assembled cs content (af_received af') (overwrite (i * cs) (chunk_slice cs content i) b)"
      unfolding af'_def mark_received_def
      using assembled_write [OF b(2) _ il chunk_layout_below [OF lay assms(3)]] lay
      by (simp add: chunk_layout_def)
    moreover have "unat (af_received_count af') = length (filter (\<lambda>r. r) (af_received af'))"
    proof -
      have "length (filter (\<lambda>r. r) ((af_received af)[i := True])) \<le> unat (af_chunk_count af)"
        using a length_filter_le [of "\<lambda>r. r" "(af_received af)[i := True]"] by simp
      then have "unat (af_received_count af) + unat (1 :: u64) < 2 ^ LENGTH(64)"
        using filter_update_True [OF il False] a unat_u64_lt [of "af_chunk_count af"] by simp
      then have "unat (af_received_count af + 1) = unat (af_received_count af) + 1"
        using unat_plus_no_wrap [of "af_received_count af" 1] by simp
      then show ?thesis using a filter_update_True [OF il False] by (simp add: af'_def mark_received_def)
    qed
    ultimately have "assembling self' fs' af' cs content"
      using a same_file_fields [OF same] plain_update [OF plain, of "af_temp_path af"] b(1)
      by (auto simp: assembling_def self'_def fs'_def af'_def mark_received_def update_conv')
    moreover have "af_received af' = (af_received af)[i := True]" by (simp add: af'_def mark_received_def)
    ultimately show ?thesis
      using reach False w same unfolding c_def [symmetric] by (auto simp: fs'_def self'_def)
  qed
qed

lemma deliver_indices:
  assumes "assembling self fs af cs content" and "reliable sys" and "list_all (\<lambda>i. i < unat (af_chunk_count af)) is"
  shows "\<exists>self' fs' af'.
    deliver_chunks sys (map (chunk_message sys (ci_stream_id self) (af_seq af) (af_file_id af) cs content) is) (self, fs) =
      (replicate (length is) (Inr None), self', fs') \<and>
    assembling self' fs' af' cs content \<and> same_file af af' \<and> ci_stream_id self' = ci_stream_id self \<and>
    ci_temp_root self' = ci_temp_root self \<and>
    (\<forall>k < length (af_received af). af_received af' ! k \<longleftrightarrow> af_received af ! k \<or> k \<in> set is) \<and>
    (\<forall>q. q \<noteq> af_temp_path af \<longrightarrow> fs_lookup fs' q = fs_lookup fs q)"
  using assms(1,3)
proof (induction "is" arbitrary: self fs af)
  case Nil
  then show ?case using same_file_refl by auto
next
  case (Cons i "is")
  have i: "i < unat (af_chunk_count af)" using Cons.prems(2) by simp
  obtain self1 fs1 af1 where s1:
      "apply_chunk sys fs self (chunk_message sys (ci_stream_id self) (af_seq af) (af_file_id af) cs content i) =
        (Inr None, self1, fs1)"
      "assembling self1 fs1 af1 cs content" "same_file af af1" "ci_stream_id self1 = ci_stream_id self"
      "ci_temp_root self1 = ci_temp_root self" "af_received af1 = (af_received af)[i := True]"
      "\<forall>q. q \<noteq> af_temp_path af \<longrightarrow> fs_lookup fs1 q = fs_lookup fs q"
    using apply_next_chunk [OF Cons.prems(1) assms(2) i] by blast
  note same = same_file_fields [OF s1(3)]
  have "list_all (\<lambda>i. i < unat (af_chunk_count af1)) is" using Cons.prems(2) same(5) by simp
  from Cons.IH [OF s1(2) this] obtain self2 fs2 af2 where s2:
      "deliver_chunks sys (map (chunk_message sys (ci_stream_id self) (af_seq af) (af_file_id af) cs content) is) (self1, fs1) =
        (replicate (length is) (Inr None), self2, fs2)"
      "assembling self2 fs2 af2 cs content" "same_file af1 af2" "ci_stream_id self2 = ci_stream_id self1"
      "ci_temp_root self2 = ci_temp_root self1"
      "\<forall>k < length (af_received af1). af_received af2 ! k \<longleftrightarrow> af_received af1 ! k \<or> k \<in> set is"
      "\<forall>q. q \<noteq> af_temp_path af1 \<longrightarrow> fs_lookup fs2 q = fs_lookup fs1 q"
    unfolding same(1,2) s1(4) by blast
  have il: "i < length (af_received af)" using Cons.prems(1) i by (simp add: assembling_def)
  have "\<forall>k < length (af_received af). af_received af2 ! k \<longleftrightarrow> af_received af ! k \<or> k \<in> set (i # is)"
    using s2(6) s1(6) il by (auto simp: nth_list_update)
  moreover have "same_file af af2" using s1(3) s2(3) by (rule same_file_trans)
  moreover have "\<forall>q. q \<noteq> af_temp_path af \<longrightarrow> fs_lookup fs2 q = fs_lookup fs q"
    using s2(7) s1(7) same(3) by simp
  ultimately show ?case using s1(1,4,5) s2(1,2,4,5) by (intro exI [of _ self2] exI [of _ fs2] exI [of _ af2]) simp
qed

lemma all_received_count:
  "length (filter (\<lambda>r. r) xs) = length xs" if "\<And>k. k < length xs \<Longrightarrow> xs ! k"
  using that by (metis (full_types) filter_True in_set_conv_nth)

section \<open>Committing\<close>

text \<open>A file checksum that covers a range of the content.\<close>

definition checksum_covers :: "system \<Rightarrow> T_FileChecksum \<Rightarrow> Bytes \<Rightarrow> bool" where
  "checksum_covers sys ck content \<longleftrightarrow> ck_algo ck = CRC32C \<and>
     unat (ck_offset ck) + unat (ck_len ck) \<le> length content \<and>
     ck_value ck = crc32c_bytes sys (take (unat (ck_len ck)) (drop (unat (ck_offset ck)) content))"

lemma checksum_covers_matches:
  assumes "checksum_covers sys ck content" and "extend_laws sys" and "reliable sys"
    and "file_at fs p = Some content" and "length content < 2 ^ 63"
  shows "checksum_matches sys fs ck p = Inr True"
proof -
  let ?size = "word_of_nat (length content) :: u64"
  have size: "unat ?size = length content" using assms(5) by (simp add: unat_of_nat)
  have c: "unat (ck_offset ck) + unat (ck_len ck) \<le> length content" using assms(1) by (simp add: checksum_covers_def)
  have sum: "unat (ck_offset ck + ck_len ck) = unat (ck_offset ck) + unat (ck_len ck)"
    using c assms(5) by (intro unat_plus_no_wrap) simp
  have "\<not> (ck_offset ck > ?size \<or> ck_len ck > ?size \<or> ck_offset ck + ck_len ck > ?size)"
    using c by (simp add: word_lt_unat size sum)
  moreover have "ck_offset ck < 2 ^ 63" using c assms(5) by (simp add: word_lt_unat)
  ultimately show ?thesis
    using assms crc32c_file_range_ok [OF assms(2,4) _ c]
    by (simp add: checksum_matches_def checksum_covers_def file_size_or_zero_def Let_def reliable_def)
qed

lemma fsync_path_reliable: "reliable sys \<Longrightarrow> node_at fs p \<noteq> None \<Longrightarrow> fsync_path sys fs p what = Inr ()"
  by (simp add: fsync_path_def reliable_def)

lemma fsync_directory_reliable: "reliable sys \<Longrightarrow> node_at fs p = Some Dir \<Longrightarrow> fsync_directory sys fs p = Inr ()"
  by (simp add: fsync_directory_def reliable_def)

lemma node_at_parent:
  assumes "plain fs p"
  shows "node_at fs (parent_path p) = Some Dir"
proof (cases "butlast p = []")
  case True
  then show ?thesis by (simp add: parent_path_def node_at_def node_here_def resolve_def)
next
  case False
  have "p = butlast p @ [last p]" using plainD(1) [OF assms] by simp
  then have "plain fs (butlast p)" using plain_prefix [of fs "butlast p" "[last p]"] assms False by simp
  moreover have "fs_lookup fs (butlast p) = Some Dir"
    using plainD(3) [OF assms, of "length p - 1"] False by (cases p rule: rev_cases) auto
  ultimately show ?thesis by (simp add: node_at_plain parent_path_def)
qed

lemma rename_to_free:
  assumes "reliable sys" and "plain fs old" and "fs_lookup fs old = Some (File b)"
    and "plain fs new" and "fs_lookup fs new = None"
  shows "rename_file sys fs old new = Inr (AList.update new (File b) (AList.delete old fs))"
  using assms resolve_plain(2) [OF assms(2)] resolve_plain(2) [OF assms(4)] plainD(1) [OF assms(2)]
  by (simp add: rename_file_def reliable_def node_here_def)

lemma write_commit_ok:
  assumes "reliable sys" and "extend_laws sys" and "checksum_covers sys (ct_file_checksum task) content"
    and "length content < 2 ^ 63" and "fs_ok fs"
    and "plain fs (ct_temp_path task)" and "fs_lookup fs (ct_temp_path task) = Some (File content)"
    and "free_path fs (ct_final_path task)" and "ct_temp_root task = parent_path (ct_temp_path task)"
  shows "\<exists>fs'. write_commit_task sys fs task =
      (Inr \<lparr>cres_stream_id = ct_stream_id task, cres_seq = ct_seq task, cres_file_id = ct_file_id task,
         cres_final_size = ct_final_size task, cres_final_path = ct_final_path task\<rparr>, fs') \<and>
    file_at fs' (ct_final_path task) = Some content \<and> fs_lookup fs' (ct_temp_path task) = None \<and>
    (\<forall>q n. q \<noteq> ct_temp_path task \<longrightarrow> fs_lookup fs q = Some n \<longrightarrow> fs_lookup fs' q = Some n)"
proof -
  let ?temp = "ct_temp_path task" and ?final = "ct_final_path task"
  note free = free_pathD [OF assms(8)]
  have ne: "?temp \<noteq> ?final" using assms(7) free(3) by auto
  have ck: "checksum_matches sys fs (ct_file_checksum task) ?temp = Inr True"
    using checksum_covers_matches [OF assms(3,2,1) file_at_plain [OF assms(6,7)] assms(4)] .
  have sync1: "fsync_path sys fs ?temp ''chunk temp file'' = Inr ()"
    using assms(1,6,7) by (intro fsync_path_reliable) (simp_all add: node_at_plain)
  have gone: "\<not> fs_exists_ec fs ?final"
    using resolve_no_links(1) [OF assms(5) free(5,2,1)] free(3) by (simp add: fs_exists_ec_def)
  obtain fs1 where fs1: "create_directories sys fs (parent_path ?final) = (None, fs1)"
    using create_parents_succeeds [of sys, OF _ assms(8)] assms(1) by (auto simp: reliable_def)
  note par = create_parents [OF fs1 free(5,2,1)]
  have plain1: "plain fs1 ?temp" using plain_mono [OF assms(6)] par(3) by blast
  define fs2 where "fs2 = AList.update ?final (File content) (AList.delete ?temp fs1)"
  have ren: "rename_file sys fs1 ?temp ?final = Inr fs2"
    unfolding fs2_def using par free(3) assms(1,7) plain1 by (intro rename_to_free) auto
  have dirs: "fs_lookup fs1 q = Some Dir \<Longrightarrow> fs_lookup fs2 q = Some Dir" for q
    using par(2,3) free(3) assms(7) by (auto simp: fs2_def)
  have plain2: "plain fs2 ?final" "plain fs2 ?temp" using plain_mono par(1) plain1 dirs by blast+
  have at: "fs_lookup fs2 ?final = Some (File content)" by (simp add: fs2_def)
  have "sync_committed sys fs2 task = Inr ()"
    using assms(1,9) at plain2 by (simp add: sync_committed_def fsync_path_reliable fsync_directory_reliable
        node_at_parent node_at_plain)
  then have "write_commit_task sys fs task =
      (Inr \<lparr>cres_stream_id = ct_stream_id task, cres_seq = ct_seq task, cres_file_id = ct_file_id task,
         cres_final_size = ct_final_size task, cres_final_path = ct_final_path task\<rparr>, fs2)"
    using ck sync1 gone fs1 ren by (simp add: write_commit_task_def)
  moreover have "fs_lookup fs2 q = Some n" if "q \<noteq> ?temp" "fs_lookup fs q = Some n" for q n
    using that par(3) free(3) by (auto simp: fs2_def)
  moreover have "file_at fs2 ?final = Some content" using plain2(1) at by (rule file_at_plain)
  moreover have "fs_lookup fs2 ?temp = None" using ne by (simp add: fs2_def)
  ultimately show ?thesis by blast
qed

lemma apply_commit_ok:
  assumes "reliable sys" and "extend_laws sys" and "checksum_covers sys (af_file_checksum af) content"
    and "length content < 2 ^ 63" and "fs_ok fs" and "assembling self fs af cs content"
    and "\<And>i. i < length (af_received af) \<Longrightarrow> af_received af ! i"
    and "free_path fs (af_final_path af)" and "ci_temp_root self = parent_path (af_temp_path af)"
    and "af_seq af \<noteq> 0"
  shows "\<exists>self' fs'. apply_commit sys fs self \<lparr>fc_stream_id = ci_stream_id self, fc_seq = af_seq af,
        fc_file_id = af_file_id af\<rparr> = (Inr None, self', fs') \<and>
    file_at fs' (af_final_path af) = Some content \<and> fs_lookup fs' (af_temp_path af) = None \<and>
    (\<forall>q n. q \<noteq> af_temp_path af \<longrightarrow> fs_lookup fs q = Some n \<longrightarrow> fs_lookup fs' q = Some n) \<and>
    ci_expected_seq self' = max (af_seq af) (af_seq af + 1) \<and> map_of (ci_active self') (af_seq af) = None"
proof -
  note a = assms(6) [unfolded assembling_def]
  define task where "task = make_commit_task self (af\<lparr>af_commit_pending := True\<rparr>)"
  define self1 where
    "self1 = self\<lparr>ci_active := AList.update (af_seq af) (af\<lparr>af_commit_pending := True\<rparr>) (ci_active self)\<rparr>"
  note task = task_def make_commit_task_def
  have all: "af_received_count af = af_chunk_count af"
    using all_received_count [of "af_received af"] assms(7) a by (simp add: word_unat_eq_iff)
  obtain b where b: "fs_lookup fs (af_temp_path af) = Some (File b)" "assembled cs content (af_received af) b"
    using a by blast
  have lay: "0 < cs" "length content \<le> length (af_received af) * cs" using a by (auto simp: chunk_layout_def)
  have bc: "b = content" by (rule assembled_complete [OF b(2) lay(1) assms(7) lay(2)])
  note free = free_pathD [OF assms(8)]
  have "fs_exists fs (af_final_path af) = Inr False"
    using resolve_no_links(3) [OF assms(5) free(5,2,1)] free(3) by simp
  then have prep: "prepare_commit fs self \<lparr>fc_stream_id = ci_stream_id self, fc_seq = af_seq af,
        fc_file_id = af_file_id af\<rparr> default_commit_task = (Inr (None, task), self1)"
    using a all by (simp add: prepare_commit_def task_def self1_def Let_def)
  obtain fs' where w: "write_commit_task sys fs task =
      (Inr \<lparr>cres_stream_id = ct_stream_id task, cres_seq = ct_seq task, cres_file_id = ct_file_id task,
         cres_final_size = ct_final_size task, cres_final_path = ct_final_path task\<rparr>, fs')"
      "file_at fs' (af_final_path af) = Some content" "fs_lookup fs' (af_temp_path af) = None"
      "\<forall>q n. q \<noteq> af_temp_path af \<longrightarrow> fs_lookup fs q = Some n \<longrightarrow> fs_lookup fs' q = Some n"
    using write_commit_ok [of sys task content fs] assms(1-5,8,9) a b(1) bc by (auto simp: task)
  have "\<exists>self'. finish_commit self1 \<lparr>cres_stream_id = ct_stream_id task, cres_seq = ct_seq task,
        cres_file_id = ct_file_id task, cres_final_size = ct_final_size task,
        cres_final_path = ct_final_path task\<rparr> = Inr self' \<and>
      ci_expected_seq self' = max (af_seq af) (af_seq af + 1) \<and> map_of (ci_active self') (af_seq af) = None"
    using a by (simp add: finish_commit_def self1_def task update_conv' delete_conv')
  then show ?thesis using prep w assms(10) by (auto simp: apply_commit_def task)
qed

text \<open>A FILE_BEGIN that passes its checks opens an empty temporary file of which no chunk is received.\<close>

lemma apply_begin_ok:
  assumes "reliable sys" and "fs_ok fs" and "fb_stream_id b = ci_stream_id self"
    and "fb_seq b = ci_expected_seq self" and "map_of (ci_active self) (fb_seq b) = None"
    and "should_use_chunk_mode (fb_final_size b)" and "check_begin_prev sys fs self b = Inr None"
    and "final_path_for self (fb_file_id b) (fb_name b) = Inr final" and "free_path fs final"
    and "temp = temp_path_for self (fb_seq b) (fb_file_id b)" and "plain fs temp" and "fs_lookup fs temp = None"
    and "fb_final_size b = word_of_nat (length content)" and "unat (fb_chunk_size b) = cs"
    and "chunk_count_for_size (fb_final_size b) (fb_chunk_size b) = Inr (fb_chunk_count b)"
    and "0 < cs" and "cs < 2 ^ 32" and "length content < 2 ^ 63"
  shows "\<exists>self' fs'. apply_begin sys fs self b = (Inr None, self', fs') \<and>
    assembling self' fs' (new_active_file b temp final) cs content \<and> ci_stream_id self' = ci_stream_id self \<and>
    ci_temp_root self' = ci_temp_root self \<and> (\<forall>q. q \<noteq> temp \<longrightarrow> fs_lookup fs' q = fs_lookup fs q)"
proof -
  note free = free_pathD [OF assms(9)]
  have size: "unat (fb_final_size b) = length content" using assms(13,16,18) by (simp add: unat_of_nat)
  have nz: "fb_chunk_size b \<noteq> 0" "fb_final_size b \<noteq> 0"
    using assms(6,14,16) by (auto simp: should_use_chunk_mode_def)
  have ex: "fs_exists fs final = Inr False"
    using resolve_no_links(3) [OF assms(2) free(5,2,1)] free(3) by simp
  have opened: "open_create sys fs temp True = Some (temp, AList.update temp (File []) fs)"
    using resolve_plain(1) [OF assms(11)] assms(1,12) by (simp add: open_create_def reliable_def)
  define self' where
    "self' = self\<lparr>ci_active := AList.update (fb_seq b) (new_active_file b temp final) (ci_active self)\<rparr>"
  have run: "apply_begin sys fs self b = (Inr None, self', AList.update temp (File []) fs)"
    using assms(3-8,15) nz ex opened [unfolded assms(10)] 
    by (simp add: apply_begin_def self'_def Let_def assms(10))
  have lay: "chunk_layout cs content (unat (fb_chunk_count b))"
  proof -
    let ?n = "unat (fb_chunk_count b)"
    have n: "length content \<le> ?n * cs" "(?n - 1) * cs < length content"
      using chunk_count_fits [OF nz(1), of "fb_final_size b"] assms(14,15,17,18) size nz(2) by auto
    have "0 < length content" using nz(2) size by (metis unat_eq_zero gr0I)
    then show ?thesis using n assms(16-18) by (auto simp: chunk_layout_def intro: Suc_leI gr0I)
  qed
  have start: "assembled cs content (replicate (unat (fb_chunk_count b)) False) []"
    using lay by (intro assembled_start [of "unat (fb_chunk_count b)"]) (auto simp: chunk_layout_def)
  have "assembling self' (AList.update temp (File []) fs) (new_active_file b temp final) cs content"
    using lay start assms(4,11,12,14) size
    by (simp add: assembling_def self'_def new_active_file_def update_conv' plain_update)
  with run show ?thesis by (auto simp: self'_def)
qed

definition receive_file ::
  "system \<Rightarrow> filesystem \<Rightarrow> T_ChunkedReceiverStream \<Rightarrow> T_FileBegin \<Rightarrow> T_Chunk list \<Rightarrow>
     T_Nack option result list \<times> T_ChunkedReceiverStream \<times> filesystem" where
  "receive_file sys fs self b chunks =
     (let (r1, self1, fs1) = apply_begin sys fs self b;
          (rs, self2, fs2) = deliver_chunks sys chunks (self1, fs1);
          (r3, self3, fs3) = apply_commit sys fs2 self2
            \<lparr>fc_stream_id = fb_stream_id b, fc_seq = fb_seq b, fc_file_id = fb_file_id b\<rparr>
      in (r1 # rs @ [r3], self3, fs3))"

text \<open>C4: A chunked transfer reproduces the file whatever the order of its chunks. When a FILE_BEGIN
  for a free path is followed by chunks of the content in any order and with any repetition, as long as
  every chunk occurs, and then by FILE_COMMIT, on a system whose file operations succeed, no message is
  refused, the final path holds exactly the content, the temporary file is gone, every node that existed
  before is unchanged and the next sequence number is expected.\<close>

theorem chunked_transfer:
  assumes "reliable sys" and "extend_laws sys" and "fs_ok fs" and "fb_stream_id b = ci_stream_id self"
    and "fb_seq b = ci_expected_seq self" and "fb_seq b \<noteq> 0" and "fb_seq b \<noteq> UINT64_MAX"
    and "map_of (ci_active self) (fb_seq b) = None"
    and "should_use_chunk_mode (fb_final_size b)" and "check_begin_prev sys fs self b = Inr None"
    and "final_path_for self (fb_file_id b) (fb_name b) = Inr final" and "free_path fs final"
    and "temp = temp_path_for self (fb_seq b) (fb_file_id b)" and "plain fs temp" and "fs_lookup fs temp = None"
    and "\<not> is_prefix temp final"
    and "fb_final_size b = word_of_nat (length content)" and "length content < 2 ^ 63"
    and "chunk_count_for_size (fb_final_size b) (fb_chunk_size b) = Inr (fb_chunk_count b)"
    and "0 < unat (fb_chunk_size b)" and "unat (fb_chunk_size b) < 2 ^ 32"
    and "checksum_covers sys (fb_file_checksum b) content"
    and "set is = {0..<unat (fb_chunk_count b)}"
  shows "\<exists>self' fs'. receive_file sys fs self b
      (map (chunk_message sys (fb_stream_id b) (fb_seq b) (fb_file_id b) (unat (fb_chunk_size b)) content) is) =
        (replicate (length is + 2) (Inr None), self', fs') \<and>
    file_at fs' final = Some content \<and> fs_lookup fs' temp = None \<and>
    (\<forall>q n. fs_lookup fs q = Some n \<longrightarrow> fs_lookup fs' q = Some n) \<and>
    ci_expected_seq self' = fb_seq b + 1 \<and> map_of (ci_active self') (fb_seq b) = None"
proof -
  let ?cs = "unat (fb_chunk_size b)" and ?af = "new_active_file b temp final"
  obtain self1 fs1 where s1: "apply_begin sys fs self b = (Inr None, self1, fs1)"
      "assembling self1 fs1 ?af ?cs content" "ci_stream_id self1 = ci_stream_id self"
      "ci_temp_root self1 = ci_temp_root self" "\<forall>q. q \<noteq> temp \<longrightarrow> fs_lookup fs1 q = fs_lookup fs q"
    using apply_begin_ok [OF assms(1,3,4,5,8-15) assms(17) refl assms(19-21,18)] by blast
  have "list_all (\<lambda>i. i < unat (af_chunk_count ?af)) is"
    using assms(23) by (auto simp: new_active_file_def list_all_iff)
  from deliver_indices [OF s1(2) assms(1) this] obtain self2 fs2 af2 where s2:
      "deliver_chunks sys (map (chunk_message sys (fb_stream_id b) (fb_seq b) (fb_file_id b) ?cs content) is)
         (self1, fs1) = (replicate (length is) (Inr None), self2, fs2)"
      "assembling self2 fs2 af2 ?cs content" "same_file ?af af2" "ci_stream_id self2 = ci_stream_id self1"
      "ci_temp_root self2 = ci_temp_root self1"
      "\<forall>k < length (af_received ?af). af_received af2 ! k \<longleftrightarrow> af_received ?af ! k \<or> k \<in> set is"
      "\<forall>q. q \<noteq> temp \<longrightarrow> fs_lookup fs2 q = fs_lookup fs1 q"
    using s1(3) assms(4) by (auto simp: new_active_file_def)
  note same = same_file_fields [OF s2(3)]
  have f: "af_seq af2 = fb_seq b" "af_file_id af2 = fb_file_id b" "af_temp_path af2 = temp"
      "af_final_path af2 = final" "af_file_checksum af2 = fb_file_checksum b"
      "length (af_received af2) = unat (fb_chunk_count b)"
    using same by (simp_all add: new_active_file_def)
  have other: "q \<noteq> temp \<Longrightarrow> fs_lookup fs2 q = fs_lookup fs q" for q using s1(5) s2(7) by simp
  have ok: "fs_ok fs2" using fs_ok_change [OF assms(3,14) _ other] assms(15) by simp
  have free: "free_path fs2 (af_final_path af2)"
    unfolding f by (rule free_path_change [OF assms(12,16) other])
  have all: "\<And>i. i < length (af_received af2) \<Longrightarrow> af_received af2 ! i"
    using s2(6) f(6) assms(23) by (simp add: new_active_file_def)
  have root: "ci_temp_root self2 = parent_path (af_temp_path af2)"
    unfolding f s2(5) s1(4) assms(13) by (simp add: temp_path_for_def parent_path_def)
  obtain self3 fs3 where s3: "apply_commit sys fs2 self2 \<lparr>fc_stream_id = ci_stream_id self2, fc_seq = af_seq af2,
        fc_file_id = af_file_id af2\<rparr> = (Inr None, self3, fs3)"
      "file_at fs3 final = Some content" "fs_lookup fs3 temp = None"
      "\<forall>q n. q \<noteq> temp \<longrightarrow> fs_lookup fs2 q = Some n \<longrightarrow> fs_lookup fs3 q = Some n"
      "ci_expected_seq self3 = max (fb_seq b) (fb_seq b + 1)" "map_of (ci_active self3) (fb_seq b) = None"
    using apply_commit_ok [OF assms(1,2) _ assms(18) ok s2(2) all free root] assms(6,22) f by auto
  have "receive_file sys fs self b
      (map (chunk_message sys (fb_stream_id b) (fb_seq b) (fb_file_id b) ?cs content) is) =
        (replicate (length is + 2) (Inr None), self3, fs3)"
    using s1(1,3) s2(1,4) s3(1) assms(4) f(1,2)
    by (simp add: receive_file_def replicate_append_same)
  moreover have "max (fb_seq b) (fb_seq b + 1) = fb_seq b + 1"
    using unat_u64_succ [of "fb_seq b"] assms(7) by (simp add: max_def word_le_unat)
  moreover have "\<forall>q n. fs_lookup fs q = Some n \<longrightarrow> fs_lookup fs3 q = Some n"
    using s3(4) other assms(15) by (metis option.distinct(1))
  ultimately show ?thesis using s3 by auto
qed

definition sample_content :: Bytes where
  "sample_content = replicate 100000000 0"

definition sample_chunked :: T_ChunkedReceiverStream where
  "sample_chunked = \<lparr>ci_stream_id = 1, ci_root = [''r''], ci_temp_root = [''r'', ''.yisync_tmp''],
     ci_expected_seq = 1, ci_current_file_id = 0, ci_current_offset = 0, ci_active = []\<rparr>"

definition sample_begin :: T_FileBegin where
  "sample_begin = \<lparr>fb_stream_id = 1, fb_seq = 1, fb_file_id = 5, fb_name = ''a'', fb_final_size = 100000000,
     fb_chunk_size = 33554432, fb_chunk_count = 3,
     fb_file_checksum = \<lparr>ck_algo = CRC32C, ck_offset = 0, ck_len = 0, ck_value = [0, 0, 0, 0]\<rparr>,
     fb_prev_file_id = 0, fb_prev_final_size = 0, fb_prev_checksum = default_checksum\<rparr>"

theorem chunked_transfer_witness:
  "\<exists>self' fs'. receive_file plain_system [([''r''], Dir), ([''r'', ''.yisync_tmp''], Dir)] sample_chunked sample_begin
      (map (chunk_message plain_system 1 1 5 33554432 sample_content) [2, 0, 2, 1]) =
        (replicate 6 (Inr None), self', fs') \<and>
    file_at fs' [''r'', ''a''] = Some sample_content \<and>
    ci_expected_seq self' = 2 \<and> map_of (ci_active self') 1 = None"
proof -
  let ?fs = "[([''r''], Dir), ([''r'', ''.yisync_tmp''], Dir)]"
  have len: "length sample_content = 100000000" by (simp add: sample_content_def)
  have t: "temp_path_for sample_chunked (fb_seq sample_begin) (fb_file_id sample_begin) =
      [''r'', ''.yisync_tmp'', ''1_5.file.tmp'']" by code_simp
  have fin: "final_path_for sample_chunked (fb_file_id sample_begin) (fb_name sample_begin) = Inr [''r'', ''a'']"
    by code_simp
  have "\<exists>self' fs'. receive_file plain_system ?fs sample_chunked sample_begin
      (map (chunk_message plain_system (fb_stream_id sample_begin) (fb_seq sample_begin)
        (fb_file_id sample_begin) (unat (fb_chunk_size sample_begin)) sample_content) [2, 0, 2, 1]) =
        (replicate (length [2 :: nat, 0, 2, 1] + 2) (Inr None), self', fs') \<and>
    file_at fs' [''r'', ''a''] = Some sample_content \<and> fs_lookup fs' [''r'', ''.yisync_tmp'', ''1_5.file.tmp''] = None \<and>
    (\<forall>q n. fs_lookup ?fs q = Some n \<longrightarrow> fs_lookup fs' q = Some n) \<and>
    ci_expected_seq self' = fb_seq sample_begin + 1 \<and> map_of (ci_active self') (fb_seq sample_begin) = None"
  proof (rule chunked_transfer [OF plain_system_reliable extend_laws_plain _ _ _ _ _ _ _ _ fin _ t [symmetric]])
    show "fs_ok ?fs" "free_path ?fs [''r'', ''a'']" "plain ?fs [''r'', ''.yisync_tmp'', ''1_5.file.tmp'']"
      "fs_lookup ?fs [''r'', ''.yisync_tmp'', ''1_5.file.tmp''] = None"
      "\<not> is_prefix [''r'', ''.yisync_tmp'', ''1_5.file.tmp''] [''r'', ''a'']"
      "should_use_chunk_mode (fb_final_size sample_begin)"
      "chunk_count_for_size (fb_final_size sample_begin) (fb_chunk_size sample_begin) =
         Inr (fb_chunk_count sample_begin)" by code_simp+
    show "checksum_covers plain_system (fb_file_checksum sample_begin) sample_content"
      by (simp add: checksum_covers_def sample_begin_def crc32c_bytes_def crc32c_def crc32c_value_bytes_def plain_system_def)
    show "set [2, 0, 2, 1] = {0..<unat (fb_chunk_count sample_begin)}"
      by (auto simp: sample_begin_def)
  qed (simp_all add: sample_chunked_def sample_begin_def len check_begin_prev_def)
  moreover have "unat (33554432 :: u64) = 33554432" "length [2 :: nat, 0, 2, 1] + 2 = 6" by simp_all
  moreover have "fb_stream_id sample_begin = 1" "fb_seq sample_begin = 1" "fb_file_id sample_begin = 5"
      "fb_chunk_size sample_begin = 33554432" "(1 :: u64) + 1 = 2" by (simp_all add: sample_begin_def)
  ultimately show ?thesis by metis
qed

section \<open>Refused chunks\<close>



section \<open>Exactness of the missing ranges\<close>

lemma highest_received_char:
  "highest_received received n =
     (if \<exists>i < n. received ! i then Some (Max {i. i < n \<and> received ! i}) else None)"
proof (induction n)
  case (Suc n)
  have step: "highest_received received (Suc n) =
      (if received ! n then Some n else highest_received received n)"
    by (simp add: highest_received_def)
  show ?case
  proof (cases "received ! n")
    case True
    then have "Max {i. i < Suc n \<and> received ! i} = n" by (intro Max_eqI) auto
    with True step show ?thesis by auto
  next
    case False
    then have "{i. i < Suc n \<and> received ! i} = {i. i < n \<and> received ! i}" by (auto simp: less_Suc_eq)
    with False step Suc.IH show ?thesis by (auto simp: less_Suc_eq)
  qed
qed (simp add: highest_received_def)

lemma skip_missing_spec:
  assumes "index \<le> highest"
  shows "skip_missing received highest index \<le> highest"
    and "\<forall>i. index \<le> i \<and> i < skip_missing received highest index \<longrightarrow> \<not> received ! i"
    and "skip_missing received highest index < highest \<longrightarrow> received ! skip_missing received highest index"
  using assms
proof (induction received highest index rule: skip_missing.induct)
  case (1 received highest index)
  {
    case 1
    then show ?case using "1.IH"(1) by (subst skip_missing.simps) auto
  next
    case 2
    then show ?case using "1.IH"(2)
      by (subst skip_missing.simps) (auto, metis Suc_leI le_neq_implies_less)
  next
    case 3
    then show ?case using "1.IH"(3) by (subst (1 2) skip_missing.simps) auto
  }
qed

definition covered :: "(nat \<times> nat) list \<Rightarrow> nat set" where
  "covered ranges = {i. \<exists>(a, b) \<in> set ranges. a \<le> i \<and> i \<le> b}"

lemma covered_Nil [simp]: "covered [] = {}"
  by (simp add: covered_def)

lemma covered_Cons [simp]: "covered ((a, b) # ranges) = {a..b} \<union> covered ranges"
  by (auto simp: covered_def)

text \<open>Every index a range covers is missing; without a limit on the ranges all of them are covered.\<close>

lemma missing_loop_spec:
  "covered (missing_loop received highest budget index) \<subseteq> {i. index \<le> i \<and> i < highest \<and> \<not> received ! i} \<and>
   length (missing_loop received highest budget index) \<le> budget \<and>
   (length (missing_loop received highest budget index) < budget \<longrightarrow>
      covered (missing_loop received highest budget index) = {i. index \<le> i \<and> i < highest \<and> \<not> received ! i})"
proof (induction received highest budget index rule: missing_loop.induct)
  case (1 received highest budget index)
  show ?case
  proof (cases "index < highest \<and> budget > 0")
    case False
    then show ?thesis by (subst (1 2 3 4) missing_loop.simps) auto
  next
    case True
    show ?thesis
    proof (cases "received ! index")
      case r: True
      have "missing_loop received highest budget index = missing_loop received highest budget (index + 1)"
        using True r by (subst missing_loop.simps) simp
      moreover have "{i. index \<le> i \<and> i < highest \<and> \<not> received ! i} = {i. index + 1 \<le> i \<and> i < highest \<and> \<not> received ! i}"
        using r by (auto simp: Suc_le_eq le_less)
      ultimately show ?thesis using "1.IH"(1) [OF True r] by simp
    next
      case False
      define stop where "stop = skip_missing received highest index"
      have loop: "missing_loop received highest budget index =
          (index, stop - 1) # missing_loop received highest (budget - 1) stop"
        using True False by (subst missing_loop.simps) (simp add: stop_def Let_def)
      have gt: "index < stop" using skip_missing_gt True False by (simp add: stop_def)
      have s: "stop \<le> highest" "\<forall>i. index \<le> i \<and> i < stop \<longrightarrow> \<not> received ! i"
        using skip_missing_spec(1,2) [of index highest received] True by (simp_all add: stop_def)
      have "{i. index \<le> i \<and> i < highest \<and> \<not> received ! i} =
          {index..stop - 1} \<union> {i. stop \<le> i \<and> i < highest \<and> \<not> received ! i}"
        using gt s by auto
      then show ?thesis using "1.IH"(2) [OF True False stop_def] True unfolding loop by auto
    qed
  qed
qed

lemma missing_loop_bounds:
  "(a, b) \<in> set (missing_loop received highest budget index) \<Longrightarrow> a \<le> b \<and> b < highest"
proof (induction received highest budget index rule: missing_loop.induct)
  case (1 received highest budget index)
  show ?case
  proof (cases "index < highest \<and> budget > 0")
    case True
    have gt: "index < skip_missing received highest index" "skip_missing received highest index \<le> highest"
      if "\<not> received ! index"
      using that True skip_missing_gt [of index highest received] skip_missing_spec(1) [of index highest received] by auto
    have "missing_loop received highest budget index =
        (if received ! index then missing_loop received highest budget (index + 1)
         else (index, skip_missing received highest index - 1) #
           missing_loop received highest (budget - 1) (skip_missing received highest index))"
      using True by (subst missing_loop.simps) (simp add: Let_def)
    then show ?thesis
      using "1.IH"(1) [OF True] "1.IH"(2) [OF True _ refl] "1.prems" gt by (auto split: if_splits)
  next
    case False
    then show ?thesis using "1.prems" by (subst (asm) missing_loop.simps) auto
  qed
qed

definition range_indices :: "T_MissingChunkRange \<Rightarrow> nat set" where
  "range_indices r = {unat (mr_first_chunk_index r)..unat (mr_last_chunk_index r)}"

text \<open>C15: The ranges reported as missing are exact. Every reported index is a chunk that was not
  received although a later one was; at most \<open>max_ranges\<close> ranges are reported; and when fewer than
  that are, they cover every missing chunk below the highest received one.\<close>

theorem missing_ranges_exact:
  assumes "map_of (ci_active self) seq = Some af" and "max_ranges \<noteq> 0"
  shows "(\<Union>r \<in> set (missing_ranges self seq max_ranges). range_indices r) \<subseteq>
      {i. \<not> af_received af ! i \<and> (\<exists>j < unat (af_chunk_count af). i < j \<and> af_received af ! j)} \<and>
    length (missing_ranges self seq max_ranges) \<le> unat max_ranges \<and>
    (length (missing_ranges self seq max_ranges) < unat max_ranges \<longrightarrow>
      (\<Union>r \<in> set (missing_ranges self seq max_ranges). range_indices r) =
      {i. \<not> af_received af ! i \<and> (\<exists>j < unat (af_chunk_count af). i < j \<and> af_received af ! j)})"
proof -
  let ?n = "unat (af_chunk_count af)" and ?rec = "af_received af"
  show ?thesis
  proof (cases "\<exists>j < ?n. ?rec ! j")
    case False
    then have "missing_ranges self seq max_ranges = []"
      using assms by (auto simp: missing_ranges_def highest_received_char)
    with False show ?thesis by auto
  next
    case True
    define h where "h = Max {j. j < ?n \<and> ?rec ! j}"
    have below: "i < h \<longleftrightarrow> (\<exists>j < ?n. i < j \<and> ?rec ! j)" for i
      using True by (subst h_def, subst Max_gr_iff) auto
    have "h \<in> {j. j < ?n \<and> ?rec ! j}" unfolding h_def using True by (intro Max_in) auto
    then have hn: "h < ?n" by simp
    let ?loop = "missing_loop ?rec h (unat max_ranges) 0"
    let ?f = "\<lambda>(first, last_index). \<lparr>mr_seq = af_seq af, mr_file_id = af_file_id af,
       mr_first_chunk_index = word_of_nat first, mr_last_chunk_index = word_of_nat last_index\<rparr> :: T_MissingChunkRange"
    have m: "missing_ranges self seq max_ranges = map ?f ?loop"
      using assms True by (simp add: missing_ranges_def highest_received_char h_def)
    have "range_indices (?f (a, b)) = {a..b}" if "(a, b) \<in> set ?loop" for a b
      using missing_loop_bounds [OF that] hn unat_word_of_nat_le [of a "af_chunk_count af"]
        unat_word_of_nat_le [of b "af_chunk_count af"] by (simp add: range_indices_def)
    then have "(\<Union>x \<in> set ?loop. range_indices (?f x)) = (\<Union>(a, b) \<in> set ?loop. {a..b})"
      by (intro SUP_cong refl) (auto simp only: split_paired_all prod.case)
    also have "\<dots> = covered ?loop" unfolding covered_def by fastforce
    finally have "(\<Union>r \<in> set (map ?f ?loop). range_indices r) = covered ?loop" by (simp only: set_map image_image)
    moreover have "{i. \<not> ?rec ! i \<and> (\<exists>j < ?n. i < j \<and> ?rec ! j)} = {i. 0 \<le> i \<and> i < h \<and> \<not> ?rec ! i}"
      using below by auto
    ultimately show ?thesis using missing_loop_spec [of ?rec h "unat max_ranges" 0] unfolding m length_map by simp
  qed
qed

definition sample_active :: ActiveFile where
  "sample_active = (new_active_file sample_begin [] [])
     \<lparr>af_chunk_count := 8, af_received := [True, False, False, True, False, True, False, False]\<rparr>"

theorem missing_ranges_exact_witness:
  "(\<Union>r \<in> set (missing_ranges (sample_chunked\<lparr>ci_active := [(1, sample_active)]\<rparr>) 1 9). range_indices r) = {1, 2, 4}"
proof -
  let ?self = "sample_chunked\<lparr>ci_active := [(1, sample_active)]\<rparr>"
  let ?rec = "[True, False, False, True, False, True, False, False]"
  have "map_of (ci_active ?self) 1 = Some sample_active" by (simp add: sample_chunked_def)
  moreover have "length (missing_ranges ?self 1 9) < unat (9 :: u64)" by code_simp
  ultimately have "(\<Union>r \<in> set (missing_ranges ?self 1 9). range_indices r) =
      {i. \<not> af_received sample_active ! i \<and>
        (\<exists>j < unat (af_chunk_count sample_active). i < j \<and> af_received sample_active ! j)}"
    using missing_ranges_exact [of ?self 1 sample_active 9] by simp
  also have "\<dots> = {i. \<not> ?rec ! i \<and> (\<exists>j < 8. i < j \<and> ?rec ! j)}"
    by (simp add: sample_active_def)
  also have "\<dots> = {i \<in> set [0..<8]. \<not> ?rec ! i \<and> (\<exists>j \<in> set [0..<8]. i < j \<and> ?rec ! j)}" by auto
  also have "\<dots> = {1, 2, 4}" by code_simp
  finally show ?thesis .
qed

end
