(* ===== verification/Scheduler.thy ===== *)
theory Scheduler
  imports Messages "HOL-Library.Multiset"
begin

text \<open>
  The rate limiter and the multi-line scheduler of src/src/network/yisync_scheduler.cpp and
  src/include/network/yisync_scheduler.hpp: token buckets, line selection for data and for
  control messages, the in-flight window per line, heartbeat acknowledgement and the record of
  sends lost with a line. An operation on an unknown line is the \<open>std::invalid_argument\<close> it
  throws.
\<close>

section \<open>Token bucket\<close>

record T_TokenBucketConfig =
  tb_tokens_per_tick :: u64
  tb_capacity :: u64
  tb_tick :: int

record TokenBucket =
  bk_config :: T_TokenBucketConfig
  bk_tokens :: u64

definition make_TokenBucket :: "T_TokenBucketConfig \<Rightarrow> TokenBucket result" where
  "make_TokenBucket config =
     (if tb_tick config \<le> 0 then Inl (invalid_argument ''token bucket tick must be positive'')
      else if tb_capacity config = 0
      then Inl (invalid_argument ''token bucket capacity must be positive'')
      else if tb_tokens_per_tick config = 0
      then Inl (invalid_argument ''token bucket tokens_per_tick must be positive'')
      else Inr \<lparr>bk_config = config, bk_tokens = tb_capacity config\<rparr>)"

definition available :: "TokenBucket \<Rightarrow> u64" where
  "available b = bk_tokens b"

definition bucket_refill_ticks :: "u64 \<Rightarrow> TokenBucket \<Rightarrow> TokenBucket" where
  "bucket_refill_ticks ticks b =
     (if ticks = 0 then b
      else
        let rate = tb_tokens_per_tick (bk_config b);
            added = (if ticks > UINT64_MAX div rate then UINT64_MAX else ticks * rate)
        in b\<lparr>bk_tokens := min (tb_capacity (bk_config b))
               (if bk_tokens b > UINT64_MAX - added then UINT64_MAX else bk_tokens b + added)\<rparr>)"

definition can_consume :: "TokenBucket \<Rightarrow> u64 \<Rightarrow> bool" where
  "can_consume b bytes \<longleftrightarrow> bytes \<le> bk_tokens b"

definition try_consume :: "TokenBucket \<Rightarrow> u64 \<Rightarrow> bool \<times> TokenBucket" where
  "try_consume b bytes =
     (if \<not> can_consume b bytes then (False, b)
      else (True, b\<lparr>bk_tokens := bk_tokens b - bytes\<rparr>))"

section \<open>Lines\<close>

record T_LineConfig =
  lc_id :: LineId
  lc_name :: string
  lc_limiter :: T_TokenBucketConfig
  lc_initial_recv_window_bytes :: u64
  lc_heartbeat_timeout_ticks :: u64
  lc_initially_connected :: bool

datatype EM_SendKind = SEND_CREATE | SEND_DATA | SEND_FILE_BEGIN | SEND_CHUNK | SEND_FILE_COMMIT

record T_SendRequest =
  rq_stream_id :: u64
  rq_file_id :: u64
  rq_seq :: u64
  rq_offset :: u64
  rq_end_offset :: u64
  rq_bytes :: u64
  rq_split_allowed :: bool
  rq_kind :: EM_SendKind
  rq_chunk_index :: u64

record T_SendGrant =
  gr_line_id :: LineId
  gr_bytes :: u64

record T_PendingSend =
  ps_kind :: EM_SendKind
  ps_stream_id :: u64
  ps_file_id :: u64
  ps_seq :: u64
  ps_offset :: u64
  ps_end_offset :: u64
  ps_chunk_index :: u64
  ps_bytes :: u64

record T_LostSend =
  ls_line_id :: LineId
  ls_kind :: EM_SendKind
  ls_stream_id :: u64
  ls_file_id :: u64
  ls_seq :: u64
  ls_offset :: u64
  ls_end_offset :: u64
  ls_chunk_index :: u64
  ls_bytes :: u64

record LineState =
  ln_config :: T_LineConfig
  ln_bucket :: TokenBucket
  ln_inflight_bytes :: u64
  ln_recv_window_bytes :: u64
  ln_missed_heartbeat_ticks :: u64
  ln_consecutive_failures :: u64
  ln_last_completed_bytes :: u64
  ln_connected :: bool
  ln_negotiated :: bool
  ln_healthy :: bool
  ln_stale :: bool
  ln_pending :: "T_PendingSend list"

record T_LineSnapshot =
  sn_id :: LineId
  sn_name :: string
  sn_tokens :: u64
  sn_inflight_bytes :: u64
  sn_recv_window_bytes :: u64
  sn_connected :: bool
  sn_negotiated :: bool
  sn_healthy :: bool
  sn_stale :: bool
  sn_missed_heartbeat_ticks :: u64
  sn_consecutive_failures :: u64
  sn_pending_sends :: u64
  sn_last_completed_bytes :: u64

record T_MultiLineScheduler =
  sc_lines :: "LineState list"
  sc_lost_sends :: "T_LostSend list"

abbreviation id_of_line :: "LineState \<Rightarrow> LineId" where
  "id_of_line l \<equiv> lc_id (ln_config l)"

definition find_line :: "LineState list \<Rightarrow> LineId \<Rightarrow> LineState option" where
  "find_line lines i = List.find (\<lambda>l. id_of_line l = i) lines"

text \<open>Writing through the pointer \<open>find_line\<close> returns: the first line with the id changes.\<close>

fun modify_line :: "LineId \<Rightarrow> (LineState \<Rightarrow> LineState) \<Rightarrow> LineState list \<Rightarrow> LineState list" where
  "modify_line i f [] = []"
| "modify_line i f (l # ls) = (if id_of_line l = i then f l # ls else l # modify_line i f ls)"

definition initial_line :: "T_LineConfig \<Rightarrow> TokenBucket \<Rightarrow> LineState" where
  "initial_line config bucket =
     \<lparr>ln_config = config, ln_bucket = bucket, ln_inflight_bytes = 0,
      ln_recv_window_bytes = lc_initial_recv_window_bytes config,
      ln_missed_heartbeat_ticks = 0, ln_consecutive_failures = 0, ln_last_completed_bytes = 0,
      ln_connected = lc_initially_connected config,
      ln_negotiated = lc_initially_connected config,
      ln_healthy = lc_initially_connected config,
      ln_stale = False, ln_pending = []\<rparr>"

fun add_lines :: "LineState list \<Rightarrow> T_LineConfig list \<Rightarrow> LineState list result" where
  "add_lines lines [] = Inr lines"
| "add_lines lines (config # configs) =
     (if lc_id config = 0 then Inl (invalid_argument ''line id must be non-zero'')
      else if find_line lines (lc_id config) \<noteq> None
      then Inl (invalid_argument ''duplicate line id'')
      else case make_TokenBucket (lc_limiter config) of
        Inl e \<Rightarrow> Inl e
      | Inr bucket \<Rightarrow> add_lines (lines @ [initial_line config bucket]) configs)"

definition make_scheduler :: "T_LineConfig list \<Rightarrow> T_MultiLineScheduler result" where
  "make_scheduler configs =
     (if configs = [] then Inl (invalid_argument ''at least one line is required'')
      else case add_lines [] configs of
        Inl e \<Rightarrow> Inl e
      | Inr lines \<Rightarrow> Inr \<lparr>sc_lines = lines, sc_lost_sends = []\<rparr>)"

section \<open>Scheduler operations\<close>

definition refill_line :: "u64 \<Rightarrow> LineState \<Rightarrow> LineState" where
  "refill_line ticks line0 =
     (let line = line0\<lparr>ln_bucket := bucket_refill_ticks ticks (ln_bucket line0)\<rparr>
      in if \<not> ln_connected line \<or> ticks = 0 then line
         else
           let missed = (if ln_missed_heartbeat_ticks line > UINT64_MAX - ticks then UINT64_MAX
                         else ln_missed_heartbeat_ticks line + ticks);
               line1 = line\<lparr>ln_missed_heartbeat_ticks := missed\<rparr>
           in if ln_pending line1 \<noteq> [] \<and> lc_heartbeat_timeout_ticks (ln_config line1) > 0
                 \<and> missed > lc_heartbeat_timeout_ticks (ln_config line1)
              then line1\<lparr>ln_stale := True\<rparr> else line1)"

definition refill_ticks :: "u64 \<Rightarrow> T_MultiLineScheduler \<Rightarrow> T_MultiLineScheduler" where
  "refill_ticks ticks s = s\<lparr>sc_lines := map (refill_line ticks) (sc_lines s)\<rparr>"

definition score_line :: "LineState \<Rightarrow> T_SendRequest \<Rightarrow> u64" where
  "score_line line request =
     (let window_headroom = ln_recv_window_bytes line - ln_inflight_bytes line;
          token_headroom = available (ln_bucket line) - rq_bytes request;
          failure_penalty = min (ln_consecutive_failures line) 16 * 1024 * 1024;
          inflight_penalty = ln_inflight_bytes line div 2;
          stale_penalty = ln_missed_heartbeat_ticks line * 1024;
          completed_bonus = min (ln_last_completed_bytes line) (1024 * 1024);
          raw_score = window_headroom + token_headroom + completed_bonus;
          penalty = failure_penalty + inflight_penalty + stale_penalty
      in if raw_score > penalty then raw_score - penalty else 1)"

text \<open>The selection loop shared by \<open>try_acquire\<close> and \<open>choose_control_line\<close>: a line the loop
  skips has no score, and a later line replaces the best one only with a strictly larger score.\<close>

fun scan_best :: "('a \<Rightarrow> u64 option) \<Rightarrow> nat \<Rightarrow> (nat \<times> u64) option \<Rightarrow> 'a list \<Rightarrow> (nat \<times> u64) option" where
  "scan_best score i best [] = best"
| "scan_best score i best (x # xs) =
     scan_best score (Suc i)
       (case score x of
          None \<Rightarrow> best
        | Some s \<Rightarrow>
            (case best of
               None \<Rightarrow> Some (i, s)
             | Some (j, best_score) \<Rightarrow> if s > best_score then Some (i, s) else best)) xs"

definition line_usable :: "LineState \<Rightarrow> bool" where
  "line_usable line \<longleftrightarrow>
     \<not> (\<not> ln_connected line \<or> \<not> ln_negotiated line \<or> \<not> ln_healthy line \<or> ln_stale line)"

definition acquire_score :: "T_SendRequest \<Rightarrow> LineState \<Rightarrow> u64 option" where
  "acquire_score request line =
     (if \<not> line_usable line then None
      else if ln_recv_window_bytes line \<le> ln_inflight_bytes line then None
      else if ln_recv_window_bytes line - ln_inflight_bytes line < rq_bytes request then None
      else if \<not> can_consume (ln_bucket line) (rq_bytes request) then None
      else Some (score_line line request))"

definition pending_of_request :: "T_SendRequest \<Rightarrow> T_PendingSend" where
  "pending_of_request r =
     \<lparr>ps_kind = rq_kind r, ps_stream_id = rq_stream_id r, ps_file_id = rq_file_id r,
      ps_seq = rq_seq r, ps_offset = rq_offset r, ps_end_offset = rq_end_offset r,
      ps_chunk_index = rq_chunk_index r, ps_bytes = rq_bytes r\<rparr>"

definition grant_on_line :: "T_SendRequest \<Rightarrow> TokenBucket \<Rightarrow> LineState \<Rightarrow> LineState" where
  "grant_on_line request bucket line =
     (let line1 = line\<lparr>ln_bucket := bucket\<rparr>;
          line2 = (if ln_pending line1 = []
                   then line1\<lparr>ln_missed_heartbeat_ticks := 0, ln_stale := False\<rparr> else line1)
      in line2\<lparr>ln_inflight_bytes := ln_inflight_bytes line2 + rq_bytes request,
               ln_pending := ln_pending line2 @ [pending_of_request request]\<rparr>)"

definition try_acquire ::
  "T_SendRequest \<Rightarrow> T_MultiLineScheduler \<Rightarrow> T_SendGrant option \<times> T_MultiLineScheduler" where
  "try_acquire request s =
     (if rq_bytes request = 0 then (None, s)
      else case scan_best (acquire_score request) 0 None (sc_lines s) of
        None \<Rightarrow> (None, s)
      | Some (i, _) \<Rightarrow>
          let best = sc_lines s ! i;
              (consumed, bucket) = try_consume (ln_bucket best) (rq_bytes request)
          in if \<not> consumed then (None, s)
             else (Some \<lparr>gr_line_id = id_of_line best, gr_bytes = rq_bytes request\<rparr>,
                   s\<lparr>sc_lines := (sc_lines s)[i := grant_on_line request bucket best]\<rparr>))"

definition lost_of_pending :: "LineId \<Rightarrow> T_PendingSend \<Rightarrow> T_LostSend" where
  "lost_of_pending i p =
     \<lparr>ls_line_id = i, ls_kind = ps_kind p, ls_stream_id = ps_stream_id p,
      ls_file_id = ps_file_id p, ls_seq = ps_seq p, ls_offset = ps_offset p,
      ls_end_offset = ps_end_offset p, ls_chunk_index = ps_chunk_index p, ls_bytes = ps_bytes p\<rparr>"

definition lost_of_line :: "LineState \<Rightarrow> T_LostSend list" where
  "lost_of_line line = map (lost_of_pending (id_of_line line)) (ln_pending line)"

definition clear_inflight :: "LineState \<Rightarrow> LineState" where
  "clear_inflight line = line\<lparr>ln_inflight_bytes := 0, ln_last_completed_bytes := 0, ln_pending := []\<rparr>"

text \<open>An operation that looks a line up, may clear its in-flight sends into \<open>lost_sends_\<close> and
  writes the line back.\<close>

definition with_line ::
  "LineId \<Rightarrow> bool \<Rightarrow> (LineState \<Rightarrow> LineState) \<Rightarrow> T_MultiLineScheduler \<Rightarrow> T_MultiLineScheduler result" where
  "with_line i clear f s =
     (case find_line (sc_lines s) i of
        None \<Rightarrow> Inl (invalid_argument ''unknown line id'')
      | Some line \<Rightarrow>
          Inr (s\<lparr>sc_lines := modify_line i (\<lambda>l. if clear then clear_inflight (f l) else f l) (sc_lines s),
                 sc_lost_sends := sc_lost_sends s @ (if clear then lost_of_line line else [])\<rparr>))"

definition on_line_connected :: "LineId \<Rightarrow> T_MultiLineScheduler \<Rightarrow> T_MultiLineScheduler result" where
  "on_line_connected i = with_line i True (\<lambda>line.
     line\<lparr>ln_connected := True, ln_negotiated := False, ln_healthy := False, ln_stale := False,
       ln_missed_heartbeat_ticks := 0, ln_last_completed_bytes := 0,
       ln_recv_window_bytes := lc_initial_recv_window_bytes (ln_config line)\<rparr>)"

definition on_line_negotiated :: "LineId \<Rightarrow> u64 \<Rightarrow> T_MultiLineScheduler \<Rightarrow> T_MultiLineScheduler result" where
  "on_line_negotiated i recv_window_bytes = with_line i False (\<lambda>line.
     line\<lparr>ln_connected := True, ln_negotiated := True, ln_healthy := True, ln_stale := False,
       ln_missed_heartbeat_ticks := 0, ln_consecutive_failures := 0, ln_last_completed_bytes := 0,
       ln_recv_window_bytes := (if recv_window_bytes = 0
          then lc_initial_recv_window_bytes (ln_config line) else recv_window_bytes)\<rparr>)"

definition on_line_disconnected :: "LineId \<Rightarrow> T_MultiLineScheduler \<Rightarrow> T_MultiLineScheduler result" where
  "on_line_disconnected i = with_line i True (\<lambda>line.
     line\<lparr>ln_connected := False, ln_negotiated := False, ln_healthy := False, ln_stale := True,
       ln_consecutive_failures := ln_consecutive_failures line + 1\<rparr>)"

definition on_line_protocol_error :: "LineId \<Rightarrow> T_MultiLineScheduler \<Rightarrow> T_MultiLineScheduler result" where
  "on_line_protocol_error i = with_line i True (\<lambda>line.
     line\<lparr>ln_connected := False, ln_negotiated := False, ln_healthy := False, ln_stale := True,
       ln_consecutive_failures := ln_consecutive_failures line + 1\<rparr>)"

definition on_line_failure :: "LineId \<Rightarrow> T_MultiLineScheduler \<Rightarrow> T_MultiLineScheduler result" where
  "on_line_failure i = with_line i True (\<lambda>line.
     line\<lparr>ln_healthy := False, ln_stale := True,
       ln_consecutive_failures := ln_consecutive_failures line + 1\<rparr>)"

definition on_nack :: "LineId \<Rightarrow> T_MultiLineScheduler \<Rightarrow> T_MultiLineScheduler result" where
  "on_nack i = with_line i True (\<lambda>line.
     line\<lparr>ln_healthy := False, ln_stale := True,
       ln_consecutive_failures := ln_consecutive_failures line + 1\<rparr>)"

definition chunk_completed :: "T_Heartbeat \<Rightarrow> T_PendingSend \<Rightarrow> bool" where
  "chunk_completed hb send \<longleftrightarrow>
     list_ex (\<lambda>chunk. ps_stream_id send = hb_stream_id hb \<and> ps_file_id send = rc_file_id chunk \<and>
       ps_seq send = rc_seq chunk \<and> ps_chunk_index send = rc_chunk_index chunk)
       (hb_received_chunks hb)"

definition send_completed :: "T_Heartbeat \<Rightarrow> T_PendingSend \<Rightarrow> bool" where
  "send_completed hb send =
     (case ps_kind send of
        SEND_CHUNK \<Rightarrow> chunk_completed hb send
      | SEND_DATA \<Rightarrow>
          ps_stream_id send = hb_stream_id hb \<and> ps_file_id send = hb_file_id hb \<and>
          (ps_seq send < hb_next_seq hb \<or> hb_offset hb \<ge> ps_end_offset send \<or>
           hb_durable_offset hb \<ge> ps_end_offset send)
      | _ \<Rightarrow>
          ps_stream_id send = hb_stream_id hb \<and> ps_file_id send = hb_file_id hb \<and>
          ps_seq send < hb_next_seq hb)"

definition heartbeat_on_line :: "T_Heartbeat \<Rightarrow> LineState \<Rightarrow> LineState" where
  "heartbeat_on_line hb line =
     (let completed_bytes = sum_list (map ps_bytes (filter (send_completed hb) (ln_pending line)))
      in line\<lparr>ln_pending := filter (\<lambda>send. \<not> send_completed hb send) (ln_pending line),
           ln_inflight_bytes := (if completed_bytes \<ge> ln_inflight_bytes line then 0
              else ln_inflight_bytes line - completed_bytes),
           ln_recv_window_bytes := hb_recv_window_bytes hb,
           ln_missed_heartbeat_ticks := 0,
           ln_consecutive_failures := 0,
           ln_last_completed_bytes := completed_bytes,
           ln_connected := True,
           ln_negotiated := True,
           ln_healthy := True,
           ln_stale := False\<rparr>)"

definition on_heartbeat :: "LineId \<Rightarrow> T_Heartbeat \<Rightarrow> T_MultiLineScheduler \<Rightarrow> T_MultiLineScheduler result" where
  "on_heartbeat i hb = with_line i False (heartbeat_on_line hb)"

definition control_score :: "LineState \<Rightarrow> u64 option" where
  "control_score line =
     (if \<not> line_usable line then None
      else Some (if ln_recv_window_bytes line > ln_inflight_bytes line
                 then ln_recv_window_bytes line - ln_inflight_bytes line else 1))"

definition choose_control_line :: "T_MultiLineScheduler \<Rightarrow> LineId option" where
  "choose_control_line s =
     map_option (\<lambda>(i, _). id_of_line (sc_lines s ! i)) (scan_best control_score 0 None (sc_lines s))"

definition snapshot_of_line :: "LineState \<Rightarrow> T_LineSnapshot" where
  "snapshot_of_line line =
     \<lparr>sn_id = id_of_line line, sn_name = lc_name (ln_config line),
      sn_tokens = available (ln_bucket line), sn_inflight_bytes = ln_inflight_bytes line,
      sn_recv_window_bytes = ln_recv_window_bytes line, sn_connected = ln_connected line,
      sn_negotiated = ln_negotiated line, sn_healthy = ln_healthy line, sn_stale = ln_stale line,
      sn_missed_heartbeat_ticks = ln_missed_heartbeat_ticks line,
      sn_consecutive_failures = ln_consecutive_failures line,
      sn_pending_sends = word_of_nat (length (ln_pending line)),
      sn_last_completed_bytes = ln_last_completed_bytes line\<rparr>"

definition snapshots :: "T_MultiLineScheduler \<Rightarrow> T_LineSnapshot list" where
  "snapshots s = map snapshot_of_line (sc_lines s)"

definition take_lost_sends :: "T_MultiLineScheduler \<Rightarrow> T_LostSend list \<times> T_MultiLineScheduler" where
  "take_lost_sends s = (sc_lost_sends s, s\<lparr>sc_lost_sends := []\<rparr>)"

section \<open>The rate limiter contract\<close>

text \<open>
  What the scheduler relies on of a limiter: refilling adds \<open>rate\<close> tokens per tick up to the
  capacity, a granted request costs exactly its size, a refused one costs nothing.
\<close>

datatype limiter_op = Refill u64 | Consume u64

fun limiter_run ::
  "(u64 \<Rightarrow> 's \<Rightarrow> 's) \<Rightarrow> ('s \<Rightarrow> u64 \<Rightarrow> bool \<times> 's) \<Rightarrow> limiter_op list \<Rightarrow> 's \<Rightarrow> nat \<times> 's" where
  "limiter_run refill consume [] s = (0, s)"
| "limiter_run refill consume (Refill t # ops) s = limiter_run refill consume ops (refill t s)"
| "limiter_run refill consume (Consume n # ops) s =
     (let (ok, s') = consume s n; (granted, s'') = limiter_run refill consume ops s'
      in ((if ok then unat n else 0) + granted, s''))"

fun total_ticks :: "limiter_op list \<Rightarrow> nat" where
  "total_ticks [] = 0"
| "total_ticks (Refill t # ops) = unat t + total_ticks ops"
| "total_ticks (Consume n # ops) = total_ticks ops"

locale limiter =
  fixes refill :: "u64 \<Rightarrow> 's \<Rightarrow> 's"
    and consume :: "'s \<Rightarrow> u64 \<Rightarrow> bool \<times> 's"
    and tokens rate cap :: "'s \<Rightarrow> nat"
    and ok :: "'s \<Rightarrow> bool"
  assumes refill_tokens: "ok s \<Longrightarrow> tokens (refill t s) = min (cap s) (tokens s + unat t * rate s)"
    and refill_keeps: "ok s \<Longrightarrow> ok (refill t s)" "rate (refill t s) = rate s" "cap (refill t s) = cap s"
    and consume_ok: "consume s n = (True, s') \<Longrightarrow> tokens s' + unat n = tokens s"
    and consume_fail: "consume s n = (False, s') \<Longrightarrow> tokens s < unat n \<and> s' = s"
    and consume_keeps: "consume s n = (b, s') \<Longrightarrow> ok s \<Longrightarrow> ok s'"
      "consume s n = (b, s') \<Longrightarrow> rate s' = rate s" "consume s n = (b, s') \<Longrightarrow> cap s' = cap s"
    and tokens_cap: "ok s \<Longrightarrow> tokens s \<le> cap s"
begin

lemma run_bound:
  "ok s \<Longrightarrow> limiter_run refill consume ops s = (granted, s') \<Longrightarrow>
     ok s' \<and> cap s' = cap s \<and> rate s' = rate s \<and>
     granted + tokens s' \<le> tokens s + rate s * total_ticks ops"
proof (induction ops arbitrary: s granted)
  case Nil
  then show ?case by simp
next
  case (Cons op ops)
  show ?case
  proof (cases op)
    case (Refill t)
    with Cons.IH [of "refill t s" granted] Cons.prems show ?thesis
      by (auto simp: refill_keeps refill_tokens algebra_simps)
  next
    case (Consume n)
    obtain b s1 where c: "consume s n = (b, s1)" by fastforce
    obtain g where g: "limiter_run refill consume ops s1 = (g, s')"
      and granted: "granted = (if b then unat n else 0) + g"
      using Cons.prems(2) Consume c by (auto split: prod.splits)
    from Cons.IH [OF consume_keeps(1) [OF c Cons.prems(1)] g] consume_keeps(2,3) [OF c]
    have "ok s' \<and> cap s' = cap s \<and> rate s' = rate s \<and> g + tokens s' \<le> tokens s1 + rate s * total_ticks ops"
      by simp
    then show ?thesis
      using granted Consume c consume_ok [of s n s1] consume_fail [of s n s1] by (cases b) auto
  qed
qed

end

definition bucket_ok :: "TokenBucket \<Rightarrow> bool" where
  "bucket_ok b \<longleftrightarrow> bk_tokens b \<le> tb_capacity (bk_config b) \<and>
     tb_capacity (bk_config b) \<noteq> 0 \<and> tb_tokens_per_tick (bk_config b) \<noteq> 0"

abbreviation bucket_tokens :: "TokenBucket \<Rightarrow> nat" where
  "bucket_tokens b \<equiv> unat (bk_tokens b)"

abbreviation bucket_rate :: "TokenBucket \<Rightarrow> nat" where
  "bucket_rate b \<equiv> unat (tb_tokens_per_tick (bk_config b))"

abbreviation bucket_cap :: "TokenBucket \<Rightarrow> nat" where
  "bucket_cap b \<equiv> unat (tb_capacity (bk_config b))"

lemma make_TokenBucket_ok: "make_TokenBucket c = Inr b \<Longrightarrow> bucket_ok b \<and> bk_config b = c"
  by (auto simp: make_TokenBucket_def bucket_ok_def split: if_splits)

lemma saturating_mult:
  fixes t r :: u64
  assumes "r \<noteq> 0"
  shows "unat (if t > UINT64_MAX div r then UINT64_MAX else t * r) = min (2 ^ 64 - 1) (unat t * unat r)"
proof -
  have r: "0 < unat r" using assms by (simp add: unat_gt_0)
  have q: "unat (UINT64_MAX div r) = (2 ^ 64 - 1) div unat r"
    by (simp only: unat_div unat_UINT64_MAX)
  have "t > UINT64_MAX div r \<longleftrightarrow> 2 ^ 64 - 1 < unat t * unat r"
    unfolding word_lt_unat q using r by (simp add: div_less_iff_less_mult)
  then show ?thesis
    by (simp add: unat_word_ariths unat_UINT64_MAX min_def)
qed

lemma saturating_add:
  fixes x a :: u64
  shows "unat (if x > UINT64_MAX - a then UINT64_MAX else x + a) = min (2 ^ 64 - 1) (unat x + unat a)"
proof -
  have "unat (UINT64_MAX - a) = 2 ^ 64 - 1 - unat a"
    by (subst unat_minus_le) (simp_all only: unat_UINT64_MAX word_order.extremum)
  then have "x > UINT64_MAX - a \<longleftrightarrow> 2 ^ 64 - 1 < unat x + unat a"
    unfolding word_lt_unat by (auto, use unat_u64_le [of a] in linarith)
  then show ?thesis
    by (simp add: unat_word_ariths unat_UINT64_MAX min_def)
qed

lemma bucket_refill_tokens:
  assumes "bucket_ok b"
  shows "bucket_tokens (bucket_refill_ticks t b) =
    min (bucket_cap b) (bucket_tokens b + unat t * bucket_rate b)"
proof (cases "t = 0")
  case True
  then show ?thesis using assms
    by (simp add: bucket_refill_ticks_def bucket_ok_def word_le_unat)
next
  case False
  define added where "added =
    (if t > UINT64_MAX div tb_tokens_per_tick (bk_config b) then UINT64_MAX
     else t * tb_tokens_per_tick (bk_config b))"
  have a: "unat added = min (2 ^ 64 - 1) (unat t * bucket_rate b)"
    using assms unfolding added_def bucket_ok_def by (intro saturating_mult) simp
  have "bk_tokens (bucket_refill_ticks t b) = min (tb_capacity (bk_config b))
      (if bk_tokens b > UINT64_MAX - added then UINT64_MAX else bk_tokens b + added)"
    using False by (simp add: bucket_refill_ticks_def Let_def added_def)
  then have "bucket_tokens (bucket_refill_ticks t b) =
      min (bucket_cap b) (min (2 ^ 64 - 1) (bucket_tokens b + unat added))"
    by (simp only: word_min_unat saturating_add)
  then show ?thesis
    using a by (auto simp: min_def intro: order_trans [OF unat_u64_le])
qed

lemma bucket_refill_config [simp]: "bk_config (bucket_refill_ticks t b) = bk_config b"
  by (simp add: bucket_refill_ticks_def Let_def)

interpretation tb: limiter bucket_refill_ticks try_consume bucket_tokens bucket_rate bucket_cap bucket_ok
proof
  show "bucket_ok s \<Longrightarrow> bucket_ok (bucket_refill_ticks t s)" for s t
    using bucket_refill_tokens [of s t] by (simp add: bucket_ok_def word_le_unat)
qed (auto simp: bucket_refill_tokens try_consume_def can_consume_def bucket_ok_def word_le_unat
    unat_sub split: if_splits)

text \<open>Refilling a token bucket is exact: the 64-bit saturating arithmetic computes the minimum
  of the capacity and the tokens plus ticks times rate, over unbounded numbers.\<close>

theorem bucket_refill_exact:
  assumes "make_TokenBucket config = Inr b0" and "limiter_run bucket_refill_ticks try_consume ops b0 = (g, b)"
  shows "unat (available (bucket_refill_ticks ticks b)) =
    min (unat (tb_capacity config)) (unat (available b) + unat ticks * unat (tb_tokens_per_tick config))"
proof -
  have "bucket_ok b" "bucket_cap b = unat (tb_capacity config)"
      "bucket_rate b = unat (tb_tokens_per_tick config)"
    using tb.run_bound [OF _ assms(2)] make_TokenBucket_ok [OF assms(1)] by auto
  then show ?thesis by (simp add: available_def bucket_refill_tokens)
qed

definition sample_limiter :: T_TokenBucketConfig where
  "sample_limiter = \<lparr>tb_tokens_per_tick = 20, tb_capacity = 100, tb_tick = 10\<rparr>"

theorem bucket_refill_exact_witness:
  "unat (available (bucket_refill_ticks 2 \<lparr>bk_config = sample_limiter, bk_tokens = 30\<rparr>)) = 70"
proof -
  have "make_TokenBucket sample_limiter = Inr \<lparr>bk_config = sample_limiter, bk_tokens = 100\<rparr>"
    by (simp add: make_TokenBucket_def sample_limiter_def)
  from bucket_refill_exact [OF this, of "[Consume 70]" 70 "\<lparr>bk_config = sample_limiter, bk_tokens = 30\<rparr>" 2]
  show ?thesis
    by (simp add: try_consume_def can_consume_def available_def) (simp add: sample_limiter_def)
qed



section \<open>Line selection\<close>

definition best_of :: "('a \<Rightarrow> u64 option) \<Rightarrow> 'a list \<Rightarrow> (nat \<times> u64) option \<Rightarrow> bool" where
  "best_of score xs best \<longleftrightarrow>
     (case best of
        None \<Rightarrow> \<forall>x \<in> set xs. score x = None
      | Some (j, s) \<Rightarrow> j < length xs \<and> score (xs ! j) = Some s \<and>
          (\<forall>k < length xs. \<forall>t. score (xs ! k) = Some t \<longrightarrow> t \<le> s \<and> (k < j \<longrightarrow> t < s)))"

lemma best_of_snoc:
  assumes "best_of score xs best"
  shows "best_of score (xs @ [x])
    (case score x of
       None \<Rightarrow> best
     | Some s \<Rightarrow>
         (case best of
            None \<Rightarrow> Some (length xs, s)
          | Some (j, best_score) \<Rightarrow> if s > best_score then Some (length xs, s) else best))"
proof (cases "score x")
  case None
  then show ?thesis using assms
    by (auto simp: best_of_def nth_append less_Suc_eq split: option.splits prod.splits)
next
  case (Some s)
  show ?thesis
  proof (cases best)
    case None
    with assms Some show ?thesis
      by (auto simp: best_of_def nth_append less_Suc_eq)
  next
    fix a assume best: "best = Some a"
    obtain j b where a: "a = (j, b)" by (cases a)
    with best assms have j: "j < length xs" "score (xs ! j) = Some b"
        "\<And>k t. k < length xs \<Longrightarrow> score (xs ! k) = Some t \<Longrightarrow> t \<le> b \<and> (k < j \<longrightarrow> t < b)"
      by (auto simp: best_of_def)
    show ?thesis
      using best a Some j by (fastforce simp: best_of_def nth_append less_Suc_eq)
  qed
qed

lemma scan_best_of:
  "best_of score ys best \<Longrightarrow> best_of score (ys @ xs) (scan_best score (length ys) best xs)"
proof (induction xs arbitrary: ys best)
  case Nil
  then show ?case by simp
next
  case (Cons x xs)
  from Cons.IH [OF best_of_snoc [OF Cons.prems, of x]] show ?case by simp
qed

lemma scan_best_best: "best_of score xs (scan_best score 0 None xs)"
  using scan_best_of [of score "[]" None xs] by (simp add: best_of_def)

lemma scan_best_None: "scan_best score 0 None xs = None \<Longrightarrow> x \<in> set xs \<Longrightarrow> score x = None"
  using scan_best_best [of score xs] by (simp add: best_of_def)

lemma scan_best_Some:
  assumes "scan_best score 0 None xs = Some (j, s)"
  shows "j < length xs" and "score (xs ! j) = Some s"
    and "\<And>k t. k < length xs \<Longrightarrow> score (xs ! k) = Some t \<Longrightarrow> t \<le> s \<and> (k < j \<longrightarrow> t < s)"
  using scan_best_best [of score xs] assms by (auto simp: best_of_def)

section \<open>The scheduler invariant\<close>

definition pending_bytes :: "LineState \<Rightarrow> nat" where
  "pending_bytes line = sum_list (map (\<lambda>p. unat (ps_bytes p)) (ln_pending line))"

definition line_ok :: "LineState \<Rightarrow> bool" where
  "line_ok line \<longleftrightarrow> bucket_ok (ln_bucket line) \<and> bk_config (ln_bucket line) = lc_limiter (ln_config line) \<and>
     id_of_line line \<noteq> 0 \<and> unat (ln_inflight_bytes line) = pending_bytes line"

definition sched_ok :: "T_MultiLineScheduler \<Rightarrow> bool" where
  "sched_ok s \<longleftrightarrow> sc_lines s \<noteq> [] \<and> distinct (map id_of_line (sc_lines s)) \<and> list_all line_ok (sc_lines s)"

lemma find_line_None: "find_line lines i = None \<longleftrightarrow> i \<notin> id_of_line ` set lines"
  by (auto simp: find_line_def find_None_iff)

lemma add_lines_ok:
  "add_lines lines configs = Inr lines' \<Longrightarrow> distinct (map id_of_line lines) \<Longrightarrow> list_all line_ok lines \<Longrightarrow>
     distinct (map id_of_line lines') \<and> list_all line_ok lines' \<and>
     map ln_config lines' = map ln_config lines @ configs"
proof (induction lines configs rule: add_lines.induct)
  case (1 lines)
  then show ?case by simp
next
  case (2 lines c cs)
  from "2.prems"(1) obtain b where b: "make_TokenBucket (lc_limiter c) = Inr b"
      and rest: "add_lines (lines @ [initial_line c b]) cs = Inr lines'"
      and id: "lc_id c \<noteq> 0" "find_line lines (lc_id c) = None"
    by (auto split: if_splits sum.splits)
  have "line_ok (initial_line c b)"
    using make_TokenBucket_ok [OF b] id
    by (simp add: line_ok_def initial_line_def pending_bytes_def)
  moreover have "lc_id c \<notin> id_of_line ` set lines" using id by (simp add: find_line_None)
  ultimately show ?case
    using "2.IH" [OF _ _ b rest] "2.prems"(2,3) id by (auto simp: initial_line_def)
qed

lemma modify_line_ids: "(\<And>l. id_of_line (f l) = id_of_line l) \<Longrightarrow> map id_of_line (modify_line i f lines) = map id_of_line lines"
  by (induction lines) auto

lemma modify_line_all: "list_all P lines \<Longrightarrow> (\<And>l. P l \<Longrightarrow> P (f l)) \<Longrightarrow> list_all P (modify_line i f lines)"
  by (induction lines) auto

lemma with_line_ok:
  assumes "with_line i c f s = Inr s'" and "sched_ok s"
    and "\<And>l. id_of_line (f l) = id_of_line l" and "\<And>l. line_ok l \<Longrightarrow> line_ok (f l)"
  shows "sched_ok s'"
proof -
  let ?g = "\<lambda>l. if c then clear_inflight (f l) else f l"
  have g: "id_of_line (?g l) = id_of_line l" "line_ok l \<Longrightarrow> line_ok (?g l)" for l
    using assms(3,4) [of l] by (auto simp: clear_inflight_def line_ok_def pending_bytes_def)
  have lines: "sc_lines s' = modify_line i ?g (sc_lines s)"
    using assms(1) by (auto simp: with_line_def split: option.splits)
  have "length (sc_lines s') = length (sc_lines s)"
    using modify_line_ids [of ?g i "sc_lines s", OF g(1)] lines by (metis length_map)
  then show ?thesis
    using assms(2) lines modify_line_ids [of ?g i "sc_lines s", OF g(1)] modify_line_all [of line_ok _ ?g i, OF _ g(2)]
    by (auto simp: sched_ok_def)
qed

lemma sum_completed:
  assumes "sum_list (map (\<lambda>p. unat (ps_bytes p)) ps) < 2 ^ 64"
  shows "unat (sum_list (map ps_bytes (filter P ps))) =
      sum_list (map (\<lambda>p. unat (ps_bytes p)) (filter P ps))"
    and "sum_list (map (\<lambda>p. unat (ps_bytes p)) (filter P ps)) +
      sum_list (map (\<lambda>p. unat (ps_bytes p)) (filter (\<lambda>p. \<not> P p) ps)) =
      sum_list (map (\<lambda>p. unat (ps_bytes p)) ps)"
proof -
  show split: "sum_list (map (\<lambda>p. unat (ps_bytes p)) (filter P qs)) +
      sum_list (map (\<lambda>p. unat (ps_bytes p)) (filter (\<lambda>p. \<not> P p) qs)) =
      sum_list (map (\<lambda>p. unat (ps_bytes p)) qs)" for qs
    by (induction qs) auto
  show "unat (sum_list (map ps_bytes (filter P ps))) =
      sum_list (map (\<lambda>p. unat (ps_bytes p)) (filter P ps))"
    using assms
  proof (induction ps)
    case (Cons p ps)
    have "sum_list (map (\<lambda>p. unat (ps_bytes p)) (filter P ps)) \<le>
        sum_list (map (\<lambda>p. unat (ps_bytes p)) ps)"
      using split [of ps] by linarith
    with Cons show ?case by (auto simp: unat_plus_no_wrap)
  qed simp
qed

lemma heartbeat_line_ok: "line_ok l \<Longrightarrow> line_ok (heartbeat_on_line hb l)"
proof -
  assume ok: "line_ok l"
  then have lt: "sum_list (map (\<lambda>p. unat (ps_bytes p)) (ln_pending l)) < 2 ^ 64"
    using unat_u64_lt [of "ln_inflight_bytes l"] by (simp add: line_ok_def pending_bytes_def)
  from sum_completed [OF lt, of "send_completed hb"] ok show ?thesis
    by (auto simp: line_ok_def heartbeat_on_line_def pending_bytes_def Let_def word_le_unat unat_sub
        simp del: sum_list_eq_0_iff)
qed

lemma refill_line_ok: "line_ok l \<Longrightarrow> line_ok (refill_line t l)"
  by (auto simp: line_ok_def refill_line_def Let_def pending_bytes_def tb.refill_keeps(1))

lemma refill_line_id [simp]: "id_of_line (refill_line t l) = id_of_line l"
  by (simp add: refill_line_def Let_def)

lemma acquire_scoreD:
  assumes "acquire_score rq l = Some sc"
  shows "line_usable l" and "unat (ln_inflight_bytes l) + unat (rq_bytes rq) \<le> unat (ln_recv_window_bytes l)"
    and "rq_bytes rq \<le> bk_tokens (ln_bucket l)" and "sc = score_line l rq"
  using assms
  by (auto simp: acquire_score_def can_consume_def word_le_unat word_lt_unat unat_sub split: if_splits)

lemma try_acquire_None:
  assumes "try_acquire rq s = (None, s')"
  shows "s' = s \<and> (rq_bytes rq = 0 \<or> (\<forall>l \<in> set (sc_lines s). acquire_score rq l = None))"
proof (cases "scan_best (acquire_score rq) 0 None (sc_lines s)")
  case None
  then show ?thesis using assms scan_best_None [OF None]
    by (auto simp: try_acquire_def split: if_splits)
next
  case (Some a)
  then obtain i sc where a: "scan_best (acquire_score rq) 0 None (sc_lines s) = Some (i, sc)"
    by (cases a) auto
  with acquire_scoreD(3) [OF scan_best_Some(2) [OF a]] assms show ?thesis
    by (auto simp: try_acquire_def try_consume_def can_consume_def Let_def split: if_splits)
qed

lemma try_acquire_Some:
  assumes "try_acquire rq s = (Some g, s')"
  obtains i where "i < length (sc_lines s)" and "rq_bytes rq \<noteq> 0"
    and "scan_best (acquire_score rq) 0 None (sc_lines s) = Some (i, score_line (sc_lines s ! i) rq)"
    and "acquire_score rq (sc_lines s ! i) = Some (score_line (sc_lines s ! i) rq)"
    and "g = \<lparr>gr_line_id = id_of_line (sc_lines s ! i), gr_bytes = rq_bytes rq\<rparr>"
    and "s' = s\<lparr>sc_lines := (sc_lines s)[i := grant_on_line rq
           ((ln_bucket (sc_lines s ! i))\<lparr>bk_tokens := bk_tokens (ln_bucket (sc_lines s ! i)) - rq_bytes rq\<rparr>)
           (sc_lines s ! i)]\<rparr>"
proof -
  from assms obtain i sc where a: "scan_best (acquire_score rq) 0 None (sc_lines s) = Some (i, sc)"
    and nz: "rq_bytes rq \<noteq> 0"
    by (auto simp: try_acquire_def split: if_splits option.splits)
  note best = scan_best_Some(1,2) [OF a]
  from acquire_scoreD [OF best(2)] a nz assms
  have "s' = s\<lparr>sc_lines := (sc_lines s)[i := grant_on_line rq
           ((ln_bucket (sc_lines s ! i))\<lparr>bk_tokens := bk_tokens (ln_bucket (sc_lines s ! i)) - rq_bytes rq\<rparr>)
           (sc_lines s ! i)]\<rparr>" "g = \<lparr>gr_line_id = id_of_line (sc_lines s ! i), gr_bytes = rq_bytes rq\<rparr>"
    by (auto simp: try_acquire_def try_consume_def can_consume_def Let_def)
  with that [of i] best nz a acquire_scoreD(4) [OF best(2)] show thesis by simp
qed

lemma grant_line_ok:
  assumes "line_ok l" and "acquire_score rq l = Some sc"
  shows "line_ok (grant_on_line rq ((ln_bucket l)\<lparr>bk_tokens := bk_tokens (ln_bucket l) - rq_bytes rq\<rparr>) l)"
proof -
  note d = acquire_scoreD [OF assms(2)]
  have "unat (ln_inflight_bytes l + rq_bytes rq) = unat (ln_inflight_bytes l) + unat (rq_bytes rq)"
    using order.strict_trans1 [OF d(2) unat_u64_lt] by (intro unat_plus_no_wrap) simp
  moreover have "bk_tokens (ln_bucket l) - rq_bytes rq \<le> bk_tokens (ln_bucket l)"
    using d(3) by (simp add: word_le_unat unat_sub)
  ultimately show ?thesis
    using assms(1) by (auto simp: line_ok_def grant_on_line_def Let_def pending_bytes_def
        pending_of_request_def bucket_ok_def)
qed

lemma grant_line_id [simp]: "id_of_line (grant_on_line rq b l) = id_of_line l"
  by (simp add: grant_on_line_def Let_def)

lemma try_acquire_ok:
  assumes "try_acquire rq s = (r, s')" and "sched_ok s"
  shows "sched_ok s'"
proof (cases r)
  case None
  then show ?thesis using try_acquire_None [of rq s s'] assms by simp
next
  case (Some g)
  then obtain i where i: "i < length (sc_lines s)"
      "acquire_score rq (sc_lines s ! i) = Some (score_line (sc_lines s ! i) rq)"
      "s' = s\<lparr>sc_lines := (sc_lines s)[i := grant_on_line rq
           ((ln_bucket (sc_lines s ! i))\<lparr>bk_tokens := bk_tokens (ln_bucket (sc_lines s ! i)) - rq_bytes rq\<rparr>)
           (sc_lines s ! i)]\<rparr>"
    using assms(1) by (auto elim: try_acquire_Some)
  have "line_ok (sc_lines s ! i)" using assms(2) i(1) by (simp add: sched_ok_def list_all_length)
  from grant_line_ok [OF this i(2)] show ?thesis
    using assms(2) i(1,3)
    by (auto simp: sched_ok_def list_all_length nth_list_update map_update
        list_update_same_conv [THEN iffD2])
qed

section \<open>Scheduler runs\<close>

datatype sched_op =
    Op_refill u64
  | Op_acquire T_SendRequest
  | Op_connected LineId
  | Op_negotiated LineId u64
  | Op_disconnected LineId
  | Op_protocol_error LineId
  | Op_failure LineId
  | Op_heartbeat LineId T_Heartbeat
  | Op_nack LineId
  | Op_take_lost

fun sched_exec :: "sched_op \<Rightarrow> T_MultiLineScheduler \<Rightarrow> T_MultiLineScheduler result" where
  "sched_exec (Op_refill t) s = Inr (refill_ticks t s)"
| "sched_exec (Op_acquire rq) s = Inr (snd (try_acquire rq s))"
| "sched_exec (Op_connected i) s = on_line_connected i s"
| "sched_exec (Op_negotiated i w) s = on_line_negotiated i w s"
| "sched_exec (Op_disconnected i) s = on_line_disconnected i s"
| "sched_exec (Op_protocol_error i) s = on_line_protocol_error i s"
| "sched_exec (Op_failure i) s = on_line_failure i s"
| "sched_exec (Op_heartbeat i hb) s = on_heartbeat i hb s"
| "sched_exec (Op_nack i) s = on_nack i s"
| "sched_exec Op_take_lost s = Inr (snd (take_lost_sends s))"

inductive sched_reachable :: "T_LineConfig list \<Rightarrow> T_MultiLineScheduler \<Rightarrow> bool"
  for configs :: "T_LineConfig list" where
  init: "make_scheduler configs = Inr s \<Longrightarrow> sched_reachable configs s"
| step: "sched_reachable configs s \<Longrightarrow> sched_exec op s = Inr s' \<Longrightarrow> sched_reachable configs s'"

lemma make_scheduler_ok: "make_scheduler configs = Inr s \<Longrightarrow> sched_ok s"
  using add_lines_ok [of "[]" configs "sc_lines s"]
  by (auto simp: make_scheduler_def sched_ok_def split: if_splits sum.splits)

lemmas line_op_defs = on_line_connected_def on_line_negotiated_def on_line_disconnected_def
  on_line_protocol_error_def on_line_failure_def on_nack_def on_heartbeat_def

lemma line_ok_update:
  "ln_bucket l' = ln_bucket l \<Longrightarrow> ln_config l' = ln_config l \<Longrightarrow> ln_pending l' = ln_pending l \<Longrightarrow>
   ln_inflight_bytes l' = ln_inflight_bytes l \<Longrightarrow> line_ok l \<Longrightarrow> line_ok l'"
  by (simp add: line_ok_def pending_bytes_def)

lemma sched_exec_ok:
  assumes "sched_exec op s = Inr s'" and "sched_ok s"
  shows "sched_ok s'"
proof (cases op)
  case (Op_refill t)
  then show ?thesis using assms
    by (auto simp: refill_ticks_def sched_ok_def list_all_iff comp_def refill_line_ok)
next
  case (Op_acquire rq)
  then show ?thesis using assms try_acquire_ok [OF prod.collapse [symmetric]] by auto
next
  case (Op_heartbeat i hb)
  then show ?thesis using assms
    by (auto simp: on_heartbeat_def heartbeat_line_ok elim!: with_line_ok)
      (simp add: heartbeat_on_line_def Let_def)
next
  case Op_take_lost
  then show ?thesis using assms by (auto simp: take_lost_sends_def sched_ok_def)
qed (use assms in \<open>auto simp: line_op_defs elim!: with_line_ok line_ok_update [rotated -1]\<close>)

text \<open>C27: In every reachable state of the scheduler, the line ids are distinct and non-zero, no
  bucket exceeds its capacity, and the in-flight counter of each line is exactly the sum of the
  bytes of its pending sends, without wrap-around, whatever order of grants, heartbeats, nacks,
  failures and reconnects led there.\<close>

theorem scheduler_invariant:
  assumes "sched_reachable configs s"
  shows "distinct (map id_of_line (sc_lines s)) \<and>
    list_all (\<lambda>l. id_of_line l \<noteq> 0 \<and>
      available (ln_bucket l) \<le> tb_capacity (lc_limiter (ln_config l)) \<and>
      unat (ln_inflight_bytes l) = sum_list (map (\<lambda>p. unat (ps_bytes p)) (ln_pending l))) (sc_lines s)"
proof -
  have "sched_ok s" using assms
    by (induction rule: sched_reachable.induct) (auto intro: make_scheduler_ok sched_exec_ok)
  then show ?thesis
    by (auto simp: sched_ok_def line_ok_def bucket_ok_def pending_bytes_def available_def list_all_iff)
qed

definition sample_line :: "LineId \<Rightarrow> T_LineConfig" where
  "sample_line i = \<lparr>lc_id = i, lc_name = ''line'', lc_limiter = sample_limiter,
     lc_initial_recv_window_bytes = 80, lc_heartbeat_timeout_ticks = 300, lc_initially_connected = True\<rparr>"

definition sample_request :: T_SendRequest where
  "sample_request = \<lparr>rq_stream_id = 1, rq_file_id = 2, rq_seq = 3, rq_offset = 0, rq_end_offset = 50,
     rq_bytes = 50, rq_split_allowed = False, rq_kind = SEND_DATA, rq_chunk_index = 0\<rparr>"

definition sample_scheduler :: T_MultiLineScheduler where
  "sample_scheduler =
     \<lparr>sc_lines = map (\<lambda>i. initial_line (sample_line i) \<lparr>bk_config = sample_limiter, bk_tokens = 100\<rparr>) [1, 2],
      sc_lost_sends = []\<rparr>"

lemma sample_scheduler_made: "make_scheduler [sample_line 1, sample_line 2] = Inr sample_scheduler"
  by (simp add: make_scheduler_def sample_line_def sample_limiter_def make_TokenBucket_def
      find_line_def sample_scheduler_def initial_line_def)

theorem scheduler_invariant_witness:
  "let s = snd (try_acquire sample_request sample_scheduler)
   in distinct (map id_of_line (sc_lines s)) \<and>
    list_all (\<lambda>l. id_of_line l \<noteq> 0 \<and>
      available (ln_bucket l) \<le> tb_capacity (lc_limiter (ln_config l)) \<and>
      unat (ln_inflight_bytes l) = sum_list (map (\<lambda>p. unat (ps_bytes p)) (ln_pending l))) (sc_lines s)"
  unfolding Let_def
  by (rule scheduler_invariant, rule sched_reachable.step [where op = "Op_acquire sample_request"],
      rule sched_reachable.init, rule sample_scheduler_made) simp

text \<open>C29: A grant is safe: the chosen line is connected, negotiated, healthy and not stale, the
  bytes fit the receive window next to what is in flight and are paid for in tokens, the send is
  recorded as pending, every other line is untouched, and no eligible line scores higher.\<close>

theorem grant_safe:
  assumes "try_acquire rq s = (Some g, s')"
  shows "\<exists>i l l'. i < length (sc_lines s) \<and> l = sc_lines s ! i \<and> l' = sc_lines s' ! i \<and>
    sc_lines s' = (sc_lines s)[i := l'] \<and> sc_lost_sends s' = sc_lost_sends s \<and>
    gr_line_id g = id_of_line l \<and> gr_bytes g = rq_bytes rq \<and> rq_bytes rq \<noteq> 0 \<and>
    ln_connected l \<and> ln_negotiated l \<and> ln_healthy l \<and> \<not> ln_stale l \<and>
    unat (ln_inflight_bytes l') = unat (ln_inflight_bytes l) + unat (rq_bytes rq) \<and>
    ln_inflight_bytes l' \<le> ln_recv_window_bytes l \<and>
    unat (available (ln_bucket l')) + unat (rq_bytes rq) = unat (available (ln_bucket l)) \<and>
    ln_pending l' = ln_pending l @ [pending_of_request rq] \<and>
    (\<forall>k t. k < length (sc_lines s) \<longrightarrow> acquire_score rq (sc_lines s ! k) = Some t \<longrightarrow> t \<le> score_line l rq)"
proof -
  from assms obtain i where i: "i < length (sc_lines s)" "rq_bytes rq \<noteq> 0"
      "scan_best (acquire_score rq) 0 None (sc_lines s) = Some (i, score_line (sc_lines s ! i) rq)"
      "acquire_score rq (sc_lines s ! i) = Some (score_line (sc_lines s ! i) rq)"
      "g = \<lparr>gr_line_id = id_of_line (sc_lines s ! i), gr_bytes = rq_bytes rq\<rparr>"
      "s' = s\<lparr>sc_lines := (sc_lines s)[i := grant_on_line rq
         ((ln_bucket (sc_lines s ! i))\<lparr>bk_tokens := bk_tokens (ln_bucket (sc_lines s ! i)) - rq_bytes rq\<rparr>)
         (sc_lines s ! i)]\<rparr>"
    by (rule try_acquire_Some)
  note d = acquire_scoreD [OF i(4)] and m = scan_best_Some(3) [OF i(3)]
  have sum: "unat (ln_inflight_bytes (sc_lines s ! i) + rq_bytes rq) =
      unat (ln_inflight_bytes (sc_lines s ! i)) + unat (rq_bytes rq)"
    using order.strict_trans1 [OF d(2) unat_u64_lt] by (intro unat_plus_no_wrap) simp
  have tok: "unat (bk_tokens (ln_bucket (sc_lines s ! i)) - rq_bytes rq) + unat (rq_bytes rq) =
      unat (bk_tokens (ln_bucket (sc_lines s ! i)))"
    using d(3) by (simp add: unat_sub word_le_unat)
  show ?thesis
    using i(1,2,5,6) d sum tok m
    by (intro exI [of _ i] exI [of _ "sc_lines s ! i"] exI [of _ "sc_lines s' ! i"])
      (auto simp: grant_on_line_def Let_def line_usable_def available_def word_le_unat)
qed

theorem grant_safe_witness:
  "\<exists>i l. i < length (sc_lines sample_scheduler) \<and> l = sc_lines sample_scheduler ! i \<and>
    (1 :: u32) = id_of_line l \<and> ln_connected l \<and> \<not> ln_stale l"
proof -
  have "try_acquire sample_request sample_scheduler =
      (Some \<lparr>gr_line_id = 1, gr_bytes = 50\<rparr>, snd (try_acquire sample_request sample_scheduler))"
    by (simp add: try_acquire_def sample_request_def sample_scheduler_def acquire_score_def
        line_usable_def initial_line_def sample_line_def sample_limiter_def can_consume_def
        score_line_def available_def try_consume_def Let_def)
  from grant_safe [OF this] show ?thesis by auto
qed

text \<open>C30: The scheduler refuses a request exactly when it is empty or no line can carry it: a usable
  line with enough window and enough tokens is always found.\<close>

theorem grant_complete:
  "fst (try_acquire rq s) \<noteq> None \<longleftrightarrow>
     rq_bytes rq \<noteq> 0 \<and>
     list_ex (\<lambda>l. ln_connected l \<and> ln_negotiated l \<and> ln_healthy l \<and> \<not> ln_stale l \<and>
       unat (ln_inflight_bytes l) + unat (rq_bytes rq) \<le> unat (ln_recv_window_bytes l) \<and>
       rq_bytes rq \<le> available (ln_bucket l)) (sc_lines s)"
proof -
  have elig: "acquire_score rq l \<noteq> None \<longleftrightarrow>
      ln_connected l \<and> ln_negotiated l \<and> ln_healthy l \<and> \<not> ln_stale l \<and>
      unat (ln_inflight_bytes l) + unat (rq_bytes rq) \<le> unat (ln_recv_window_bytes l) \<and>
      rq_bytes rq \<le> available (ln_bucket l)" if "rq_bytes rq \<noteq> 0" for l
  proof -
    have "0 < unat (rq_bytes rq)" using that by (simp add: unat_gt_0)
    then show ?thesis
      by (auto simp: acquire_score_def line_usable_def can_consume_def available_def
          word_le_unat word_lt_unat unat_sub split: if_splits)
  qed
  obtain r s' where r: "try_acquire rq s = (r, s')" by fastforce
  show ?thesis
  proof (cases r)
    case None
    with try_acquire_None [of rq s s'] r elig show ?thesis
      by (auto simp: list_ex_iff) (metis option.distinct(1))+
  next
    case (Some g)
    with r obtain i where "i < length (sc_lines s)" "rq_bytes rq \<noteq> 0"
        "acquire_score rq (sc_lines s ! i) \<noteq> None"
      by (auto elim!: try_acquire_Some)
    moreover from this elig have "list_ex (\<lambda>l. acquire_score rq l \<noteq> None) (sc_lines s)"
      by (auto simp: list_ex_length)
    ultimately show ?thesis using Some r elig by (simp add: list_ex_iff)
  qed
qed

section \<open>No send is forgotten\<close>

text \<open>
  \<open>tracked\<close> collects every send the scheduler still answers for, as the record it would report if
  the line were lost: the pending sends of all lines and the lost sends not yet collected.
\<close>

definition tracked :: "T_MultiLineScheduler \<Rightarrow> T_LostSend multiset" where
  "tracked s = mset (sc_lost_sends s) + mset (concat (map lost_of_line (sc_lines s)))"

fun sends_added :: "sched_op \<Rightarrow> T_MultiLineScheduler \<Rightarrow> T_LostSend multiset" where
  "sends_added (Op_acquire rq) s =
     (case fst (try_acquire rq s) of
        None \<Rightarrow> {#}
      | Some g \<Rightarrow> {#lost_of_pending (gr_line_id g) (pending_of_request rq)#})"
| "sends_added _ s = {#}"

fun sends_removed :: "sched_op \<Rightarrow> T_MultiLineScheduler \<Rightarrow> T_LostSend multiset" where
  "sends_removed (Op_heartbeat i hb) s =
     (case find_line (sc_lines s) i of
        None \<Rightarrow> {#}
      | Some l \<Rightarrow> mset (map (lost_of_pending i) (filter (send_completed hb) (ln_pending l))))"
| "sends_removed Op_take_lost s = mset (fst (take_lost_sends s))"
| "sends_removed _ s = {#}"

lemma find_line_split:
  "find_line lines i = Some l \<Longrightarrow>
     id_of_line l = i \<and> (\<exists>xs ys. lines = xs @ l # ys \<and> modify_line i f lines = xs @ f l # ys)"
proof (induction lines)
  case (Cons x lines)
  show ?case
  proof (cases "id_of_line x = i")
    case True
    with Cons.prems have "x = l" by (simp add: find_line_def)
    then show ?thesis using True by (intro conjI exI [of _ "[]"] exI [of _ lines]) simp_all
  next
    case False
    with Cons obtain xs ys where "id_of_line l = i" "lines = xs @ l # ys" "modify_line i f lines = xs @ f l # ys"
      by (auto simp: find_line_def)
    then show ?thesis using False by (intro conjI exI [of _ "x # xs"] exI [of _ ys]) simp_all
  qed
qed (simp add: find_line_def)

lemma with_line_tracked:
  assumes "with_line i c f s = Inr s'" and "\<And>l. id_of_line (f l) = id_of_line l"
  obtains l where "find_line (sc_lines s) i = Some l" and "id_of_line l = i"
    and "tracked s' + mset (lost_of_line l) =
      tracked s + mset (if c then lost_of_line l else lost_of_line (f l))"
proof -
  from assms obtain l where l: "find_line (sc_lines s) i = Some l"
    by (auto simp: with_line_def split: option.splits)
  obtain xs ys where xs: "id_of_line l = i" "sc_lines s = xs @ l # ys"
      "modify_line i (\<lambda>l. if c then clear_inflight (f l) else f l) (sc_lines s) =
        xs @ (if c then clear_inflight (f l) else f l) # ys"
    using find_line_split [OF l, of "\<lambda>l. if c then clear_inflight (f l) else f l"] by auto
  have "lost_of_line (clear_inflight (f l)) = []"
    by (simp add: lost_of_line_def clear_inflight_def)
  then have "tracked s' + mset (lost_of_line l) =
      tracked s + mset (if c then lost_of_line l else lost_of_line (f l))"
    using assms(1) l xs by (auto simp: with_line_def tracked_def)
  with l xs(1) that show thesis by blast
qed

lemma with_line_keeps_tracked:
  assumes "with_line i c f s = Inr s'" and "\<And>l. id_of_line (f l) = id_of_line l"
    and "\<And>l. ln_pending (f l) = ln_pending l"
  shows "tracked s' = tracked s"
proof -
  have "lost_of_line (f l) = lost_of_line l" for l
    by (simp add: lost_of_line_def assms(2,3))
  then have "mset (if c then lost_of_line l else lost_of_line (f l)) = mset (lost_of_line l)" for l
    by simp
  then show ?thesis
    using assms(1,2) by (rule_tac with_line_tracked [of i c f s s']) (simp_all only: add_right_cancel)
qed

lemma heartbeat_tracked:
  assumes "on_heartbeat i hb s = Inr s'"
  shows "tracked s' + sends_removed (Op_heartbeat i hb) s = tracked s"
proof -
  obtain l where l: "find_line (sc_lines s) i = Some l" "id_of_line l = i"
      "tracked s' + mset (lost_of_line l) = tracked s + mset (lost_of_line (heartbeat_on_line hb l))"
    using assms unfolding on_heartbeat_def
    by (rule with_line_tracked) (simp_all add: heartbeat_on_line_def Let_def)
  have "mset (lost_of_line l) = mset (lost_of_line (heartbeat_on_line hb l)) +
      mset (map (lost_of_pending i) (filter (send_completed hb) (ln_pending l)))"
    using l(2) multiset_partition [of "mset (ln_pending l)" "send_completed hb"]
    by (simp add: lost_of_line_def heartbeat_on_line_def Let_def mset_filter add.commute
        flip: image_mset_union)
  with l show ?thesis by simp
qed

lemma acquire_tracked:
  "tracked (snd (try_acquire rq s)) = tracked s + sends_added (Op_acquire rq) s"
proof -
  obtain r s' where r: "try_acquire rq s = (r, s')" by fastforce
  show ?thesis
  proof (cases r)
    case None
    then show ?thesis using r try_acquire_None [of rq s s'] by simp
  next
    case (Some g)
    with r obtain i where i: "i < length (sc_lines s)"
        "g = \<lparr>gr_line_id = id_of_line (sc_lines s ! i), gr_bytes = rq_bytes rq\<rparr>"
        "s' = s\<lparr>sc_lines := (sc_lines s)[i := grant_on_line rq
           ((ln_bucket (sc_lines s ! i))\<lparr>bk_tokens := bk_tokens (ln_bucket (sc_lines s ! i)) - rq_bytes rq\<rparr>)
           (sc_lines s ! i)]\<rparr>"
      by (auto elim!: try_acquire_Some)
    have lost: "lost_of_line (grant_on_line rq b l) =
        lost_of_line l @ [lost_of_pending (id_of_line l) (pending_of_request rq)]" for b l
      by (simp add: lost_of_line_def grant_on_line_def Let_def)
    have "mset (concat (map lost_of_line (sc_lines s'))) = mset (concat (map lost_of_line (sc_lines s))) +
        {#lost_of_pending (gr_line_id g) (pending_of_request rq)#}"
      using arg_cong [OF id_take_nth_drop [OF i(1)], of "\<lambda>ls. mset (concat (map lost_of_line ls))"] i(1)
      by (simp add: i(2,3) upd_conv_take_nth_drop lost)
    then show ?thesis using Some r i(3) by (simp add: tracked_def)
  qed
qed

text \<open>C28: No send is forgotten. Each operation changes the sends the scheduler answers for only by
  what it should: a grant adds the granted send, a heartbeat removes exactly the pending sends of
  its line that it acknowledges, collecting the lost sends hands them over, and disconnects,
  failures, protocol errors, nacks and reconnects move the pending sends of the line into the
  lost list without dropping or duplicating one.\<close>

theorem sends_conserved:
  assumes "sched_exec op s = Inr s'"
  shows "tracked s' + sends_removed op s = tracked s + sends_added op s"
proof (cases op)
  case (Op_refill t)
  have "lost_of_line (refill_line t l) = lost_of_line l" for l
    by (simp add: lost_of_line_def refill_line_def Let_def)
  then show ?thesis using Op_refill assms by (auto simp: tracked_def refill_ticks_def comp_def)
next
  case (Op_acquire rq)
  then show ?thesis using assms acquire_tracked [of rq s] by auto
next
  case (Op_heartbeat i hb)
  then show ?thesis using assms heartbeat_tracked [of i hb s s'] by simp
next
  case Op_take_lost
  then show ?thesis using assms by (auto simp: take_lost_sends_def tracked_def)
qed (use assms in \<open>auto simp: line_op_defs elim!: with_line_keeps_tracked\<close>)

theorem sends_conserved_witness:
  "\<exists>s'. on_line_disconnected 1 (snd (try_acquire sample_request sample_scheduler)) = Inr s' \<and>
     tracked s' = tracked (snd (try_acquire sample_request sample_scheduler)) \<and>
     length (sc_lost_sends s') = 1"
proof -
  obtain s' where s': "on_line_disconnected 1 (snd (try_acquire sample_request sample_scheduler)) = Inr s'"
      "length (sc_lost_sends s') = 1"
    by (simp add: on_line_disconnected_def with_line_def find_line_def lost_of_line_def grant_on_line_def
        try_acquire_def sample_request_def sample_scheduler_def acquire_score_def
        line_usable_def initial_line_def sample_line_def sample_limiter_def can_consume_def
        score_line_def available_def try_consume_def Let_def)
  with sends_conserved [of "Op_disconnected 1" "snd (try_acquire sample_request sample_scheduler)" s']
  show ?thesis by auto
qed

end
