(* ===== verification/SendBuffer.thy ===== *)
theory SendBuffer
  imports Scheduler "HOL-Library.AList"
begin

text \<open>
  The buffer of unacknowledged sends, \<open>T_SenderSendBuffer\<close> of src/src/sender/yisync_send_buffer.cpp
  and src/include/sender/yisync_send_buffer.hpp: what was sent is kept under a key until a heartbeat
  acknowledges it, and is queued for retransmission on a NACK or a timeout. The hash map of entries
  is an association list whose order stands for the unspecified iteration order of the map; no
  theorem depends on it.
\<close>

section \<open>Data\<close>

record T_SendBufferKey =
  bk_kind :: EM_SendKind
  bk_stream_id :: u64
  bk_file_id :: u64
  bk_seq :: u64
  bk_offset :: u64
  bk_chunk_index :: u64

record T_BufferedSend =
  bs_message :: T_Message
  bs_request :: T_SendRequest
  bs_last_sent_tick :: u64
  bs_nack_retries :: u64

record T_AckedSendSample =
  as_key :: T_SendBufferKey
  as_request :: T_SendRequest
  as_rtt_ticks :: u64

record T_SenderSendBuffer =
  sb_entries :: "(T_SendBufferKey \<times> T_BufferedSend) list"
  sb_retransmit_queue :: "T_SendBufferKey list"

definition send_kind_value :: "EM_SendKind \<Rightarrow> u64" where
  "send_kind_value kind = (case kind of SEND_CREATE \<Rightarrow> 1 | SEND_DATA \<Rightarrow> 2 | SEND_FILE_BEGIN \<Rightarrow> 3
     | SEND_CHUNK \<Rightarrow> 4 | SEND_FILE_COMMIT \<Rightarrow> 5)"

text \<open>\<open>std_hash\<close> stands for \<open>std::hash<std::uint64_t>\<close>, which the implementation chooses.\<close>

definition mix_hash :: "(u64 \<Rightarrow> u64) \<Rightarrow> u64 \<Rightarrow> u64 \<Rightarrow> u64" where
  "mix_hash std_hash hash value =
     hash XOR (std_hash value + 0x9e3779b97f4a7c15 + push_bit 6 hash + drop_bit 2 hash)"

definition key_hash :: "(u64 \<Rightarrow> u64) \<Rightarrow> T_SendBufferKey \<Rightarrow> u64" where
  "key_hash std_hash key =
     foldl (mix_hash std_hash) (send_kind_value (bk_kind key))
       [bk_stream_id key, bk_file_id key, bk_seq key, bk_offset key, bk_chunk_index key]"

definition key_equal :: "T_SendBufferKey \<Rightarrow> T_SendBufferKey \<Rightarrow> bool" where
  "key_equal key other \<longleftrightarrow> bk_kind key = bk_kind other \<and> bk_stream_id key = bk_stream_id other \<and>
     bk_file_id key = bk_file_id other \<and> bk_seq key = bk_seq other \<and>
     bk_offset key = bk_offset other \<and> bk_chunk_index key = bk_chunk_index other"

definition key_for_request :: "T_SendRequest \<Rightarrow> T_SendBufferKey" where
  "key_for_request request =
     \<lparr>bk_kind = rq_kind request, bk_stream_id = rq_stream_id request, bk_file_id = rq_file_id request,
      bk_seq = rq_seq request, bk_offset = rq_offset request, bk_chunk_index = rq_chunk_index request\<rparr>"

definition key_for_lost_send :: "T_LostSend \<Rightarrow> T_SendBufferKey" where
  "key_for_lost_send lost =
     \<lparr>bk_kind = ls_kind lost, bk_stream_id = ls_stream_id lost, bk_file_id = ls_file_id lost,
      bk_seq = ls_seq lost, bk_offset = ls_offset lost, bk_chunk_index = ls_chunk_index lost\<rparr>"

section \<open>Operations\<close>

definition empty_send_buffer :: T_SenderSendBuffer where
  "empty_send_buffer = \<lparr>sb_entries = [], sb_retransmit_queue = []\<rparr>"

definition buffer_clear :: "T_SenderSendBuffer \<Rightarrow> T_SenderSendBuffer" where
  "buffer_clear buf = buf\<lparr>sb_entries := [], sb_retransmit_queue := []\<rparr>"

definition remember :: "T_SenderSendBuffer \<Rightarrow> T_Message \<Rightarrow> T_SendRequest \<Rightarrow> u64 \<Rightarrow> T_SenderSendBuffer" where
  "remember buf message request sent_tick =
     buf\<lparr>sb_entries := AList.update (key_for_request request)
        \<lparr>bs_message = message, bs_request = request, bs_last_sent_tick = sent_tick, bs_nack_retries = 0\<rparr>
        (sb_entries buf)\<rparr>"

definition buffer_find :: "T_SenderSendBuffer \<Rightarrow> T_SendBufferKey \<Rightarrow> T_BufferedSend option" where
  "buffer_find buf key = map_of (sb_entries buf) key"

definition sample_for :: "T_SendBufferKey \<Rightarrow> T_BufferedSend \<Rightarrow> u64 \<Rightarrow> T_AckedSendSample" where
  "sample_for key send current_tick =
     \<lparr>as_key = key, as_request = bs_request send,
      as_rtt_ticks = (if current_tick \<ge> bs_last_sent_tick send
                      then current_tick - bs_last_sent_tick send else 0)\<rparr>"

text \<open>What a heartbeat acknowledges: everything of its stream below the next sequence number, and the
  DATA of its file whose end was reached.\<close>

definition heartbeat_acks :: "T_Heartbeat \<Rightarrow> T_SendBufferKey \<Rightarrow> T_BufferedSend \<Rightarrow> bool" where
  "heartbeat_acks heartbeat key send =
     (let stream_id = hb_stream_id heartbeat;
          same_stream_file = (bk_stream_id key = stream_id \<and> bk_file_id key = hb_file_id heartbeat);
          acked = (bk_stream_id key = stream_id \<and> bk_seq key < hb_next_seq heartbeat)
      in if \<not> acked \<and> same_stream_file \<and> bk_kind key = SEND_DATA
         then let end_offset = rq_end_offset (bs_request send)
              in end_offset \<noteq> 0 \<and>
                 (hb_offset heartbeat \<ge> end_offset \<or> hb_durable_offset heartbeat \<ge> end_offset)
         else acked)"

fun erase_acked ::
  "T_Heartbeat \<Rightarrow> u64 \<Rightarrow> (T_SendBufferKey \<times> T_BufferedSend) list \<Rightarrow>
     T_AckedSendSample list \<times> (T_SendBufferKey \<times> T_BufferedSend) list" where
  "erase_acked heartbeat current_tick [] = ([], [])"
| "erase_acked heartbeat current_tick ((key, send) # rest) =
     (let (samples, kept) = erase_acked heartbeat current_tick rest
      in if heartbeat_acks heartbeat key send
         then (sample_for key send current_tick # samples, kept)
         else (samples, (key, send) # kept))"

definition erase_completed ::
  "T_SenderSendBuffer \<Rightarrow> T_Heartbeat \<Rightarrow> u64 \<Rightarrow> T_AckedSendSample list \<times> T_SenderSendBuffer" where
  "erase_completed buf heartbeat current_tick =
     (if hb_next_seq heartbeat = 0 then ([], buf)
      else let (samples, kept) = erase_acked heartbeat current_tick (sb_entries buf)
           in (samples, buf\<lparr>sb_entries := kept\<rparr>))"

definition erase_key ::
  "T_SenderSendBuffer \<Rightarrow> T_SendBufferKey \<Rightarrow> u64 \<Rightarrow> T_AckedSendSample option \<times> T_SenderSendBuffer" where
  "erase_key buf key current_tick =
     (case map_of (sb_entries buf) key of
        None \<Rightarrow> (None, buf)
      | Some send \<Rightarrow>
          (Some (sample_for key send current_tick), buf\<lparr>sb_entries := AList.delete key (sb_entries buf)\<rparr>))"

definition erase_file_begin ::
  "T_SenderSendBuffer \<Rightarrow> u64 \<Rightarrow> u64 \<Rightarrow> u64 \<Rightarrow> u64 \<Rightarrow> T_AckedSendSample option \<times> T_SenderSendBuffer" where
  "erase_file_begin buf stream_id file_id seq current_tick =
     erase_key buf \<lparr>bk_kind = SEND_FILE_BEGIN, bk_stream_id = stream_id, bk_file_id = file_id,
       bk_seq = seq, bk_offset = 0, bk_chunk_index = 0\<rparr> current_tick"

definition erase_chunk ::
  "T_SenderSendBuffer \<Rightarrow> T_ReceivedChunk \<Rightarrow> u64 \<Rightarrow> u64 \<Rightarrow> T_AckedSendSample option \<times> T_SenderSendBuffer" where
  "erase_chunk buf chunk stream_id current_tick =
     erase_key buf \<lparr>bk_kind = SEND_CHUNK, bk_stream_id = stream_id, bk_file_id = rc_file_id chunk,
       bk_seq = rc_seq chunk, bk_offset = 0, bk_chunk_index = rc_chunk_index chunk\<rparr> current_tick"

section \<open>NACK\<close>

text \<open>The first of some candidate keys that is buffered.\<close>

fun first_buffered :: "T_SenderSendBuffer \<Rightarrow> T_SendBufferKey list \<Rightarrow> T_SendBufferKey option" where
  "first_buffered buf [] = None"
| "first_buffered buf (key # keys) =
     (if buffer_find buf key \<noteq> None then Some key else first_buffered buf keys)"

definition nack_key :: "T_Nack \<Rightarrow> EM_SendKind \<Rightarrow> u64 \<Rightarrow> u64 \<Rightarrow> u64 \<Rightarrow> T_SendBufferKey" where
  "nack_key nack kind seq offset chunk_index =
     \<lparr>bk_kind = kind, bk_stream_id = nk_stream_id nack, bk_file_id = nk_file_id nack, bk_seq = seq,
      bk_offset = offset, bk_chunk_index = chunk_index\<rparr>"

definition nack_chunk_index :: "T_Nack \<Rightarrow> u64 \<Rightarrow> u64" where
  "nack_chunk_index nack chunk_size = (if chunk_size = 0 then 0 else nk_offset nack div chunk_size)"

definition find_ordered :: "T_SenderSendBuffer \<Rightarrow> T_Nack \<Rightarrow> u64 \<Rightarrow> T_SendBufferKey option" where
  "find_ordered buf nack seq =
     (if seq = 0 then None
      else first_buffered buf
        [nack_key nack SEND_CREATE seq 0 0, nack_key nack SEND_DATA seq (nk_offset nack) 0])"

definition find_file_begin :: "T_SenderSendBuffer \<Rightarrow> T_Nack \<Rightarrow> u64 \<Rightarrow> T_SendBufferKey option" where
  "find_file_begin buf nack seq =
     (if seq = 0 then None else first_buffered buf [nack_key nack SEND_FILE_BEGIN seq 0 0])"

definition find_file_commit :: "T_SenderSendBuffer \<Rightarrow> T_Nack \<Rightarrow> u64 \<Rightarrow> T_SendBufferKey option" where
  "find_file_commit buf nack seq =
     (if seq = 0 then None else first_buffered buf [nack_key nack SEND_FILE_COMMIT seq 0 0])"

definition find_chunk :: "T_SenderSendBuffer \<Rightarrow> T_Nack \<Rightarrow> u64 \<Rightarrow> u64 \<Rightarrow> T_SendBufferKey option" where
  "find_chunk buf nack chunk_size seq =
     (if seq = 0 then None
      else first_buffered buf [nack_key nack SEND_CHUNK seq 0 (nack_chunk_index nack chunk_size)])"

text \<open>The chain of \<open>if (auto key = ...) return key;\<close>.\<close>

fun first_some :: "'a option list \<Rightarrow> 'a option" where
  "first_some [] = None"
| "first_some (x # xs) = (case x of Some y \<Rightarrow> Some y | None \<Rightarrow> first_some xs)"

definition nack_fallback :: "T_SenderSendBuffer \<Rightarrow> T_Nack \<Rightarrow> u64 \<Rightarrow> T_SendBufferKey option" where
  "nack_fallback buf nack chunk_size =
     (let seq = nk_got_seq nack
      in first_buffered buf
        ([nack_key nack SEND_CREATE seq 0 0, nack_key nack SEND_DATA seq (nk_offset nack) 0,
          nack_key nack SEND_FILE_BEGIN seq 0 0, nack_key nack SEND_FILE_COMMIT seq 0 0] @
         (if seq \<noteq> 0 then [nack_key nack SEND_CHUNK seq 0 (nack_chunk_index nack chunk_size)] else [])))"

definition key_for_nack :: "T_SenderSendBuffer \<Rightarrow> T_Nack \<Rightarrow> u64 \<Rightarrow> T_SendBufferKey option" where
  "key_for_nack buf nack chunk_size =
     (if nk_file_id nack = 0 then None
      else first_some
        ((if nk_reason nack = BAD_SEQ
          then [find_ordered buf nack (nk_expected_seq nack), find_file_begin buf nack (nk_expected_seq nack),
                find_file_commit buf nack (nk_expected_seq nack),
                find_chunk buf nack chunk_size (nk_expected_seq nack)]
          else []) @
         (if nk_reason nack = BAD_CHECKSUM \<or> nk_reason nack = BAD_OFFSET
          then [find_chunk buf nack chunk_size (nk_got_seq nack), find_ordered buf nack (nk_got_seq nack)]
          else []) @
         (if nk_reason nack = BAD_CHUNK
          then [find_file_begin buf nack (nk_got_seq nack), find_chunk buf nack chunk_size (nk_got_seq nack)]
          else []) @
         (if nk_reason nack = BAD_COMMIT then [find_file_commit buf nack (nk_got_seq nack)] else []) @
         [nack_fallback buf nack chunk_size]))"

section \<open>Retransmission\<close>

definition enqueue_retransmit :: "T_SenderSendBuffer \<Rightarrow> T_SendBufferKey \<Rightarrow> bool \<times> T_SenderSendBuffer" where
  "enqueue_retransmit buf key =
     (if buffer_find buf key = None then (False, buf)
      else (True, if key \<in> set (sb_retransmit_queue buf) then buf
                  else buf\<lparr>sb_retransmit_queue := sb_retransmit_queue buf @ [key]\<rparr>))"

definition enqueue_nack_retransmit :: "T_SenderSendBuffer \<Rightarrow> T_Nack \<Rightarrow> u64 \<Rightarrow> bool \<times> T_SenderSendBuffer" where
  "enqueue_nack_retransmit buf nack chunk_size =
     (case key_for_nack buf nack chunk_size of
        None \<Rightarrow> (False, buf)
      | Some key \<Rightarrow> enqueue_retransmit buf key)"

definition mark_retransmitted :: "T_SenderSendBuffer \<Rightarrow> T_SendBufferKey \<Rightarrow> u64 \<Rightarrow> u64 \<Rightarrow> bool \<times> T_SenderSendBuffer" where
  "mark_retransmitted buf key bytes sent_tick =
     (case buffer_find buf key of
        None \<Rightarrow> (False, buf)
      | Some send \<Rightarrow>
          (True, buf\<lparr>sb_entries := AList.update key
             (send\<lparr>bs_request := (bs_request send)\<lparr>rq_bytes := bytes\<rparr>, bs_last_sent_tick := sent_tick,
                bs_nack_retries := bs_nack_retries send + 1\<rparr>) (sb_entries buf)\<rparr>))"

definition send_expired :: "u64 \<Rightarrow> u64 \<Rightarrow> T_BufferedSend \<Rightarrow> bool" where
  "send_expired current_tick rto_ticks send \<longleftrightarrow>
     current_tick \<ge> bs_last_sent_tick send \<and> current_tick - bs_last_sent_tick send \<ge> rto_ticks"

fun collect_expired :: "u64 \<Rightarrow> u64 \<Rightarrow> nat \<Rightarrow> (T_SendBufferKey \<times> T_BufferedSend) list \<Rightarrow> T_SendBufferKey list" where
  "collect_expired current_tick rto_ticks budget [] = []"
| "collect_expired current_tick rto_ticks budget ((key, send) # rest) =
     (if \<not> send_expired current_tick rto_ticks send
      then collect_expired current_tick rto_ticks budget rest
      else if budget \<le> 1 then [key]
      else key # collect_expired current_tick rto_ticks (budget - 1) rest)"

definition expired_keys :: "T_SenderSendBuffer \<Rightarrow> u64 \<Rightarrow> u64 \<Rightarrow> nat \<Rightarrow> T_SendBufferKey list" where
  "expired_keys buf current_tick rto_ticks max_keys =
     (if rto_ticks = 0 \<or> max_keys = 0 then []
      else collect_expired current_tick rto_ticks max_keys (sb_entries buf))"

definition erase_retransmit :: "T_SenderSendBuffer \<Rightarrow> nat \<Rightarrow> T_SenderSendBuffer" where
  "erase_retransmit buf index =
     (if index \<ge> length (sb_retransmit_queue buf) then buf
      else buf\<lparr>sb_retransmit_queue :=
             take index (sb_retransmit_queue buf) @ drop (index + 1) (sb_retransmit_queue buf)\<rparr>)"

definition buffer_size :: "T_SenderSendBuffer \<Rightarrow> nat" where
  "buffer_size buf = length (sb_entries buf)"

definition retransmit_queue_size :: "T_SenderSendBuffer \<Rightarrow> nat" where
  "retransmit_queue_size buf = length (sb_retransmit_queue buf)"

section \<open>The buffer as a keyed store\<close>

text \<open>
  The contract between the buffer and the sender that acknowledges sends: a lookup sees what was last
  put under a key and not erased since.
\<close>

locale keyed_store =
  fixes lookup :: "'s \<Rightarrow> 'k \<Rightarrow> 'v option"
    and put :: "'s \<Rightarrow> 'k \<Rightarrow> 'v \<Rightarrow> 's"
    and erase :: "'s \<Rightarrow> 'k \<Rightarrow> 's"
  assumes lookup_put: "lookup (put s k v) k' = (if k' = k then Some v else lookup s k')"
    and lookup_erase: "lookup (erase s k) k' = (if k' = k then None else lookup s k')"
begin

lemma erase_all: "lookup (foldl erase s ks) k = (if k \<in> set ks then None else lookup s k)"
  by (induction ks arbitrary: s) (simp_all add: lookup_erase)

lemma put_erase: "lookup (erase (put s k v) k) k' = (if k' = k then None else lookup s k')"
  by (simp add: lookup_erase lookup_put)

end

abbreviation put_send :: "T_SenderSendBuffer \<Rightarrow> T_SendBufferKey \<Rightarrow> T_BufferedSend \<Rightarrow> T_SenderSendBuffer" where
  "put_send buf key send \<equiv> buf\<lparr>sb_entries := AList.update key send (sb_entries buf)\<rparr>"

abbreviation drop_send :: "u64 \<Rightarrow> T_SenderSendBuffer \<Rightarrow> T_SendBufferKey \<Rightarrow> T_SenderSendBuffer" where
  "drop_send current_tick buf key \<equiv> snd (erase_key buf key current_tick)"

interpretation buf: keyed_store buffer_find put_send "drop_send current_tick" for current_tick
  by unfold_locales
    (auto simp: buffer_find_def erase_key_def update_conv' delete_conv' split: option.splits)

lemma key_equal_iff: "key_equal key other \<longleftrightarrow> key = other"
  by (cases key; cases other) (auto simp: key_equal_def)

lemma erase_key_queue [simp]: "sb_retransmit_queue (snd (erase_key buf key tick)) = sb_retransmit_queue buf"
  by (simp add: erase_key_def split: option.splits)

section \<open>Invariant\<close>

text \<open>Every key occurs once and is the key of the buffered request; nothing is queued twice.\<close>

definition buffer_ok :: "T_SenderSendBuffer \<Rightarrow> bool" where
  "buffer_ok buf \<longleftrightarrow> distinct (map fst (sb_entries buf)) \<and>
     list_all (\<lambda>(key, send). key_for_request (bs_request send) = key) (sb_entries buf) \<and>
     distinct (sb_retransmit_queue buf)"

inductive buffer_step :: "T_SenderSendBuffer \<Rightarrow> T_SenderSendBuffer \<Rightarrow> bool" where
  clear: "buffer_step buf (buffer_clear buf)"
| remember: "buffer_step buf (remember buf message request tick)"
| erase_completed: "buffer_step buf (snd (erase_completed buf heartbeat tick))"
| erase_file_begin: "buffer_step buf (snd (erase_file_begin buf stream_id file_id seq tick))"
| erase_chunk: "buffer_step buf (snd (erase_chunk buf chunk stream_id tick))"
| enqueue: "buffer_step buf (snd (enqueue_retransmit buf key))"
| enqueue_nack: "buffer_step buf (snd (enqueue_nack_retransmit buf nack chunk_size))"
| mark: "buffer_step buf (snd (mark_retransmitted buf key bytes tick))"
| erase_retransmit: "buffer_step buf (erase_retransmit buf index)"

inductive_cases buffer_stepE: "buffer_step buf buf'"

lemma erase_acked_filter:
  "erase_acked heartbeat tick es =
     (map (\<lambda>(k, s). sample_for k s tick) (filter (\<lambda>(k, s). heartbeat_acks heartbeat k s) es),
      filter (\<lambda>(k, s). \<not> heartbeat_acks heartbeat k s) es)"
  by (induction es rule: erase_acked.induct) (auto simp: Let_def)

lemma erase_completed_filter:
  "erase_completed buf heartbeat tick =
     (if hb_next_seq heartbeat = 0 then ([], buf)
      else (map (\<lambda>(k, s). sample_for k s tick) (filter (\<lambda>(k, s). heartbeat_acks heartbeat k s) (sb_entries buf)),
            buf\<lparr>sb_entries := filter (\<lambda>(k, s). \<not> heartbeat_acks heartbeat k s) (sb_entries buf)\<rparr>))"
  by (simp add: erase_completed_def erase_acked_filter)

lemma update_entries_ok:
  assumes "distinct (map fst es)" and "list_all (\<lambda>(key, send). key_for_request (bs_request send) = key) es"
    and "key_for_request (bs_request send) = key"
  shows "distinct (map fst (AList.update key send es))"
    and "list_all (\<lambda>(key, send). key_for_request (bs_request send) = key) (AList.update key send es)"
proof -
  show "distinct (map fst (AList.update key send es))" using assms(1) by (rule distinct_update)
  show "list_all (\<lambda>(key, send). key_for_request (bs_request send) = key) (AList.update key send es)"
    using assms(2,3) by (induction es) (auto simp: list_all_iff split: if_splits)
qed

lemma delete_entries_subset: "set (AList.delete key es) \<subseteq> set es"
  by (auto simp: AList.delete_eq)

lemma erase_key_ok: "buffer_ok buf \<Longrightarrow> buffer_ok (snd (erase_key buf key tick))"
  using delete_entries_subset [of key "sb_entries buf"]
  by (auto simp: buffer_ok_def erase_key_def distinct_delete list_all_iff split: option.splits)

lemma enqueue_retransmit_ok: "buffer_ok buf \<Longrightarrow> buffer_ok (snd (enqueue_retransmit buf key))"
  by (simp add: buffer_ok_def enqueue_retransmit_def)

lemma buffer_find_ok: "buffer_ok buf \<Longrightarrow> buffer_find buf key = Some send \<Longrightarrow> key_for_request (bs_request send) = key"
  by (auto simp: buffer_ok_def buffer_find_def list_all_iff dest!: map_of_SomeD)

lemma key_for_request_bytes [simp]: "key_for_request (r\<lparr>rq_bytes := b\<rparr>) = key_for_request r"
  by (simp add: key_for_request_def)

lemma mark_retransmitted_ok:
  assumes "buffer_ok buf"
  shows "buffer_ok (snd (mark_retransmitted buf key bytes tick))"
proof (cases "buffer_find buf key")
  case (Some send)
  note k = buffer_find_ok [OF assms Some]
  have "buffer_ok (put_send buf key send')" if "key_for_request (bs_request send') = key" for send'
    using assms that by (simp add: buffer_ok_def update_entries_ok)
  then show ?thesis using Some k by (simp add: mark_retransmitted_def)
qed (simp add: mark_retransmitted_def assms)

lemma erase_completed_ok: "buffer_ok buf \<Longrightarrow> buffer_ok (snd (erase_completed buf heartbeat tick))"
  by (auto simp: buffer_ok_def erase_completed_filter list_all_iff distinct_map_filter)

lemma distinct_erase: "distinct xs \<Longrightarrow> distinct (take n xs @ drop (n + 1) xs)"
  using set_take_disj_set_drop_if_distinct [of xs n "n + 1"] by simp

lemma erase_retransmit_ok: "buffer_ok buf \<Longrightarrow> buffer_ok (erase_retransmit buf index)"
  using distinct_erase [of "sb_retransmit_queue buf" index] by (simp add: buffer_ok_def erase_retransmit_def)

lemma buffer_step_ok: "buffer_step buf buf' \<Longrightarrow> buffer_ok buf \<Longrightarrow> buffer_ok buf'"
proof (induction rule: buffer_step.induct)
  case (clear buf)
  then show ?case by (simp add: buffer_clear_def buffer_ok_def)
next
  case (remember buf message request tick)
  then show ?case by (simp add: remember_def buffer_ok_def update_entries_ok)
next
  case (enqueue_nack buf nack chunk_size)
  then show ?case
    by (auto simp: enqueue_nack_retransmit_def enqueue_retransmit_ok split: option.splits)
qed (simp_all add: erase_key_ok erase_file_begin_def erase_chunk_def enqueue_retransmit_ok
    mark_retransmitted_ok erase_completed_ok erase_retransmit_ok)

text \<open>C38: Whatever sequence of operations is applied to an empty send buffer, every key is stored once
  and is the key of the request stored under it, and no key is queued twice for retransmission.\<close>

theorem buffer_invariant:
  assumes "buffer_step\<^sup>*\<^sup>* empty_send_buffer buf"
  shows "buffer_ok buf"
  using assms
proof (induction rule: rtranclp_induct)
  case base
  show ?case by (simp add: empty_send_buffer_def buffer_ok_def)
next
  case (step buf buf')
  then show ?case by (rule_tac buffer_step_ok)
qed

definition sample_request :: T_SendRequest where
  "sample_request = \<lparr>rq_stream_id = 1, rq_file_id = 5, rq_seq = 2, rq_offset = 0, rq_end_offset = 10,
     rq_bytes = 10, rq_split_allowed = False, rq_kind = SEND_DATA, rq_chunk_index = 0\<rparr>"

definition sample_message :: T_Message where
  "sample_message = Msg_FileCommit \<lparr>fc_stream_id = 1, fc_seq = 2, fc_file_id = 5\<rparr>"

definition sample_buffer :: T_SenderSendBuffer where
  "sample_buffer = remember empty_send_buffer sample_message sample_request 7"

theorem buffer_invariant_witness: "buffer_ok sample_buffer"
proof (rule buffer_invariant)
  show "buffer_step\<^sup>*\<^sup>* empty_send_buffer sample_buffer"
    unfolding sample_buffer_def by (rule r_into_rtranclp) (rule buffer_step.remember)
qed

section \<open>Acknowledgement\<close>

lemma map_of_filter_keyed:
  assumes "distinct (map fst xs)"
  shows "map_of (filter (\<lambda>(k, v). P k v) xs) key =
    (case map_of xs key of Some v \<Rightarrow> if P key v then Some v else None | None \<Rightarrow> None)"
  using assms by (induction xs) (auto split: option.splits simp: map_of_eq_None_iff image_iff)

text \<open>A heartbeat removes exactly the sends it acknowledges. After \<open>erase_completed\<close> a send is
  buffered under a key just if it was before and is not acknowledged; every removed send is reported
  by a sample; and nothing is acknowledged but sends of the heartbeat's stream with a smaller sequence
  number and DATA of the heartbeat's file that ends at or below a reported offset.\<close>

theorem erase_completed_exact:
  assumes "buffer_ok buf" and "hb_next_seq heartbeat \<noteq> 0"
    and "erase_completed buf heartbeat tick = (samples, buf')"
  shows "buffer_find buf' key =
      (case buffer_find buf key of
         Some send \<Rightarrow> if heartbeat_acks heartbeat key send then None else Some send
       | None \<Rightarrow> None) \<and>
    (key \<in> as_key ` set samples \<longleftrightarrow>
      (\<exists>send. buffer_find buf key = Some send \<and> heartbeat_acks heartbeat key send)) \<and>
    (\<forall>send. heartbeat_acks heartbeat key send \<longrightarrow> bk_stream_id key = hb_stream_id heartbeat \<and>
       (bk_seq key < hb_next_seq heartbeat \<or>
        bk_kind key = SEND_DATA \<and> bk_file_id key = hb_file_id heartbeat \<and>
        rq_end_offset (bs_request send) \<le> max (hb_offset heartbeat) (hb_durable_offset heartbeat)))"
proof -
  have d: "distinct (map fst (sb_entries buf))" using assms(1) by (simp add: buffer_ok_def)
  have s: "samples = map (\<lambda>(k, s). sample_for k s tick)
        (filter (\<lambda>(k, s). heartbeat_acks heartbeat k s) (sb_entries buf))"
      "sb_entries buf' = filter (\<lambda>(k, s). \<not> heartbeat_acks heartbeat k s) (sb_entries buf)"
    using assms(2,3) by (auto simp: erase_completed_filter)
  have "buffer_find buf' key = (case buffer_find buf key of
      Some send \<Rightarrow> if heartbeat_acks heartbeat key send then None else Some send | None \<Rightarrow> None)"
    unfolding buffer_find_def s(2) by (simp add: map_of_filter_keyed [OF d] split: option.splits)
  moreover have "as_key ` set samples = fst ` set (filter (\<lambda>(k, s). heartbeat_acks heartbeat k s) (sb_entries buf))"
    unfolding s(1) set_map image_image by (rule image_cong) (auto simp: sample_for_def)
  then have "key \<in> as_key ` set samples \<longleftrightarrow>
      (\<exists>send. buffer_find buf key = Some send \<and> heartbeat_acks heartbeat key send)"
    unfolding buffer_find_def map_of_eq_Some_iff [OF d] by (simp add: image_iff split_beta)
  moreover have "bk_stream_id key = hb_stream_id heartbeat \<and>
       (bk_seq key < hb_next_seq heartbeat \<or>
        bk_kind key = SEND_DATA \<and> bk_file_id key = hb_file_id heartbeat \<and>
        rq_end_offset (bs_request send) \<le> max (hb_offset heartbeat) (hb_durable_offset heartbeat))"
    if "heartbeat_acks heartbeat key send" for send
    using that unfolding heartbeat_acks_def Let_def le_max_iff_disj if_bool_eq_disj by blast
  ultimately show ?thesis by blast
qed

theorem erase_completed_exact_witness:
  "buffer_find (snd (erase_completed sample_buffer
     \<lparr>hb_stream_id = 1, hb_next_seq = 2, hb_file_id = 5, hb_offset = 10, hb_durable_offset = 0,
      hb_recv_window_bytes = 0, hb_received_chunks = [], hb_missing_ranges = []\<rparr> 9))
     (key_for_request sample_request) = None"
proof -
  let ?h = "\<lparr>hb_stream_id = 1, hb_next_seq = 2, hb_file_id = 5, hb_offset = 10, hb_durable_offset = 0,
      hb_recv_window_bytes = 0, hb_received_chunks = [], hb_missing_ranges = []\<rparr> :: T_Heartbeat"
  obtain samples buf' where e: "erase_completed sample_buffer ?h 9 = (samples, buf')" by (rule prod.exhaust)
  have ok: "buffer_ok sample_buffer" by code_simp
  have "buffer_find sample_buffer (key_for_request sample_request) =
      Some \<lparr>bs_message = sample_message, bs_request = sample_request, bs_last_sent_tick = 7, bs_nack_retries = 0\<rparr>"
    by (simp add: sample_buffer_def buffer_find_def remember_def empty_send_buffer_def)
  then show ?thesis
    using erase_completed_exact [OF ok _ e, of "key_for_request sample_request"]
    by (simp add: e heartbeat_acks_def key_for_request_def sample_request_def)
qed

text \<open>The chunks a heartbeat reports as received leave the buffer, and nothing else does: after
  \<open>erase_chunk\<close> for each of them, a lookup finds nothing under their keys and what it found before
  under every other key.\<close>

theorem received_chunks_erased:
  "buffer_find (foldl (\<lambda>buf chunk. snd (erase_chunk buf chunk stream_id tick)) buf chunks) key =
     (if bk_kind key = SEND_CHUNK \<and> bk_stream_id key = stream_id \<and> bk_offset key = 0 \<and>
         \<lparr>rc_seq = bk_seq key, rc_file_id = bk_file_id key, rc_chunk_index = bk_chunk_index key\<rparr> \<in> set chunks
      then None else buffer_find buf key)"
proof -
  let ?key = "\<lambda>chunk. \<lparr>bk_kind = SEND_CHUNK, bk_stream_id = stream_id, bk_file_id = rc_file_id chunk,
       bk_seq = rc_seq chunk, bk_offset = 0, bk_chunk_index = rc_chunk_index chunk\<rparr>"
  have "foldl (\<lambda>buf chunk. snd (erase_chunk buf chunk stream_id tick)) buf chunks =
      foldl (drop_send tick) buf (map ?key chunks)"
    by (induction chunks arbitrary: buf) (simp_all add: erase_chunk_def)
  moreover have "key \<in> ?key ` set chunks \<longleftrightarrow>
      bk_kind key = SEND_CHUNK \<and> bk_stream_id key = stream_id \<and> bk_offset key = 0 \<and>
      \<lparr>rc_seq = bk_seq key, rc_file_id = bk_file_id key, rc_chunk_index = bk_chunk_index key\<rparr> \<in> set chunks"
    (is "?l \<longleftrightarrow> ?r")
  proof
    assume ?l
    then obtain c where c: "c \<in> set chunks" "key = ?key c" by blast
    then show ?r by - (cases c, simp)
  next
    assume ?r
    moreover from this have "key = ?key \<lparr>rc_seq = bk_seq key, rc_file_id = bk_file_id key, rc_chunk_index = bk_chunk_index key\<rparr>"
      by simp
    ultimately show ?l by blast
  qed
  ultimately show ?thesis by (simp add: buf.erase_all)
qed

section \<open>Retransmission after a NACK\<close>

lemma first_buffered_Some:
  "first_buffered buf keys = Some key \<Longrightarrow> key \<in> set keys \<and> buffer_find buf key \<noteq> None"
  by (induction keys) (auto split: if_splits)

lemma first_some_Some: "first_some xs = Some y \<Longrightarrow> Some y \<in> set xs"
  by (induction xs) (auto split: option.splits)

lemmas nack_finders = find_ordered_def find_file_begin_def find_file_commit_def find_chunk_def
  nack_fallback_def Let_def nack_key_def

text \<open>A NACK selects a buffered send of its own stream and file with the sequence number the
  receiver got or, for a wrong sequence number, the one it expects; that send is then queued for
  retransmission exactly once, the rest of the queue keeps its order and no entry is lost. A NACK
  without a file selects nothing.\<close>

theorem nack_retransmit:
  assumes "buffer_ok buf"
  shows "enqueue_nack_retransmit buf nack chunk_size =
      (case key_for_nack buf nack chunk_size of
         None \<Rightarrow> (False, buf)
       | Some key \<Rightarrow> (True, buf\<lparr>sb_retransmit_queue :=
           sb_retransmit_queue buf @ (if key \<in> set (sb_retransmit_queue buf) then [] else [key])\<rparr>)) \<and>
    (nk_file_id nack = 0 \<longrightarrow> key_for_nack buf nack chunk_size = None) \<and>
    (\<forall>key. key_for_nack buf nack chunk_size = Some key \<longrightarrow>
       buffer_find buf key \<noteq> None \<and> bk_stream_id key = nk_stream_id nack \<and> bk_file_id key = nk_file_id nack \<and>
       (bk_seq key = nk_got_seq nack \<or> nk_reason nack = BAD_SEQ \<and> bk_seq key = nk_expected_seq nack))"
proof -
  have key: "buffer_find buf key \<noteq> None \<and> bk_stream_id key = nk_stream_id nack \<and> bk_file_id key = nk_file_id nack \<and>
       (bk_seq key = nk_got_seq nack \<or> nk_reason nack = BAD_SEQ \<and> bk_seq key = nk_expected_seq nack)"
    if "key_for_nack buf nack chunk_size = Some key" for key
  proof -
    from that have some: "nk_reason nack = BAD_SEQ \<and>
          Some key \<in> {find_ordered buf nack (nk_expected_seq nack), find_file_begin buf nack (nk_expected_seq nack),
            find_file_commit buf nack (nk_expected_seq nack), find_chunk buf nack chunk_size (nk_expected_seq nack)} \<or>
        Some key \<in> {find_ordered buf nack (nk_got_seq nack), find_file_begin buf nack (nk_got_seq nack),
          find_file_commit buf nack (nk_got_seq nack), find_chunk buf nack chunk_size (nk_got_seq nack)} \<or>
        Some key = nack_fallback buf nack chunk_size"
      by (auto simp: key_for_nack_def simp del: first_some.simps dest!: first_some_Some split: if_splits)
    have find: "buffer_find buf key \<noteq> None \<and> bk_stream_id key = nk_stream_id nack \<and>
        bk_file_id key = nk_file_id nack \<and> bk_seq key = seq"
      if "Some key \<in> {find_ordered buf nack seq, find_file_begin buf nack seq, find_file_commit buf nack seq,
        find_chunk buf nack chunk_size seq}" for seq
      using that by (auto simp: nack_finders dest!: sym [of "Some key"] first_buffered_Some split: if_splits)
    have "buffer_find buf key \<noteq> None \<and> bk_stream_id key = nk_stream_id nack \<and>
        bk_file_id key = nk_file_id nack \<and> bk_seq key = nk_got_seq nack"
      if "Some key = nack_fallback buf nack chunk_size"
      using that by (auto simp: nack_finders dest!: sym [of "Some key"] first_buffered_Some split: if_splits)
    with some find show ?thesis by blast
  qed
  moreover have "enqueue_retransmit buf key = (True, buf\<lparr>sb_retransmit_queue :=
      sb_retransmit_queue buf @ (if key \<in> set (sb_retransmit_queue buf) then [] else [key])\<rparr>)"
    if "key_for_nack buf nack chunk_size = Some key" for key
    using key [OF that] by (simp add: enqueue_retransmit_def)
  moreover have "nk_file_id nack = 0 \<longrightarrow> key_for_nack buf nack chunk_size = None"
    by (simp add: key_for_nack_def)
  ultimately show ?thesis by (simp add: enqueue_nack_retransmit_def split: option.splits)
qed

theorem nack_retransmit_witness:
  "fst (enqueue_nack_retransmit sample_buffer
     \<lparr>nk_stream_id = 1, nk_got_seq = 2, nk_expected_seq = 2, nk_file_id = 5, nk_offset = 0,
      nk_expected_file_id = 5, nk_expected_offset = 0, nk_reason = BAD_CHECKSUM, nk_detail = []\<rparr> 0) = True"
proof -
  let ?n = "\<lparr>nk_stream_id = 1, nk_got_seq = 2, nk_expected_seq = 2, nk_file_id = 5, nk_offset = 0,
      nk_expected_file_id = 5, nk_expected_offset = 0, nk_reason = BAD_CHECKSUM, nk_detail = []\<rparr>"
  have "buffer_ok sample_buffer" by code_simp
  moreover have "key_for_nack sample_buffer ?n 0 = Some (key_for_request sample_request)" by code_simp
  ultimately show ?thesis using nack_retransmit [of sample_buffer ?n 0] by simp
qed

section \<open>Timeouts\<close>

lemma collect_expired_spec:
  "0 < budget \<Longrightarrow>
     collect_expired tick rto budget es = take budget (map fst (filter (\<lambda>(k, s). send_expired tick rto s) es))"
  by (induction tick rto budget es rule: collect_expired.induct)
     (auto simp: take_Cons' not_le)

text \<open>\<open>expired_keys\<close> returns at most \<open>max_keys\<close> different buffered sends, all of them last sent at
  least the timeout ago, and it returns all such sends when there are fewer than \<open>max_keys\<close>.\<close>

theorem expired_keys_exact:
  assumes "buffer_ok buf" and "rto_ticks \<noteq> 0"
  shows "distinct (expired_keys buf tick rto_ticks max_keys) \<and>
    length (expired_keys buf tick rto_ticks max_keys) \<le> max_keys \<and>
    set (expired_keys buf tick rto_ticks max_keys) \<subseteq>
      {key. \<exists>send. buffer_find buf key = Some send \<and> unat (bs_last_sent_tick send) + unat rto_ticks \<le> unat tick} \<and>
    (length (expired_keys buf tick rto_ticks max_keys) < max_keys \<longrightarrow>
      set (expired_keys buf tick rto_ticks max_keys) =
        {key. \<exists>send. buffer_find buf key = Some send \<and> unat (bs_last_sent_tick send) + unat rto_ticks \<le> unat tick})"
proof (cases "max_keys = 0")
  case False
  let ?es = "filter (\<lambda>(k, s). send_expired tick rto_ticks s) (sb_entries buf)"
  have d: "distinct (map fst (sb_entries buf))" using assms(1) by (simp add: buffer_ok_def)
  have e: "expired_keys buf tick rto_ticks max_keys = take max_keys (map fst ?es)"
    using False assms(2) by (simp add: expired_keys_def collect_expired_spec)
  have "send_expired tick rto_ticks send \<longleftrightarrow> unat (bs_last_sent_tick send) + unat rto_ticks \<le> unat tick" for send
    by (auto simp: send_expired_def word_le_unat unat_sub)
  then have all: "set (map fst ?es) =
      {key. \<exists>send. buffer_find buf key = Some send \<and> unat (bs_last_sent_tick send) + unat rto_ticks \<le> unat tick}"
    unfolding buffer_find_def map_of_eq_Some_iff [OF d] by (auto simp: image_iff split_beta)
  have "distinct (map fst ?es)" using d by (rule distinct_map_filter)
  then show ?thesis
    using all set_take_subset [of max_keys "map fst ?es"] unfolding e by (auto simp del: set_map set_filter)
qed (simp add: expired_keys_def)

theorem expired_keys_exact_witness:
  "expired_keys sample_buffer 12 5 3 = [key_for_request sample_request]"
proof -
  have ok: "buffer_ok sample_buffer" by code_simp
  have len: "length (expired_keys sample_buffer 12 5 3) = 1" by code_simp
  then obtain k where k: "expired_keys sample_buffer 12 5 3 = [k]" by (auto simp: length_Suc_conv)
  have "k \<in> {key. \<exists>send. buffer_find sample_buffer key = Some send \<and> unat (bs_last_sent_tick send) + unat (5 :: u64) \<le> unat (12 :: u64)}"
    using expired_keys_exact [OF ok, of 5 12 3] k by simp
  then have "buffer_find sample_buffer k \<noteq> None" by auto
  then have "k = key_for_request sample_request"
    by (simp add: buffer_find_def sample_buffer_def remember_def empty_send_buffer_def split: if_splits)
  with k show ?thesis by simp
qed

end
