(* ===== verification/Source.thy ===== *)
theory Source
  imports Sync
begin

text \<open>
  The sender's view of its files, src/src/sender/yisync_source.cpp and
  src/include/sender/yisync_source.hpp: the directory a stream is read from, the reader of simulated
  data, and the watchers that report changes. Reads of an opened regular file succeed up to its end;
  modification times and the watch descriptors of the kernel are parameters. The FSEvents watcher of
  macOS is not modelled.
\<close>

section \<open>Files of a stream\<close>

record T_SourceFile =
  sf_file_id :: u64
  sf_path :: path
  sf_manifest :: T_ManifestEntry

record T_SourceDirectory =
  sd_stream_id :: u64
  sd_root :: path
  sd_checksum_range_len :: u64
  sd_entry_name_regex :: string

datatype T_ISourceReader = SourceDirectory T_SourceDirectory | SimulatedSourceReader Bytes

definition scan_manifest :: "system \<Rightarrow> filesystem \<Rightarrow> T_SourceDirectory \<Rightarrow> T_Manifest1Stream result" where
  "scan_manifest sys fs d =
     scan_manifest_stream sys fs (sd_stream_id d) (sd_root d) (sd_checksum_range_len d) [] (sd_entry_name_regex d)"

definition source_files :: "system \<Rightarrow> filesystem \<Rightarrow> T_SourceDirectory \<Rightarrow> T_SourceFile list result" where
  "source_files sys fs d =
     (case scan_manifest sys fs d of
        Inl e \<Rightarrow> Inl e
      | Inr manifest \<Rightarrow>
          Inr (map (\<lambda>entry. \<lparr>sf_file_id = me_file_id entry, sf_path = sd_root d @ path_parts (me_name entry),
                 sf_manifest = entry\<rparr>) (ms_entries manifest)))"

definition source_file :: "system \<Rightarrow> filesystem \<Rightarrow> T_SourceDirectory \<Rightarrow> u64 \<Rightarrow> T_SourceFile result" where
  "source_file sys fs d file_id =
     (case scan_manifest sys fs d of
        Inl e \<Rightarrow> Inl e
      | Inr manifest \<Rightarrow>
          (case find (\<lambda>entry. me_file_id entry = file_id) (ms_entries manifest) of
             None \<Rightarrow>
               Inl (runtime_error (''source manifest entry does not exist for file_id: '' @ to_string (unat file_id)))
           | Some entry \<Rightarrow>
               if me_kind entry \<noteq> REGULAR_FILE
               then Inl (runtime_error (''source manifest entry is not a regular file: '' @ me_name entry))
               else
                 let p = sd_root d @ path_parts (me_name entry)
                 in if file_at fs p = None
                    then Inl (runtime_error (''source file does not exist: '' @ path_string p))
                    else Inr \<lparr>sf_file_id = file_id, sf_path = p, sf_manifest = entry\<rparr>))"

definition directory_read_range ::
  "system \<Rightarrow> filesystem \<Rightarrow> T_SourceDirectory \<Rightarrow> u64 \<Rightarrow> u64 \<Rightarrow> u64 \<Rightarrow> Bytes result" where
  "directory_read_range sys fs d file_id offset len =
     (case source_file sys fs d file_id of
        Inl e \<Rightarrow> Inl e
      | Inr file \<Rightarrow>
          let size = me_size (sf_manifest file)
          in if offset > size \<or> len > size \<or> offset + len > size
             then Inl (runtime_error ''source read range is outside file'')
             else if sy_fails sys IO_open_read (sf_path file)
             then Inl (runtime_error (''failed to open source file: '' @ path_string (sf_path file)))
             else
               let bytes = (case file_at fs (sf_path file) of Some b \<Rightarrow> b | None \<Rightarrow> []);
                   got = (if offset \<ge> 2 ^ 63 then [] else take (unat len) (drop (unat offset) bytes))
               in if len > 0 \<and> length got \<noteq> unat len
                  then Inl (runtime_error (''failed to read source file range: '' @ path_string (sf_path file)))
                  else Inr got)"

definition simulated_read_range :: "Bytes \<Rightarrow> u64 \<Rightarrow> u64 \<Rightarrow> u64 \<Rightarrow> Bytes result" where
  "simulated_read_range data file_id offset len =
     (let size = word_of_nat (length data)
      in if offset > size \<or> len > size \<or> offset + len > size
         then Inl (runtime_error ''simulated source read range is outside data'')
         else Inr (take (unat (offset + len) - unat offset) (drop (unat offset) data)))"

text \<open>The virtual call.\<close>

definition read_range :: "system \<Rightarrow> filesystem \<Rightarrow> T_ISourceReader \<Rightarrow> u64 \<Rightarrow> u64 \<Rightarrow> u64 \<Rightarrow> Bytes result" where
  "read_range sys fs reader file_id offset len =
     (case reader of
        SourceDirectory d \<Rightarrow> directory_read_range sys fs d file_id offset len
      | SimulatedSourceReader data \<Rightarrow> simulated_read_range data file_id offset len)"

section \<open>Checksum of a whole file\<close>

text \<open>The loop reads until the end of the file, a buffer at a time.\<close>

function full_crc_loop :: "system \<Rightarrow> u32 \<Rightarrow> Bytes \<Rightarrow> u32" where
  "full_crc_loop sys crc data =
     (let block = take kChecksumBufferBytes data;
          crc' = (if block \<noteq> [] then sy_extend sys crc block else crc)
      in if length block < kChecksumBufferBytes then crc'
         else full_crc_loop sys crc' (drop kChecksumBufferBytes data))"
  by pat_completeness auto

termination
  by (relation "measure (\<lambda>(sys, crc, data). length data)") (auto simp: kChecksumBufferBytes_def)

declare full_crc_loop.simps [simp del]

definition full_checksum :: "system \<Rightarrow> filesystem \<Rightarrow> T_SourceFile \<Rightarrow> T_FileChecksum result" where
  "full_checksum sys fs file =
     (let size = me_size (sf_manifest file);
          checksum = \<lparr>ck_algo = (if size = 0 then Checksum_NONE else CRC32C), ck_offset = 0, ck_len = size, ck_value = []\<rparr>
      in if size > 0
         then if sy_fails sys IO_open_read (sf_path file) \<or> node_at fs (sf_path file) = None
              then Inl (runtime_error (''failed to open source file for full checksum: '' @ path_string (sf_path file)))
              else Inr (checksum\<lparr>ck_value := crc32c_value_bytes (full_crc_loop sys 0
                     (case file_at fs (sf_path file) of Some b \<Rightarrow> b | None \<Rightarrow> []))\<rparr>)
         else Inr checksum)"

definition full_checksum_of_id :: "system \<Rightarrow> filesystem \<Rightarrow> T_SourceDirectory \<Rightarrow> u64 \<Rightarrow> T_FileChecksum result" where
  "full_checksum_of_id sys fs d file_id =
     (case source_file sys fs d file_id of Inl e \<Rightarrow> Inl e | Inr file \<Rightarrow> full_checksum sys fs file)"

text \<open>Reading a file in buffers gives its one-shot checksum: the loop over blocks equals a single
  \<open>crc32c::Extend\<close> of the whole content, for every content (a multiple of the buffer size included).\<close>

theorem full_crc_one_shot:
  assumes "extend_laws sys"
  shows "full_crc_loop sys crc data = sy_extend sys crc data"
proof (induction data arbitrary: crc rule: length_induct)
  case (1 data)
  let ?b = "take kChecksumBufferBytes data" and ?rest = "drop kChecksumBufferBytes data"
  have nil: "sy_extend sys c [] = c" for c using assms by (simp add: extend_laws_def)
  have app: "sy_extend sys (sy_extend sys c a) b = sy_extend sys c (a @ b)" for c a b
    using assms by (simp add: extend_laws_def)
  show ?case
  proof (cases "length ?b < kChecksumBufferBytes")
    case True
    then have "?b = data" by simp
    with True show ?thesis by (subst full_crc_loop.simps) (simp add: Let_def nil)
  next
    case False
    have pos: "0 < kChecksumBufferBytes" by (simp add: kChecksumBufferBytes_def)
    with False have "length ?rest < length data" by simp
    then have "full_crc_loop sys (sy_extend sys crc ?b) ?rest = sy_extend sys (sy_extend sys crc ?b) ?rest"
      using 1 by blast
    moreover have "?b \<noteq> []" using False pos by auto
    ultimately have "full_crc_loop sys crc data = sy_extend sys (sy_extend sys crc ?b) ?rest"
      using False by (subst full_crc_loop.simps) (simp add: Let_def)
    then show ?thesis by (simp add: app)
  qed
qed

theorem full_crc_one_shot_witness: "full_crc_loop plain_system 5 [1, 2, 3] = 11"
  by (subst full_crc_one_shot [OF extend_laws_plain]) (simp add: plain_system_def)

section \<open>Readers\<close>

text \<open>
  The contract of a reader: \<open>serves r content\<close> says that \<open>r\<close> reads a file with this content; then a
  range inside the content is returned and any other range is refused.
\<close>

locale source_reader =
  fixes serves :: "'r \<Rightarrow> Bytes \<Rightarrow> bool" and read :: "'r \<Rightarrow> u64 \<Rightarrow> u64 \<Rightarrow> Bytes result"
  assumes read_inside: "serves r content \<Longrightarrow> unat offset + unat len \<le> length content \<Longrightarrow>
        read r offset len = Inr (take (unat len) (drop (unat offset) content))"
    and read_outside: "serves r content \<Longrightarrow> length content < unat offset + unat len \<Longrightarrow>
        \<exists>e. read r offset len = Inl e"
begin

text \<open>Whatever is returned is the slice of the content at the requested place.\<close>

lemma read_slice:
  assumes "serves r content" and "read r offset len = Inr bytes"
  shows "unat offset + unat len \<le> length content" and "bytes = take (unat len) (drop (unat offset) content)"
proof -
  show le: "unat offset + unat len \<le> length content"
    using read_outside [OF assms(1), of offset len] assms(2) by (cases "length content < unat offset + unat len") auto
  show "bytes = take (unat len) (drop (unat offset) content)" using read_inside [OF assms(1) le] assms(2) by simp
qed

text \<open>Two reads in a row are one read of the joined range.\<close>

lemma read_append:
  assumes "serves r content" and "read r offset len = Inr a" and "read r (offset + len) len' = Inr b"
    and "unat offset + unat len + unat len' < 2 ^ 64"
  shows "read r offset (len + len') = Inr (a @ b)"
proof -
  have s: "unat (offset + len) = unat offset + unat len" "unat (len + len') = unat len + unat len'"
    using assms(4) by (simp_all add: unat_plus_no_wrap)
  note a = read_slice [OF assms(1,2)] and b = read_slice [OF assms(1,3)]
  have "unat offset + unat (len + len') \<le> length content" using b(1) s by simp
  from read_inside [OF assms(1) this] show ?thesis unfolding s a(2) b(2)
    by (simp add: take_add add.commute)
qed

end

lemma range_check:
  fixes offset len size :: u64
  assumes "unat size < 2 ^ 63"
  shows "(offset > size \<or> len > size \<or> offset + len > size) \<longleftrightarrow> unat size < unat offset + unat len"
proof (cases "offset \<le> size \<and> len \<le> size")
  case True
  then have "unat offset + unat len < 2 ^ LENGTH(64)" using assms by (simp add: word_le_unat)
  then have "unat (offset + len) = unat offset + unat len" by (rule unat_plus_no_wrap)
  then show ?thesis using True by (auto simp: word_lt_unat word_le_unat)
qed (auto simp: word_lt_unat word_le_unat)

definition simulated_serves :: "Bytes \<Rightarrow> Bytes \<Rightarrow> bool" where
  "simulated_serves data content \<longleftrightarrow> content = data \<and> length data < 2 ^ 63"

text \<open>A directory serves a file that its scan found and that still has the size the scan saw.\<close>

definition directory_serves ::
  "system \<Rightarrow> filesystem \<Rightarrow> u64 \<Rightarrow> T_SourceDirectory \<Rightarrow> Bytes \<Rightarrow> bool" where
  "directory_serves sys fs file_id d content \<longleftrightarrow> length content < 2 ^ 63 \<and>
     (case source_file sys fs d file_id of
        Inl _ \<Rightarrow> False
      | Inr file \<Rightarrow> file_at fs (sf_path file) = Some content \<and> \<not> sy_fails sys IO_open_read (sf_path file) \<and>
          me_size (sf_manifest file) = word_of_nat (length content))"

definition reader_serves :: "system \<Rightarrow> filesystem \<Rightarrow> u64 \<Rightarrow> T_ISourceReader \<Rightarrow> Bytes \<Rightarrow> bool" where
  "reader_serves sys fs file_id reader content =
     (case reader of
        SourceDirectory d \<Rightarrow> directory_serves sys fs file_id d content
      | SimulatedSourceReader data \<Rightarrow> simulated_serves data content)"

interpretation sim: source_reader simulated_serves "\<lambda>data. simulated_read_range data file_id" for file_id
proof
  fix data content :: Bytes and offset len :: u64
  let ?size = "word_of_nat (length data) :: u64"
  assume s: "simulated_serves data content"
  then have size: "unat ?size = length data" by (simp add: simulated_serves_def unat_of_nat)
  then have check: "(offset > ?size \<or> len > ?size \<or> offset + len > ?size) \<longleftrightarrow> length data < unat offset + unat len"
    using range_check [of ?size offset len] s by (simp add: simulated_serves_def)
  show "\<exists>e. simulated_read_range data file_id offset len = Inl e" if "length content < unat offset + unat len"
    using that check s by (simp add: simulated_read_range_def simulated_serves_def)
  assume le: "unat offset + unat len \<le> length content"
  then have "unat (offset + len) = unat offset + unat len"
    using s by (intro unat_plus_no_wrap) (simp add: simulated_serves_def)
  then show "simulated_read_range data file_id offset len = Inr (take (unat len) (drop (unat offset) content))"
    using check le s by (simp add: simulated_read_range_def simulated_serves_def)
qed

interpretation dir: source_reader "directory_serves sys fs file_id" "\<lambda>d. directory_read_range sys fs d file_id"
  for sys fs file_id
proof
  fix d content and offset len :: u64
  assume "directory_serves sys fs file_id d content"
  then obtain f where f: "source_file sys fs d file_id = Inr f" "file_at fs (sf_path f) = Some content"
      "\<not> sy_fails sys IO_open_read (sf_path f)" "me_size (sf_manifest f) = word_of_nat (length content)"
      and small: "length content < 2 ^ 63"
    by (auto simp: directory_serves_def split: sum.splits)
  have size: "unat (me_size (sf_manifest f)) = length content" using f(4) small by (simp add: unat_of_nat)
  have check: "(offset > me_size (sf_manifest f) \<or> len > me_size (sf_manifest f) \<or>
      offset + len > me_size (sf_manifest f)) \<longleftrightarrow> length content < unat offset + unat len"
    using range_check [of "me_size (sf_manifest f)" offset len] small by (simp add: size)
  show "\<exists>e. directory_read_range sys fs d file_id offset len = Inl e" if "length content < unat offset + unat len"
    using that check f(1) by (simp add: directory_read_range_def Let_def)
  assume le: "unat offset + unat len \<le> length content"
  then have "\<not> offset \<ge> 2 ^ 63" using small by (simp add: word_le_unat)
  then show "directory_read_range sys fs d file_id offset len = Inr (take (unat len) (drop (unat offset) content))"
    using check le f by (simp add: directory_read_range_def Let_def)
qed

interpretation rd: source_reader "reader_serves sys fs file_id" "\<lambda>reader. read_range sys fs reader file_id"
  for sys fs file_id
proof
  fix reader content and offset len :: u64
  assume s: "reader_serves sys fs file_id reader content"
  show "\<exists>e. read_range sys fs reader file_id offset len = Inl e" if "length content < unat offset + unat len"
    using s that by (cases reader) (auto simp: reader_serves_def read_range_def
        intro: sim.read_outside dir.read_outside)
  show "read_range sys fs reader file_id offset len = Inr (take (unat len) (drop (unat offset) content))"
    if "unat offset + unat len \<le> length content"
    using s that by (cases reader) (auto simp: reader_serves_def read_range_def
        intro: sim.read_inside dir.read_inside)
qed

section \<open>Watching by polling\<close>

datatype EM_WatchEventKind = CREATED | APPENDED | MODIFIED | REMOVED | WATCH_OVERFLOW

record T_WatchEvent =
  we_kind :: EM_WatchEventKind
  we_path :: path

record T_WatchSnapshot =
  wn_size :: u64
  wn_mtime :: int

type_synonym snapshot = "(path \<times> T_WatchSnapshot) list"

datatype EM_WatchBackend = Backend_AUTO | Backend_POLLING | Backend_INOTIFY | Backend_FSEVENTS

definition watch_backend_name :: "EM_WatchBackend \<Rightarrow> string" where
  "watch_backend_name backend = (case backend of Backend_AUTO \<Rightarrow> ''auto'' | Backend_POLLING \<Rightarrow> ''polling''
     | Backend_INOTIFY \<Rightarrow> ''inotify'' | Backend_FSEVENTS \<Rightarrow> ''fsevents'')"

text \<open>\<open>mtime\<close> gives the modification time of a file. The iterator does not follow symbolic links.\<close>

definition watch_scan :: "(path \<Rightarrow> int) \<Rightarrow> filesystem \<Rightarrow> path \<Rightarrow> snapshot" where
  "watch_scan mtime fs root =
     (if \<not> fs_exists_ec fs root then []
      else case resolve fs root of
        Found dir \<Rightarrow>
          if node_at fs root \<noteq> Some Dir then []
          else concat (map (\<lambda>(p, n).
            let rel = drop (length dir) p
            in case n of
                 File bytes \<Rightarrow>
                   if is_prefix dir p \<and> rel \<noteq> []
                   then [(root @ rel, \<lparr>wn_size = word_of_nat (length bytes), wn_mtime = mtime (root @ rel)\<rparr>)]
                   else []
               | _ \<Rightarrow> []) fs)
      | _ \<Rightarrow> [])"

definition changed_event :: "snapshot \<Rightarrow> path \<Rightarrow> T_WatchSnapshot \<Rightarrow> T_WatchEvent list" where
  "changed_event previous p current =
     (case map_of previous p of
        None \<Rightarrow> [\<lparr>we_kind = CREATED, we_path = p\<rparr>]
      | Some old \<Rightarrow>
          if wn_size current > wn_size old then [\<lparr>we_kind = APPENDED, we_path = p\<rparr>]
          else if wn_size current \<noteq> wn_size old \<or> wn_mtime current \<noteq> wn_mtime old
          then [\<lparr>we_kind = MODIFIED, we_path = p\<rparr>]
          else [])"

definition poll_events :: "snapshot \<Rightarrow> snapshot \<Rightarrow> T_WatchEvent list" where
  "poll_events previous next =
     concat (map (\<lambda>(p, current). changed_event previous p current) next) @
     concat (map (\<lambda>(p, _). if map_of next p = None then [\<lparr>we_kind = REMOVED, we_path = p\<rparr>] else []) previous)"

definition watcher_poll ::
  "(path \<Rightarrow> int) \<Rightarrow> filesystem \<Rightarrow> path \<Rightarrow> snapshot \<Rightarrow> T_WatchEvent list \<times> snapshot" where
  "watcher_poll mtime fs root snapshot =
     (let next = watch_scan mtime fs root in (poll_events snapshot next, next))"

lemma changed_event_set:
  "\<lparr>we_kind = k, we_path = q\<rparr> \<in> set (changed_event previous p current) \<longleftrightarrow> q = p \<and>
     (k = CREATED \<and> map_of previous p = None \<or>
      (\<exists>old. map_of previous p = Some old \<and>
        (k = APPENDED \<and> wn_size current > wn_size old \<or>
         k = MODIFIED \<and> \<not> wn_size current > wn_size old \<and> current \<noteq> old)))"
  by (cases current) (auto simp: changed_event_def split: option.splits)

text \<open>Polling reports exactly the differences between two scans. For scans that list every path
  once, an event says CREATED of a path just if only the new scan has it, REMOVED just if only the old
  one has it, APPENDED just if both have it and it grew, and MODIFIED just if both have it, it did not
  grow and its size or time differs. Nothing is reported just if the scans agree.\<close>

theorem poll_exact:
  assumes "distinct (map fst previous)" and "distinct (map fst next)"
  shows "(\<lparr>we_kind = k, we_path = p\<rparr> \<in> set (poll_events previous next) \<longleftrightarrow>
      (case (map_of previous p, map_of next p) of
         (None, None) \<Rightarrow> False
       | (None, Some _) \<Rightarrow> k = CREATED
       | (Some _, None) \<Rightarrow> k = REMOVED
       | (Some old, Some new) \<Rightarrow>
           k = APPENDED \<and> wn_size new > wn_size old \<or>
           k = MODIFIED \<and> \<not> wn_size new > wn_size old \<and> new \<noteq> old)) \<and>
    (poll_events previous next = [] \<longleftrightarrow> map_of previous = map_of next)"
proof -
  have ev: "\<lparr>we_kind = k, we_path = p\<rparr> \<in> set (poll_events previous next) \<longleftrightarrow>
      (case (map_of previous p, map_of next p) of
         (None, None) \<Rightarrow> False
       | (None, Some _) \<Rightarrow> k = CREATED
       | (Some _, None) \<Rightarrow> k = REMOVED
       | (Some old, Some new) \<Rightarrow>
           k = APPENDED \<and> wn_size new > wn_size old \<or>
           k = MODIFIED \<and> \<not> wn_size new > wn_size old \<and> new \<noteq> old)" for k p
  proof -
    have "\<lparr>we_kind = k, we_path = p\<rparr> \<in> set (poll_events previous next) \<longleftrightarrow>
        (\<exists>new. map_of next p = Some new \<and> \<lparr>we_kind = k, we_path = p\<rparr> \<in> set (changed_event previous p new)) \<or>
        (\<exists>old. map_of previous p = Some old \<and> map_of next p = None \<and> k = REMOVED)"
      unfolding map_of_eq_Some_iff [OF assms(1)] map_of_eq_Some_iff [OF assms(2)]
      by (auto simp: poll_events_def changed_event_set split: if_splits)
    then show ?thesis unfolding changed_event_set by (auto split: option.splits)
  qed
  have none: "(\<forall>k. \<not> (case (a, b) of
         (None, None) \<Rightarrow> False
       | (None, Some _) \<Rightarrow> k = CREATED
       | (Some _, None) \<Rightarrow> k = REMOVED
       | (Some old, Some new) \<Rightarrow>
           k = APPENDED \<and> wn_size new > wn_size old \<or>
           k = MODIFIED \<and> \<not> wn_size new > wn_size old \<and> new \<noteq> old)) \<longleftrightarrow> a = b" for a b :: "T_WatchSnapshot option"
    by (cases a; cases b) (simp_all, blast)
  have "poll_events previous next = [] \<longleftrightarrow> (\<forall>k p. \<lparr>we_kind = k, we_path = p\<rparr> \<notin> set (poll_events previous next))"
    by (metis T_WatchEvent.cases list.set_intros(1) list.set_cases empty_iff empty_set list.exhaust)
  also have "\<dots> \<longleftrightarrow> (\<forall>p. map_of previous p = map_of next p)"
    unfolding ev by (subst all_comm) (simp only: none)
  finally have "poll_events previous next = [] \<longleftrightarrow> map_of previous = map_of next" by (simp only: fun_eq_iff)
  with ev [of k p] show ?thesis by blast
qed

theorem poll_exact_witness:
  "\<lparr>we_kind = APPENDED, we_path = [''a'']\<rparr> \<in> set (poll_events
     [([''a''], \<lparr>wn_size = 1, wn_mtime = 0\<rparr>), ([''b''], \<lparr>wn_size = 1, wn_mtime = 0\<rparr>)]
     [([''a''], \<lparr>wn_size = 2, wn_mtime = 1\<rparr>)])"
  using poll_exact [of "[([''a''], \<lparr>wn_size = 1, wn_mtime = 0\<rparr>), ([''b''], \<lparr>wn_size = 1, wn_mtime = 0\<rparr>)]"
      "[([''a''], \<lparr>wn_size = 2, wn_mtime = 1\<rparr>)]" APPENDED "[''a'']"]
  by simp

section \<open>Watching with inotify\<close>

text \<open>The event mask is the list of its flags; \<open>add_wd\<close> is the descriptor the kernel gives for a
  watched path, if it gives one.\<close>

datatype in_flag = IN_CREATE | IN_CLOSE_WRITE | IN_MODIFY | IN_MOVED_TO | IN_MOVED_FROM | IN_DELETE
  | IN_DELETE_SELF | IN_MOVE_SELF | IN_ISDIR | IN_Q_OVERFLOW

record inotify_event =
  ie_wd :: int
  ie_mask :: "in_flag list"
  ie_name :: string

record InotifySourceWatcher =
  iw_root :: path
  iw_watches :: "(int \<times> path) list"
  iw_snapshot :: snapshot

definition has_flag :: "inotify_event \<Rightarrow> in_flag list \<Rightarrow> bool" where
  "has_flag event flags \<longleftrightarrow> list_ex (\<lambda>f. f \<in> set flags) (ie_mask event)"

definition symlink_status :: "filesystem \<Rightarrow> path \<Rightarrow> node option" where
  "symlink_status fs p = (case resolve_nofollow fs p of Found q \<Rightarrow> node_here fs q | _ \<Rightarrow> None)"

definition snapshot_for_regular_file :: "(path \<Rightarrow> int) \<Rightarrow> Bytes \<Rightarrow> path \<Rightarrow> T_WatchSnapshot" where
  "snapshot_for_regular_file mtime bytes p = \<lparr>wn_size = word_of_nat (length bytes), wn_mtime = mtime p\<rparr>"

definition add_watch :: "(path \<Rightarrow> int option) \<Rightarrow> InotifySourceWatcher \<Rightarrow> path \<Rightarrow> InotifySourceWatcher" where
  "add_watch add_wd w p =
     (case add_wd p of
        None \<Rightarrow> w
      | Some wd \<Rightarrow> if wd \<ge> 0 then w\<lparr>iw_watches := AList.update wd p (iw_watches w)\<rparr> else w)"

definition add_recursive ::
  "(path \<Rightarrow> int) \<Rightarrow> (path \<Rightarrow> int option) \<Rightarrow> filesystem \<Rightarrow> InotifySourceWatcher \<Rightarrow> path \<Rightarrow> InotifySourceWatcher" where
  "add_recursive mtime add_wd fs w p =
     (case resolve_nofollow fs p of
        Found dir \<Rightarrow>
          if node_here fs dir \<noteq> Some Dir then w
          else foldl (\<lambda>w (q, n).
            let rel = drop (length dir) q
            in if \<not> is_prefix dir q \<or> rel = [] then w
               else case n of
                 Symlink _ \<Rightarrow> w
               | Dir \<Rightarrow> add_watch add_wd w (p @ rel)
               | File bytes \<Rightarrow>
                   w\<lparr>iw_snapshot := AList.update (p @ rel)
                      (snapshot_for_regular_file mtime bytes (p @ rel)) (iw_snapshot w)\<rparr>)
            (add_watch add_wd w p) fs
      | _ \<Rightarrow> w)"

definition make_InotifySourceWatcher ::
  "(path \<Rightarrow> int) \<Rightarrow> (path \<Rightarrow> int option) \<Rightarrow> filesystem \<Rightarrow> path \<Rightarrow> InotifySourceWatcher" where
  "make_InotifySourceWatcher mtime add_wd fs root =
     add_recursive mtime add_wd fs \<lparr>iw_root = root, iw_watches = [], iw_snapshot = []\<rparr> root"

definition file_event ::
  "(path \<Rightarrow> int) \<Rightarrow> filesystem \<Rightarrow> InotifySourceWatcher \<Rightarrow> path \<Rightarrow> T_WatchEvent list \<times> InotifySourceWatcher" where
  "file_event mtime fs w p =
     (case symlink_status fs p of
        Some (Symlink _) \<Rightarrow> ([\<lparr>we_kind = MODIFIED, we_path = p\<rparr>], w)
      | Some (File bytes) \<Rightarrow>
          (let current = snapshot_for_regular_file mtime bytes p;
               kind = (case map_of (iw_snapshot w) p of
                   None \<Rightarrow> CREATED
                 | Some previous \<Rightarrow> if wn_size current > wn_size previous then APPENDED else MODIFIED)
           in ([\<lparr>we_kind = kind, we_path = p\<rparr>],
               w\<lparr>iw_snapshot := AList.update p current (iw_snapshot w)\<rparr>))
      | _ \<Rightarrow> ([], w))"

definition handle_event ::
  "(path \<Rightarrow> int) \<Rightarrow> (path \<Rightarrow> int option) \<Rightarrow> filesystem \<Rightarrow> InotifySourceWatcher \<Rightarrow> inotify_event \<Rightarrow>
     T_WatchEvent list \<times> InotifySourceWatcher" where
  "handle_event mtime add_wd fs w event =
     (if has_flag event [IN_Q_OVERFLOW]
      then ([\<lparr>we_kind = WATCH_OVERFLOW, we_path = iw_root w\<rparr>], add_recursive mtime add_wd fs w (iw_root w))
      else case map_of (iw_watches w) (ie_wd event) of
        None \<Rightarrow> ([], w)
      | Some watched \<Rightarrow>
          let p = (if ie_name event \<noteq> [] then watched @ path_parts (ie_name event) else watched)
          in if has_flag event [IN_DELETE, IN_MOVED_FROM, IN_DELETE_SELF, IN_MOVE_SELF]
             then ([\<lparr>we_kind = REMOVED, we_path = p\<rparr>], w\<lparr>iw_snapshot := AList.delete p (iw_snapshot w)\<rparr>)
             else if has_flag event [IN_ISDIR]
             then if has_flag event [IN_CREATE, IN_MOVED_TO]
                  then ([\<lparr>we_kind = CREATED, we_path = p\<rparr>], add_recursive mtime add_wd fs w p)
                  else ([], w)
             else if \<not> has_flag event [IN_CREATE, IN_MOVED_TO, IN_CLOSE_WRITE, IN_MODIFY] then ([], w)
             else file_event mtime fs w p)"

fun handle_events ::
  "(path \<Rightarrow> int) \<Rightarrow> (path \<Rightarrow> int option) \<Rightarrow> filesystem \<Rightarrow> InotifySourceWatcher \<Rightarrow> inotify_event list \<Rightarrow>
     T_WatchEvent list \<times> InotifySourceWatcher" where
  "handle_events mtime add_wd fs w [] = ([], w)"
| "handle_events mtime add_wd fs w (event # events) =
     (let (es, w1) = handle_event mtime add_wd fs w event;
          (es', w2) = handle_events mtime add_wd fs w1 events
      in (es @ es', w2))"

text \<open>The inotify watcher and the polling watcher agree on how a regular file changed. For an event
  of creation, change or closing of a watched regular file, the inotify watcher reports the kind that
  polling would report against the same snapshot, and MODIFIED where polling sees no difference; its
  snapshot then holds the current state of the file, so that polling would report nothing.\<close>

theorem inotify_agrees_with_polling:
  assumes "map_of (iw_watches w) (ie_wd event) = Some watched" and "ie_name event \<noteq> []"
    and "p = watched @ path_parts (ie_name event)" and "set (ie_mask event) \<subseteq> {IN_CREATE, IN_MOVED_TO, IN_CLOSE_WRITE, IN_MODIFY}"
    and "ie_mask event \<noteq> []" and "symlink_status fs p = Some (File bytes)"
    and "current = snapshot_for_regular_file mtime bytes p"
    and "handle_event mtime add_wd fs w event = (events, w')"
  shows "events = (if changed_event (iw_snapshot w) p current = [] then [\<lparr>we_kind = MODIFIED, we_path = p\<rparr>]
      else changed_event (iw_snapshot w) p current) \<and>
    changed_event (iw_snapshot w') p current = [] \<and>
    (\<forall>q. q \<noteq> p \<longrightarrow> map_of (iw_snapshot w') q = map_of (iw_snapshot w) q)"
proof -
  have flags: "\<not> has_flag event [IN_Q_OVERFLOW]" "\<not> has_flag event [IN_DELETE, IN_MOVED_FROM, IN_DELETE_SELF, IN_MOVE_SELF]"
      "\<not> has_flag event [IN_ISDIR]"
    using assms(4) by (auto simp: has_flag_def list_ex_iff)
  have "has_flag event [IN_CREATE, IN_MOVED_TO, IN_CLOSE_WRITE, IN_MODIFY]"
    using assms(4,5) by (cases "ie_mask event") (auto simp: has_flag_def)
  then have "handle_event mtime add_wd fs w event = file_event mtime fs w p"
    using assms(1-3) flags by (simp add: handle_event_def Let_def)
  then show ?thesis
    using assms(6-8) by (auto simp: file_event_def changed_event_def Let_def update_conv' split: option.splits)
qed

theorem inotify_agrees_with_polling_witness:
  "fst (handle_event (\<lambda>_. 0) (\<lambda>_. None) [([''r''], Dir), ([''r'', ''f''], File [1, 2])]
     \<lparr>iw_root = [''r''], iw_watches = [(3, [''r''])], iw_snapshot = [([''r'', ''f''], \<lparr>wn_size = 1, wn_mtime = 0\<rparr>)]\<rparr>
     \<lparr>ie_wd = 3, ie_mask = [IN_MODIFY], ie_name = ''f''\<rparr>) = [\<lparr>we_kind = APPENDED, we_path = [''r'', ''f'']\<rparr>]"
proof -
  let ?fs = "[([''r''], Dir), ([''r'', ''f''], File [1, 2])]"
  let ?w = "\<lparr>iw_root = [''r''], iw_watches = [(3, [''r''])],
     iw_snapshot = [([''r'', ''f''], \<lparr>wn_size = 1, wn_mtime = 0\<rparr>)]\<rparr>"
  let ?e = "\<lparr>ie_wd = 3, ie_mask = [IN_MODIFY], ie_name = ''f''\<rparr>"
  obtain events w' where run: "handle_event (\<lambda>_. 0) (\<lambda>_. None) ?fs ?w ?e = (events, w')" by (rule prod.exhaust)
  have p: "[''r'', ''f''] = [''r''] @ path_parts (ie_name ?e)" by code_simp
  have st: "symlink_status ?fs [''r'', ''f''] = Some (File [1, 2])" by code_simp
  have "events = [\<lparr>we_kind = APPENDED, we_path = [''r'', ''f'']\<rparr>]"
    using inotify_agrees_with_polling [OF _ _ p _ _ st refl run]
    by (simp add: changed_event_def snapshot_for_regular_file_def)
  with run show ?thesis by simp
qed

end
