(* ===== verification/AppendState.thy ===== *)
theory AppendState
  imports Sync Scheduler
begin

text \<open>
  The state of an append transfer at the sender, src/src/sender/yisync_append_state.cpp: whether the
  CREATE and the current DATA are on their way, and how far heartbeats have confirmed the file.
\<close>

section \<open>State and operations\<close>

record T_AppendSendState =
  ap_needs_create :: bool
  ap_data_needed :: bool
  ap_create_sent :: bool
  ap_create_ready :: bool
  ap_data_sent :: bool
  ap_create_line_id :: LineId
  ap_data_line_id :: LineId
  ap_offset :: u64
  ap_next_offset :: u64
  ap_current_data_len :: u64
  ap_seq :: u64
  ap_done_next_seq :: u64

definition default_append_state :: T_AppendSendState where
  "default_append_state =
     \<lparr>ap_needs_create = False, ap_data_needed = False, ap_create_sent = False, ap_create_ready = False,
      ap_data_sent = False, ap_create_line_id = 0, ap_data_line_id = 0, ap_offset = 0, ap_next_offset = 0,
      ap_current_data_len = 0, ap_seq = 0, ap_done_next_seq = 0\<rparr>"

definition reset_append_state :: "T_AppendSendState \<Rightarrow> T_AppendSendState" where
  "reset_append_state state = default_append_state"

definition reset_append_inflight :: "T_AppendSendState \<Rightarrow> T_AppendSendState" where
  "reset_append_inflight state =
     state\<lparr>ap_create_sent := False, ap_create_ready := False, ap_data_sent := False,
       ap_create_line_id := 0, ap_data_line_id := 0, ap_current_data_len := 0\<rparr>"

definition append_inflight :: "T_AppendSendState \<Rightarrow> bool" where
  "append_inflight state \<longleftrightarrow> ap_create_sent state \<or> ap_data_sent state"

definition start_append_plan :: "T_AppendSendState \<Rightarrow> T_SyncStart \<Rightarrow> u64 \<Rightarrow> u64 \<Rightarrow> T_AppendSendState" where
  "start_append_plan state diff task_seq src_size =
     (let needs_create = (ss_start_action diff = CREATE_MISSING)
      in state\<lparr>ap_needs_create := needs_create, ap_offset := ss_start_offset diff,
           ap_next_offset := ss_start_offset diff, ap_data_needed := ss_start_offset diff < src_size,
           ap_seq := task_seq, ap_done_next_seq := task_seq + 1, ap_create_ready := \<not> needs_create,
           ap_create_sent := False, ap_data_sent := False, ap_create_line_id := 0, ap_data_line_id := 0,
           ap_current_data_len := 0\<rparr>)"

definition mark_append_create_sent :: "T_AppendSendState \<Rightarrow> LineId \<Rightarrow> T_AppendSendState" where
  "mark_append_create_sent state line_id = state\<lparr>ap_create_sent := True, ap_create_line_id := line_id\<rparr>"

definition mark_append_data_sent :: "T_AppendSendState \<Rightarrow> LineId \<Rightarrow> u64 \<Rightarrow> T_AppendSendState" where
  "mark_append_data_sent state line_id data_len =
     state\<lparr>ap_data_sent := True, ap_data_line_id := line_id, ap_current_data_len := data_len\<rparr>"

definition mark_append_create_ready_from_heartbeat ::
  "T_AppendSendState \<Rightarrow> T_Heartbeat \<Rightarrow> bool \<times> T_AppendSendState" where
  "mark_append_create_ready_from_heartbeat state heartbeat =
     (if \<not> ap_needs_create state \<or> \<not> ap_create_sent state \<or> ap_create_ready state then (False, state)
      else if hb_next_seq heartbeat \<le> ap_seq state \<and> hb_offset heartbeat \<noteq> 0 then (False, state)
      else (True, state\<lparr>ap_create_ready := True\<rparr>))"

definition mark_append_data_ready_from_heartbeat ::
  "T_AppendSendState \<Rightarrow> T_Heartbeat \<Rightarrow> bool \<times> T_AppendSendState" where
  "mark_append_data_ready_from_heartbeat state heartbeat =
     (if \<not> ap_data_sent state then (False, state)
      else
        let target_offset = ap_next_offset state + ap_current_data_len state
        in if hb_next_seq heartbeat \<le> ap_seq state \<and> hb_offset heartbeat < target_offset \<and>
              hb_durable_offset heartbeat < target_offset
           then (False, state)
           else (True, state\<lparr>ap_next_offset := target_offset, ap_data_sent := False, ap_data_line_id := 0,
                  ap_current_data_len := 0\<rparr>))"

definition append_complete_by_heartbeat ::
  "T_AppendSendState \<Rightarrow> T_Heartbeat \<Rightarrow> EM_EntryKind \<Rightarrow> u64 \<Rightarrow> bool" where
  "append_complete_by_heartbeat state heartbeat kind src_size =
     (if ap_data_sent state \<or> ap_next_offset state < src_size \<or>
         hb_next_seq heartbeat < ap_done_next_seq state
      then False
      else kind \<noteq> REGULAR_FILE \<or> hb_durable_offset heartbeat \<ge> src_size)"

definition mark_append_create_retransmitted :: "T_AppendSendState \<Rightarrow> LineId \<Rightarrow> T_AppendSendState" where
  "mark_append_create_retransmitted state line_id =
     state\<lparr>ap_create_sent := True, ap_create_line_id := line_id\<rparr>"

definition mark_append_data_retransmitted ::
  "T_AppendSendState \<Rightarrow> LineId \<Rightarrow> u64 \<Rightarrow> u64 \<Rightarrow> T_AppendSendState" where
  "mark_append_data_retransmitted state line_id offset end_offset =
     (let state1 = state\<lparr>ap_data_sent := True, ap_data_line_id := line_id\<rparr>
      in if end_offset > offset then state1\<lparr>ap_current_data_len := end_offset - offset\<rparr> else state1)"

definition append_lost_matches :: "T_AppendSendState \<Rightarrow> T_LostSend \<Rightarrow> bool" where
  "append_lost_matches state lost =
     (let lost_create = (ls_kind lost = SEND_CREATE \<and> ap_create_sent state \<and> ls_seq lost = ap_seq state);
          lost_data = (ls_kind lost = SEND_DATA \<and> ap_data_sent state \<and> ls_seq lost = ap_seq state \<and>
            ls_offset lost = ap_next_offset state)
      in lost_create \<or> lost_data)"

section \<open>The window stays inside the file\<close>

text \<open>The transfer is a stop-and-wait protocol: \<open>next_offset\<close> is what heartbeats confirmed and
  \<open>current_data_len\<close> the length of the block on its way. A step is an event at the sender; the guards
  of the sending steps are those under which the sender calls them: a block lies in the file, a
  retransmission repeats the block on its way.\<close>

definition append_ok :: "u64 \<Rightarrow> u64 \<Rightarrow> T_AppendSendState \<Rightarrow> bool" where
  "append_ok start fsize state \<longleftrightarrow>
     start \<le> ap_next_offset state \<and>
     unat (ap_next_offset state) + unat (ap_current_data_len state) \<le> unat fsize \<and>
     (\<not> ap_data_sent state \<longrightarrow> ap_current_data_len state = 0)"

inductive append_step :: "u64 \<Rightarrow> T_AppendSendState \<Rightarrow> T_AppendSendState \<Rightarrow> bool" for fsize where
  create_sent: "append_step fsize st (mark_append_create_sent st line)"
| create_ready: "append_step fsize st (snd (mark_append_create_ready_from_heartbeat st hb))"
| data_sent: "unat (ap_next_offset st) + unat len \<le> unat fsize \<Longrightarrow> \<not> ap_data_sent st \<Longrightarrow>
    append_step fsize st (mark_append_data_sent st line len)"
| data_ready: "append_step fsize st (snd (mark_append_data_ready_from_heartbeat st hb))"
| create_again: "append_step fsize st (mark_append_create_retransmitted st line)"
| data_again: "ap_data_sent st \<Longrightarrow> offset = ap_next_offset st \<Longrightarrow>
    end_offset = offset + ap_current_data_len st \<Longrightarrow>
    append_step fsize st (mark_append_data_retransmitted st line offset end_offset)"
| lost: "append_step fsize st (reset_append_inflight st)"

lemma append_step_ok:
  assumes "append_step fsize st st'" and "append_ok start fsize st"
  shows "append_ok start fsize st' \<and> ap_next_offset st \<le> ap_next_offset st'"
  using assms
proof (induction rule: append_step.induct)
  case (data_ready st hb)
  then have le: "unat (ap_next_offset st) + unat (ap_current_data_len st) \<le> unat fsize"
    by (simp add: append_ok_def)
  then have sum: "unat (ap_next_offset st + ap_current_data_len st) =
      unat (ap_next_offset st) + unat (ap_current_data_len st)"
    using unat_u64_lt [of fsize] by (intro unat_plus_no_wrap) simp
  with le data_ready show ?case
    by (auto simp: append_ok_def mark_append_data_ready_from_heartbeat_def Let_def word_le_unat)
next
  case (data_again st offset end_offset line)
  then have le: "unat (ap_next_offset st) + unat (ap_current_data_len st) \<le> unat fsize"
    by (simp add: append_ok_def)
  then have "unat (ap_next_offset st + ap_current_data_len st) =
      unat (ap_next_offset st) + unat (ap_current_data_len st)"
    using unat_u64_lt [of fsize] by (intro unat_plus_no_wrap) simp
  with data_again show ?case
    by (auto simp: append_ok_def mark_append_data_retransmitted_def Let_def)
qed (auto simp: append_ok_def mark_append_create_sent_def mark_append_create_ready_from_heartbeat_def
    mark_append_data_sent_def mark_append_create_retransmitted_def reset_append_inflight_def)

lemma start_append_ok:
  "ss_start_offset diff \<le> fsize \<Longrightarrow> append_ok (ss_start_offset diff) fsize (start_append_plan st diff seq fsize)"
  by (simp add: append_ok_def start_append_plan_def Let_def word_le_unat)


section \<open>Progress\<close>

text \<open>One round: a block is sent and a heartbeat confirms the offset behind it.\<close>

definition append_round :: "LineId \<Rightarrow> T_Heartbeat \<Rightarrow> u64 \<Rightarrow> T_AppendSendState \<Rightarrow> T_AppendSendState" where
  "append_round line hb len st =
     snd (mark_append_data_ready_from_heartbeat (mark_append_data_sent st line len) (hb\<lparr>hb_offset := ap_next_offset st + len\<rparr>))"

lemma append_round_next:
  "ap_next_offset (append_round line hb len st) = ap_next_offset st + len"
  "\<not> ap_data_sent (append_round line hb len st)"
  "ap_done_next_seq (append_round line hb len st) = ap_done_next_seq st"
  by (simp_all add: append_round_def mark_append_data_sent_def mark_append_data_ready_from_heartbeat_def Let_def)

text \<open>C40: Confirmed blocks complete the transfer. If blocks that add up to the rest of the file are sent
  one after the other and each is confirmed by a heartbeat, the transfer is complete for a heartbeat
  that reports the next sequence number and the whole file as durable, and it is not complete for a
  regular file as long as the durable offset is smaller.\<close>

theorem append_rounds_complete:
  assumes "ss_start_offset diff + sum_list lens = fsize" and "hb_next_seq final \<ge> seq + 1"
  shows "append_complete_by_heartbeat
      (fold (append_round line hb) lens (start_append_plan st0 diff seq fsize)) final REGULAR_FILE fsize \<longleftrightarrow>
    hb_durable_offset final \<ge> fsize"
proof -
  let ?st = "start_append_plan st0 diff seq fsize"
  have run: "ap_next_offset (fold (append_round line hb) lens st) = ap_next_offset st + sum_list lens \<and>
      (\<not> ap_data_sent st \<longrightarrow> \<not> ap_data_sent (fold (append_round line hb) lens st)) \<and>
      ap_done_next_seq (fold (append_round line hb) lens st) = ap_done_next_seq st" for st
    by (induction lens arbitrary: st) (auto simp: append_round_next add.assoc)
  have "ap_next_offset ?st = ss_start_offset diff" "\<not> ap_data_sent ?st" "ap_done_next_seq ?st = seq + 1"
    by (simp_all add: start_append_plan_def Let_def)
  then show ?thesis using run [of ?st] assms by (auto simp: append_complete_by_heartbeat_def)
qed

definition sample_heartbeat :: T_Heartbeat where
  "sample_heartbeat = \<lparr>hb_stream_id = 1, hb_next_seq = 7, hb_file_id = 5, hb_offset = 2, hb_durable_offset = 9,
     hb_recv_window_bytes = 0, hb_received_chunks = [], hb_missing_ranges = []\<rparr>"

definition sample_start :: T_SyncStart where
  "sample_start = \<lparr>ss_stream_id = 1, ss_start_file_id = 5, ss_start_offset = 2, ss_start_action = RESUME_EXISTING\<rparr>"

theorem append_rounds_complete_witness:
  "append_complete_by_heartbeat
     (fold (append_round 1 sample_heartbeat) [3, 4] (start_append_plan default_append_state sample_start 6 9))
     sample_heartbeat REGULAR_FILE 9"
  using append_rounds_complete [of sample_start "[3, 4]" 9 6 sample_heartbeat 1 sample_heartbeat default_append_state]
  by (simp add: sample_start_def sample_heartbeat_def)


end
