(* ===== verification/ChunkResend.thy ===== *)
theory ChunkResend
  imports Scheduler
begin

text \<open>
  The chunk retransmission state of src/src/sender/yisync_chunk_resend.cpp: per-chunk vectors of
  acknowledgement, transmission, line, tick, attempts and priority, and the choice of the next
  chunk to send. The vectors are indexed by \<open>static_cast<std::size_t>(chunk_index)\<close>; that every
  access is in range is part of the invariant \<open>resend_ok\<close>.
\<close>

section \<open>State\<close>

record T_ChunkResendState =
  cs_chunk_count :: u64
  cs_order :: "u64 list"
  cs_acked :: "bool list"
  cs_sent :: "bool list"
  cs_line :: "LineId list"
  cs_send_tick :: "u64 list"
  cs_attempts :: "u64 list"
  cs_priority :: "bool list"

record T_ChunkSendMark =
  cm_marked :: bool
  cm_retransmit :: bool
  cm_attempt :: u64

record T_MissingHintApplied =
  mi_first_chunk_index :: u64
  mi_last_chunk_index :: u64

definition default_chunk_resend_state :: T_ChunkResendState where
  "default_chunk_resend_state =
     \<lparr>cs_chunk_count = 0, cs_order = [], cs_acked = [], cs_sent = [], cs_line = [],
      cs_send_tick = [], cs_attempts = [], cs_priority = []\<rparr>"

section \<open>Operations\<close>

definition can_send_chunk :: "T_ChunkResendState \<Rightarrow> u64 \<Rightarrow> bool \<Rightarrow> u64 \<Rightarrow> u64 \<Rightarrow> bool" where
  "can_send_chunk state chunk_index priority_only current_tick retransmit_ticks =
     (let index = unat chunk_index
      in if index \<ge> length (cs_acked state) \<or> cs_acked state ! index then False
         else if priority_only \<and> \<not> cs_priority state ! index then False
         else if \<not> cs_sent state ! index then True
         else cs_priority state ! index \<and> current_tick \<ge> cs_send_tick state ! index \<and>
           current_tick - cs_send_tick state ! index \<ge> retransmit_ticks)"

definition initialize_chunk_resend_state :: "u64 \<Rightarrow> u64 list \<Rightarrow> T_ChunkResendState" where
  "initialize_chunk_resend_state chunk_count requested_order =
     (let requested = filter (\<lambda>chunk_index. chunk_index < chunk_count) requested_order;
          order = (if length requested \<noteq> unat chunk_count
                   then if chunk_count > 0
                        then (chunk_count - 1) # map word_of_nat [0..<unat chunk_count - 1]
                        else []
                   else requested);
          n = unat chunk_count
      in \<lparr>cs_chunk_count = chunk_count, cs_order = order, cs_acked = replicate n False,
          cs_sent = replicate n False, cs_line = replicate n 0, cs_send_tick = replicate n 0,
          cs_attempts = replicate n 0, cs_priority = replicate n False\<rparr>)"

definition reset_chunk_resend_state :: "T_ChunkResendState \<Rightarrow> T_ChunkResendState" where
  "reset_chunk_resend_state state =
     state\<lparr>cs_acked := map (\<lambda>_. False) (cs_acked state),
       cs_sent := map (\<lambda>_. False) (cs_sent state),
       cs_line := map (\<lambda>_. 0) (cs_line state),
       cs_send_tick := map (\<lambda>_. 0) (cs_send_tick state),
       cs_attempts := map (\<lambda>_. 0) (cs_attempts state),
       cs_priority := map (\<lambda>_. False) (cs_priority state)\<rparr>"

definition all_chunks_acked :: "T_ChunkResendState \<Rightarrow> bool" where
  "all_chunks_acked state = list_all (\<lambda>acked. acked) (cs_acked state)"

definition chunk_index_valid :: "T_ChunkResendState \<Rightarrow> u64 \<Rightarrow> bool" where
  "chunk_index_valid state chunk_index \<longleftrightarrow>
     chunk_index < cs_chunk_count state \<and> unat chunk_index < length (cs_acked state)"

definition chunk_attempts :: "T_ChunkResendState \<Rightarrow> u64 \<Rightarrow> u64" where
  "chunk_attempts state chunk_index =
     (if \<not> chunk_index_valid state chunk_index then 0 else cs_attempts state ! unat chunk_index)"

definition next_chunk_to_send :: "T_ChunkResendState \<Rightarrow> u64 \<Rightarrow> u64 \<Rightarrow> u64 option" where
  "next_chunk_to_send state current_tick retransmit_ticks =
     (case List.find (\<lambda>index. can_send_chunk state index True current_tick retransmit_ticks)
             (map word_of_nat [0..<length (cs_priority state)]) of
        Some index \<Rightarrow> Some index
      | None \<Rightarrow>
          List.find (\<lambda>chunk_index. can_send_chunk state chunk_index False current_tick retransmit_ticks)
            (cs_order state))"

definition mark_chunk_sent ::
  "T_ChunkResendState \<Rightarrow> u64 \<Rightarrow> LineId \<Rightarrow> u64 \<Rightarrow> T_ChunkSendMark \<times> T_ChunkResendState" where
  "mark_chunk_sent state chunk_index line_id current_tick =
     (if \<not> chunk_index_valid state chunk_index
      then (\<lparr>cm_marked = False, cm_retransmit = False, cm_attempt = 0\<rparr>, state)
      else
        let index = unat chunk_index;
            attempt = cs_attempts state ! index + 1
        in (\<lparr>cm_marked = True, cm_retransmit = cs_attempts state ! index > 0, cm_attempt = attempt\<rparr>,
            state\<lparr>cs_sent := (cs_sent state)[index := True],
              cs_line := (cs_line state)[index := line_id],
              cs_send_tick := (cs_send_tick state)[index := current_tick],
              cs_attempts := (cs_attempts state)[index := attempt],
              cs_priority := (cs_priority state)[index := False]\<rparr>))"

definition acknowledge_chunk :: "T_ChunkResendState \<Rightarrow> u64 \<Rightarrow> bool \<times> T_ChunkResendState" where
  "acknowledge_chunk state chunk_index =
     (if \<not> chunk_index_valid state chunk_index then (False, state)
      else
        let index = unat chunk_index
        in (True, state\<lparr>cs_acked := (cs_acked state)[index := True],
              cs_sent := (cs_sent state)[index := True],
              cs_line := (cs_line state)[index := 0],
              cs_priority := (cs_priority state)[index := False]\<rparr>))"

definition mark_chunk_lost :: "T_ChunkResendState \<Rightarrow> u64 \<Rightarrow> bool \<times> T_ChunkResendState" where
  "mark_chunk_lost state chunk_index =
     (if \<not> chunk_index_valid state chunk_index then (False, state)
      else
        let index = unat chunk_index
        in if \<not> cs_sent state ! index \<or> cs_acked state ! index then (False, state)
           else (True, state\<lparr>cs_sent := (cs_sent state)[index := False],
                   cs_line := (cs_line state)[index := 0],
                   cs_priority := (cs_priority state)[index := True]\<rparr>))"

text \<open>The inner loop of \<open>apply_missing_hints\<close> over the indices \<open>first\<close> to \<open>last\<close>.\<close>

fun hint_indices :: "nat list \<Rightarrow> T_ChunkResendState \<Rightarrow> bool \<times> T_ChunkResendState" where
  "hint_indices [] state = (False, state)"
| "hint_indices (index # rest) state =
     (if \<not> cs_acked state ! index
      then let (_, state') = hint_indices rest (state\<lparr>cs_priority := (cs_priority state)[index := True]\<rparr>)
           in (True, state')
      else hint_indices rest state)"

fun apply_hint_ranges ::
  "u64 \<Rightarrow> u64 \<Rightarrow> T_MissingChunkRange list \<Rightarrow> T_ChunkResendState \<Rightarrow>
     T_MissingHintApplied list \<times> T_ChunkResendState" where
  "apply_hint_ranges seq file_id [] state = ([], state)"
| "apply_hint_ranges seq file_id (r # ranges) state =
     (if mr_seq r \<noteq> seq \<or> mr_file_id r \<noteq> file_id
      then apply_hint_ranges seq file_id ranges state
      else
        let first = min (mr_first_chunk_index r) (cs_chunk_count state);
            last_index = min (mr_last_chunk_index r) (cs_chunk_count state - 1)
        in if first > last_index then apply_hint_ranges seq file_id ranges state
           else
             let (changed, state1) = hint_indices [unat first..<Suc (unat last_index)] state;
                 (applied, state2) = apply_hint_ranges seq file_id ranges state1
             in (if changed
                 then \<lparr>mi_first_chunk_index = first, mi_last_chunk_index = last_index\<rparr> # applied
                 else applied, state2))"

definition apply_missing_hints ::
  "T_ChunkResendState \<Rightarrow> u64 \<Rightarrow> u64 \<Rightarrow> T_MissingChunkRange list \<Rightarrow>
     T_MissingHintApplied list \<times> T_ChunkResendState" where
  "apply_missing_hints state seq file_id ranges =
     (if cs_chunk_count state = 0 then ([], state)
      else apply_hint_ranges seq file_id ranges state)"

section \<open>Invariant\<close>

definition resend_ok :: "T_ChunkResendState \<Rightarrow> bool" where
  "resend_ok s \<longleftrightarrow>
     (let n = unat (cs_chunk_count s)
      in length (cs_acked s) = n \<and> length (cs_sent s) = n \<and> length (cs_line s) = n \<and>
         length (cs_send_tick s) = n \<and> length (cs_attempts s) = n \<and> length (cs_priority s) = n \<and>
         length (cs_order s) = n \<and> list_all (\<lambda>i. i < cs_chunk_count s) (cs_order s) \<and>
         list_all (\<lambda>i. cs_acked s ! i \<longrightarrow> cs_sent s ! i \<and> \<not> cs_priority s ! i) [0..<n])"

lemma resend_ok_lengths:
  "resend_ok s \<Longrightarrow> length (cs_acked s) = unat (cs_chunk_count s)"
  "resend_ok s \<Longrightarrow> length (cs_sent s) = unat (cs_chunk_count s)"
  "resend_ok s \<Longrightarrow> length (cs_priority s) = unat (cs_chunk_count s)"
  by (simp_all add: resend_ok_def Let_def)

lemma resend_ok_order:
  assumes "resend_ok s"
  shows "length (cs_order s) = unat (cs_chunk_count s)" and "\<forall>i \<in> set (cs_order s). i < cs_chunk_count s"
  using assms by (simp_all add: resend_ok_def Let_def list_all_iff)

lemma resend_ok_valid: "resend_ok s \<Longrightarrow> chunk_index_valid s i \<longleftrightarrow> i < cs_chunk_count s"
  by (auto simp: resend_ok_def chunk_index_valid_def word_lt_unat Let_def)

lemma initialize_ok: "resend_ok (initialize_chunk_resend_state n order)"
proof -
  have "word_of_nat i < n" if "i < unat n - 1" for i
    using that unat_u64_lt [of n] by (simp add: word_lt_unat unat_of_nat)
  moreover have "n - 1 < n" if "n > 0" using that by unat_arith
  ultimately show ?thesis
    by (auto simp: initialize_chunk_resend_state_def resend_ok_def Let_def list_all_iff word_gt_0
        unat_gt_0)
qed

lemma initialize_fields [simp]:
  "cs_chunk_count (initialize_chunk_resend_state n order) = n"
  "cs_acked (initialize_chunk_resend_state n order) = replicate (unat n) False"
  "cs_sent (initialize_chunk_resend_state n order) = replicate (unat n) False"
  "cs_priority (initialize_chunk_resend_state n order) = replicate (unat n) False"
  by (simp_all add: initialize_chunk_resend_state_def Let_def)

lemma reset_ok: "resend_ok s \<Longrightarrow> resend_ok (reset_chunk_resend_state s)"
  by (auto simp: resend_ok_def reset_chunk_resend_state_def Let_def list_all_iff)

lemma mark_chunk_sent_ok:
  "resend_ok s \<Longrightarrow> resend_ok (snd (mark_chunk_sent s i l t))"
  by (auto simp: resend_ok_def mark_chunk_sent_def Let_def list_all_iff nth_list_update chunk_index_valid_def)

lemma acknowledge_chunk_ok: "resend_ok s \<Longrightarrow> resend_ok (snd (acknowledge_chunk s i))"
  by (auto simp: resend_ok_def acknowledge_chunk_def Let_def list_all_iff nth_list_update chunk_index_valid_def)

lemma mark_chunk_lost_ok: "resend_ok s \<Longrightarrow> resend_ok (snd (mark_chunk_lost s i))"
  by (auto simp: resend_ok_def mark_chunk_lost_def Let_def list_all_iff nth_list_update chunk_index_valid_def)

lemma hint_indices_ok:
  "resend_ok s \<Longrightarrow> \<forall>i \<in> set is. i < unat (cs_chunk_count s) \<Longrightarrow> hint_indices is s = (c, s') \<Longrightarrow>
     resend_ok s' \<and> cs_chunk_count s' = cs_chunk_count s \<and> cs_acked s' = cs_acked s \<and>
     cs_sent s' = cs_sent s \<and> cs_order s' = cs_order s \<and> cs_send_tick s' = cs_send_tick s \<and>
     (\<forall>k < unat (cs_chunk_count s).
        cs_priority s' ! k \<longleftrightarrow> cs_priority s ! k \<or> (k \<in> set is \<and> \<not> cs_acked s ! k))"
proof (induction "is" arbitrary: s c)
  case Nil
  then show ?case by simp
next
  case (Cons i "is")
  show ?case
  proof (cases "cs_acked s ! i")
    case True
    with Cons.IH [OF Cons.prems(1)] Cons.prems(2,3) show ?thesis by auto
  next
    case False
    let ?s = "s\<lparr>cs_priority := (cs_priority s)[i := True]\<rparr>"
    have ok: "resend_ok ?s" using Cons.prems(1,2) False
      by (auto simp: resend_ok_def Let_def list_all_iff nth_list_update)
    obtain c' where h: "hint_indices is ?s = (c', s')"
      using Cons.prems(3) False by (auto split: prod.splits)
    have inr: "\<forall>k \<in> set is. k < unat (cs_chunk_count ?s)" using Cons.prems(2) by simp
    note IH = Cons.IH [OF ok inr h]
    have "cs_priority ?s ! k \<longleftrightarrow> cs_priority s ! k \<or> k = i" if "k < unat (cs_chunk_count s)" for k
      using that resend_ok_lengths(3) [OF Cons.prems(1)] by (cases "k = i") auto
    with IH False show ?thesis by auto
  qed
qed

lemma apply_hint_ranges_ok:
  "resend_ok s \<Longrightarrow> cs_chunk_count s \<noteq> 0 \<Longrightarrow> apply_hint_ranges q f rs s = (ap, s') \<Longrightarrow>
     resend_ok s' \<and> cs_chunk_count s' = cs_chunk_count s \<and> cs_acked s' = cs_acked s \<and>
     cs_sent s' = cs_sent s \<and> cs_order s' = cs_order s"
proof (induction rs arbitrary: s ap)
  case Nil
  then show ?case by simp
next
  case (Cons r rs)
  let ?first = "min (mr_first_chunk_index r) (cs_chunk_count s)"
  let ?last = "min (mr_last_chunk_index r) (cs_chunk_count s - 1)"
  show ?case
  proof (cases "mr_seq r \<noteq> q \<or> mr_file_id r \<noteq> f \<or> ?first > ?last")
    case True
    then have "apply_hint_ranges q f rs s = (ap, s')"
      using Cons.prems(3) by (simp add: Let_def split: if_splits)
    with Cons.IH [OF Cons.prems(1,2)] show ?thesis by simp
  next
    case False
    obtain c s1 where h: "hint_indices [unat ?first..<Suc (unat ?last)] s = (c, s1)" by fastforce
    obtain ap' where rest: "apply_hint_ranges q f rs s1 = (ap', s')"
      using Cons.prems(3) False h by (auto simp: Let_def split: prod.splits)
    have "unat ?last < unat (cs_chunk_count s)"
      using Cons.prems(2) by (simp add: word_min_unat) unat_arith
    then have inr: "\<forall>i \<in> set [unat ?first..<Suc (unat ?last)]. i < unat (cs_chunk_count s)" by auto
    note h' = hint_indices_ok [OF Cons.prems(1) inr h]
    from Cons.IH [OF _ _ rest] h' Cons.prems(2) show ?thesis by simp
  qed
qed

lemma apply_missing_hints_ok: "resend_ok s \<Longrightarrow> resend_ok (snd (apply_missing_hints s q f rs))"
  using apply_hint_ranges_ok [OF _ _ prod.collapse [symmetric]]
  by (auto simp: apply_missing_hints_def)

section \<open>Choice of the next chunk\<close>

lemma can_send_chunk_ok:
  assumes "resend_ok s"
  shows "can_send_chunk s i p now rto \<longleftrightarrow> i < cs_chunk_count s \<and> \<not> cs_acked s ! unat i \<and>
    (p \<longrightarrow> cs_priority s ! unat i) \<and>
    (cs_sent s ! unat i \<longrightarrow> cs_priority s ! unat i \<and> cs_send_tick s ! unat i \<le> now \<and>
       rto \<le> now - cs_send_tick s ! unat i)"
  using assms by (auto simp: can_send_chunk_def resend_ok_lengths word_lt_unat Let_def)

lemma next_chunk_can_send:
  assumes "next_chunk_to_send s now rto = Some i"
  shows "can_send_chunk s i False now rto"
proof -
  have "can_send_chunk s i True now rto \<or> can_send_chunk s i False now rto"
    using assms by (auto simp: next_chunk_to_send_def split: option.splits dest: find_Some_conv)
  then show ?thesis by (auto simp: can_send_chunk_def Let_def split: if_splits)
qed

lemma next_chunk_None:
  assumes "resend_ok s" and "next_chunk_to_send s now rto = None"
  shows "i \<in> set (cs_order s) \<Longrightarrow> \<not> can_send_chunk s i False now rto"
    and "i < cs_chunk_count s \<Longrightarrow> \<not> can_send_chunk s i True now rto"
proof -
  show "i \<in> set (cs_order s) \<Longrightarrow> \<not> can_send_chunk s i False now rto"
    using assms(2) by (auto simp: next_chunk_to_send_def find_None_iff split: option.splits)
  assume "i < cs_chunk_count s"
  then have "i \<in> set (map word_of_nat [0..<length (cs_priority s)])"
    using resend_ok_lengths(3) [OF assms(1)]
    by (auto simp: word_lt_unat image_iff intro!: bexI [of _ "unat i"])
  then show "\<not> can_send_chunk s i True now rto"
    using assms(2) by (auto simp: next_chunk_to_send_def find_None_iff split: option.splits)
qed

lemma find_split_Some: "P i \<Longrightarrow> \<forall>x \<in> set xs. \<not> P x \<Longrightarrow> List.find P (xs @ i # ys) = Some i"
  by (induction xs) auto

lemma set_distinct_words:
  assumes "distinct xs" and "length xs = unat n" and "\<forall>i \<in> set xs. i < (n :: u64)"
  shows "set xs = {i. i < n}"
proof -
  have "card {i. i < n} \<le> unat n"
    unfolding u64_below using card_image_le [of "{0..<unat n}" "word_of_nat :: nat \<Rightarrow> u64"] by simp
  moreover have "card (set xs) = unat n" using assms(1,2) by (simp add: distinct_card)
  ultimately show ?thesis using assms(3) by (intro card_seteq) auto
qed

lemma initialize_order:
  assumes "distinct requested"
  shows "distinct (cs_order (initialize_chunk_resend_state n requested))"
    and "set (cs_order (initialize_chunk_resend_state n requested)) = {i. i < n}"
proof -
  have "n - 1 \<notin> word_of_nat ` {0..<unat n - 1}" if "n > 0"
  proof
    assume "n - 1 \<in> word_of_nat ` {0..<unat n - 1}"
    then obtain k where k: "n - 1 = word_of_nat k" "k < unat n - 1" by auto
    have "unat (n - 1) = unat n - 1" using that by (simp add: unat_minus_one word_gt_0)
    moreover have "unat (word_of_nat k :: u64) = k"
      using k(2) by (intro unat_word_of_nat_le [of k n]) simp
    ultimately show False using k by simp
  qed
  moreover have "inj_on (word_of_nat :: nat \<Rightarrow> u64) {0..<unat n - 1}"
    by (rule inj_on_subset [OF inj_word_of_nat_u64]) (use unat_u64_le [of n] in auto)
  ultimately show d: "distinct (cs_order (initialize_chunk_resend_state n requested))"
    using assms by (auto simp: initialize_chunk_resend_state_def Let_def distinct_map)
  show "set (cs_order (initialize_chunk_resend_state n requested)) = {i. i < n}"
    using resend_ok_order [OF initialize_ok [of n requested]] by (intro set_distinct_words [OF d]) simp_all
qed

section \<open>Runs\<close>

inductive resend_reachable :: "u64 \<Rightarrow> u64 list \<Rightarrow> T_ChunkResendState \<Rightarrow> bool"
  for n :: u64 and order :: "u64 list" where
  init: "resend_reachable n order (initialize_chunk_resend_state n order)"
| sent: "resend_reachable n order s \<Longrightarrow> resend_reachable n order (snd (mark_chunk_sent s i l t))"
| acked: "resend_reachable n order s \<Longrightarrow> resend_reachable n order (snd (acknowledge_chunk s i))"
| lost: "resend_reachable n order s \<Longrightarrow> resend_reachable n order (snd (mark_chunk_lost s i))"
| hints: "resend_reachable n order s \<Longrightarrow> resend_reachable n order (snd (apply_missing_hints s q f rs))"
| reset: "resend_reachable n order s \<Longrightarrow> resend_reachable n order (reset_chunk_resend_state s)"

lemma op_keeps_order:
  assumes "resend_ok s"
  shows "cs_chunk_count (snd (mark_chunk_sent s i l t)) = cs_chunk_count s \<and>
      cs_order (snd (mark_chunk_sent s i l t)) = cs_order s"
    and "cs_chunk_count (snd (acknowledge_chunk s i)) = cs_chunk_count s \<and>
      cs_order (snd (acknowledge_chunk s i)) = cs_order s"
    and "cs_chunk_count (snd (mark_chunk_lost s i)) = cs_chunk_count s \<and>
      cs_order (snd (mark_chunk_lost s i)) = cs_order s"
    and "cs_chunk_count (snd (apply_missing_hints s q f rs)) = cs_chunk_count s \<and>
      cs_order (snd (apply_missing_hints s q f rs)) = cs_order s"
    and "cs_chunk_count (reset_chunk_resend_state s) = cs_chunk_count s \<and>
      cs_order (reset_chunk_resend_state s) = cs_order s"
  using apply_hint_ranges_ok [OF assms _ prod.collapse [symmetric], of q f rs]
  by (auto simp: mark_chunk_sent_def acknowledge_chunk_def mark_chunk_lost_def
      apply_missing_hints_def reset_chunk_resend_state_def Let_def)

lemma resend_reachable_ok:
  "resend_reachable n order s \<Longrightarrow> resend_ok s \<and> cs_chunk_count s = n \<and>
     cs_order s = cs_order (initialize_chunk_resend_state n order)"
proof (induction rule: resend_reachable.induct)
  case init
  then show ?case by (simp add: initialize_ok)
qed (simp_all add: op_keeps_order mark_chunk_sent_ok acknowledge_chunk_ok mark_chunk_lost_ok
    apply_missing_hints_ok reset_ok)

text \<open>Retransmission safety. Whatever transmissions, acknowledgements, losses, missing-chunk hints
  and resets have happened, the chunk chosen next exists, is not acknowledged, and has either not
  been sent since it was last lost or reset, or is marked missing by the receiver and its
  retransmission timeout has passed; all vector accesses are in range.\<close>

theorem next_chunk_safe:
  assumes "resend_reachable n order s" and "next_chunk_to_send s now rto = Some i"
  shows "i < n \<and> length (cs_acked s) = unat n \<and> length (cs_sent s) = unat n \<and>
    length (cs_priority s) = unat n \<and> \<not> cs_acked s ! unat i \<and>
    (\<not> cs_sent s ! unat i \<or>
       cs_priority s ! unat i \<and> unat (cs_send_tick s ! unat i) + unat rto \<le> unat now)"
proof -
  from resend_reachable_ok [OF assms(1)] have ok: "resend_ok s" and n: "cs_chunk_count s = n" by auto
  from next_chunk_can_send [OF assms(2)] show ?thesis
    unfolding can_send_chunk_ok [OF ok]
    using resend_ok_lengths [OF ok] n by (auto simp: word_le_unat unat_sub)
qed

definition sample_resend :: T_ChunkResendState where
  "sample_resend = snd (mark_chunk_sent (initialize_chunk_resend_state 3 []) 2 1 10)"

lemma sample_resend_reachable: "resend_reachable 3 [] sample_resend"
  unfolding sample_resend_def by (intro resend_reachable.intros)

theorem next_chunk_safe_witness:
  "(0 :: u64) < 3 \<and> length (cs_acked sample_resend) = unat (3 :: u64) \<and> \<not> cs_acked sample_resend ! 0"
proof -
  have "next_chunk_to_send sample_resend 11 5 = Some 0"
    by code_simp
  from next_chunk_safe [OF sample_resend_reachable this] show ?thesis by simp
qed

text \<open>No chunk is starved: as long as some chunk is neither acknowledged nor in flight, a chunk is
  offered for sending; and a chunk reported lost becomes sendable at once, before every chunk
  that is not prioritised.\<close>

theorem next_chunk_progress:
  assumes "resend_reachable n order s" and "distinct order"
    and "i < n" and "\<not> cs_acked s ! unat i" and "\<not> cs_sent s ! unat i"
  shows "next_chunk_to_send s now rto \<noteq> None"
proof
  assume none: "next_chunk_to_send s now rto = None"
  from resend_reachable_ok [OF assms(1)] have ok: "resend_ok s" and n: "cs_chunk_count s = n"
      and order: "cs_order s = cs_order (initialize_chunk_resend_state n order)" by auto
  have "i \<in> set (cs_order s)" using initialize_order(2) [OF assms(2), of n] order assms(3) by simp
  from next_chunk_None(1) [OF ok none this] show False
    using assms n by (simp add: can_send_chunk_ok [OF ok])
qed

theorem next_chunk_progress_witness:
  "next_chunk_to_send sample_resend 10 5 \<noteq> None"
  by (rule next_chunk_progress [OF sample_resend_reachable, where i = 1]) code_simp+

section \<open>A loss-free transfer\<close>

text \<open>Sending the next chunk and having it acknowledged, over and over.\<close>

fun drive :: "nat \<Rightarrow> LineId \<Rightarrow> u64 \<Rightarrow> u64 \<Rightarrow> T_ChunkResendState \<Rightarrow> u64 list \<times> T_ChunkResendState" where
  "drive 0 l now rto s = ([], s)"
| "drive (Suc k) l now rto s =
     (case next_chunk_to_send s now rto of
        None \<Rightarrow> ([], s)
      | Some i \<Rightarrow>
          let (sent, s') = drive k l now rto (snd (acknowledge_chunk (snd (mark_chunk_sent s i l now)) i))
          in (i # sent, s'))"

definition sent_prefix :: "u64 list \<Rightarrow> T_ChunkResendState \<Rightarrow> bool" where
  "sent_prefix done s \<longleftrightarrow> resend_ok s \<and> distinct (cs_order s) \<and>
     (\<forall>i < cs_chunk_count s. (cs_acked s ! unat i \<longleftrightarrow> i \<in> set done) \<and>
        (cs_sent s ! unat i \<longleftrightarrow> i \<in> set done) \<and> \<not> cs_priority s ! unat i)"

lemma next_chunk_prefix:
  assumes "sent_prefix done s" and "cs_order s = done @ i # rest"
  shows "next_chunk_to_send s now rto = Some i"
proof -
  have ok: "resend_ok s" using assms(1) by (simp add: sent_prefix_def)
  have none: "List.find (\<lambda>index. can_send_chunk s index True now rto)
      (map word_of_nat [0..<length (cs_priority s)]) = None"
    using assms(1) by (auto simp: find_None_iff can_send_chunk_ok [OF ok] sent_prefix_def)
  have "can_send_chunk s j False now rto \<longleftrightarrow> j \<notin> set done" if "j \<in> set (cs_order s)" for j
    using that assms(1) resend_ok_order(2) [OF ok]
    by (auto simp: can_send_chunk_ok [OF ok] sent_prefix_def)
  moreover have "i \<notin> set done" using assms by (simp add: sent_prefix_def)
  ultimately have "List.find (\<lambda>j. can_send_chunk s j False now rto) (done @ i # rest) = Some i"
    using assms(2) by (intro find_split_Some) auto
  then show ?thesis by (simp add: next_chunk_to_send_def none assms(2))
qed

lemma step_prefix:
  assumes "sent_prefix done s" and "i < cs_chunk_count s"
  shows "sent_prefix (done @ [i]) (snd (acknowledge_chunk (snd (mark_chunk_sent s i l t)) i))"
    (is "sent_prefix _ ?s'")
    and "cs_order (snd (acknowledge_chunk (snd (mark_chunk_sent s i l t)) i)) = cs_order s"
proof -
  have ok: "resend_ok s" using assms(1) by (simp add: sent_prefix_def)
  note ok1 = mark_chunk_sent_ok [OF ok, of i l t]
  note keeps = op_keeps_order(1) [OF ok, of i l t] op_keeps_order(2) [OF ok1, of i]
  show "cs_order ?s' = cs_order s" using keeps by simp
  have valid: "chunk_index_valid s i" using assms(2) by (simp add: resend_ok_valid [OF ok])
  have vecs: "cs_acked ?s' = (cs_acked s)[unat i := True]" "cs_sent ?s' = (cs_sent s)[unat i := True]"
      "cs_priority ?s' = (cs_priority s)[unat i := False]"
    using valid by (simp_all add: mark_chunk_sent_def acknowledge_chunk_def chunk_index_valid_def Let_def)
  have at: "((xs :: bool list)[unat i := b]) ! unat j = (if j = i then b else xs ! unat j)"
    if "length xs = unat (cs_chunk_count s)" for xs b j
    using that assms(2) by (auto simp: nth_list_update word_lt_unat word_unat_eq_iff)
  show "sent_prefix (done @ [i]) ?s'"
    using assms(1) keeps acknowledge_chunk_ok [OF ok1, of i]
    by (auto simp: sent_prefix_def vecs at resend_ok_lengths [OF ok])
qed

lemma drive_prefix:
  "sent_prefix done s \<Longrightarrow> cs_order s = done @ rest \<Longrightarrow>
     \<exists>s'. drive (length rest) l now rto s = (rest, s') \<and> sent_prefix (done @ rest) s' \<and> cs_order s' = cs_order s"
proof (induction rest arbitrary: "done" s)
  case Nil
  then show ?case by simp
next
  case (Cons i rest)
  have "i < cs_chunk_count s"
    using resend_ok_order(2) [of s] Cons.prems by (simp add: sent_prefix_def)
  note step = step_prefix [OF Cons.prems(1) this, of l now]
  obtain s' where "drive (length rest) l now rto
        (snd (acknowledge_chunk (snd (mark_chunk_sent s i l now)) i)) = (rest, s')"
      "sent_prefix ((done @ [i]) @ rest) s'" "cs_order s' = cs_order s"
    using Cons.IH [OF step(1)] step(2) Cons.prems(2) by auto
  then show ?case using next_chunk_prefix [OF Cons.prems] by simp
qed

text \<open>C35: A loss-free transfer sends every chunk exactly once, in the chosen order, and ends with all
  chunks acknowledged; the default order sends the last chunk first.\<close>

theorem transfer_complete:
  assumes "distinct order"
  shows "\<exists>sent s'. drive (unat n) l now rto (initialize_chunk_resend_state n order) = (sent, s') \<and>
    all_chunks_acked s' \<and> distinct sent \<and> set sent = {i. i < n} \<and>
    next_chunk_to_send s' now rto = None"
proof -
  let ?s = "initialize_chunk_resend_state n order"
  have "sent_prefix [] ?s"
    using initialize_ok [of n order] initialize_order(1) [OF assms]
    by (simp add: sent_prefix_def word_lt_unat)
  from drive_prefix [OF this, of "cs_order ?s" l now rto] resend_ok_order(1) [OF initialize_ok [of n order]]
  obtain s' where run: "drive (unat n) l now rto ?s = (cs_order ?s, s')"
      and s': "sent_prefix (cs_order ?s) s'" "cs_order s' = cs_order ?s" by auto
  have ok: "resend_ok s'" using s'(1) by (simp add: sent_prefix_def)
  have n: "cs_chunk_count s' = n"
    using resend_ok_order(1) [OF ok] resend_ok_order(1) [OF initialize_ok [of n order]] s'(2)
    by (simp add: word_unat_eq_iff)
  have acked: "cs_acked s' ! unat i" if "i < n" for i
    using s'(1) that initialize_order(2) [OF assms, of n] n by (simp add: sent_prefix_def)
  have "cs_acked s' ! k" if "k < unat n" for k
  proof -
    have "unat (word_of_nat k :: u64) = k" using that by (intro unat_word_of_nat_le [of k n]) simp
    with that acked [of "word_of_nat k"] show ?thesis by (simp add: word_lt_unat)
  qed
  then have all: "all_chunks_acked s'"
    by (simp add: all_chunks_acked_def list_all_length resend_ok_lengths [OF ok] n)
  have "next_chunk_to_send s' now rto = None"
  proof (cases "next_chunk_to_send s' now rto")
    case (Some i)
    from next_chunk_can_send [OF this] acked [of i] show ?thesis
      by (simp add: can_send_chunk_ok [OF ok] n)
  qed simp
  with run all initialize_order [OF assms, of n] show ?thesis by auto
qed

theorem transfer_complete_witness:
  "\<exists>sent s'. drive (unat (3 :: u64)) 1 0 5 (initialize_chunk_resend_state 3 [2, 0, 1]) = (sent, s') \<and>
    all_chunks_acked s' \<and> distinct sent \<and> set sent = {i. i < 3} \<and>
    next_chunk_to_send s' 0 5 = None"
  by (rule transfer_complete) simp

end
