(* ===== verification/SenderPlan.thy ===== *)
theory SenderPlan
  imports Source AppendState ChunkResend
begin

text \<open>
  What the sender plans to send, src/src/sender/yisync_sender_plan.cpp and
  src/include/sender/yisync_sender_plan.hpp: a task per manifest entry, the state of a stream, and the
  application of the receiver's answer \<open>T_Manifest2\<close> to it.
\<close>

section \<open>State\<close>

record T_FileSendTask =
  tk_stream_id :: u64
  tk_seq :: u64
  tk_file_id :: u64
  tk_kind :: EM_EntryKind
  tk_name :: string
  tk_link_target :: string
  tk_source_size :: u64
  tk_source_checksum :: T_FileChecksum
  tk_range_checksum :: T_FileChecksum
  tk_reader :: "T_ISourceReader option"
  tk_chunk_mode :: bool
  tk_preferred_chunk_mode :: bool
  tk_chunk_count :: u64
  tk_chunk_resend :: T_ChunkResendState
  tk_begin_sent :: bool
  tk_begin_ready :: bool
  tk_commit_sent :: bool
  tk_begin_line_id :: LineId
  tk_commit_line_id :: LineId
  tk_append :: T_AppendSendState

definition default_task :: T_FileSendTask where
  "default_task =
     \<lparr>tk_stream_id = 0, tk_seq = 0, tk_file_id = 0, tk_kind = REGULAR_FILE, tk_name = [], tk_link_target = [],
      tk_source_size = 0, tk_source_checksum = default_checksum, tk_range_checksum = default_checksum,
      tk_reader = None, tk_chunk_mode = False, tk_preferred_chunk_mode = False, tk_chunk_count = 0,
      tk_chunk_resend = default_chunk_resend_state, tk_begin_sent = False, tk_begin_ready = False,
      tk_commit_sent = False, tk_begin_line_id = 0, tk_commit_line_id = 0, tk_append = default_append_state\<rparr>"

record T_StreamSendState =
  st_stream_id :: u64
  st_root :: path
  st_entry_name_regex :: string
  st_source_directory :: "T_SourceDirectory option"
  st_source_manifest :: T_Manifest1Stream
  st_tasks :: "T_FileSendTask list"
  st_current_task :: nat
  st_manifest_applied :: bool
  st_complete :: bool
  st_has_pending_changes :: bool

record T_Manifest2ApplyResult =
  mar_in_sync :: bool
  mar_should_start_append :: bool
  mar_should_start_chunk :: bool
  mar_start :: T_SyncStart

definition default_sync_start :: T_SyncStart where
  "default_sync_start = \<lparr>ss_stream_id = 0, ss_start_file_id = 0, ss_start_offset = 0, ss_start_action = RESUME_EXISTING\<rparr>"

section \<open>Making tasks\<close>

definition full_crc32c_checksum_for_bytes :: "system \<Rightarrow> Bytes \<Rightarrow> T_FileChecksum" where
  "full_crc32c_checksum_for_bytes sys bytes =
     \<lparr>ck_algo = CRC32C, ck_offset = 0, ck_len = word_of_nat (length bytes), ck_value = crc32c_bytes sys bytes\<rparr>"

definition initialize_file_task :: "T_FileSendTask \<Rightarrow> bool \<Rightarrow> u64 \<Rightarrow> u64 list \<Rightarrow> T_FileSendTask result" where
  "initialize_file_task task chunk_mode chunk_size chunk_order =
     (case (if chunk_mode then chunk_count_for_size (tk_source_size task) chunk_size else Inr 0) of
        Inl e \<Rightarrow> Inl e
      | Inr chunk_count \<Rightarrow>
          Inr (task\<lparr>tk_chunk_mode := chunk_mode, tk_preferred_chunk_mode := chunk_mode, tk_chunk_count := chunk_count,
                 tk_chunk_resend := initialize_chunk_resend_state chunk_count chunk_order\<rparr>))"

definition make_real_file_task ::
  "system \<Rightarrow> filesystem \<Rightarrow> u64 \<Rightarrow> T_SourceFile \<Rightarrow> T_SourceDirectory \<Rightarrow> T_ISourceReader option \<Rightarrow> u64 \<Rightarrow> u64 list \<Rightarrow>
     T_FileSendTask result" where
  "make_real_file_task sys fs stream_id sfile directory reader chunk_size chunk_order =
     (let m = sf_manifest sfile;
          regular = (me_kind m = REGULAR_FILE);
          src_size = (if regular then me_size m else 0)
      in case (if regular then full_checksum sys fs sfile else Inr default_checksum) of
           Inl e \<Rightarrow> Inl e
         | Inr checksum \<Rightarrow>
             initialize_file_task
               (default_task\<lparr>tk_stream_id := stream_id, tk_seq := (if me_seq m = 0 then sf_file_id sfile else me_seq m),
                  tk_file_id := sf_file_id sfile, tk_kind := me_kind m, tk_name := me_name m,
                  tk_link_target := me_link_target m, tk_source_size := src_size,
                  tk_source_checksum := checksum, tk_range_checksum := me_checksum m, tk_reader := reader\<rparr>)
               (regular \<and> should_use_chunk_mode src_size) chunk_size chunk_order)"

definition make_simulated_file_task ::
  "system \<Rightarrow> u64 \<Rightarrow> u64 \<Rightarrow> u64 \<Rightarrow> Bytes \<Rightarrow> T_ISourceReader option \<Rightarrow> u64 \<Rightarrow> u64 list \<Rightarrow> T_FileSendTask result" where
  "make_simulated_file_task sys stream_id seq file_id data reader chunk_size chunk_order =
     (let checksum = full_crc32c_checksum_for_bytes sys data;
          src_size = word_of_nat (length data)
      in initialize_file_task
           (default_task\<lparr>tk_stream_id := stream_id, tk_seq := seq, tk_file_id := file_id, tk_kind := REGULAR_FILE,
              tk_name := file_name_for_id file_id, tk_source_size := src_size, tk_source_checksum := checksum,
              tk_range_checksum := checksum, tk_reader := reader\<rparr>)
           (should_use_chunk_mode src_size) chunk_size chunk_order)"

definition manifest1_from_streams :: "u64 \<Rightarrow> T_StreamSendState list \<Rightarrow> T_Manifest1" where
  "manifest1_from_streams manifest_id streams =
     \<lparr>m1_manifest_id = manifest_id, m1_streams = map st_source_manifest streams\<rparr>"

section \<open>Applying the receiver's manifest\<close>

definition active_task :: "T_StreamSendState \<Rightarrow> T_FileSendTask option" where
  "active_task stream =
     (if st_current_task stream \<ge> length (st_tasks stream) then None
      else Some (st_tasks stream ! st_current_task stream))"

fun find_index :: "('a \<Rightarrow> bool) \<Rightarrow> 'a list \<Rightarrow> nat option" where
  "find_index P [] = None"
| "find_index P (x # xs) = (if P x then Some 0 else map_option Suc (find_index P xs))"

definition apply_manifest2_to_stream ::
  "T_Manifest2 \<Rightarrow> T_StreamSendState \<Rightarrow> T_Manifest2ApplyResult option result \<times> T_StreamSendState" where
  "apply_manifest2_to_stream manifest2 stream =
     (if st_manifest_applied stream \<or> st_complete stream then (Inr None, stream)
      else case find (\<lambda>candidate. m2s_stream_id candidate = st_stream_id stream) (m2_streams manifest2) of
        None \<Rightarrow>
          (Inl (runtime_error (''T_Manifest2 missing stream='' @ to_string (unat (st_stream_id stream)))), stream)
      | Some plan \<Rightarrow>
          if m2s_action plan = IN_SYNC
          then (Inr (Some \<lparr>mar_in_sync = True, mar_should_start_append = False, mar_should_start_chunk = False,
                  mar_start = default_sync_start\<rparr>),
                stream\<lparr>st_current_task := length (st_tasks stream), st_manifest_applied := True,
                  st_complete := True, st_has_pending_changes := False\<rparr>)
          else case find_index (\<lambda>task. tk_file_id task = m2s_start_file_id plan) (st_tasks stream) of
            None \<Rightarrow>
              (Inl (runtime_error (''T_Manifest2 start file not found stream='' @ to_string (unat (st_stream_id stream)) @
                 '' file_id='' @ to_string (unat (m2s_start_file_id plan)))), stream)
          | Some index \<Rightarrow>
              (let stream1 = stream\<lparr>st_current_task := index, st_manifest_applied := True\<rparr>
               in case active_task stream1 of
                    None \<Rightarrow>
                      (Inr (Some \<lparr>mar_in_sync = True, mar_should_start_append = False, mar_should_start_chunk = False,
                         mar_start = default_sync_start\<rparr>), stream1\<lparr>st_complete := True\<rparr>)
                  | Some task \<Rightarrow>
                      (let action = (if m2s_action plan = M2_RESUME_EXISTING then RESUME_EXISTING else CREATE_MISSING);
                           start = \<lparr>ss_stream_id = st_stream_id stream1, ss_start_file_id = m2s_start_file_id plan,
                             ss_start_offset = m2s_start_offset plan, ss_start_action = action\<rparr>;
                           task1 = (if action = RESUME_EXISTING then task\<lparr>tk_chunk_mode := False\<rparr> else task)
                       in (Inr (Some \<lparr>mar_in_sync = False,
                              mar_should_start_append = (action = RESUME_EXISTING \<or> \<not> tk_chunk_mode task1),
                              mar_should_start_chunk = (action \<noteq> RESUME_EXISTING \<and> tk_chunk_mode task1),
                              mar_start = start\<rparr>),
                           stream1\<lparr>st_tasks := (st_tasks stream1)[st_current_task stream1 := task1]\<rparr>))))"

section \<open>Reading the payload\<close>

definition task_all_chunks_acked :: "T_FileSendTask \<Rightarrow> bool" where
  "task_all_chunks_acked task = all_chunks_acked (tk_chunk_resend task)"

definition next_unsent_chunk_index :: "T_FileSendTask \<Rightarrow> u64 \<Rightarrow> u64 \<Rightarrow> u64 option" where
  "next_unsent_chunk_index task current_tick retransmit_ticks =
     next_chunk_to_send (tk_chunk_resend task) current_tick retransmit_ticks"

definition read_task_range :: "system \<Rightarrow> filesystem \<Rightarrow> T_FileSendTask \<Rightarrow> u64 \<Rightarrow> u64 \<Rightarrow> Bytes result" where
  "read_task_range sys fs task offset len =
     (case tk_reader task of
        None \<Rightarrow> Inl (runtime_error ''send task has no source reader'')
      | Some reader \<Rightarrow> read_range sys fs reader (tk_file_id task) offset len)"

definition read_chunk_payload :: "system \<Rightarrow> filesystem \<Rightarrow> T_FileSendTask \<Rightarrow> u64 \<Rightarrow> u64 \<Rightarrow> Bytes result" where
  "read_chunk_payload sys fs task chunk_index chunk_size =
     (let offset = chunk_index * chunk_size;
          len = min chunk_size (tk_source_size task - offset)
      in read_task_range sys fs task offset len)"

section \<open>Starting where the receiver differs\<close>

lemma find_index_Some:
  "find_index P xs = Some i \<Longrightarrow> i < length xs \<and> P (xs ! i) \<and> (\<forall>j < i. \<not> P (xs ! j))"
proof (induction xs arbitrary: i)
  case (Cons x xs)
  then show ?case by (cases i) (auto split: if_splits simp: nth_Cons' less_Suc_eq_0_disj)
qed simp

lemma find_index_exists: "x \<in> set xs \<Longrightarrow> P x \<Longrightarrow> \<exists>i. find_index P xs = Some i"
  by (induction xs) auto

lemma find_index_unique:
  assumes "i < length xs" and "P (xs ! i)" and "\<And>j. j < length xs \<Longrightarrow> P (xs ! j) \<Longrightarrow> j = i"
  shows "find_index P xs = Some i"
proof -
  obtain k where k: "find_index P xs = Some k" using find_index_exists [of "xs ! i" xs P] assms(1,2) by auto
  then have "k = i" using find_index_Some [OF k] assms(3) by blast
  with k show ?thesis by simp
qed

text \<open>Where the two sides first differ.\<close>

definition first_difference :: "T_ManifestEntry list \<Rightarrow> T_ManifestEntry list \<Rightarrow> nat \<Rightarrow> bool" where
  "first_difference sender receiver i \<longleftrightarrow>
     (\<forall>j < i. j < length receiver \<and> entries_match (sender ! j) (receiver ! j)) \<and>
     (i < length sender \<longrightarrow> \<not> (i < length receiver \<and> entries_match (sender ! i) (receiver ! i)))"

definition starts_at :: "T_ManifestEntry list \<Rightarrow> T_ManifestEntry list \<Rightarrow> T_SyncStart option \<Rightarrow> bool" where
  "starts_at sender receiver start \<longleftrightarrow>
     (case start of
        None \<Rightarrow> first_difference sender receiver (length sender)
      | Some st \<Rightarrow> \<exists>i < length sender. first_difference sender receiver i \<and> ss_start_file_id st = me_file_id (sender ! i) \<and>
          ss_start_offset st = (if i < length receiver then me_size (receiver ! i) else 0) \<and>
          ss_start_action st = (if i < length receiver then RESUME_EXISTING else CREATE_MISSING))"

lemma first_difference_Cons:
  "entries_match s r \<Longrightarrow> first_difference ss rs i \<Longrightarrow> first_difference (s # ss) (r # rs) (Suc i)"
  by (auto simp: first_difference_def less_Suc_eq_0_disj)

lemma start_at_difference: "diff_stream sid sender receiver = Inr start \<Longrightarrow> starts_at sender receiver start"
proof (induction sender arbitrary: receiver)
  case Nil
  then show ?case by (simp add: starts_at_def first_difference_def)
next
  case (Cons s ss)
  show ?case
  proof (cases receiver)
    case Nil
    with Cons.prems show ?thesis by (auto simp: starts_at_def first_difference_def intro!: exI [of _ 0])
  next
    case rec: (Cons r rs)
    from diff_stream_step [OF Cons.prems [unfolded rec]] show ?thesis
    proof
      assume match: "entries_match s r \<and> diff_stream sid ss rs = Inr start"
      then have ih: "starts_at ss rs start" using Cons.IH by blast
      show ?thesis
      proof (cases start)
        case None
        then show ?thesis using ih match rec by (simp add: starts_at_def first_difference_Cons)
      next
        case (Some st)
        with ih obtain i where "i < length ss" "first_difference ss rs i" "ss_start_file_id st = me_file_id (ss ! i)"
            "ss_start_offset st = (if i < length rs then me_size (rs ! i) else 0)"
            "ss_start_action st = (if i < length rs then RESUME_EXISTING else CREATE_MISSING)"
          by (auto simp: starts_at_def)
        then show ?thesis
          using match rec Some unfolding starts_at_def
          by (simp only: option.case) (rule exI [of _ "Suc i"], simp add: first_difference_Cons)
      qed
    next
      assume "manifest_entries_same_identity s r \<and> me_kind s \<noteq> DIRECTORY \<and> me_kind s \<noteq> SYMLINK \<and> me_size r < me_size s \<and>
        start = Some \<lparr>ss_stream_id = sid, ss_start_file_id = me_file_id s, ss_start_offset = me_size r, ss_start_action = RESUME_EXISTING\<rparr>"
      moreover from this have "\<not> entries_match s r"
        by (auto simp: entries_match_def manifest_entries_same_content_def)
      ultimately show ?thesis unfolding rec
        by (auto simp: starts_at_def first_difference_def intro!: exI [of _ 0])
    qed
  qed
qed

lemma manifest2_stream_id: "m2s_stream_id (make_manifest2_stream i start) = i"
  by (simp add: make_manifest2_stream_def split: option.split)

text \<open>The sender applies the plan computed from two lists of entries.\<close>

lemma plan_applied:
  assumes "map tk_file_id (st_tasks stream) = map me_file_id sender" "distinct (map me_file_id sender)"
    and "\<not> st_manifest_applied stream" "\<not> st_complete stream"
    and "find (\<lambda>c. m2s_stream_id c = st_stream_id stream) (m2_streams m2) = Some (make_manifest2_stream (st_stream_id stream) start)"
    and "diff_stream (st_stream_id stream) sender receiver = Inr start"
  shows "\<exists>result stream'. apply_manifest2_to_stream m2 stream = (Inr (Some result), stream') \<and> st_manifest_applied stream' \<and>
    mar_in_sync result = st_complete stream' \<and> st_complete stream' = (st_current_task stream' = length (st_tasks stream)) \<and>
    first_difference sender receiver (st_current_task stream') \<and>
    (\<not> st_complete stream' \<longrightarrow> ss_start_offset (mar_start result) =
      (if st_current_task stream' < length receiver then me_size (receiver ! st_current_task stream') else 0) \<and>
      mar_should_start_append result = (\<not> mar_should_start_chunk result) \<and>
      mar_should_start_chunk result = (length receiver \<le> st_current_task stream' \<and> tk_chunk_mode (st_tasks stream ! st_current_task stream')))"
proof (cases start)
  case None
  have "length (st_tasks stream) = length sender" using arg_cong [OF assms(1), of length] by simp
  with None assms(3-5) start_at_difference [OF assms(6)] show ?thesis
    by (simp add: apply_manifest2_to_stream_def make_manifest2_stream_def starts_at_def)
next
  case (Some st)
  have len: "length (st_tasks stream) = length sender" using arg_cong [OF assms(1), of length] by simp
  have ids: "tk_file_id (st_tasks stream ! j) = me_file_id (sender ! j)" if "j < length sender" for j
    using arg_cong [OF assms(1), of "\<lambda>xs. xs ! j"] that len by simp
  from start_at_difference [OF assms(6)] obtain i where i: "i < length sender" "first_difference sender receiver i"
      "ss_start_file_id st = me_file_id (sender ! i)" "ss_start_offset st = (if i < length receiver then me_size (receiver ! i) else 0)"
      "ss_start_action st = (if i < length receiver then RESUME_EXISTING else CREATE_MISSING)"
    by (auto simp: Some starts_at_def)
  have "find_index (\<lambda>task. tk_file_id task = ss_start_file_id st) (st_tasks stream) = Some i"
  proof (rule find_index_unique)
    show "tk_file_id (st_tasks stream ! i) = ss_start_file_id st" using ids i(1,3) by simp
    fix j assume "j < length (st_tasks stream)" "tk_file_id (st_tasks stream ! j) = ss_start_file_id st"
    then show "j = i" using ids len i(1,3) assms(2) by (simp add: distinct_conv_nth) metis
  qed (use i(1) len in simp)
  with assms(3-5) Some i len show ?thesis
    by (auto simp: apply_manifest2_to_stream_def make_manifest2_stream_def active_task_def Let_def)
qed

section \<open>The payload of a chunk\<close>

text \<open>Chunk \<open>i\<close> of a task is the \<open>i\<close>-th block of the content its reader serves.\<close>

lemma read_chunk_slice:
  assumes "tk_reader task = Some reader" and "reader_serves sys fs (tk_file_id task) reader content"
    and "unat (tk_source_size task) = length content" and "i * unat cs < length content" and "cs \<noteq> 0"
  shows "read_chunk_payload sys fs task (word_of_nat i) cs = Inr (take (unat cs) (drop (i * unat cs) content))"
proof -
  have big: "length content < 2 ^ 64" using unat_u64_lt [of "tk_source_size task"] assms(3) by simp
  define offset where "offset = word_of_nat i * cs"
  have "offset = word_of_nat (i * unat cs)" by (simp add: offset_def)
  then have off: "unat offset = i * unat cs" using assms(4) big by (simp add: unat_of_nat del: of_nat_mult)
  define len where "len = min cs (tk_source_size task - offset)"
  have "offset \<le> tk_source_size task" using off assms(3,4) by (simp add: word_le_unat)
  then have len: "unat len = min (unat cs) (length content - i * unat cs)"
    using off assms(3) by (simp add: len_def word_min_unat unat_sub word_le_unat)
  have "read_range sys fs reader (tk_file_id task) offset len = Inr (take (unat len) (drop (unat offset) content))"
    using len off assms(4) by (intro rd.read_inside [OF assms(2)]) simp
  then show ?thesis
    using assms(1) len off by (simp add: read_chunk_payload_def read_task_range_def Let_def offset_def len_def min_def)
qed

lemma concat_blocks:
  "0 < (cs :: nat) \<Longrightarrow> concat (map (\<lambda>i. take cs (drop (i * cs) content)) [0..<n]) = take (n * cs) content"
proof (induction n)
  case (Suc n)
  have "take (n * cs) content @ take cs (drop (n * cs) content) = take (n * cs + cs) content"
    by (simp add: take_add)
  with Suc show ?case by (simp add: add.commute)
qed simp

text \<open>C37: The chunks of a task are its file. For a task in chunk mode whose reader serves a file of the
  task's size, every chunk below the chunk count can be read, and the chunks put together in order are
  exactly the content of the file.\<close>

theorem chunk_payloads_cover_file:
  assumes "tk_reader task = Some reader" and "reader_serves sys fs (tk_file_id task) reader content"
    and "tk_source_size task = word_of_nat (length content)" and "length content < 2 ^ 63" and "content \<noteq> []"
    and "chunk_count_for_size (tk_source_size task) cs = Inr n" and "unat cs < 2 ^ 63"
  shows "\<exists>payloads. map (\<lambda>i. read_chunk_payload sys fs task (word_of_nat i) cs) [0..<unat n] = map Inr payloads \<and>
    concat payloads = content"
proof -
  have cs: "cs \<noteq> 0" using assms(6) by (auto simp: chunk_count_for_size_def)
  have size: "unat (tk_source_size task) = length content" using assms(3,4) by (simp add: unat_of_nat)
  have nz: "tk_source_size task \<noteq> 0" using size assms(5) by auto
  have n: "length content \<le> unat n * unat cs" "(unat n - 1) * unat cs < length content"
    using chunk_count_fits [OF cs, of "tk_source_size task"] assms(4,6,7) size nz by auto
  define payloads where "payloads = map (\<lambda>i. take (unat cs) (drop (i * unat cs) content)) [0..<unat n]"
  have "read_chunk_payload sys fs task (word_of_nat i) cs = Inr (take (unat cs) (drop (i * unat cs) content))"
    if "i < unat n" for i
  proof (rule read_chunk_slice [OF assms(1,2) size _ cs])
    have "i * unat cs \<le> (unat n - 1) * unat cs" using that by (intro mult_right_mono) auto
    then show "i * unat cs < length content" using n(2) by (rule le_less_trans)
  qed
  then have "map (\<lambda>i. read_chunk_payload sys fs task (word_of_nat i) cs) [0..<unat n] = map Inr payloads"
    by (simp add: payloads_def)
  moreover have "concat payloads = content"
    using concat_blocks [of "unat cs" content "unat n"] n(1) cs by (simp add: payloads_def unat_gt_0)
  ultimately show ?thesis by blast
qed

definition sample_task :: "u64 \<Rightarrow> u64 \<Rightarrow> T_FileSendTask" where
  "sample_task file_id n = default_task\<lparr>tk_file_id := file_id, tk_source_size := n,
     tk_reader := Some (SimulatedSourceReader [1, 2, 3, 4, 5])\<rparr>"

theorem chunk_payloads_cover_file_witness:
  "\<exists>payloads. map (\<lambda>i. read_chunk_payload plain_system [] (sample_task 1 5) (word_of_nat i) 2) [0..<3] = map Inr payloads \<and>
     concat payloads = [1, 2, 3, 4, 5]"
proof -
  let ?r = "SimulatedSourceReader [1, 2, 3, 4, 5]"
  have "unat (3 :: u64) = 3" by simp
  moreover have "\<exists>payloads. map (\<lambda>i. read_chunk_payload plain_system [] (sample_task 1 5) (word_of_nat i) 2) [0..<unat (3 :: u64)] =
      map Inr payloads \<and> concat payloads = [1, 2, 3, 4, 5]"
  proof (rule chunk_payloads_cover_file [of _ ?r])
    show "reader_serves plain_system [] (tk_file_id (sample_task 1 5)) ?r [1, 2, 3, 4, 5]"
      by (simp add: reader_serves_def simulated_serves_def)
    show "chunk_count_for_size (tk_source_size (sample_task 1 5)) 2 = Inr 3" by code_simp
  qed (simp_all add: sample_task_def)
  ultimately show ?thesis by (simp only:)
qed

end
