(* ===== verification/Transport.thy ===== *)
theory Transport
  imports Protocol_Codec "HOL-Library.AList"
begin

text \<open>
  The framed connection over a byte stream and its bookkeeping in the event loop,
  src/src/network/yisync_async.cpp. What the sockets do is an argument: the results of the successive
  \<open>recv\<close> and \<open>send\<close> calls, and what the message callback does with a message. The callbacks are
  recorded in a log. The event loop, accepting and connecting are the subject of theory EventLoop.
\<close>

section \<open>Connection\<close>

record PendingWrite =
  pw_bytes :: Bytes
  pw_offset :: nat

datatype conn_event = Delivered T_Message | Failed string | Closed

datatype callback_result = Returns | Closes | Throws string

type_synonym message_callback = "T_Message \<Rightarrow> callback_result"

record AsyncFrameConnection =
  cn_open :: bool
  cn_max_frame_bytes :: u64
  cn_started :: bool
  cn_watch_out :: bool
  cn_read_buffer :: Bytes
  cn_write_queue :: "PendingWrite list"
  cn_log :: "conn_event list"

definition read_le_u16 :: "Bytes \<Rightarrow> nat \<Rightarrow> u16" where
  "read_le_u16 bytes offset = ucast (bytes ! offset) OR push_bit 8 (ucast (bytes ! (offset + 1)))"

definition read_le_u32 :: "Bytes \<Rightarrow> nat \<Rightarrow> u32" where
  "read_le_u32 bytes offset =
     ucast (bytes ! offset) OR push_bit 8 (ucast (bytes ! (offset + 1))) OR
     push_bit 16 (ucast (bytes ! (offset + 2))) OR push_bit 24 (ucast (bytes ! (offset + 3)))"

definition log_event :: "conn_event \<Rightarrow> AsyncFrameConnection \<Rightarrow> AsyncFrameConnection" where
  "log_event e c = c\<lparr>cn_log := cn_log c @ [e]\<rparr>"

definition conn_close :: "AsyncFrameConnection \<Rightarrow> AsyncFrameConnection" where
  "conn_close c = (if \<not> cn_open c then c else log_event Closed (c\<lparr>cn_open := False\<rparr>))"

definition conn_fail :: "AsyncFrameConnection \<Rightarrow> string \<Rightarrow> AsyncFrameConnection" where
  "conn_fail c message = conn_close (log_event (Failed message) c)"

definition update_watch :: "AsyncFrameConnection \<Rightarrow> AsyncFrameConnection" where
  "update_watch c =
     (if \<not> cn_open c \<or> \<not> cn_started c then c else c\<lparr>cn_watch_out := (cn_write_queue c \<noteq> [])\<rparr>)"

definition conn_start :: "AsyncFrameConnection \<Rightarrow> AsyncFrameConnection result" where
  "conn_start c =
     (if \<not> cn_open c then Inl (runtime_error ''connection is closed'')
      else Inr (update_watch (c\<lparr>cn_started := True, cn_watch_out := False\<rparr>)))"

definition conn_send :: "AsyncFrameConnection \<Rightarrow> T_Message \<Rightarrow> AsyncFrameConnection result" where
  "conn_send c message =
     (if \<not> cn_open c then Inl (runtime_error ''connection is closed'')
      else Inr (update_watch
        (c\<lparr>cn_write_queue := cn_write_queue c @ [\<lparr>pw_bytes = encode_frame message, pw_offset = 0\<rparr>]\<rparr>)))"

section \<open>Parsing frames\<close>

text \<open>The effect of the callback on the connection, if one is set.\<close>

definition run_callback :: "message_callback option \<Rightarrow> AsyncFrameConnection \<Rightarrow> T_Message \<Rightarrow> string + AsyncFrameConnection" where
  "run_callback cb c message =
     (case cb of
        None \<Rightarrow> Inr c
      | Some f \<Rightarrow>
          let c1 = log_event (Delivered message) c
          in case f message of Returns \<Rightarrow> Inr c1 | Closes \<Rightarrow> Inr (conn_close c1) | Throws what \<Rightarrow> Inl what)"

definition decode_bytes :: "Bytes \<Rightarrow> T_Message result" where
  "decode_bytes bytes = (case decode_frame bytes of Inl e \<Rightarrow> Inl e | Inr frame \<Rightarrow> decode_message frame)"

text \<open>The sum of the two lengths is formed in 32 bits, as in \<open>decode_frame\<close>.\<close>

definition frame_len_of :: "Bytes \<Rightarrow> u32" where
  "frame_len_of bytes = ucast (read_le_u16 bytes 6) + read_le_u32 bytes 8"

lemma decode_bytes_nonempty: "decode_bytes bytes = Inr m \<Longrightarrow> bytes \<noteq> []"
  by (auto simp: decode_bytes_def decode_frame_def kHeaderLen_def split: sum.splits)

lemma run_callback_buffer: "run_callback cb c m = Inr c' \<Longrightarrow> cn_read_buffer c' = cn_read_buffer c"
  by (auto simp: run_callback_def log_event_def conn_close_def Let_def split: option.splits callback_result.splits if_splits)

function parse_frames :: "message_callback option \<Rightarrow> AsyncFrameConnection \<Rightarrow> AsyncFrameConnection" where
  "parse_frames cb c =
     (let buffer = cn_read_buffer c
      in if \<not> cn_open c \<or> length buffer < unat kHeaderLen then c
         else if read_le_u16 buffer 6 \<noteq> kHeaderLen then conn_fail c ''unsupported frame header length''
         else if unat (frame_len_of buffer) > unat (cn_max_frame_bytes c)
         then conn_fail c ''frame exceeds max_frame_bytes''
         else
           let frame_len = unat (frame_len_of buffer)
           in if length buffer < frame_len then c
              else
                let c1 = c\<lparr>cn_read_buffer := drop frame_len buffer\<rparr>
                in case decode_bytes (take frame_len buffer) of
                     Inl e \<Rightarrow> conn_fail c1 (exn_what e)
                   | Inr message \<Rightarrow>
                       (case run_callback cb c1 message of
                          Inl what \<Rightarrow> conn_fail (log_event (Delivered message) c1) what
                        | Inr c2 \<Rightarrow> parse_frames cb c2))"
  by pat_completeness auto

termination
proof (relation "measure (\<lambda>(cb, c). length (cn_read_buffer c))", goal_cases)
  case 1
  then show ?case by simp
next
  case (2 cb c buffer frame_len c1 message c2)
  then have "take frame_len buffer \<noteq> []" using decode_bytes_nonempty by blast
  moreover have "cn_read_buffer c2 = drop frame_len buffer" using 2 run_callback_buffer by fastforce
  ultimately show ?case using 2(1) by simp
qed

declare parse_frames.simps [simp del]

section \<open>Reading and writing\<close>

datatype recv_result = Received Bytes | EndOfStream | Recv_EINTR | Recv_EAGAIN | Recv_error string

text \<open>The loop over \<open>recv\<close>: the connection afterwards, and whether the buffer is parsed. When the
  list of results ends there is nothing more to receive.\<close>

fun recv_loop :: "AsyncFrameConnection \<Rightarrow> recv_result list \<Rightarrow> AsyncFrameConnection \<times> bool" where
  "recv_loop c [] = (c, True)"
| "recv_loop c (r # rs) =
     (if \<not> cn_open c then (c, True)
      else case r of
        Received bytes \<Rightarrow> recv_loop (c\<lparr>cn_read_buffer := cn_read_buffer c @ bytes\<rparr>) rs
      | EndOfStream \<Rightarrow> (conn_close c, False)
      | Recv_EINTR \<Rightarrow> recv_loop c rs
      | Recv_EAGAIN \<Rightarrow> (c, True)
      | Recv_error message \<Rightarrow> (conn_fail c message, False))"

definition read_available :: "message_callback option \<Rightarrow> AsyncFrameConnection \<Rightarrow> recv_result list \<Rightarrow> AsyncFrameConnection" where
  "read_available cb c results =
     (case recv_loop c results of (c1, parse) \<Rightarrow> if parse then parse_frames cb c1 else c1)"

datatype send_result = Sent nat | Send_EINTR | Send_EAGAIN | Send_error string

text \<open>The loop over \<open>send\<close>, with the bytes that went to the socket; a result \<open>Sent n\<close> reports at most
  what was offered.\<close>

fun send_loop :: "AsyncFrameConnection \<Rightarrow> send_result list \<Rightarrow> (AsyncFrameConnection \<times> bool) \<times> Bytes" where
  "send_loop c [] = ((c, True), [])"
| "send_loop c (r # rs) =
     (if \<not> cn_open c then ((c, True), [])
      else case cn_write_queue c of
        [] \<Rightarrow> ((c, True), [])
      | front # queue \<Rightarrow>
          (case r of
             Sent n \<Rightarrow>
               if n > 0
               then let offset = pw_offset front + n;
                        c1 = c\<lparr>cn_write_queue := (if offset = length (pw_bytes front) then queue
                                 else front\<lparr>pw_offset := offset\<rparr> # queue)\<rparr>;
                        (result, wire) = send_loop c1 rs
                    in (result, take n (drop (pw_offset front) (pw_bytes front)) @ wire)
               else ((c, True), [])
           | Send_EINTR \<Rightarrow> send_loop c rs
           | Send_EAGAIN \<Rightarrow> ((c, True), [])
           | Send_error message \<Rightarrow> ((conn_fail c message, False), [])))"

definition flush_writes :: "AsyncFrameConnection \<Rightarrow> send_result list \<Rightarrow> AsyncFrameConnection \<times> Bytes" where
  "flush_writes c results =
     (case send_loop c results of ((c1, ok), wire) \<Rightarrow> (if ok then update_watch c1 else c1, wire))"

datatype poll_event = POLLIN | POLLOUT | POLLERR | POLLNVAL | POLLHUP

definition handle_io ::
  "message_callback option \<Rightarrow> AsyncFrameConnection \<Rightarrow> poll_event list \<Rightarrow> recv_result list \<Rightarrow> send_result list \<Rightarrow>
     AsyncFrameConnection \<times> Bytes" where
  "handle_io cb c revents recvs sends =
     (if \<not> cn_open c then (c, [])
      else
        let c1 = (if POLLIN \<in> set revents then read_available cb c recvs else c);
            (c2, wire) = (if cn_open c1 \<and> POLLOUT \<in> set revents then flush_writes c1 sends else (c1, []));
            c3 = (if cn_open c2 \<and> (POLLERR \<in> set revents \<or> POLLNVAL \<in> set revents)
                  then conn_fail c2 ''TCP connection error'' else c2);
            c4 = (if cn_open c3 \<and> POLLHUP \<in> set revents then conn_close c3 else c3)
        in (c4, wire))"

section \<open>Delivery over any segmentation\<close>

lemma list_ex_4: "length xs = 4 \<Longrightarrow> xs = [xs ! 0, xs ! 1, xs ! 2, xs ! 3]"
  by (auto simp: length_Suc_conv numeral_eq_Suc)

lemma read_le_u16_get: "offset + 2 \<le> length bs \<Longrightarrow> read_le_u16 bs offset = get_le (take 2 (drop offset bs))"
proof -
  assume "offset + 2 \<le> length bs"
  then have "take 2 (drop offset bs) = [bs ! offset, bs ! (offset + 1)]"
    by (auto simp: take_Suc_conv_app_nth numeral_2_eq_2)
  then show ?thesis by (simp add: read_le_u16_def get_le_def)
qed

lemma read_le_u32_get: "offset + 4 \<le> length bs \<Longrightarrow> read_le_u32 bs offset = get_le (take 4 (drop offset bs))"
proof -
  assume "offset + 4 \<le> length bs"
  then have "take 4 (drop offset bs) = [bs ! offset, bs ! (offset + 1), bs ! (offset + 2), bs ! (offset + 3)]"
    using list_ex_4 [of "take 4 (drop offset bs)"] by simp
  then show ?thesis by (simp add: read_le_u32_def get_le_def or.assoc)
qed

lemma header_fields:
  assumes "take 12 bs = write_header_prefix h" and "12 \<le> length bs"
  shows "read_le_u16 bs 6 = mh_header_len h" and "read_le_u32 bs 8 = mh_body_len h"
proof -
  have split: "take 2 (drop 6 (take 12 bs)) = take 2 (drop 6 bs)" "take 4 (drop 8 (take 12 bs)) = take 4 (drop 8 bs)"
    by (simp_all add: drop_take)
  have parts: "take 2 (drop 6 (write_header_prefix h)) = put_le 2 (mh_header_len h)"
      "take 4 (drop 8 (write_header_prefix h)) = put_le 4 (mh_body_len h)"
    by (simp_all add: write_header_prefix_def Writer_u32_def Writer_u16_put_le Writer_u8_def)
  show "read_le_u16 bs 6 = mh_header_len h"
    using read_le_u16_get [of 6 bs] assms(2) split(1) parts(1) get_le_put_le [where n = 2 and v = "mh_header_len h"]
    by (simp add: assms(1))
  show "read_le_u32 bs 8 = mh_body_len h"
    using read_le_u32_get [of 8 bs] assms(2) split(2) parts(2) get_le_put_le [where n = 4 and v = "mh_body_len h"]
    by (simp add: assms(1))
qed

definition frames :: "T_Message list \<Rightarrow> Bytes" where
  "frames ms = concat (map encode_frame ms)"

text \<open>The messages a connection can carry: well formed, and their frames within the limit.\<close>

definition sendable :: "AsyncFrameConnection \<Rightarrow> T_Message \<Rightarrow> bool" where
  "sendable c m \<longleftrightarrow> message_ok m \<and> length (encode_frame m) < 2 ^ 32 \<and>
     length (encode_frame m) \<le> unat (cn_max_frame_bytes c)"

lemma sendable_cong: "cn_max_frame_bytes c' = cn_max_frame_bytes c \<Longrightarrow> sendable c' = sendable c"
  by (simp add: sendable_def fun_eq_iff)

definition deliver_all :: "T_Message list \<Rightarrow> Bytes \<Rightarrow> AsyncFrameConnection \<Rightarrow> AsyncFrameConnection" where
  "deliver_all ms rest c = c\<lparr>cn_read_buffer := rest, cn_log := cn_log c @ map Delivered ms\<rparr>"

lemma frame_header:
  assumes "length (encode_frame m) < 2 ^ 32" and "12 \<le> length buf" and "take 12 buf = take 12 (encode_frame m)"
  shows "read_le_u16 buf 6 = kHeaderLen" and "unat (frame_len_of buf) = length (encode_frame m)"
proof -
  have pre: "take 12 (encode_frame m) = write_header_prefix (fr_header (encode_message m))"
    by (simp add: encode_frame_conv)
  have body: "length (encode_body m) + 12 < 2 ^ 32" using assms(1) by (simp add: length_encode_frame)
  note f = header_fields [OF assms(3) [unfolded pre] assms(2)]
  show h: "read_le_u16 buf 6 = kHeaderLen" using f(1) by (simp add: encode_message_def)
  have "unat (12 + word_of_nat (length (encode_body m)) :: u32) = 12 + length (encode_body m)"
    using body by (subst unat_plus_no_wrap) (simp_all add: unat_of_nat)
  then show "unat (frame_len_of buf) = length (encode_frame m)"
    using f(2) h by (simp add: frame_len_of_def encode_message_def kHeaderLen_def length_encode_frame)
qed

lemma decode_bytes_encode:
  assumes "message_ok m" and "length (encode_frame m) < 2 ^ 32"
  shows "decode_bytes (encode_frame m) = Inr m"
  using decode_frame_encode [of m] decode_encode_message [OF assms(1)] assms(2)
  by (simp add: decode_bytes_def length_encode_frame)

text \<open>What a prefix of a stream of frames leaves in the buffer after parsing.\<close>

lemma parse_prefix:
  assumes "cn_open c" and "cn_read_buffer c @ rest = frames ms" and "list_all (sendable c) ms"
    and "\<And>m. f m = Returns"
  shows "\<exists>k buffer. parse_frames (Some f) c = deliver_all (take k ms) buffer c \<and>
    buffer @ rest = frames (drop k ms) \<and>
    (drop k ms = [] \<or> length buffer < length (encode_frame (hd (drop k ms))))"
  using assms(1-3)
proof (induction ms arbitrary: c)
  case Nil
  then have empty: "cn_read_buffer c = []" "rest = []" by (simp_all add: frames_def)
  then have "parse_frames (Some f) c = c" by (subst parse_frames.simps) (simp add: kHeaderLen_def Let_def)
  moreover have "deliver_all (take 0 []) (cn_read_buffer c) c = c" by (simp add: deliver_all_def)
  ultimately show ?case using empty by (intro exI [of _ 0] exI [of _ "[]"]) (simp add: frames_def)
next
  case (Cons m ms)
  let ?buf = "cn_read_buffer c" and ?frame = "encode_frame m"
  have m: "message_ok m" "length ?frame < 2 ^ 32" "length ?frame \<le> unat (cn_max_frame_bytes c)"
    using Cons.prems(3) by (simp_all add: sendable_def)
  have stop: ?case if "parse_frames (Some f) c = c" "length ?buf < length ?frame"
    using that Cons.prems(2) by (intro exI [of _ 0] exI [of _ ?buf]) (simp add: deliver_all_def)
  have flen: "12 \<le> length ?frame" by (simp add: length_encode_frame)
  show ?case
  proof (cases "length ?buf < 12")
    case True
    then have "parse_frames (Some f) c = c" by (subst parse_frames.simps) (simp add: kHeaderLen_def Let_def)
    then show ?thesis using stop True flen by simp
  next
    case long: False
    have app: "?buf @ rest = ?frame @ frames ms" using Cons.prems(2) by (simp add: frames_def)
    have "take 12 (?buf @ rest) = take 12 (?frame @ frames ms)" using app by simp
    then have "take 12 ?buf = take 12 ?frame" using long flen by simp
    note h = frame_header [OF m(2) _ this]
    have h1: "read_le_u16 ?buf 6 = kHeaderLen" "unat (frame_len_of ?buf) = length ?frame" using h long by simp_all
    have hl: "unat kHeaderLen = 12" by (simp add: kHeaderLen_def)
    show ?thesis
    proof (cases "length ?buf < length ?frame")
      case True
      then have "parse_frames (Some f) c = c"
        using Cons.prems(1) long m(3) by (subst parse_frames.simps) (simp add: Let_def h1 hl)
      then show ?thesis using stop True by simp
    next
      case False
      have split: "take (length ?frame) ?buf = ?frame" "drop (length ?frame) ?buf @ rest = frames ms"
        using app False by (simp_all add: append_eq_append_conv_if append_take_drop_id split: if_splits)
      define c1 where "c1 = log_event (Delivered m) (c\<lparr>cn_read_buffer := drop (length ?frame) ?buf\<rparr>)"
      have step: "parse_frames (Some f) c = parse_frames (Some f) c1"
        using Cons.prems(1) long m(3) False split(1) decode_bytes_encode [OF m(1,2)] assms(4)
        by (subst parse_frames.simps) (simp add: Let_def h1 hl run_callback_def c1_def)
      have "cn_open c1" "cn_read_buffer c1 @ rest = frames ms" "list_all (sendable c1) ms"
        using Cons.prems(1,3) split(2) sendable_cong [of c1 c] by (simp_all add: c1_def log_event_def)
      from Cons.IH [OF this] obtain k buffer where k: "parse_frames (Some f) c1 = deliver_all (take k ms) buffer c1"
          "buffer @ rest = frames (drop k ms)" "drop k ms = [] \<or> length buffer < length (encode_frame (hd (drop k ms)))"
        by blast
      moreover have "deliver_all (take k ms) buffer c1 = deliver_all (m # take k ms) buffer c"
        by (simp add: deliver_all_def c1_def log_event_def)
      ultimately show ?thesis using step by (intro exI [of _ "Suc k"] exI [of _ buffer]) simp
    qed
  qed
qed

lemma recv_segments:
  "cn_open c \<Longrightarrow> recv_loop c (map Received segs) = (c\<lparr>cn_read_buffer := cn_read_buffer c @ concat segs\<rparr>, True)"
  by (induction segs arbitrary: c) simp_all

lemma deliver_all_twice:
  "deliver_all ms' rest' (deliver_all ms rest c) = deliver_all (ms @ ms') rest' c"
  by (simp add: deliver_all_def)

text \<open>One readiness event of the socket per element of \<open>rounds\<close>, in each of which \<open>recv\<close> returns some
  segments before it would block.\<close>

definition receive_rounds ::
  "message_callback \<Rightarrow> AsyncFrameConnection \<Rightarrow> Bytes list list \<Rightarrow> AsyncFrameConnection" where
  "receive_rounds f c rounds = foldl (\<lambda>c segs. read_available (Some f) c (map Received segs)) c rounds"

lemma receive_rounds_prefix:
  assumes "cn_open c" and "cn_read_buffer c @ concat (concat rounds) @ rest = frames ms" and "list_all (sendable c) ms"
    and "\<And>m. f m = Returns"
    and "ms = [] \<or> length (cn_read_buffer c) < length (encode_frame (hd ms))"
  shows "\<exists>k buffer. receive_rounds f c rounds = deliver_all (take k ms) buffer c \<and>
    buffer @ rest = frames (drop k ms) \<and>
    (drop k ms = [] \<or> length buffer < length (encode_frame (hd (drop k ms))))"
  using assms(1-3,5)
proof (induction rounds arbitrary: c ms)
  case Nil
  then show ?case
    by (intro exI [of _ 0] exI [of _ "cn_read_buffer c"]) (simp add: receive_rounds_def deliver_all_def)
next
  case (Cons segs rounds)
  define c1 where "c1 = c\<lparr>cn_read_buffer := cn_read_buffer c @ concat segs\<rparr>"
  have "cn_open c1" "cn_read_buffer c1 @ (concat (concat rounds) @ rest) = frames ms" "list_all (sendable c1) ms"
    using Cons.prems(1-3) sendable_cong [of c1 c] by (simp_all add: c1_def)
  from parse_prefix [where f = f, OF this assms(4)] obtain k buffer where k:
      "parse_frames (Some f) c1 = deliver_all (take k ms) buffer c1"
      "buffer @ (concat (concat rounds) @ rest) = frames (drop k ms)"
      "drop k ms = [] \<or> length buffer < length (encode_frame (hd (drop k ms)))"
    by blast
  define c2 where "c2 = deliver_all (take k ms) buffer c"
  have c2: "read_available (Some f) c (map Received segs) = c2"
    using k(1) recv_segments [OF Cons.prems(1), of segs]
    by (simp add: read_available_def c2_def deliver_all_def flip: c1_def) (simp add: c1_def)
  have "cn_open c2" "cn_read_buffer c2 @ concat (concat rounds) @ rest = frames (drop k ms)"
      "list_all (sendable c2) (drop k ms)"
      "drop k ms = [] \<or> length (cn_read_buffer c2) < length (encode_frame (hd (drop k ms)))"
    using Cons.prems(1,3) k(2,3) sendable_cong [of c2 c]
    by (auto simp: c2_def deliver_all_def list_all_iff dest: in_set_dropD)
  from Cons.IH [OF this] obtain j buffer' where j:
      "receive_rounds f c2 rounds = deliver_all (take j (drop k ms)) buffer' c2"
      "buffer' @ rest = frames (drop j (drop k ms))"
      "drop j (drop k ms) = [] \<or> length buffer' < length (encode_frame (hd (drop j (drop k ms))))"
    by blast
  have "receive_rounds f c (segs # rounds) = deliver_all (take (k + j) ms) buffer' c"
    using j(1) c2 by (simp add: receive_rounds_def c2_def deliver_all_twice take_add)
  then show ?case using j(2,3) by (intro exI [of _ "k + j"] exI [of _ buffer']) (simp add: add.commute)
qed

text \<open>C16: The framed connection delivers what was sent, however the byte stream is cut. When the frames
  of a list of messages arrive in any segments, spread over any number of readiness events, and the
  callback returns, exactly these messages are delivered, in order, nothing is left in the buffer and
  the connection stays open.\<close>

theorem segmentation_transparent:
  assumes "cn_open c" and "cn_read_buffer c = []" and "concat (concat rounds) = frames ms"
    and "list_all (sendable c) ms" and "\<And>m. f m = Returns"
  shows "receive_rounds f c rounds = c\<lparr>cn_log := cn_log c @ map Delivered ms\<rparr>"
proof -
  have "ms = [] \<or> length (cn_read_buffer c) < length (encode_frame (hd ms))"
    using assms(2) by (cases ms) (simp_all add: length_encode_frame)
  from receive_rounds_prefix [where f = f and rounds = rounds and rest = "[]", OF assms(1) _ assms(4,5) this] assms(2,3)
  obtain k buffer where k: "receive_rounds f c rounds = deliver_all (take k ms) buffer c"
      "buffer = frames (drop k ms)" "drop k ms = [] \<or> length buffer < length (encode_frame (hd (drop k ms)))"
    by auto
  have "drop k ms = []"
  proof (rule ccontr)
    assume "drop k ms \<noteq> []"
    then obtain m ms' where "drop k ms = m # ms'" by (cases "drop k ms") auto
    with k(2,3) show False by (simp add: frames_def)
  qed
  with k assms(2) show ?thesis by (simp add: deliver_all_def frames_def)
qed

definition sample_conn :: AsyncFrameConnection where
  "sample_conn = \<lparr>cn_open = True, cn_max_frame_bytes = 1048576, cn_started = True, cn_watch_out = False,
     cn_read_buffer = [], cn_write_queue = [], cn_log = []\<rparr>"

theorem segmentation_transparent_witness:
  "receive_rounds (\<lambda>_. Returns) sample_conn
     [[take 5 (frames [sample_commit, sample_commit])], [], [take 20 (drop 5 (frames [sample_commit, sample_commit])),
       drop 25 (frames [sample_commit, sample_commit])]] =
   sample_conn\<lparr>cn_log := [Delivered sample_commit, Delivered sample_commit]\<rparr>"
proof -
  have len: "length (encode_frame sample_commit) = 36" by code_simp
  have "concat (concat [[take 5 (frames [sample_commit, sample_commit])], [],
      [take 20 (drop 5 (frames [sample_commit, sample_commit])), drop 25 (frames [sample_commit, sample_commit])]]) =
      frames [sample_commit, sample_commit]" by code_simp
  moreover have "sendable sample_conn sample_commit"
    by (simp add: sendable_def len) (simp add: sample_commit_def sample_conn_def)
  ultimately show ?thesis
    using segmentation_transparent [of sample_conn _ "[sample_commit, sample_commit]" "\<lambda>_. Returns"]
    by (simp add: sample_conn_def)
qed

section \<open>Writing is first in, first out\<close>

definition queued :: "AsyncFrameConnection \<Rightarrow> Bytes" where
  "queued c = concat (map (\<lambda>w. drop (pw_offset w) (pw_bytes w)) (cn_write_queue c))"

text \<open>Each result \<open>Sent n\<close> reports at most what was offered.\<close>

fun sends_ok :: "PendingWrite list \<Rightarrow> send_result list \<Rightarrow> bool" where
  "sends_ok queue [] = True"
| "sends_ok [] (r # rs) = True"
| "sends_ok (front # queue) (Sent n # rs) =
     (let offset = pw_offset front + n
      in offset \<le> length (pw_bytes front) \<and>
         sends_ok (if offset = length (pw_bytes front) then queue else front\<lparr>pw_offset := offset\<rparr> # queue) rs)"
| "sends_ok (front # queue) (r # rs) = sends_ok (front # queue) rs"

lemma queued_cons: "cn_write_queue c = w # ws \<Longrightarrow> queued c = drop (pw_offset w) (pw_bytes w) @ concat (map (\<lambda>w. drop (pw_offset w) (pw_bytes w)) ws)"
  by (simp add: queued_def)

lemma send_loop_fifo:
  "sends_ok (cn_write_queue c) rs \<Longrightarrow> send_loop c rs = ((c', ok), wire) \<Longrightarrow> wire @ queued c' = queued c"
proof (induction c rs arbitrary: c' ok wire rule: send_loop.induct)
  case (1 c)
  then show ?case by simp
next
  case (2 c r rs)
  show ?case
  proof (cases "cn_open c \<and> cn_write_queue c \<noteq> []")
    case False
    then show ?thesis using "2.prems"(2) by (auto split: if_splits list.splits)
  next
    case True
    then obtain w ws where q: "cn_write_queue c = w # ws" by (cases "cn_write_queue c") auto
    show ?thesis
    proof (cases r)
      case (Sent n)
      show ?thesis
      proof (cases "n > 0")
        case pos: True
        define c1 where "c1 = c\<lparr>cn_write_queue := (if pw_offset w + n = length (pw_bytes w) then ws
            else w\<lparr>pw_offset := pw_offset w + n\<rparr> # ws)\<rparr>"
        obtain c2 ok2 wire2 where loop: "send_loop c1 rs = ((c2, ok2), wire2)" by (metis prod.exhaust)
        have res: "c' = c2" "wire = take n (drop (pw_offset w) (pw_bytes w)) @ wire2"
          using "2.prems"(2) True q Sent pos loop by (simp_all add: c1_def Let_def)
        have ok: "sends_ok (cn_write_queue c1) rs" "pw_offset w + n \<le> length (pw_bytes w)"
          using "2.prems"(1) q Sent by (simp_all add: c1_def Let_def split: if_splits)
        have "wire2 @ queued c2 = queued c1"
          using "2.IH"(1) [OF _ q Sent pos refl, of c1 c2 ok2 wire2] True ok(1) loop by (simp add: c1_def)
        moreover have "take n (drop (pw_offset w) (pw_bytes w)) @ queued c1 = queued c"
          using ok(2) q by (auto simp: queued_def c1_def simp flip: append_assoc drop_drop)
            (metis append_take_drop_id drop_drop add.commute)
        ultimately show ?thesis using res by simp
      next
        case False
        then show ?thesis using "2.prems"(2) True q Sent by simp
      qed
    next
      case Send_EINTR
      then show ?thesis using "2.IH"(2) [OF _ q Send_EINTR] "2.prems" True q by simp
    next
      case Send_EAGAIN
      then show ?thesis using "2.prems"(2) True q by simp
    next
      case (Send_error message)
      then show ?thesis using "2.prems"(2) True q
        by (auto simp: conn_fail_def conn_close_def log_event_def queued_def)
    qed
  qed
qed

text \<open>Writing loses, repeats and reorders nothing. Whatever partial writes the socket makes, the
  bytes that went to the socket followed by the bytes still queued are the bytes that were queued; with
  \<open>conn_send\<close> appending the frame of a message at the end.\<close>

theorem flush_fifo:
  assumes "sends_ok (cn_write_queue c) results" and "flush_writes c results = (c', wire)"
  shows "wire @ queued c' = queued c \<and>
    (\<forall>m c''. conn_send c' m = Inr c'' \<longrightarrow> queued c'' = queued c' @ encode_frame m)"
proof -
  obtain c1 ok where loop: "send_loop c results = ((c1, ok), wire)" "c' = (if ok then update_watch c1 else c1)"
    using assms(2) by (auto simp: flush_writes_def split: prod.splits)
  have "queued c' = queued c1" using loop(2) by (simp add: update_watch_def queued_def)
  then have "wire @ queued c' = queued c" using send_loop_fifo [OF assms(1) loop(1)] by simp
  moreover have "queued c'' = queued c' @ encode_frame m" if "conn_send c' m = Inr c''" for m c''
    using that by (auto simp: conn_send_def update_watch_def queued_def split: if_splits)
  ultimately show ?thesis by blast
qed

theorem flush_fifo_witness:
  "snd (flush_writes (sample_conn\<lparr>cn_write_queue := [\<lparr>pw_bytes = [1, 2, 3], pw_offset = 1\<rparr>, \<lparr>pw_bytes = [4], pw_offset = 0\<rparr>]\<rparr>)
      [Sent 1, Send_EINTR, Sent 1, Send_EAGAIN]) @ [4] = [2, 3, 4]"
proof -
  let ?c = "sample_conn\<lparr>cn_write_queue := [\<lparr>pw_bytes = [1, 2, 3], pw_offset = 1\<rparr>, \<lparr>pw_bytes = [4], pw_offset = 0\<rparr>]\<rparr>"
  let ?rs = "[Sent 1, Send_EINTR, Sent 1, Send_EAGAIN]"
  have ok: "sends_ok (cn_write_queue ?c) ?rs" by code_simp
  have q: "queued (fst (flush_writes ?c ?rs)) = [4]" "queued ?c = [2, 3, 4]" by code_simp+
  from flush_fifo [OF ok, of "fst (flush_writes ?c ?rs)" "snd (flush_writes ?c ?rs)"] q show ?thesis by simp
qed

section \<open>Frames before the end of the stream\<close>

text \<open>When the end of the stream arrives together with the last bytes, \<open>read_available\<close> closes the
  connection without parsing them: complete frames are dropped.\<close>

lemma eof_drops_frames:
  "cn_open c \<Longrightarrow> cn_log (read_available cb c [Received (frames ms), EndOfStream]) = cn_log c @ [Closed]"
  by (simp add: read_available_def conn_close_def log_event_def)

end
