(* ===== verification/DiskWriter.thy ===== *)
theory DiskWriter
  imports Prelude
begin

text \<open>
  The queue between the receiver thread and the disk thread, \<open>SpscDiskWriter\<close> of
  src/src/receiver/yisync_disk_writer.cpp: a ring of slots with a head moved by the worker and a tail
  moved by the producer. The two threads are interleaved at their accesses to shared memory; the
  acquire and release orders the code uses make each of these accesses atomic and visible in order.
  \<open>outcome\<close> says what a task does: nothing, or the message of the exception it throws.
\<close>

section \<open>The writer\<close>

definition kDefaultDiskWriterQueueCapacity :: nat where
  "kDefaultDiskWriterQueueCapacity = 128"

definition kCapacity :: nat where
  "kCapacity = kDefaultDiskWriterQueueCapacity + 1"

definition kErrorSize :: nat where
  "kErrorSize = 160"

record 't SpscDiskWriter =
  dw_queue :: "'t option list"
  dw_head :: nat
  dw_tail :: nat
  dw_busy :: bool
  dw_stopping :: bool
  dw_failed :: bool
  dw_error :: string

definition make_SpscDiskWriter :: "'t SpscDiskWriter" where
  "make_SpscDiskWriter =
     \<lparr>dw_queue = replicate kCapacity None, dw_head = 0, dw_tail = 0, dw_busy = False, dw_stopping = False,
      dw_failed = False, dw_error = []\<rparr>"

definition ring_increment :: "nat \<Rightarrow> nat" where
  "ring_increment v = (v + 1) mod kCapacity"

text \<open>\<open>enqueue\<close> when the worker does nothing in between.\<close>

definition disk_enqueue :: "'t SpscDiskWriter \<Rightarrow> 't \<Rightarrow> bool \<times> 't SpscDiskWriter" where
  "disk_enqueue w task =
     (if dw_stopping w then (False, w)
      else
        let next_tail = ring_increment (dw_tail w)
        in if next_tail = dw_head w then (False, w)
           else (True, w\<lparr>dw_queue := (dw_queue w)[dw_tail w := Some task], dw_tail := next_tail\<rparr>))"

text \<open>What the worker records when a task throws: the message, cut to the buffer.\<close>

definition record_outcome :: "string option \<Rightarrow> 't SpscDiskWriter \<Rightarrow> 't SpscDiskWriter" where
  "record_outcome result w =
     (case result of
        None \<Rightarrow> w
      | Some message \<Rightarrow> w\<lparr>dw_error := take (min (length message) (kErrorSize - 1)) message, dw_failed := True\<rparr>)"

definition drained :: "'t SpscDiskWriter \<Rightarrow> bool" where
  "drained w \<longleftrightarrow> \<not> (dw_head w \<noteq> dw_tail w \<or> dw_busy w)"

section \<open>The two threads\<close>

datatype 't producer = P_Idle | P_Checked 't | P_Space 't | P_Written 't

datatype 't worker = W_Idle | W_Empty | W_Seen | W_Busy | W_Taken 't | W_Running 't | W_Done | W_Exit

text \<open>The state of the system, with the tasks \<open>enqueue\<close> accepted and those the worker finished so far.\<close>

record 't disk_threads =
  dt_writer :: "'t SpscDiskWriter"
  dt_producer :: "'t producer"
  dt_worker :: "'t worker"
  dt_accepted :: "'t list"
  dt_finished :: "'t list"

definition start_threads :: "'t disk_threads" where
  "start_threads = \<lparr>dt_writer = make_SpscDiskWriter, dt_producer = P_Idle, dt_worker = W_Idle,
     dt_accepted = [], dt_finished = []\<rparr>"

abbreviation set_writer :: "('t SpscDiskWriter \<Rightarrow> 't SpscDiskWriter) \<Rightarrow> 't disk_threads \<Rightarrow> 't disk_threads" where
  "set_writer f s \<equiv> s\<lparr>dt_writer := f (dt_writer s)\<rparr>"

inductive disk_step :: "('t \<Rightarrow> string option) \<Rightarrow> 't disk_threads \<Rightarrow> 't disk_threads \<Rightarrow> bool" for outcome where
  enqueue_begin: "dt_producer s = P_Idle \<Longrightarrow> \<not> dw_stopping (dt_writer s) \<Longrightarrow>
    disk_step outcome s (s\<lparr>dt_producer := P_Checked t\<rparr>)"
| enqueue_full: "dt_producer s = P_Checked t \<Longrightarrow> ring_increment (dw_tail (dt_writer s)) = dw_head (dt_writer s) \<Longrightarrow>
    disk_step outcome s (s\<lparr>dt_producer := P_Idle\<rparr>)"
| enqueue_space: "dt_producer s = P_Checked t \<Longrightarrow> ring_increment (dw_tail (dt_writer s)) \<noteq> dw_head (dt_writer s) \<Longrightarrow>
    disk_step outcome s (s\<lparr>dt_producer := P_Space t\<rparr>)"
| enqueue_write: "dt_producer s = P_Space t \<Longrightarrow>
    disk_step outcome s (set_writer (\<lambda>w. w\<lparr>dw_queue := (dw_queue w)[dw_tail w := Some t]\<rparr>) (s\<lparr>dt_producer := P_Written t\<rparr>))"
| enqueue_publish: "dt_producer s = P_Written t \<Longrightarrow>
    disk_step outcome s (set_writer (\<lambda>w. w\<lparr>dw_tail := ring_increment (dw_tail w)\<rparr>)
      (s\<lparr>dt_producer := P_Idle, dt_accepted := dt_accepted s @ [t]\<rparr>))"
| stop: "dt_producer s = P_Idle \<Longrightarrow>
    disk_step outcome s (set_writer (\<lambda>w. w\<lparr>dw_stopping := True\<rparr>) s)"
| worker_sees_task: "dt_worker s = W_Idle \<Longrightarrow> dw_head (dt_writer s) \<noteq> dw_tail (dt_writer s) \<Longrightarrow>
    disk_step outcome s (s\<lparr>dt_worker := W_Seen\<rparr>)"
| worker_sees_empty: "dt_worker s = W_Idle \<Longrightarrow> dw_head (dt_writer s) = dw_tail (dt_writer s) \<Longrightarrow>
    disk_step outcome s (s\<lparr>dt_worker := W_Empty\<rparr>)"
| worker_exits: "dt_worker s = W_Empty \<Longrightarrow> dw_stopping (dt_writer s) \<Longrightarrow>
    disk_step outcome s (s\<lparr>dt_worker := W_Exit\<rparr>)"
| worker_sleeps: "dt_worker s = W_Empty \<Longrightarrow> \<not> dw_stopping (dt_writer s) \<Longrightarrow>
    disk_step outcome s (s\<lparr>dt_worker := W_Idle\<rparr>)"
| worker_busy: "dt_worker s = W_Seen \<Longrightarrow>
    disk_step outcome s (set_writer (\<lambda>w. w\<lparr>dw_busy := True\<rparr>) (s\<lparr>dt_worker := W_Busy\<rparr>))"
| worker_takes: "dt_worker s = W_Busy \<Longrightarrow> dw_queue (dt_writer s) ! dw_head (dt_writer s) = Some t \<Longrightarrow>
    disk_step outcome s (set_writer (\<lambda>w. w\<lparr>dw_queue := (dw_queue w)[dw_head w := None]\<rparr>) (s\<lparr>dt_worker := W_Taken t\<rparr>))"
| worker_advances: "dt_worker s = W_Taken t \<Longrightarrow>
    disk_step outcome s (set_writer (\<lambda>w. w\<lparr>dw_head := ring_increment (dw_head w)\<rparr>) (s\<lparr>dt_worker := W_Running t\<rparr>))"
| worker_runs: "dt_worker s = W_Running t \<Longrightarrow>
    disk_step outcome s (set_writer (record_outcome (outcome t))
      (s\<lparr>dt_worker := W_Done, dt_finished := dt_finished s @ [t]\<rparr>))"
| worker_done: "dt_worker s = W_Done \<Longrightarrow>
    disk_step outcome s (set_writer (\<lambda>w. w\<lparr>dw_busy := False\<rparr>) (s\<lparr>dt_worker := W_Idle\<rparr>))"

inductive_cases disk_stepE: "disk_step outcome s s'"

section \<open>Refinement\<close>

text \<open>A forward simulation that may stutter.\<close>

locale refinement =
  fixes cstep :: "'c \<Rightarrow> 'c \<Rightarrow> bool" and astep :: "'a \<Rightarrow> 'a \<Rightarrow> bool" and abs_state :: "'c \<Rightarrow> 'a"
    and inv :: "'c \<Rightarrow> bool" and init :: 'c
  assumes inv_init: "inv init"
    and inv_step: "inv c \<Longrightarrow> cstep c c' \<Longrightarrow> inv c'"
    and simulates: "inv c \<Longrightarrow> cstep c c' \<Longrightarrow> abs_state c' = abs_state c \<or> astep (abs_state c) (abs_state c')"
begin

lemma reachable_inv: "cstep\<^sup>*\<^sup>* init c \<Longrightarrow> inv c"
  by (induction rule: rtranclp_induct) (auto intro: inv_init inv_step)

lemma run_refines: "cstep\<^sup>*\<^sup>* c c' \<Longrightarrow> inv c \<Longrightarrow> inv c' \<and> astep\<^sup>*\<^sup>* (abs_state c) (abs_state c')"
proof (induction rule: rtranclp_induct)
  case (step c1 c2)
  then have "inv c1" "astep\<^sup>*\<^sup>* (abs_state c) (abs_state c1)" by auto
  then show ?case using simulates [OF _ step(2)] inv_step [OF _ step(2)] by (metis rtranclp.rtrancl_into_rtrancl)
qed simp

lemma reachable_refines: "cstep\<^sup>*\<^sup>* init c \<Longrightarrow> astep\<^sup>*\<^sup>* (abs_state init) (abs_state c)"
  using run_refines inv_init by blast

end

text \<open>The specification: a queue from which one task at a time is taken and run.\<close>

record 't fifo =
  ff_pending :: "'t list"
  ff_running :: "'t option"
  ff_finished :: "'t list"

inductive fifo_step :: "'t fifo \<Rightarrow> 't fifo \<Rightarrow> bool" where
  put: "length (ff_pending q) < kDefaultDiskWriterQueueCapacity \<Longrightarrow>
    fifo_step q (q\<lparr>ff_pending := ff_pending q @ [t]\<rparr>)"
| take: "ff_running q = None \<Longrightarrow> ff_pending q = t # rest \<Longrightarrow>
    fifo_step q (q\<lparr>ff_pending := rest, ff_running := Some t\<rparr>)"
| finish: "ff_running q = Some t \<Longrightarrow>
    fifo_step q (q\<lparr>ff_running := None, ff_finished := ff_finished q @ [t]\<rparr>)"

text \<open>The occupied part of the ring.\<close>

definition ring_count :: "'t SpscDiskWriter \<Rightarrow> nat" where
  "ring_count w = (dw_tail w + kCapacity - dw_head w) mod kCapacity"

definition ring_tasks :: "'t SpscDiskWriter \<Rightarrow> 't option list" where
  "ring_tasks w = map (\<lambda>i. dw_queue w ! ((dw_head w + i) mod kCapacity)) [0..<ring_count w]"

section \<open>The ring\<close>

definition ring_ok :: "'t SpscDiskWriter \<Rightarrow> bool" where
  "ring_ok w \<longleftrightarrow> dw_head w < kCapacity \<and> dw_tail w < kCapacity \<and> length (dw_queue w) = kCapacity"

lemma kCapacity_pos [simp]: "0 < kCapacity" "Suc 0 < kCapacity" "kCapacity \<noteq> Suc 0"
  by (simp_all add: kCapacity_def kDefaultDiskWriterQueueCapacity_def)

lemma ring_increment_if: "v < kCapacity \<Longrightarrow> ring_increment v = (if v + 1 = kCapacity then 0 else v + 1)"
  by (auto simp: ring_increment_def)

lemma ring_increment_less [simp]: "ring_increment v < kCapacity"
  by (simp add: ring_increment_def)

lemma ring_count_if:
  "ring_ok w \<Longrightarrow> ring_count w =
     (if dw_head w \<le> dw_tail w then dw_tail w - dw_head w else dw_tail w + kCapacity - dw_head w)"
  by (auto simp: ring_count_def ring_ok_def mod_if)

lemma ring_index_if: "a < kCapacity \<Longrightarrow> i < kCapacity \<Longrightarrow> (a + i) mod kCapacity = (if a + i < kCapacity then a + i else a + i - kCapacity)"
  by (simp add: mod_if)

lemma ring_count_less: "ring_ok w \<Longrightarrow> ring_count w < kCapacity"
  by (simp add: ring_count_def)

lemma ring_count_0: "ring_ok w \<Longrightarrow> ring_count w = 0 \<longleftrightarrow> dw_head w = dw_tail w"
  by (auto simp: ring_count_if) (auto simp: ring_ok_def)

lemma ring_index_tail: "ring_ok w \<Longrightarrow> i < ring_count w \<Longrightarrow> (dw_head w + i) mod kCapacity \<noteq> dw_tail w"
  using ring_count_less [of w] by (auto simp: ring_count_if ring_index_if ring_ok_def split: if_splits)

lemma ring_index_end: "ring_ok w \<Longrightarrow> (dw_head w + ring_count w) mod kCapacity = dw_tail w"
  using ring_count_less [of w] by (auto simp: ring_count_if ring_index_if ring_ok_def split: if_splits)

lemma ring_index_head: "ring_ok w \<Longrightarrow> 0 < i \<Longrightarrow> i < ring_count w \<Longrightarrow> (dw_head w + i) mod kCapacity \<noteq> dw_head w"
  using ring_count_less [of w] by (auto simp: ring_index_if ring_ok_def split: if_splits)

lemma length_ring_tasks [simp]: "length (ring_tasks w) = ring_count w"
  by (simp add: ring_tasks_def)

lemma nth_ring_tasks: "i < ring_count w \<Longrightarrow> ring_tasks w ! i = dw_queue w ! ((dw_head w + i) mod kCapacity)"
  by (simp add: ring_tasks_def)

lemma ring_full: "ring_ok w \<Longrightarrow> ring_increment (dw_tail w) = dw_head w \<longleftrightarrow> ring_count w = kDefaultDiskWriterQueueCapacity"
  by (auto simp: ring_increment_if ring_count_if ring_ok_def kCapacity_def)

lemma ring_publish:
  assumes "ring_ok w" and "ring_increment (dw_tail w) \<noteq> dw_head w"
  shows "ring_count (w\<lparr>dw_tail := ring_increment (dw_tail w)\<rparr>) = Suc (ring_count w)"
    and "ring_tasks (w\<lparr>dw_tail := ring_increment (dw_tail w)\<rparr>) = ring_tasks w @ [dw_queue w ! dw_tail w]"
proof -
  have ok: "ring_ok (w\<lparr>dw_tail := ring_increment (dw_tail w)\<rparr>)" using assms(1) by (simp add: ring_ok_def)
  show c: "ring_count (w\<lparr>dw_tail := ring_increment (dw_tail w)\<rparr>) = Suc (ring_count w)"
    using assms unfolding ring_count_if [OF ok] ring_count_if [OF assms(1)]
    by (auto simp: ring_increment_if ring_ok_def split: if_splits)
  show "ring_tasks (w\<lparr>dw_tail := ring_increment (dw_tail w)\<rparr>) = ring_tasks w @ [dw_queue w ! dw_tail w]"
    using c ring_index_end [OF assms(1)] by (simp add: ring_tasks_def)
qed

lemma ring_advance:
  assumes "ring_ok w" and "dw_head w \<noteq> dw_tail w"
  shows "ring_tasks (w\<lparr>dw_head := ring_increment (dw_head w)\<rparr>) = tl (ring_tasks w)"
proof -
  let ?w = "w\<lparr>dw_head := ring_increment (dw_head w)\<rparr>"
  have ok: "ring_ok ?w" using assms(1) by (simp add: ring_ok_def)
  have c: "ring_count w = Suc (ring_count ?w)"
    using assms unfolding ring_count_if [OF ok] ring_count_if [OF assms(1)]
    by (auto simp: ring_increment_if ring_ok_def split: if_splits)
  have "(ring_increment (dw_head w) + i) mod kCapacity = (dw_head w + Suc i) mod kCapacity" for i
    by (simp add: ring_increment_def mod_add_left_eq)
  then have "map (\<lambda>i. dw_queue w ! ((ring_increment (dw_head w) + i) mod kCapacity)) [0..<ring_count ?w] =
      map (\<lambda>i. dw_queue w ! ((dw_head w + i) mod kCapacity)) (map Suc [0..<ring_count ?w])"
    by simp
  also have "map Suc [0..<ring_count ?w] = tl [0..<Suc (ring_count ?w)]"
    by (simp add: map_Suc_upt upt_conv_Cons del: upt_Suc)
  finally show ?thesis unfolding ring_tasks_def c by (simp add: map_tl [symmetric] del: upt_Suc)
qed

lemma ring_write:
  assumes "ring_ok w"
  shows "ring_tasks (w\<lparr>dw_queue := (dw_queue w)[dw_tail w := x]\<rparr>) = ring_tasks w"
proof -
  have "ring_count (w\<lparr>dw_queue := (dw_queue w)[dw_tail w := x]\<rparr>) = ring_count w" by (simp add: ring_count_def)
  moreover have "dw_tail w \<noteq> (dw_head w + i) mod kCapacity" if "i < ring_count w" for i
    using ring_index_tail [OF assms that] by (rule not_sym)
  ultimately show ?thesis by (simp add: ring_tasks_def)
qed

lemma ring_take:
  assumes "ring_ok w" and "dw_head w \<noteq> dw_tail w"
  shows "ring_tasks (w\<lparr>dw_queue := (dw_queue w)[dw_head w := None]\<rparr>) = None # tl (ring_tasks w)"
    and "hd (ring_tasks w) = dw_queue w ! dw_head w"
proof -
  have pos: "0 < ring_count w" using ring_count_0 [OF assms(1)] assms(2) by simp
  have c: "ring_count (w\<lparr>dw_queue := (dw_queue w)[dw_head w := None]\<rparr>) = ring_count w" by (simp add: ring_count_def)
  have h: "dw_head w < length (dw_queue w)" "dw_head w < kCapacity" using assms(1) by (simp_all add: ring_ok_def)
  show "hd (ring_tasks w) = dw_queue w ! dw_head w"
    using pos h(2) by (simp add: ring_tasks_def hd_map upt_conv_Cons)
  show "ring_tasks (w\<lparr>dw_queue := (dw_queue w)[dw_head w := None]\<rparr>) = None # tl (ring_tasks w)"
  proof (rule nth_equalityI)
    show "length (ring_tasks (w\<lparr>dw_queue := (dw_queue w)[dw_head w := None]\<rparr>)) = length (None # tl (ring_tasks w))"
      using pos c by simp
    fix i assume "i < length (ring_tasks (w\<lparr>dw_queue := (dw_queue w)[dw_head w := None]\<rparr>))"
    then have i: "i < ring_count w" using c by simp
    show "ring_tasks (w\<lparr>dw_queue := (dw_queue w)[dw_head w := None]\<rparr>) ! i = (None # tl (ring_tasks w)) ! i"
    proof (cases i)
      case 0
      then show ?thesis using i c h by (simp add: ring_tasks_def)
    next
      case (Suc j)
      then have ne: "dw_head w \<noteq> (dw_head w + Suc j) mod kCapacity"
        using ring_index_head [OF assms(1), of "Suc j"] i Suc by (metis zero_less_Suc)
      let ?w = "w\<lparr>dw_queue := (dw_queue w)[dw_head w := None]\<rparr>"
      have "ring_tasks ?w ! Suc j = dw_queue ?w ! ((dw_head ?w + Suc j) mod kCapacity)"
        using i c Suc by (intro nth_ring_tasks) simp
      also have "\<dots> = dw_queue w ! ((dw_head w + Suc j) mod kCapacity)"
        using ne by simp
      also have "\<dots> = ring_tasks w ! Suc j" using i Suc by (intro nth_ring_tasks [symmetric]) simp
      finally show ?thesis using i Suc by (simp add: nth_tl)
    qed
  qed
qed

section \<open>The implementation refines the queue\<close>

definition worker_task :: "'t worker \<Rightarrow> 't option" where
  "worker_task k = (case k of W_Taken t \<Rightarrow> Some t | W_Running t \<Rightarrow> Some t | _ \<Rightarrow> None)"

definition pending_slots :: "'t disk_threads \<Rightarrow> 't option list" where
  "pending_slots s =
     (case dt_worker s of W_Taken _ \<Rightarrow> tl (ring_tasks (dt_writer s)) | _ \<Rightarrow> ring_tasks (dt_writer s))"

definition abs_fifo :: "'t disk_threads \<Rightarrow> 't fifo" where
  "abs_fifo s = \<lparr>ff_pending = map the (pending_slots s), ff_running = worker_task (dt_worker s),
     ff_finished = dt_finished s\<rparr>"

definition worker_busy_states :: "'t worker \<Rightarrow> bool" where
  "worker_busy_states k = (case k of W_Busy \<Rightarrow> True | W_Taken _ \<Rightarrow> True | W_Running _ \<Rightarrow> True | W_Done \<Rightarrow> True | _ \<Rightarrow> False)"

definition worker_holds_head :: "'t worker \<Rightarrow> bool" where
  "worker_holds_head k = (case k of W_Seen \<Rightarrow> True | W_Busy \<Rightarrow> True | W_Taken _ \<Rightarrow> True | _ \<Rightarrow> False)"

definition producer_ok :: "'t SpscDiskWriter \<Rightarrow> 't producer \<Rightarrow> bool" where
  "producer_ok w p = (case p of
     P_Space _ \<Rightarrow> ring_increment (dw_tail w) \<noteq> dw_head w
   | P_Written t \<Rightarrow> ring_increment (dw_tail w) \<noteq> dw_head w \<and> dw_queue w ! dw_tail w = Some t
   | _ \<Rightarrow> True)"

definition disk_inv :: "'t disk_threads \<Rightarrow> bool" where
  "disk_inv s \<longleftrightarrow> ring_ok (dt_writer s) \<and> None \<notin> set (pending_slots s) \<and>
     (worker_holds_head (dt_worker s) \<longrightarrow> dw_head (dt_writer s) \<noteq> dw_tail (dt_writer s)) \<and>
     producer_ok (dt_writer s) (dt_producer s) \<and>
     dw_busy (dt_writer s) = worker_busy_states (dt_worker s) \<and>
     dt_accepted s = dt_finished s @ (case worker_task (dt_worker s) of Some t \<Rightarrow> [t] | None \<Rightarrow> []) @
       map the (pending_slots s)"

lemmas disk_defs = worker_task_def pending_slots_def worker_busy_states_def worker_holds_head_def producer_ok_def

lemma ring_increment_inj: "a < kCapacity \<Longrightarrow> b < kCapacity \<Longrightarrow> ring_increment a = ring_increment b \<longleftrightarrow> a = b"
  by (auto simp: ring_increment_if split: if_splits)

lemma ring_count_cong [simp]:
  "ring_tasks (w\<lparr>dw_stopping := b\<rparr>) = ring_tasks w" "ring_tasks (w\<lparr>dw_busy := b\<rparr>) = ring_tasks w"
  "ring_tasks (record_outcome r w) = ring_tasks w"
  by (simp_all add: ring_tasks_def ring_count_def record_outcome_def split: option.splits)

lemma record_outcome_simps [simp]:
  "dw_head (record_outcome r w) = dw_head w" "dw_tail (record_outcome r w) = dw_tail w"
  "dw_queue (record_outcome r w) = dw_queue w" "dw_busy (record_outcome r w) = dw_busy w"
  by (simp_all add: record_outcome_def split: option.splits)

lemma ring_tasks_nonempty: "ring_ok w \<Longrightarrow> dw_head w \<noteq> dw_tail w \<Longrightarrow> ring_tasks w \<noteq> []"
  using ring_count_0 [of w] by (auto simp: ring_tasks_def)

lemma pending_slots_simps [simp]:
  "pending_slots (s\<lparr>dt_producer := p\<rparr>) = pending_slots s"
  "ring_tasks w = ring_tasks (dt_writer s) \<Longrightarrow> pending_slots (s\<lparr>dt_writer := w\<rparr>) = pending_slots s"
  by (simp_all add: pending_slots_def split: worker.splits)

lemma start_inv: "disk_inv start_threads"
  by (simp add: disk_inv_def start_threads_def make_SpscDiskWriter_def ring_ok_def disk_defs ring_tasks_def
      ring_count_def)

lemma disk_publish:
  assumes "disk_inv s" and "dt_producer s = P_Written t"
    and "s' = set_writer (\<lambda>w. w\<lparr>dw_tail := ring_increment (dw_tail w)\<rparr>)
      (s\<lparr>dt_producer := P_Idle, dt_accepted := dt_accepted s @ [t]\<rparr>)"
  shows "pending_slots s' = pending_slots s @ [Some t]" and "disk_inv s'"
    and "length (pending_slots s) < kDefaultDiskWriterQueueCapacity"
proof -
  let ?w = "dt_writer s"
  have ok: "ring_ok ?w" "ring_increment (dw_tail ?w) \<noteq> dw_head ?w" "dw_queue ?w ! dw_tail ?w = Some t"
    using assms(1,2) by (simp_all add: disk_inv_def producer_ok_def)
  note pub = ring_publish [OF ok(1,2)]
  show p: "pending_slots s' = pending_slots s @ [Some t]"
    using assms(1,3) pub(2) ok(3) ring_tasks_nonempty [OF ok(1)]
    by (auto simp: pending_slots_def disk_inv_def worker_holds_head_def split: worker.splits)
  have "ring_count ?w < kDefaultDiskWriterQueueCapacity"
    using ring_full [OF ok(1)] ok(2) ring_count_less [OF ok(1)] by (simp add: kCapacity_def)
  then show "length (pending_slots s) < kDefaultDiskWriterQueueCapacity"
    by (auto simp: pending_slots_def split: worker.splits)
  have "dw_head ?w \<noteq> ring_increment (dw_tail ?w)" using ok(2) by (rule not_sym)
  then show "disk_inv s'"
    using assms p by (auto simp: disk_inv_def ring_ok_def producer_ok_def)
qed

lemma disk_takes:
  assumes "disk_inv s" and "dt_worker s = W_Busy"
    and "dw_queue (dt_writer s) ! dw_head (dt_writer s) = Some t"
    and "s' = set_writer (\<lambda>w. w\<lparr>dw_queue := (dw_queue w)[dw_head w := None]\<rparr>) (s\<lparr>dt_worker := W_Taken t\<rparr>)"
  shows "pending_slots s = Some t # pending_slots s'" and "disk_inv s'"
proof -
  let ?w = "dt_writer s"
  have ok: "ring_ok ?w" "dw_head ?w \<noteq> dw_tail ?w" using assms(1,2) by (simp_all add: disk_inv_def worker_holds_head_def)
  note take = ring_take [OF ok]
  have "ring_tasks ?w = hd (ring_tasks ?w) # tl (ring_tasks ?w)" using ring_tasks_nonempty [OF ok] by simp
  then show p: "pending_slots s = Some t # pending_slots s'"
    using take assms(2-4) by (simp add: pending_slots_def)
  have "producer_ok (dt_writer s') (dt_producer s')"
    using assms(1,4) ok(2) by (auto simp: disk_inv_def producer_ok_def split: producer.splits)
  then show "disk_inv s'"
    using assms p by (auto simp: disk_inv_def ring_ok_def worker_holds_head_def worker_busy_states_def worker_task_def)
qed

lemma disk_advances:
  assumes "disk_inv s" and "dt_worker s = W_Taken t"
    and "s' = set_writer (\<lambda>w. w\<lparr>dw_head := ring_increment (dw_head w)\<rparr>) (s\<lparr>dt_worker := W_Running t\<rparr>)"
  shows "pending_slots s' = pending_slots s" and "disk_inv s'"
proof -
  let ?w = "dt_writer s"
  have ok: "ring_ok ?w" "dw_head ?w \<noteq> dw_tail ?w" using assms(1,2) by (simp_all add: disk_inv_def worker_holds_head_def)
  show p: "pending_slots s' = pending_slots s"
    using ring_advance [OF ok] assms(2,3) by (simp add: pending_slots_def)
  have "ring_increment (dw_tail ?w) \<noteq> ring_increment (dw_head ?w)"
    using ok ring_increment_inj [of "dw_tail ?w" "dw_head ?w"] by (auto simp: ring_ok_def)
  then have "producer_ok (dt_writer s') (dt_producer s')"
    using assms(1,3) by (auto simp: disk_inv_def producer_ok_def split: producer.splits)
  then show "disk_inv s'"
    using assms p by (auto simp: disk_inv_def ring_ok_def worker_holds_head_def worker_busy_states_def worker_task_def)
qed

lemma disk_write_slot:
  assumes "disk_inv s" and "dt_producer s = P_Space t"
    and "s' = set_writer (\<lambda>w. w\<lparr>dw_queue := (dw_queue w)[dw_tail w := Some t]\<rparr>) (s\<lparr>dt_producer := P_Written t\<rparr>)"
  shows "pending_slots s' = pending_slots s" and "disk_inv s'"
proof -
  have ok: "ring_ok (dt_writer s)" using assms(1) by (simp add: disk_inv_def)
  show p: "pending_slots s' = pending_slots s"
    using ring_write [OF ok] assms(3) by (auto simp: pending_slots_def split: worker.splits)
  then show "disk_inv s'" using assms ok by (auto simp: disk_inv_def ring_ok_def producer_ok_def)
qed

lemma disk_step_refines:
  assumes "disk_step outcome s s'" and "disk_inv s"
  shows "disk_inv s' \<and> (abs_fifo s' = abs_fifo s \<or> fifo_step (abs_fifo s) (abs_fifo s'))"
  using assms
proof (induction rule: disk_step.induct)
  case (enqueue_write s t)
  then show ?case using disk_write_slot [OF enqueue_write(2,1) refl] by (simp add: abs_fifo_def)
next
  case (enqueue_publish s t)
  note pub = disk_publish [OF enqueue_publish(2,1) refl]
  let ?q = "abs_fifo s"
  have "fifo_step ?q (?q\<lparr>ff_pending := ff_pending ?q @ [t]\<rparr>)"
    using pub(3) by (intro fifo_step.put) (simp add: abs_fifo_def)
  then show ?case using pub(1,2) by (simp add: abs_fifo_def)
next
  case (worker_takes s t)
  note take = disk_takes [OF worker_takes(3,1,2) refl]
  let ?q = "abs_fifo s"
  have "fifo_step ?q (?q\<lparr>ff_pending := tl (ff_pending ?q), ff_running := Some t\<rparr>)"
    using take(1) worker_takes(1) by (intro fifo_step.take) (simp_all add: abs_fifo_def worker_task_def)
  then show ?case using take worker_takes(1) by (simp add: abs_fifo_def worker_task_def)
next
  case (worker_advances s t)
  then show ?case using disk_advances [OF worker_advances(2,1) refl] by (simp add: abs_fifo_def worker_task_def)
next
  case (worker_runs s t)
  let ?q = "abs_fifo s"
  have "fifo_step ?q (?q\<lparr>ff_running := None, ff_finished := ff_finished ?q @ [t]\<rparr>)"
    using worker_runs(1) by (intro fifo_step.finish) (simp add: abs_fifo_def worker_task_def)
  then show ?case using worker_runs
    by (auto simp: abs_fifo_def disk_inv_def disk_defs ring_ok_def split: producer.splits)
next
  case (enqueue_begin s t)
  then show ?case by (simp add: abs_fifo_def disk_inv_def producer_ok_def)
next
  case (enqueue_full s t)
  then show ?case by (simp add: abs_fifo_def disk_inv_def producer_ok_def)
next
  case (enqueue_space s t)
  then show ?case by (simp add: abs_fifo_def disk_inv_def producer_ok_def)
next
  case (stop s)
  then show ?case by (simp add: abs_fifo_def disk_inv_def producer_ok_def ring_ok_def)
qed (auto simp: abs_fifo_def disk_inv_def disk_defs ring_ok_def split: producer.splits)

interpretation spsc: refinement "disk_step outcome" fifo_step abs_fifo disk_inv start_threads for outcome
  by unfold_locales (auto simp: start_inv dest: disk_step_refines)


text \<open>The state after one task was enqueued while the worker did nothing but see an empty queue.\<close>

definition one_task :: "'t \<Rightarrow> 't disk_threads" where
  "one_task t = \<lparr>dt_writer = make_SpscDiskWriter\<lparr>dw_queue := (replicate kCapacity None)[0 := Some t], dw_tail := 1\<rparr>,
     dt_producer = P_Idle, dt_worker = W_Empty, dt_accepted = [t], dt_finished = []\<rparr>"

lemma one_task_reachable: "(disk_step outcome)\<^sup>*\<^sup>* start_threads (one_task t)"
proof -
  let ?s0 = "start_threads :: 'a disk_threads"
  let ?s1 = "?s0\<lparr>dt_worker := W_Empty\<rparr>"
  let ?s2 = "?s1\<lparr>dt_producer := P_Checked t\<rparr>" and ?s3 = "?s1\<lparr>dt_producer := P_Space t\<rparr>"
  let ?s4 = "?s1\<lparr>dt_producer := P_Written t, dt_writer := make_SpscDiskWriter\<lparr>dw_queue := (replicate kCapacity None)[0 := Some t]\<rparr>\<rparr>"
  have "disk_step outcome ?s0 ?s1"
    by (rule disk_step.worker_sees_empty) (simp_all add: start_threads_def make_SpscDiskWriter_def)
  moreover have "disk_step outcome ?s1 ?s2"
    by (rule disk_step.enqueue_begin) (simp_all add: start_threads_def make_SpscDiskWriter_def)
  moreover have "disk_step outcome ?s2 ?s3"
    using disk_step.enqueue_space [of ?s2 t outcome]
    by (simp add: start_threads_def make_SpscDiskWriter_def ring_increment_def)
  moreover have "disk_step outcome ?s3 ?s4"
    using disk_step.enqueue_write [of ?s3 t outcome] by (simp add: start_threads_def make_SpscDiskWriter_def)
  moreover have "disk_step outcome ?s4 (one_task t)"
    using disk_step.enqueue_publish [of ?s4 t outcome]
    by (simp add: start_threads_def make_SpscDiskWriter_def one_task_def ring_increment_def)
  ultimately show ?thesis by (meson converse_rtranclp_into_rtranclp rtranclp.rtrancl_refl)
qed


section \<open>Draining and stopping\<close>

lemma disk_step_indices:
  assumes "disk_step outcome s s'"
  shows "dt_accepted s' = dt_accepted s \<and> dw_tail (dt_writer s') = dw_tail (dt_writer s) \<and>
      (dw_head (dt_writer s') = dw_head (dt_writer s) \<or> (\<exists>t. dt_worker s = W_Taken t)) \<or>
    length (dt_accepted s') = Suc (length (dt_accepted s))"
  using assms by (auto elim!: disk_stepE)

lemma accepted_grows: "(disk_step outcome)\<^sup>*\<^sup>* s s' \<Longrightarrow> length (dt_accepted s) \<le> length (dt_accepted s')"
proof (induction rule: rtranclp_induct)
  case (step s1 s2)
  then show ?case using disk_step_indices [OF step(2)] by auto
qed simp

text \<open>\<open>drain\<close> reads head and tail first and the busy flag later. If the queue was seen empty and the
  worker is later seen not busy, with no task accepted in between, every accepted task is finished.\<close>

lemma drain_complete:
  assumes "(disk_step outcome)\<^sup>*\<^sup>* start_threads s" and "dw_head (dt_writer s) = dw_tail (dt_writer s)"
    and "(disk_step outcome)\<^sup>*\<^sup>* s s'" and "dt_accepted s' = dt_accepted s" and "\<not> dw_busy (dt_writer s')"
  shows "dt_finished s' = dt_accepted s'"
proof -
  have empty: "dt_accepted s1 = dt_accepted s \<longrightarrow> dw_head (dt_writer s1) = dw_tail (dt_writer s1)"
    if "(disk_step outcome)\<^sup>*\<^sup>* s s1" for s1
    using that
  proof (induction rule: rtranclp_induct)
    case base
    show ?case using assms(2) by simp
  next
    case (step s1 s2)
    have inv: "disk_inv s1" using spsc.reachable_inv [OF rtranclp_trans [OF assms(1) step(1)]] .
    have "length (dt_accepted s) \<le> length (dt_accepted s1)" by (rule accepted_grows [OF step(1)])
    then show ?case
      using disk_step_indices [OF step(2)] step(3) inv by (auto simp: disk_inv_def worker_holds_head_def)
  qed
  have inv: "disk_inv s'" using spsc.reachable_inv [OF rtranclp_trans [OF assms(1,3)]] .
  have "ring_tasks (dt_writer s') = []"
    using empty [OF assms(3)] assms(4) inv ring_count_0 [of "dt_writer s'"] by (simp add: disk_inv_def ring_tasks_def)
  then show ?thesis using inv assms(5)
    by (auto simp: disk_inv_def disk_defs split: worker.splits)
qed

text \<open>Stopping may lose a task: the worker reads the tail before the flag, so that a task accepted
  between the two reads is never run when \<open>stop\<close> follows.\<close>

lemma stop_may_lose_task:
  "\<exists>s. (disk_step outcome)\<^sup>*\<^sup>* start_threads s \<and> dt_worker s = W_Exit \<and> dt_accepted s = [t] \<and> dt_finished s = []"
proof -
  let ?s1 = "set_writer (\<lambda>w. w\<lparr>dw_stopping := True\<rparr>) (one_task t)"
  have "disk_step outcome (one_task t) ?s1" by (rule disk_step.stop) (simp add: one_task_def)
  moreover have "disk_step outcome ?s1 (?s1\<lparr>dt_worker := W_Exit\<rparr>)"
    by (rule disk_step.worker_exits) (simp_all add: one_task_def)
  ultimately have "(disk_step outcome)\<^sup>*\<^sup>* start_threads (?s1\<lparr>dt_worker := W_Exit\<rparr>)"
    using one_task_reachable [of outcome t] by (meson rtranclp.rtrancl_into_rtrancl)
  then show ?thesis by (intro exI [of _ "?s1\<lparr>dt_worker := W_Exit\<rparr>"] conjI) (simp_all add: one_task_def)
qed

end
