(* ===== verification/Network.thy ===== *)
theory Network
  imports Scheduler "HOL-Library.AList"
begin

text \<open>
  The network layer above the connections, src/src/network/yisync_network.cpp: the HELLO negotiation,
  the reconnection of the sender's lines, the batching of heartbeats at the receiver and the checks of
  incoming messages. Connections and timers are abstract: an operation returns the effects it has on
  them, and what they report back (connected, failed, closed, timer) are the events of the lines.
  Logging is not modelled.
\<close>

section \<open>Negotiation\<close>

datatype EM_Protocol = TCP | UDP | QUIC | AREON

definition protocol_name :: "EM_Protocol \<Rightarrow> string" where
  "protocol_name protocol = (case protocol of TCP \<Rightarrow> ''tcp'' | UDP \<Rightarrow> ''udp'' | QUIC \<Rightarrow> ''quic'' | AREON \<Rightarrow> ''areon'')"

record T_NegotiationResult =
  ng_ok :: bool
  ng_negotiated_version :: u16
  ng_negotiated_features :: u64
  ng_recv_window_bytes :: u64
  ng_error :: string

definition base_digit :: "nat \<Rightarrow> char" where
  "base_digit d = char_of (if d < 10 then 48 + d else 87 + d)"

fun base_string :: "nat \<Rightarrow> nat \<Rightarrow> string" where
  "base_string base n = (if n < base \<or> base < 2 then [base_digit n] else base_string base (n div base) @ [base_digit (n mod base)])"

declare base_string.simps [simp del]

definition hex_u64 :: "u64 \<Rightarrow> string" where
  "hex_u64 v = ''0x'' @ base_string 16 (unat v)"

definition make_hello :: "EM_Role \<Rightarrow> string \<Rightarrow> u32 \<Rightarrow> u64 \<Rightarrow> T_Hello" where
  "make_hello role node_id chunk_size max_inflight_bytes =
     \<lparr>he_node_id = node_id, he_role = role, he_min_version = kProtocolVersion, he_max_version = kProtocolVersion,
      he_feature_flags = kSupportedFeatureFlags, he_required_feature_flags = kRequiredFeatureFlags,
      he_chunk_size = chunk_size, he_max_inflight_bytes = max_inflight_bytes,
      he_supported_compression = [Compression_NONE], he_supported_checksum = [CRC32C]\<rparr>"

lemma make_hello_role [simp]: "he_role (make_hello role node_id chunk_size max_inflight_bytes) = role"
  by (simp add: make_hello_def)

definition negotiation_error :: "string \<Rightarrow> T_NegotiationResult" where
  "negotiation_error message =
     \<lparr>ng_ok = False, ng_negotiated_version = 0, ng_negotiated_features = 0, ng_recv_window_bytes = 0, ng_error = message\<rparr>"

definition negotiate_hello :: "T_Hello \<Rightarrow> T_Hello \<Rightarrow> EM_Role \<Rightarrow> T_NegotiationResult" where
  "negotiate_hello local peer expected_peer_role =
     (if he_role peer \<noteq> expected_peer_role then negotiation_error ''unexpected peer role''
      else
        let min_version = max (he_min_version local) (he_min_version peer);
            max_version = min (he_max_version local) (he_max_version peer)
        in if min_version > max_version \<or> max_version < kProtocolVersion
           then negotiation_error ''no compatible protocol version''
           else
             let common_features = he_feature_flags local AND he_feature_flags peer
             in if he_required_feature_flags local AND common_features \<noteq> he_required_feature_flags local
                then negotiation_error (''peer missing local required features required='' @
                  hex_u64 (he_required_feature_flags local) @ '' common='' @ hex_u64 common_features)
                else if he_required_feature_flags peer AND common_features \<noteq> he_required_feature_flags peer
                then negotiation_error (''local missing peer required features required='' @
                  hex_u64 (he_required_feature_flags peer) @ '' common='' @ hex_u64 common_features)
                else if Compression_NONE \<notin> set (he_supported_compression local) \<or>
                        Compression_NONE \<notin> set (he_supported_compression peer)
                then negotiation_error ''EM_Compression::NONE is required''
                else if CRC32C \<notin> set (he_supported_checksum local) \<or> CRC32C \<notin> set (he_supported_checksum peer)
                then negotiation_error ''EM_ChecksumAlgo::CRC32C is required''
                else if he_chunk_size local \<noteq> 0 \<and> he_chunk_size peer \<noteq> 0 \<and> he_chunk_size local \<noteq> he_chunk_size peer
                then negotiation_error (''chunk_size mismatch local='' @ base_string 10 (unat (he_chunk_size local)) @
                  '' peer='' @ base_string 10 (unat (he_chunk_size peer)))
                else \<lparr>ng_ok = True, ng_negotiated_version = max_version, ng_negotiated_features = common_features,
                      ng_recv_window_bytes = he_max_inflight_bytes peer, ng_error = []\<rparr>)"

text \<open>What two nodes need of each other, whichever of them looks.\<close>

definition compatible :: "T_Hello \<Rightarrow> T_Hello \<Rightarrow> bool" where
  "compatible a b \<longleftrightarrow>
     (\<exists>v. kProtocolVersion \<le> v \<and> he_min_version a \<le> v \<and> he_min_version b \<le> v \<and>
        v \<le> he_max_version a \<and> v \<le> he_max_version b) \<and>
     (\<forall>n. bit (he_required_feature_flags a OR he_required_feature_flags b) n \<longrightarrow>
        bit (he_feature_flags a) n \<and> bit (he_feature_flags b) n) \<and>
     Compression_NONE \<in> set (he_supported_compression a) \<inter> set (he_supported_compression b) \<and>
     CRC32C \<in> set (he_supported_checksum a) \<inter> set (he_supported_checksum b) \<and>
     (he_chunk_size a = 0 \<or> he_chunk_size b = 0 \<or> he_chunk_size a = he_chunk_size b)"

lemma required_covered:
  "(r AND (a AND b) = r) \<longleftrightarrow> (\<forall>n. bit r n \<longrightarrow> bit a n \<and> bit b n)" for r a b :: "'a::len word"
  unfolding bit_eq_iff bit_and_iff by (blast dest: bit_imp_possible_bit)

lemma supported_covers: "bit kRequiredFeatureFlags n \<Longrightarrow> bit kSupportedFeatureFlags n"
  using required_covered [of kRequiredFeatureFlags kSupportedFeatureFlags kSupportedFeatureFlags]
  by (simp add: kRequiredFeatureFlags_def kSupportedFeatureFlags_def)

lemma version_range:
  fixes a b c d k :: "'a::linorder"
  shows "\<not> (max a b > min c d \<or> min c d < k) \<longleftrightarrow> (\<exists>v. k \<le> v \<and> a \<le> v \<and> b \<le> v \<and> v \<le> c \<and> v \<le> d)"
proof
  assume "\<not> (max a b > min c d \<or> min c d < k)"
  then show "\<exists>v. k \<le> v \<and> a \<le> v \<and> b \<le> v \<and> v \<le> c \<and> v \<le> d"
    by (intro exI [of _ "min c d"]) (auto simp: not_less)
next
  assume "\<exists>v. k \<le> v \<and> a \<le> v \<and> b \<le> v \<and> v \<le> c \<and> v \<le> d"
  then show "\<not> (max a b > min c d \<or> min c d < k)" by (auto simp: not_less min_def max_def)
qed

lemma negotiate_ok: "ng_ok (negotiate_hello local peer role) \<longleftrightarrow> he_role peer = role \<and> compatible local peer"
  unfolding compatible_def version_range [symmetric] bit_or_iff
  by (auto simp: negotiate_hello_def negotiation_error_def Let_def required_covered)

text \<open>Both ends of a line reach the same verdict. The negotiation succeeds exactly if the peer has
  the expected role and the two HELLOs are compatible: a common protocol version, each end's required
  features offered by both, the common compression and checksum, and no conflicting chunk size. If
  sender and receiver negotiate each other's HELLO, either both succeed, with the same version and
  the same features, or both fail; and nodes built by \<open>make_hello\<close> with the same chunk size succeed.\<close>

theorem negotiation_agrees:
  "(ng_ok (negotiate_hello local peer role) \<longleftrightarrow> he_role peer = role \<and> compatible local peer) \<and>
   (he_role s = SENDER \<and> he_role r = RECEIVER \<longrightarrow>
      ng_ok (negotiate_hello s r RECEIVER) = ng_ok (negotiate_hello r s SENDER) \<and>
      (ng_ok (negotiate_hello s r RECEIVER) \<longrightarrow>
         ng_negotiated_version (negotiate_hello s r RECEIVER) = ng_negotiated_version (negotiate_hello r s SENDER) \<and>
         ng_negotiated_features (negotiate_hello s r RECEIVER) = ng_negotiated_features (negotiate_hello r s SENDER) \<and>
         ng_recv_window_bytes (negotiate_hello s r RECEIVER) = he_max_inflight_bytes r)) \<and>
   ng_ok (negotiate_hello (make_hello SENDER id1 csize w1) (make_hello RECEIVER id2 csize w2) RECEIVER)"
proof (intro conjI impI)
  show "ng_ok (negotiate_hello local peer role) \<longleftrightarrow> he_role peer = role \<and> compatible local peer"
    by (rule negotiate_ok)
  assume roles: "he_role s = SENDER \<and> he_role r = RECEIVER"
  have sym: "compatible s r \<longleftrightarrow> compatible r s" by (auto simp: compatible_def or.commute)
  show same: "ng_ok (negotiate_hello s r RECEIVER) = ng_ok (negotiate_hello r s SENDER)"
    using roles sym by (simp add: negotiate_ok)
  assume ok: "ng_ok (negotiate_hello s r RECEIVER)"
  have res: "negotiate_hello a b role = \<lparr>ng_ok = True, ng_negotiated_version = min (he_max_version a) (he_max_version b),
      ng_negotiated_features = he_feature_flags a AND he_feature_flags b,
      ng_recv_window_bytes = he_max_inflight_bytes b, ng_error = []\<rparr>" if "ng_ok (negotiate_hello a b role)" for a b role
    using that by (auto simp: negotiate_hello_def negotiation_error_def Let_def split: if_splits)
  show "ng_negotiated_version (negotiate_hello s r RECEIVER) = ng_negotiated_version (negotiate_hello r s SENDER)"
       "ng_negotiated_features (negotiate_hello s r RECEIVER) = ng_negotiated_features (negotiate_hello r s SENDER)"
       "ng_recv_window_bytes (negotiate_hello s r RECEIVER) = he_max_inflight_bytes r"
    using res [OF ok] res [OF ok [unfolded same]] by (simp_all add: min.commute and.commute)
next
  show "ng_ok (negotiate_hello (make_hello SENDER id1 csize w1) (make_hello RECEIVER id2 csize w2) RECEIVER)"
    unfolding negotiate_ok compatible_def
    using supported_covers by (auto simp: make_hello_def bit_or_iff)
qed

text \<open>Two nodes as the programs build them.\<close>

theorem negotiation_agrees_witness:
  "ng_negotiated_features (negotiate_hello (make_hello RECEIVER ''b'' 4096 1) (make_hello SENDER ''a'' 4096 2) SENDER) =
   ng_negotiated_features (negotiate_hello (make_hello SENDER ''a'' 4096 2) (make_hello RECEIVER ''b'' 4096 1) RECEIVER)"
  using negotiation_agrees [where s = "make_hello SENDER ''a'' 4096 2" and r = "make_hello RECEIVER ''b'' 4096 1"
      and ?id1.0 = "''a''" and ?id2.0 = "''b''" and csize = 4096 and ?w1.0 = 2 and ?w2.0 = 1]
  by (auto simp: negotiate_ok)

section \<open>Reconnection delay\<close>

text \<open>Durations are counts of milliseconds, signed 64-bit numbers.\<close>

record T_ReconnectPolicy =
  rp_base_delay :: u64
  rp_max_delay :: u64
  rp_max_shift :: u64

definition default_ReconnectPolicy :: T_ReconnectPolicy where
  "default_ReconnectPolicy = \<lparr>rp_base_delay = 100, rp_max_delay = 2000, rp_max_shift = 5\<rparr>"

definition clamp_shift :: "u64 \<Rightarrow> u64 \<Rightarrow> u64" where
  "clamp_shift v max_value = min v max_value"

definition reconnect_delay :: "T_ReconnectPolicy \<Rightarrow> u64 \<Rightarrow> int" where
  "reconnect_delay policy attempts =
     (let shift = clamp_shift attempts (rp_max_shift policy);
          scaled = push_bit (unat shift) (rp_base_delay policy)
      in min (sint (rp_max_delay policy)) (sint scaled))"

text \<open>A policy whose largest shift does not overflow.\<close>

definition policy_ok :: "T_ReconnectPolicy \<Rightarrow> bool" where
  "policy_ok p \<longleftrightarrow> unat (rp_max_shift p) < 63 \<and> unat (rp_base_delay p) * 2 ^ unat (rp_max_shift p) < 2 ^ 63 \<and>
     unat (rp_max_delay p) < 2 ^ 63"

lemma sint_small: "unat (w :: u64) < 2 ^ 63 \<Longrightarrow> sint w = int (unat w)"
  unfolding sint_uint uint_nat by (rule signed_take_bit_int_eq_self) (simp_all del: of_nat_unat)

lemma reconnect_delay_exact:
  assumes "policy_ok p"
  shows "reconnect_delay p attempts =
    int (min (unat (rp_max_delay p)) (unat (rp_base_delay p) * 2 ^ min (unat attempts) (unat (rp_max_shift p))))"
proof -
  let ?k = "min (unat attempts) (unat (rp_max_shift p))"
  have k: "unat (clamp_shift attempts (rp_max_shift p)) = ?k" by (simp add: clamp_shift_def word_min_unat)
  have "unat (rp_base_delay p) * 2 ^ ?k \<le> unat (rp_base_delay p) * 2 ^ unat (rp_max_shift p)"
    by (intro mult_left_mono power_increasing) auto
  then have small: "unat (rp_base_delay p) * 2 ^ ?k < 2 ^ 63" using assms unfolding policy_ok_def by linarith
  have "unat (push_bit ?k (rp_base_delay p)) = unat (rp_base_delay p) * 2 ^ ?k"
    using small unat_word_of_nat_lt [where 'a = 64, of "unat (rp_base_delay p) * 2 ^ ?k"] by (simp add: push_bit_eq_mult)
  then have "sint (push_bit ?k (rp_base_delay p)) = int (unat (rp_base_delay p) * 2 ^ ?k)"
    using small by (simp only: sint_small)
  moreover have "sint (rp_max_delay p) = int (unat (rp_max_delay p))"
    using assms by (simp add: sint_small policy_ok_def)
  ultimately show ?thesis by (simp add: reconnect_delay_def k of_nat_min)
qed

lemma reconnect_delay_mono:
  assumes "policy_ok p" "a \<le> b"
  shows "reconnect_delay p a \<le> reconnect_delay p b" "0 \<le> reconnect_delay p a" "reconnect_delay p a \<le> int (unat (rp_max_delay p))"
proof -
  have "unat (rp_base_delay p) * 2 ^ min (unat a) (unat (rp_max_shift p)) \<le>
        unat (rp_base_delay p) * 2 ^ min (unat b) (unat (rp_max_shift p))"
    using assms(2) by (intro mult_left_mono power_increasing) (auto simp: word_le_unat)
  then show "reconnect_delay p a \<le> reconnect_delay p b"
    by (simp only: reconnect_delay_exact [OF assms(1)] of_nat_le_iff)
qed (simp_all only: reconnect_delay_exact [OF assms(1)] of_nat_le_iff of_nat_0_le_iff min.cobounded1)

end
