(* ===== verification/LineSet.thy ===== *)
theory LineSet
  imports Network
begin

text \<open>
  The sender's set of lines, \<open>T_SenderLineSet\<close> in src/src/network/yisync_network.cpp: connecting, losing and
  reconnecting a line. A connection is what the line set sees of it, open or closed; a pending connect
  and a timer are what the event loop can later report on. The callbacks of the owner are recorded as
  effects in the order they are made. The outcome of starting a connect is an argument: it depends on
  the system.
\<close>

section \<open>State\<close>

record Endpoint =
  ep_host :: string
  ep_port :: u16

record T_LineEndpoint =
  le_id :: LineId
  le_protocol :: EM_Protocol
  le_endpoint :: Endpoint
  le_name :: string

datatype connection_state = Conn_open | Conn_closed

datatype connector_state = Connect_pending | Connect_finished

record T_SenderLine =
  sl_endpoint :: T_LineEndpoint
  sl_connection :: "connection_state option"
  sl_connector :: "connector_state option"
  sl_connecting :: bool
  sl_reconnect_scheduled :: bool
  sl_reconnect_attempts :: u64

datatype line_effect =
    Eff_start_connect LineId
  | Eff_timer LineId int
  | Eff_start_connection LineId
  | Eff_close_connection LineId
  | Eff_connected LineId
  | Eff_unavailable LineId bool
  | Eff_send LineId T_Message

record T_SenderLineSet =
  ss_lines :: "T_SenderLine list"
  ss_reconnect_policy :: T_ReconnectPolicy
  ss_reconnects_enabled :: bool
  ss_timers :: "LineId list"
  ss_effects :: "line_effect list"

type_synonym outcome = "exn option \<times> T_SenderLineSet"

abbreviation sender_line_id :: "T_SenderLine \<Rightarrow> LineId" where
  "sender_line_id l \<equiv> le_id (sl_endpoint l)"

definition new_line :: "T_LineEndpoint \<Rightarrow> T_SenderLine" where
  "new_line endpoint = \<lparr>sl_endpoint = endpoint, sl_connection = None, sl_connector = None, sl_connecting = False,
     sl_reconnect_scheduled = False, sl_reconnect_attempts = 0\<rparr>"

lemma new_line_fields:
  "\<not> sl_connecting (new_line e)" "\<not> sl_reconnect_scheduled (new_line e)" "sl_connection (new_line e) = None"
  "sl_connector (new_line e) = None" "sl_endpoint (new_line e) = e"
  by (simp_all add: new_line_def)

definition make_SenderLineSet :: "T_LineEndpoint list \<Rightarrow> T_ReconnectPolicy \<Rightarrow> T_SenderLineSet" where
  "make_SenderLineSet endpoints policy = \<lparr>ss_lines = map new_line endpoints, ss_reconnect_policy = policy,
     ss_reconnects_enabled = True, ss_timers = [], ss_effects = []\<rparr>"

definition find_sender :: "T_SenderLineSet \<Rightarrow> LineId \<Rightarrow> T_SenderLine option" where
  "find_sender st i = List.find (\<lambda>l. sender_line_id l = i) (ss_lines st)"

text \<open>Writing through the reference \<open>find\<close> returns.\<close>

fun update_first :: "LineId \<Rightarrow> (T_SenderLine \<Rightarrow> T_SenderLine) \<Rightarrow> T_SenderLine list \<Rightarrow> T_SenderLine list" where
  "update_first i f [] = []"
| "update_first i f (l # ls) = (if sender_line_id l = i then f l # ls else l # update_first i f ls)"

definition update_sender :: "LineId \<Rightarrow> (T_SenderLine \<Rightarrow> T_SenderLine) \<Rightarrow> T_SenderLineSet \<Rightarrow> T_SenderLineSet" where
  "update_sender i f st = st\<lparr>ss_lines := update_first i f (ss_lines st)\<rparr>"

definition emit :: "line_effect \<Rightarrow> T_SenderLineSet \<Rightarrow> T_SenderLineSet" where
  "emit e st = st\<lparr>ss_effects := ss_effects st @ [e]\<rparr>"

definition on_sender :: "LineId \<Rightarrow> T_SenderLineSet \<Rightarrow> (T_SenderLine \<Rightarrow> outcome) \<Rightarrow> outcome" where
  "on_sender i st body =
     (case find_sender st i of
        None \<Rightarrow> (Some (runtime_error ''unknown sender network line''), st)
      | Some line \<Rightarrow> body line)"

definition line_can_send :: "T_SenderLine \<Rightarrow> bool" where
  "line_can_send line \<longleftrightarrow> sl_connection line = Some Conn_open"

section \<open>Operations\<close>

definition schedule_reconnect :: "LineId \<Rightarrow> T_SenderLineSet \<Rightarrow> outcome" where
  "schedule_reconnect i st = on_sender i st (\<lambda>line.
     if \<not> ss_reconnects_enabled st \<or> line_can_send line \<or> sl_connecting line \<or> sl_reconnect_scheduled line then (None, st)
     else
       let delay = reconnect_delay (ss_reconnect_policy st) (sl_reconnect_attempts line);
           st1 = update_sender i (\<lambda>l. l\<lparr>sl_reconnect_attempts := sl_reconnect_attempts l + 1, sl_reconnect_scheduled := True\<rparr>) st
       in (None, emit (Eff_timer i delay) (st1\<lparr>ss_timers := ss_timers st1 @ [i]\<rparr>)))"

lemma find_update_first:
  assumes "\<And>l. sender_line_id (f l) = sender_line_id l"
  shows "List.find (\<lambda>l. sender_line_id l = j) (update_first i f ls) =
    (if j = i then map_option f (List.find (\<lambda>l. sender_line_id l = j) ls) else List.find (\<lambda>l. sender_line_id l = j) ls)"
  by (induction ls) (auto simp: assms)

lemma find_update_sender:
  assumes "\<And>l. sender_line_id (f l) = sender_line_id l"
  shows "find_sender (update_sender i f st) j = (if j = i then map_option f (find_sender st j) else find_sender st j)"
  using find_update_first [OF assms] by (simp add: find_sender_def update_sender_def)

lemma find_sender_other [simp]:
  "find_sender (emit e st) i = find_sender st i"
  "find_sender (st\<lparr>ss_timers := ts\<rparr>) i = find_sender st i"
  "find_sender (st\<lparr>ss_reconnects_enabled := b\<rparr>) i = find_sender st i"
  by (simp_all add: find_sender_def emit_def)

lemma line_set_fields [simp]:
  "ss_reconnects_enabled (update_sender i f st) = ss_reconnects_enabled st"
  "ss_timers (update_sender i f st) = ss_timers st"
  "ss_effects (update_sender i f st) = ss_effects st"
  "ss_reconnect_policy (update_sender i f st) = ss_reconnect_policy st"
  "ss_reconnects_enabled (emit e st) = ss_reconnects_enabled st"
  "ss_timers (emit e st) = ss_timers st"
  "ss_reconnect_policy (emit e st) = ss_reconnect_policy st"
  by (simp_all add: update_sender_def emit_def)

definition needs_timer :: "T_SenderLineSet \<Rightarrow> T_SenderLine \<Rightarrow> bool" where
  "needs_timer st l \<longleftrightarrow> ss_reconnects_enabled st \<and> \<not> line_can_send l \<and> \<not> sl_connecting l \<and> \<not> sl_reconnect_scheduled l"

lemma schedule_find:
  "find_sender (snd (schedule_reconnect i st)) j =
     map_option (\<lambda>l. if j = i \<and> needs_timer st l
       then l\<lparr>sl_reconnect_attempts := sl_reconnect_attempts l + 1, sl_reconnect_scheduled := True\<rparr> else l) (find_sender st j)"
  by (cases "find_sender st i"; cases "j = i")
     (auto simp: schedule_reconnect_def on_sender_def Let_def find_update_sender option.map_ident needs_timer_def)

lemma schedule_fields:
  "ss_reconnects_enabled (snd (schedule_reconnect i st)) = ss_reconnects_enabled st"
  "ss_reconnect_policy (snd (schedule_reconnect i st)) = ss_reconnect_policy st"
  "ss_timers (snd (schedule_reconnect i st)) = ss_timers st @
     (case find_sender st i of Some l \<Rightarrow> if needs_timer st l then [i] else [] | None \<Rightarrow> [])"
  by (auto simp: schedule_reconnect_def on_sender_def Let_def needs_timer_def split: option.splits)

text \<open>\<open>mark_unavailable\<close> closes the connection it has moved out of the line; the close callback of that
  connection enters \<open>mark_unavailable\<close> again, which then finds no connection in the line.\<close>

definition moved_out :: "LineId \<Rightarrow> bool \<Rightarrow> T_SenderLineSet \<Rightarrow> T_SenderLineSet" where
  "moved_out i had_connection st =
     emit (Eff_unavailable i had_connection)
       (update_sender i (\<lambda>l. l\<lparr>sl_connecting := False, sl_connector := None, sl_connection := None\<rparr>) st)"

lemma moved_out_find:
  "find_sender (moved_out i b st) j =
     map_option (\<lambda>l. if j = i then l\<lparr>sl_connecting := False, sl_connector := None, sl_connection := None\<rparr> else l) (find_sender st j)"
  by (simp add: moved_out_def find_update_sender option.map_ident)

function (sequential) mark_unavailable :: "LineId \<Rightarrow> T_SenderLineSet \<Rightarrow> outcome" where
  "mark_unavailable i st =
     (case find_sender st i of
        None \<Rightarrow> (Some (runtime_error ''unknown sender network line''), st)
      | Some line \<Rightarrow>
          if \<not> line_can_send line \<and> \<not> sl_connecting line \<and> sl_reconnect_scheduled line then (None, st)
          else
            let st1 = moved_out i (sl_connection line \<noteq> None) st;
                st2 = (if ss_reconnects_enabled st1 then snd (schedule_reconnect i st1) else st1)
            in if sl_connection line = Some Conn_open
               then let st3 = emit (Eff_close_connection i) st2
                    in if ss_reconnects_enabled st3 then mark_unavailable i st3 else (None, st3)
               else (None, st2))"
  by pat_completeness auto

termination
proof (relation "measure (\<lambda>(i, st). case find_sender st i of Some l \<Rightarrow> if sl_connection l = None then 0 else 1 | None \<Rightarrow> 0)", goal_cases)
  case (2 i st line st1 st2 st3)
  then have l: "find_sender st i = Some line" by simp
  then have "\<exists>l'. find_sender st3 i = Some l' \<and> sl_connection l' = None"
    using 2 by (simp add: moved_out_find schedule_find)
  then show ?case using l 2 by auto
qed simp

declare mark_unavailable.simps [simp del]

definition connect_succeeded :: "LineId \<Rightarrow> T_SenderLineSet \<Rightarrow> outcome" where
  "connect_succeeded i st = on_sender i st (\<lambda>line.
     (None, emit (Eff_connected i) (emit (Eff_start_connection i)
       (update_sender i (\<lambda>l. l\<lparr>sl_connector := None, sl_connecting := False, sl_reconnect_scheduled := False,
          sl_reconnect_attempts := 0, sl_connection := Some Conn_open\<rparr>) st))))"

definition connect_failed :: "LineId \<Rightarrow> T_SenderLineSet \<Rightarrow> outcome" where
  "connect_failed i st = on_sender i st (\<lambda>line.
     schedule_reconnect i (emit (Eff_unavailable i False)
       (update_sender i (\<lambda>l. l\<lparr>sl_connector := None, sl_connecting := False\<rparr>) st)))"

text \<open>How \<open>async_connect_tcp\<close> returns: name resolution raises, the connect is in progress, or it
  succeeded or failed at once, in which case the callback has run before it returns.\<close>

datatype connect_start = Resolve_raises exn | In_progress | Connected_now | Failed_now

definition connect :: "connect_start \<Rightarrow> LineId \<Rightarrow> T_SenderLineSet \<Rightarrow> outcome" where
  "connect how i st = on_sender i st (\<lambda>line.
     if \<not> ss_reconnects_enabled st \<or> line_can_send line \<or> sl_connecting line then (None, st)
     else if le_protocol (sl_endpoint line) \<noteq> TCP then (Some (runtime_error ''only TCP sender lines are implemented''), st)
     else
       let st1 = emit (Eff_start_connect i) (update_sender i (\<lambda>l. l\<lparr>sl_reconnect_scheduled := False, sl_connecting := True\<rparr>) st)
       in case how of
            Resolve_raises e \<Rightarrow> (Some e, st1)
          | In_progress \<Rightarrow> (None, update_sender i (\<lambda>l. l\<lparr>sl_connector := Some Connect_pending\<rparr>) st1)
          | Connected_now \<Rightarrow>
              (None, update_sender i (\<lambda>l. l\<lparr>sl_connector := Some Connect_finished\<rparr>) (snd (connect_succeeded i st1)))
          | Failed_now \<Rightarrow>
              (None, update_sender i (\<lambda>l. l\<lparr>sl_connector := Some Connect_finished\<rparr>) (snd (connect_failed i st1))))"

definition reconnect_timer :: "connect_start \<Rightarrow> LineId \<Rightarrow> T_SenderLineSet \<Rightarrow> outcome" where
  "reconnect_timer how i st = on_sender i st (\<lambda>line.
     let st1 = update_sender i (\<lambda>l. l\<lparr>sl_reconnect_scheduled := False\<rparr>) st
     in if ss_reconnects_enabled st \<and> \<not> line_can_send line \<and> \<not> sl_connecting line then connect how i st1 else (None, st1))"

fun connect_lines :: "(LineId \<Rightarrow> connect_start) \<Rightarrow> LineId list \<Rightarrow> T_SenderLineSet \<Rightarrow> outcome" where
  "connect_lines how [] st = (None, st)"
| "connect_lines how (i # is) st =
     (case connect (how i) i st of (Some e, st1) \<Rightarrow> (Some e, st1) | (None, st1) \<Rightarrow> connect_lines how is st1)"

definition start_all :: "(LineId \<Rightarrow> connect_start) \<Rightarrow> T_SenderLineSet \<Rightarrow> outcome" where
  "start_all how st = connect_lines how (map sender_line_id (ss_lines st)) st"

definition stop_reconnects :: "T_SenderLineSet \<Rightarrow> T_SenderLineSet" where
  "stop_reconnects st = st\<lparr>ss_reconnects_enabled := False,
     ss_lines := map (\<lambda>l. l\<lparr>sl_reconnect_scheduled := False\<rparr>) (ss_lines st)\<rparr>"

text \<open>The open connection closes: its close callback tells the line set, unless it is stopping.\<close>

definition connection_closed :: "LineId \<Rightarrow> T_SenderLineSet \<Rightarrow> outcome" where
  "connection_closed i st =
     (let st1 = update_sender i (\<lambda>l. l\<lparr>sl_connection := Some Conn_closed\<rparr>) st
      in if \<not> ss_reconnects_enabled st1 then (None, st1) else mark_unavailable i st1)"

text \<open>The open connection fails: the error callback runs while it is still open, then it is closed
  if nothing has closed it yet.\<close>

definition connection_error :: "LineId \<Rightarrow> T_SenderLineSet \<Rightarrow> outcome" where
  "connection_error i st =
     (if \<not> ss_reconnects_enabled st then connection_closed i st else mark_unavailable i st)"

definition line_set_close :: "LineId \<Rightarrow> T_SenderLineSet \<Rightarrow> outcome" where
  "line_set_close i st = on_sender i st (\<lambda>line.
     let st1 = update_sender i (\<lambda>l. l\<lparr>sl_connecting := False, sl_connector := None\<rparr>) st;
         st2 = (if line_can_send line then snd (connection_closed i (emit (Eff_close_connection i) st1)) else st1)
     in (None, update_sender i (\<lambda>l. l\<lparr>sl_connection := None\<rparr>) st2))"

definition line_set_send :: "LineId \<Rightarrow> T_Message \<Rightarrow> T_SenderLineSet \<Rightarrow> outcome" where
  "line_set_send i msg st = on_sender i st (\<lambda>line.
     if \<not> line_can_send line then (Some (runtime_error ''sender line is not connected''), st)
     else (None, emit (Eff_send i msg) st))"

section \<open>A line is never abandoned\<close>

datatype phase = Up | Connecting | Waiting

text \<open>The phase a line is in while the set reconnects; every other combination of its fields is wrong.\<close>

definition in_phase :: "LineId list \<Rightarrow> T_SenderLine \<Rightarrow> phase \<Rightarrow> bool" where
  "in_phase timers l p =
     (case p of
        Up \<Rightarrow> line_can_send l \<and> \<not> sl_connecting l \<and> \<not> sl_reconnect_scheduled l \<and> sl_connector l \<noteq> Some Connect_pending
      | Connecting \<Rightarrow> sl_connection l = None \<and> sl_connecting l \<and> \<not> sl_reconnect_scheduled l \<and> sl_connector l = Some Connect_pending
      | Waiting \<Rightarrow> sl_connection l = None \<and> \<not> sl_connecting l \<and> sl_reconnect_scheduled l \<and> sl_connector l \<noteq> Some Connect_pending \<and>
          sender_line_id l \<in> set timers)"

definition has_phase :: "LineId list \<Rightarrow> T_SenderLine \<Rightarrow> bool" where
  "has_phase timers l \<longleftrightarrow> in_phase timers l Up \<or> in_phase timers l Connecting \<or> in_phase timers l Waiting"

lemma in_phase_unique: "in_phase ts l p \<Longrightarrow> in_phase ts l q \<Longrightarrow> p = q"
  by (cases p; cases q) (simp_all add: in_phase_def line_can_send_def)

definition attended :: "T_SenderLineSet \<Rightarrow> bool" where
  "attended st \<longleftrightarrow> (ss_reconnects_enabled st \<longrightarrow> (\<forall>i l. find_sender st i = Some l \<longrightarrow> has_phase (ss_timers st) l))"

lemma find_sender_id: "find_sender st i = Some l \<Longrightarrow> sender_line_id l = i"
  by (auto simp: find_sender_def find_Some_iff)

lemmas phase_defs = has_phase_def in_phase_def line_can_send_def needs_timer_def

lemma has_phase_mono: "has_phase ts l \<Longrightarrow> set ts \<subseteq> set ts' \<Longrightarrow> has_phase ts' l"
  by (auto simp: has_phase_def in_phase_def)

text \<open>What an operation on line \<open>i\<close> may do: leave the other lines alone, keep the timers of other lines,
  and leave line \<open>i\<close> in a phase.\<close>

definition touches :: "LineId \<Rightarrow> T_SenderLineSet \<Rightarrow> T_SenderLineSet \<Rightarrow> bool" where
  "touches i st st' \<longleftrightarrow>
     ss_reconnects_enabled st' = ss_reconnects_enabled st \<and>
     (\<forall>j. j \<noteq> i \<longrightarrow> find_sender st' j = find_sender st j \<and> (j \<in> set (ss_timers st) \<longrightarrow> j \<in> set (ss_timers st'))) \<and>
     (\<forall>l'. find_sender st' i = Some l' \<longrightarrow> has_phase (ss_timers st') l')"

lemma touches_attended:
  assumes "attended st" "touches i st st'" shows "attended st'"
  unfolding attended_def
proof (intro impI allI)
  fix j l' assume en: "ss_reconnects_enabled st'" and l': "find_sender st' j = Some l'"
  show "has_phase (ss_timers st') l'"
  proof (cases "j = i")
    case True then show ?thesis using assms(2) l' by (auto simp: touches_def)
  next
    case False
    then have st: "find_sender st j = Some l'" "j \<in> set (ss_timers st) \<longrightarrow> j \<in> set (ss_timers st')" "ss_reconnects_enabled st"
      using assms(2) l' en by (auto simp: touches_def)
    then have "has_phase (ss_timers st) l'" using assms(1) by (simp add: attended_def)
    then show ?thesis using st(2) find_sender_id [OF st(1)] by (auto simp: has_phase_def in_phase_def)
  qed
qed

lemma touches_schedule:
  assumes "find_sender st i = Some l" "ss_reconnects_enabled st" "sl_connection l = None" "\<not> sl_connecting l" "\<not> sl_reconnect_scheduled l"
    "sl_connector l \<noteq> Some Connect_pending"
  shows "touches i st (snd (schedule_reconnect i st))"
  using assms find_sender_id [OF assms(1)]
  by (auto simp: touches_def schedule_find schedule_fields phase_defs option.map_ident)

lemma touches_trans:
  "touches i st1 st2 \<Longrightarrow> ss_reconnects_enabled st1 = ss_reconnects_enabled st \<Longrightarrow> set (ss_timers st) \<subseteq> set (ss_timers st1) \<Longrightarrow>
   (\<And>j. j \<noteq> i \<Longrightarrow> find_sender st1 j = find_sender st j) \<Longrightarrow> touches i st st2"
  by (auto simp: touches_def)

lemma moved_out_fields [simp]:
  "ss_reconnects_enabled (moved_out i b st) = ss_reconnects_enabled st"
  "ss_timers (moved_out i b st) = ss_timers st"
  by (simp_all add: moved_out_def)

lemma mark_waiting: "find_sender st i = Some l \<Longrightarrow> in_phase ts l Waiting \<Longrightarrow> mark_unavailable i st = (None, st)"
  by (simp add: mark_unavailable.simps in_phase_def line_can_send_def)

lemma mark_touches:
  assumes "find_sender st i = Some l" "ss_reconnects_enabled st" "has_phase (ss_timers st) l \<or> \<not> sl_connecting l \<and> \<not> sl_reconnect_scheduled l"
  shows "touches i st (snd (mark_unavailable i st)) \<and> fst (mark_unavailable i st) = None"
proof (cases "in_phase (ss_timers st) l Waiting")
  case True
  then show ?thesis using mark_waiting [OF assms(1)] assms(1) by (auto simp: touches_def has_phase_def)
next
  case False
  let ?st1 = "moved_out i (sl_connection l \<noteq> None) st"
  let ?l1 = "l\<lparr>sl_connecting := False, sl_connector := None, sl_connection := None\<rparr>"
  let ?st2 = "snd (schedule_reconnect i ?st1)"
  have unsched: "\<not> sl_reconnect_scheduled l" using assms(3) False by (auto simp: has_phase_def in_phase_def)
  have l1: "find_sender ?st1 i = Some ?l1" using assms(1) by (simp add: moved_out_find)
  have t1: "touches i ?st1 ?st2" using l1 assms(2) unsched by (intro touches_schedule [OF l1]) auto
  have t: "touches i st ?st2"
    by (rule touches_trans [OF t1]) (auto simp: moved_out_find option.map_ident)
  let ?l2 = "?l1\<lparr>sl_reconnect_attempts := sl_reconnect_attempts l + 1, sl_reconnect_scheduled := True\<rparr>"
  have l2: "find_sender ?st2 i = Some ?l2"
    using l1 assms(2) unsched by (simp add: schedule_find needs_timer_def line_can_send_def)
  then have "in_phase (ss_timers ?st2) ?l2 Waiting"
    using t1 by (auto simp: touches_def has_phase_def in_phase_def line_can_send_def)
  then have again: "mark_unavailable i (emit e ?st2) = (None, emit e ?st2)" for e
    using mark_waiting [of "emit e ?st2" i ?l2] l2 by simp
  have t3: "touches i st (emit e ?st2)" for e using t by (simp add: touches_def)
  have "mark_unavailable i st =
      (if sl_connection l = Some Conn_open then mark_unavailable i (emit (Eff_close_connection i) ?st2) else (None, ?st2))"
    using assms(1,2) unsched by (subst mark_unavailable.simps) (simp add: Let_def schedule_fields)
  then show ?thesis using t t3 again [of "Eff_close_connection i"] by (simp split: if_splits)
qed

lemma connect_touches:
  assumes "find_sender st i = Some l" "ss_reconnects_enabled st" "\<not> line_can_send l" "\<not> sl_connecting l" "sl_connection l = None"
    "connect how i st = (None, st')"
  shows "touches i st st'"
proof -
  have id: "sender_line_id l = i" using find_sender_id [OF assms(1)] .
  then have "touches i st (snd (connect how i st))" using assms
    by (cases how)
       (auto simp: connect_def on_sender_def Let_def touches_def find_update_sender option.map_ident connect_succeeded_def
          connect_failed_def schedule_find schedule_fields phase_defs split: if_splits)
  then show ?thesis using assms(6) by simp
qed

text \<open>What can happen to a running line set.\<close>

inductive line_set_step :: "T_SenderLineSet \<Rightarrow> T_SenderLineSet \<Rightarrow> bool" where
  step_connected: "\<lbrakk>find_sender st i = Some l; sl_connector l = Some Connect_pending\<rbrakk> \<Longrightarrow> line_set_step st (snd (connect_succeeded i st))"
| step_connect_error: "\<lbrakk>find_sender st i = Some l; sl_connector l = Some Connect_pending\<rbrakk> \<Longrightarrow> line_set_step st (snd (connect_failed i st))"
| step_timer: "\<lbrakk>i \<in> set (ss_timers st); reconnect_timer how i (st\<lparr>ss_timers := remove1 i (ss_timers st)\<rparr>) = (None, st')\<rbrakk> \<Longrightarrow> line_set_step st st'"
| step_closed: "\<lbrakk>find_sender st i = Some l; sl_connection l = Some Conn_open\<rbrakk> \<Longrightarrow> line_set_step st (snd (connection_closed i st))"
| step_error: "\<lbrakk>find_sender st i = Some l; sl_connection l = Some Conn_open\<rbrakk> \<Longrightarrow> line_set_step st (snd (connection_error i st))"
| step_mark: "mark_unavailable i st = (None, st') \<Longrightarrow> line_set_step st st'"
| step_stop: "line_set_step st (stop_reconnects st)"

inductive_cases line_set_stepE: "line_set_step st st'"

lemma timer_touches:
  assumes "find_sender st i = Some l" "ss_reconnects_enabled st" "reconnect_timer how i st = (None, st')"
    "has_phase (i # ss_timers st) l"
  shows "touches i st st'"
proof (cases "in_phase (i # ss_timers st) l Waiting")
  case True
  let ?l1 = "l\<lparr>sl_reconnect_scheduled := False\<rparr>" and ?st1 = "update_sender i (\<lambda>l. l\<lparr>sl_reconnect_scheduled := False\<rparr>) st"
  have l1: "find_sender ?st1 i = Some ?l1" using assms(1) by (simp add: find_update_sender)
  have con: "connect how i ?st1 = (None, st')"
    using assms True by (auto simp: reconnect_timer_def on_sender_def Let_def in_phase_def line_can_send_def)
  have "touches i ?st1 st'"
    using True assms(2) by (intro connect_touches [OF l1 _ _ _ _ con]) (auto simp: in_phase_def line_can_send_def)
  then show ?thesis by (rule touches_trans) (auto simp: find_update_sender)
next
  case False
  then have "st' = update_sender i (\<lambda>l. l\<lparr>sl_reconnect_scheduled := False\<rparr>) st"
    using assms by (auto simp: reconnect_timer_def on_sender_def Let_def has_phase_def in_phase_def)
  moreover have "has_phase (ss_timers st) (l\<lparr>sl_reconnect_scheduled := False\<rparr>)"
    using assms(4) False by (auto simp: has_phase_def in_phase_def line_can_send_def)
  ultimately show ?thesis using assms(1) by (auto simp: touches_def find_update_sender)
qed

lemma timers_remove1: "touches i (st\<lparr>ss_timers := remove1 i (ss_timers st)\<rparr>) st' \<Longrightarrow> touches i st st'"
  by (auto simp: touches_def)

lemma connect_done_touches:
  assumes "find_sender st i = Some l" "ss_reconnects_enabled st" "in_phase (ss_timers st) l Connecting"
  shows "touches i st (snd (connect_succeeded i st))" "touches i st (snd (connect_failed i st))"
  using assms find_sender_id [OF assms(1)]
  by (auto simp: connect_succeeded_def connect_failed_def on_sender_def touches_def find_update_sender option.map_ident
      schedule_find schedule_fields phase_defs)

lemma closed_touches:
  assumes "find_sender st i = Some l" "ss_reconnects_enabled st" "in_phase (ss_timers st) l Up"
  shows "touches i st (snd (connection_closed i st))"
proof -
  let ?st1 = "update_sender i (\<lambda>l. l\<lparr>sl_connection := Some Conn_closed\<rparr>) st" and ?l1 = "l\<lparr>sl_connection := Some Conn_closed\<rparr>"
  have l1: "find_sender ?st1 i = Some ?l1" using assms(1) by (simp add: find_update_sender)
  have "touches i ?st1 (snd (mark_unavailable i ?st1))"
    using mark_touches [OF l1] assms(2,3) by (auto simp: in_phase_def)
  then have "touches i st (snd (mark_unavailable i ?st1))"
    by (rule touches_trans) (auto simp: find_update_sender)
  then show ?thesis using assms(2) by (simp add: connection_closed_def)
qed

lemma mark_unknown: "find_sender st i = None \<Longrightarrow> mark_unavailable i st = (Some (runtime_error ''unknown sender network line''), st)"
  by (simp add: mark_unavailable.simps)

lemma stopped_stays:
  "\<not> ss_reconnects_enabled st \<Longrightarrow> line_set_step st st' \<Longrightarrow> \<not> ss_reconnects_enabled st'"
proof (erule line_set_stepE, goal_cases)
  case (6 i)
  then show ?case by (auto simp: mark_unavailable.simps Let_def split: option.splits if_splits)
qed (auto simp: connect_succeeded_def connect_failed_def on_sender_def schedule_fields reconnect_timer_def connect_def Let_def
    connection_closed_def connection_error_def stop_reconnects_def split: option.splits if_splits)

lemma attendedD: "attended st \<Longrightarrow> ss_reconnects_enabled st \<Longrightarrow> find_sender st i = Some l \<Longrightarrow> has_phase (ss_timers st) l"
  by (simp add: attended_def)

lemma step_touches:
  assumes step: "line_set_step st st'" and att: "attended st" and en: "ss_reconnects_enabled st"
  shows "(\<exists>i. touches i st st') \<or> \<not> ss_reconnects_enabled st'"
  using step
proof cases
  case (step_connected i l)
  then show ?thesis
    using connect_done_touches [of st i l] attendedD [OF att en, of i l] en by (auto simp: has_phase_def in_phase_def)
next
  case (step_connect_error i l)
  then show ?thesis
    using connect_done_touches [of st i l] attendedD [OF att en, of i l] en by (auto simp: has_phase_def in_phase_def)
next
  case (step_timer i how)
  let ?st0 = "st\<lparr>ss_timers := remove1 i (ss_timers st)\<rparr>"
  obtain l where l: "find_sender ?st0 i = Some l"
    using step_timer(2) by (cases "find_sender st i") (auto simp: reconnect_timer_def on_sender_def)
  have "has_phase (i # ss_timers ?st0) l"
    using attendedD [OF att en, of i l] l by (auto elim!: has_phase_mono) (metis in_set_remove1)
  then show ?thesis using timers_remove1 timer_touches [OF l _ step_timer(2)] en by auto
next
  case (step_closed i l)
  then show ?thesis using closed_touches [of st i l] attendedD [OF att en, of i l] en by (auto simp: has_phase_def in_phase_def)
next
  case (step_error i l)
  then show ?thesis using mark_touches [of st i l] attendedD [OF att en, of i l] en by (auto simp: connection_error_def)
next
  case (step_mark i)
  then obtain l where "find_sender st i = Some l" using mark_unknown [of st i] by (cases "find_sender st i") auto
  then show ?thesis using mark_touches [of st i l] attendedD [OF att en, of i l] en step_mark by auto
qed (auto simp: stop_reconnects_def)

lemma step_attended: "line_set_step st st' \<Longrightarrow> attended st \<Longrightarrow> attended st'"
  using step_touches [of st st'] touches_attended [of st _ st'] stopped_stays [of st st']
  by (cases "ss_reconnects_enabled st") (auto simp: attended_def [of st'])

lemma connect_lines_attended:
  assumes "connect_lines how is st = (None, st')" "ss_reconnects_enabled st"
    "\<And>i l. find_sender st i = Some l \<Longrightarrow> has_phase (ss_timers st) l \<or> i \<in> set is \<and> l = new_line (sl_endpoint l)"
  shows "attended st'"
  using assms
proof (induction "is" arbitrary: st)
  case Nil then show ?case by (auto simp: attended_def)
next
  case (Cons i "is")
  then obtain st1 where st1: "connect (how i) i st = (None, st1)" "connect_lines how is st1 = (None, st')"
    by (auto split: prod.splits option.splits)
  then obtain l where l: "find_sender st i = Some l" by (cases "find_sender st i") (auto simp: connect_def on_sender_def)
  have t: "touches i st st1"
  proof (cases "has_phase (ss_timers st) l \<and> (line_can_send l \<or> sl_connecting l)")
    case True
    then have "st1 = st" using st1(1) l by (auto simp: connect_def on_sender_def)
    then show ?thesis using l True by (auto simp: touches_def)
  next
    case False
    then have "\<not> line_can_send l \<and> \<not> sl_connecting l \<and> sl_connection l = None"
      using Cons.prems(3) [OF l] new_line_fields [of "sl_endpoint l"] by (auto simp: has_phase_def in_phase_def line_can_send_def)
    then show ?thesis using connect_touches [OF l Cons.prems(2) _ _ _ st1(1)] by blast
  qed
  show ?case
  proof (rule Cons.IH [OF st1(2)])
    show "ss_reconnects_enabled st1" using t Cons.prems(2) by (simp add: touches_def)
    fix j k assume k: "find_sender st1 j = Some k"
    show "has_phase (ss_timers st1) k \<or> j \<in> set is \<and> k = new_line (sl_endpoint k)"
    proof (cases "j = i")
      case False
      then have k0: "find_sender st j = Some k" using t k by (simp add: touches_def)
      then show ?thesis using Cons.prems(3) [OF k0] False t find_sender_id [OF k0]
        by (auto simp: touches_def has_phase_def in_phase_def)
    qed (use t k in \<open>auto simp: touches_def\<close>)
  qed
qed

text \<open>C20: A line of the sender is never abandoned. Once \<open>start_all\<close> has returned, after any sequence of
  connects that succeed or fail, reconnect timers, connections that close or fail, calls of
  \<open>mark_unavailable\<close> and a stop, as long as reconnects are enabled every line is in exactly one of three
  situations: it has an open connection, it has a connect in progress, or it has a reconnect scheduled
  for which a timer is still outstanding.\<close>

theorem line_never_abandoned:
  assumes "start_all how (make_SenderLineSet endpoints policy) = (None, st0)"
    and "line_set_step\<^sup>*\<^sup>* st0 st" and "ss_reconnects_enabled st" and "find_sender st i = Some l"
  shows "\<exists>!p. in_phase (ss_timers st) l p"
proof -
  have "attended st0"
  proof (rule connect_lines_attended [OF assms(1) [unfolded start_all_def]])
    show "ss_reconnects_enabled (make_SenderLineSet endpoints policy)" by (simp add: make_SenderLineSet_def)
    fix i l assume l: "find_sender (make_SenderLineSet endpoints policy) i = Some l"
    then have "l \<in> set (ss_lines (make_SenderLineSet endpoints policy))"
      by (auto simp: find_sender_def find_Some_iff)
    then show "has_phase (ss_timers (make_SenderLineSet endpoints policy)) l \<or>
      i \<in> set (map sender_line_id (ss_lines (make_SenderLineSet endpoints policy))) \<and> l = new_line (sl_endpoint l)"
      using find_sender_id [OF l] by (auto simp: make_SenderLineSet_def new_line_fields)
  qed
  with assms(2) have "attended st" by (induction rule: rtranclp_induct) (auto intro: step_attended)
  then have "has_phase (ss_timers st) l" using assms(3,4) by (simp add: attended_def)
  then obtain p where "in_phase (ss_timers st) l p" by (auto simp: has_phase_def)
  then show ?thesis using in_phase_unique by blast
qed

definition sample_endpoint :: T_LineEndpoint where
  "sample_endpoint = \<lparr>le_id = 1, le_protocol = TCP, le_endpoint = \<lparr>ep_host = ''h'', ep_port = 9\<rparr>, le_name = ''a''\<rparr>"

text \<open>A line whose first connect fails at once waits for its timer.\<close>

theorem line_never_abandoned_witness:
  "let st = snd (start_all (\<lambda>_. Failed_now) (make_SenderLineSet [sample_endpoint] default_ReconnectPolicy)) in
   \<exists>!p. in_phase (ss_timers st) (the (find_sender st 1)) p"
proof -
  let ?st = "snd (start_all (\<lambda>_. Failed_now) (make_SenderLineSet [sample_endpoint] default_ReconnectPolicy))"
  note eval = start_all_def make_SenderLineSet_def connect_def on_sender_def find_sender_def new_line_def sample_endpoint_def
    line_can_send_def Let_def connect_failed_def schedule_reconnect_def update_sender_def emit_def
  have run: "start_all (\<lambda>_. Failed_now) (make_SenderLineSet [sample_endpoint] default_ReconnectPolicy) = (None, ?st)"
    and en: "ss_reconnects_enabled ?st" and l: "find_sender ?st 1 = Some (the (find_sender ?st 1))"
    by (simp_all add: eval)
  show ?thesis unfolding Let_def by (rule line_never_abandoned [OF run rtranclp.rtrancl_refl en l])
qed

end
