(* ===== verification/SenderNetwork.thy ===== *)
theory SenderNetwork
  imports LineSet
begin

text \<open>
  \<open>T_SenderNetwork\<close> of src/src/network/yisync_network.cpp: the line set, the scheduler, the HELLO negotiation of each
  connection and the queue of control messages put together. The effects of the line set that are
  callbacks of this class (a line connected, a line became unavailable) run their handlers here, in
  order; the callbacks of the application and everything handed to a line are recorded in a trace. The
  handlers do not touch the line they are called for except to send on it, so running them right after
  the operation of the line set that made the callback is what the program does.
\<close>

section \<open>State\<close>

record T_ControlMessage =
  cm_message :: T_Message
  cm_log_label :: string

record T_NetworkSendResult =
  sr_sent :: bool
  sr_line_id :: LineId
  sr_bytes :: u64

record T_NetworkControlResult =
  cr_queued :: bool
  cr_sent :: bool
  cr_line_id :: LineId

datatype net_event =
    Ev_connected LineId
  | Ev_unavailable LineId
  | Ev_negotiated LineId
  | Ev_sent LineId T_Message
  | App_message LineId T_Message
  | App_connected LineId
  | App_lost_sends "T_LostSend list"

record T_SenderNetwork =
  nw_lines :: T_SenderLineSet
  nw_scheduler :: T_MultiLineScheduler
  nw_local_hello :: T_Hello
  nw_negotiated_lines :: "LineId \<rightharpoonup> T_NegotiationResult"
  nw_control_queue :: "T_ControlMessage list"
  nw_trace :: "net_event list"

type_synonym net_outcome = "exn option \<times> T_SenderNetwork"

definition make_SenderNetwork ::
  "T_LineEndpoint list \<Rightarrow> T_LineConfig list \<Rightarrow> T_ReconnectPolicy \<Rightarrow> T_Hello \<Rightarrow> T_SenderNetwork result" where
  "make_SenderNetwork endpoints line_configs policy local_hello =
     (case make_scheduler line_configs of
        Inl e \<Rightarrow> Inl e
      | Inr scheduler \<Rightarrow>
          Inr \<lparr>nw_lines = make_SenderLineSet endpoints policy, nw_scheduler = scheduler, nw_local_hello = local_hello,
               nw_negotiated_lines = Map.empty, nw_control_queue = [], nw_trace = []\<rparr>)"

definition log_net :: "net_event \<Rightarrow> T_SenderNetwork \<Rightarrow> T_SenderNetwork" where
  "log_net ev st = st\<lparr>nw_trace := nw_trace st @ [ev]\<rparr>"

definition and_then :: "net_outcome \<Rightarrow> (T_SenderNetwork \<Rightarrow> net_outcome) \<Rightarrow> net_outcome" where
  "and_then r f = (case r of (Some e, st) \<Rightarrow> (Some e, st) | (None, st) \<Rightarrow> f st)"

definition with_scheduler ::
  "(T_MultiLineScheduler \<Rightarrow> T_MultiLineScheduler result) \<Rightarrow> T_SenderNetwork \<Rightarrow> net_outcome" where
  "with_scheduler f st =
     (case f (nw_scheduler st) of
        Inl e \<Rightarrow> (Some e, st)
      | Inr scheduler \<Rightarrow> (None, st\<lparr>nw_scheduler := scheduler\<rparr>))"

definition lines_send :: "LineId \<Rightarrow> T_Message \<Rightarrow> T_SenderNetwork \<Rightarrow> net_outcome" where
  "lines_send i msg st =
     (case line_set_send i msg (nw_lines st) of
        (Some e, _) \<Rightarrow> (Some e, st)
      | (None, _) \<Rightarrow> (None, log_net (Ev_sent i msg) st))"

definition lines_can_send :: "LineId \<Rightarrow> T_SenderNetwork \<Rightarrow> bool" where
  "lines_can_send i st = (case find_sender (nw_lines st) i of None \<Rightarrow> False | Some l \<Rightarrow> line_can_send l)"

section \<open>Handlers\<close>

definition handle_connected :: "LineId \<Rightarrow> T_SenderNetwork \<Rightarrow> net_outcome" where
  "handle_connected i st =
     and_then (with_scheduler (on_line_connected i) st) (\<lambda>st.
       lines_send i (Msg_Hello (nw_local_hello st))
         (log_net (Ev_connected i) (st\<lparr>nw_negotiated_lines := (nw_negotiated_lines st)(i := None)\<rparr>)))"

definition emit_lost_sends :: "T_SenderNetwork \<Rightarrow> T_SenderNetwork" where
  "emit_lost_sends st =
     (let (lost, scheduler) = take_lost_sends (nw_scheduler st);
          st1 = st\<lparr>nw_scheduler := scheduler\<rparr>
      in if lost \<noteq> [] then log_net (App_lost_sends lost) st1 else st1)"

definition handle_unavailable :: "LineId \<Rightarrow> bool \<Rightarrow> T_SenderNetwork \<Rightarrow> net_outcome" where
  "handle_unavailable i had_connection st =
     and_then (with_scheduler (on_line_disconnected i) st) (\<lambda>st.
       let st1 = log_net (Ev_unavailable i) (st\<lparr>nw_negotiated_lines := (nw_negotiated_lines st)(i := None)\<rparr>)
       in (None, if had_connection then emit_lost_sends st1 else st1))"

fun handle_effects :: "line_effect list \<Rightarrow> T_SenderNetwork \<Rightarrow> net_outcome" where
  "handle_effects [] st = (None, st)"
| "handle_effects (Eff_connected i # effs) st = and_then (handle_connected i st) (handle_effects effs)"
| "handle_effects (Eff_unavailable i had # effs) st = and_then (handle_unavailable i had st) (handle_effects effs)"
| "handle_effects (_ # effs) st = handle_effects effs st"

definition run_lines :: "(T_SenderLineSet \<Rightarrow> outcome) \<Rightarrow> T_SenderNetwork \<Rightarrow> net_outcome" where
  "run_lines f st =
     (let (e, ls) = f ((nw_lines st)\<lparr>ss_effects := []\<rparr>)
      in and_then (handle_effects (ss_effects ls) (st\<lparr>nw_lines := ls\<rparr>)) (\<lambda>st. (e, st)))"

definition net_mark_unavailable :: "LineId \<Rightarrow> T_SenderNetwork \<Rightarrow> net_outcome" where
  "net_mark_unavailable i = run_lines (mark_unavailable i)"

text \<open>\<open>flush_one_control\<close> returns the line it has used.\<close>

definition flush_one_control :: "T_SenderNetwork \<Rightarrow> LineId option \<times> net_outcome" where
  "flush_one_control st =
     (case nw_control_queue st of
        [] \<Rightarrow> (None, None, st)
      | control # rest \<Rightarrow>
          (case choose_control_line (nw_scheduler st) of
             None \<Rightarrow> (None, None, st)
           | Some i \<Rightarrow>
               if \<not> lines_can_send i st then (None, net_mark_unavailable i st)
               else
                 (case lines_send i (cm_message control) st of
                    (Some e, st1) \<Rightarrow> (None, Some e, st1)
                  | (None, st1) \<Rightarrow> (Some i, None, st1\<lparr>nw_control_queue := rest\<rparr>))))"

lemma lines_send_None: "lines_send i msg st = (None, st') \<Longrightarrow> st' = log_net (Ev_sent i msg) st"
  by (auto simp: lines_send_def split: prod.splits option.splits)

lemma flush_one_control_sends:
  assumes "flush_one_control st = (Some i, r, st')"
  shows "\<exists>control rest. nw_control_queue st = control # rest \<and> choose_control_line (nw_scheduler st) = Some i \<and>
    lines_can_send i st \<and> r = None \<and> st' = (log_net (Ev_sent i (cm_message control)) st)\<lparr>nw_control_queue := rest\<rparr>"
  using assms unfolding flush_one_control_def
  by (cases "nw_control_queue st"; cases "choose_control_line (nw_scheduler st)")
     (auto split: if_splits prod.splits option.splits dest: lines_send_None)

function flush_controls :: "T_SenderNetwork \<Rightarrow> net_outcome" where
  "flush_controls st =
     (case flush_one_control st of
        (Some i, _, st1) \<Rightarrow> flush_controls st1
      | (None, r) \<Rightarrow> r)"
  by auto
termination
  by (relation "measure (\<lambda>st. length (nw_control_queue st))") (auto dest!: flush_one_control_sends [OF sym])

declare flush_controls.simps [simp del]

definition net_handle_hello :: "LineId \<Rightarrow> T_Hello \<Rightarrow> T_SenderNetwork \<Rightarrow> net_outcome" where
  "net_handle_hello i hello st =
     (let result = negotiate_hello (nw_local_hello st) hello RECEIVER;
          st1 = st\<lparr>nw_negotiated_lines := (nw_negotiated_lines st)(i \<mapsto> result)\<rparr>
      in if \<not> ng_ok result
         then and_then (with_scheduler (on_line_protocol_error i) st1) (net_mark_unavailable i)
         else and_then (with_scheduler (on_line_negotiated i (ng_recv_window_bytes result)) (log_net (Ev_negotiated i) st1))
                (\<lambda>st. flush_controls (log_net (App_connected i) st)))"

definition net_handle_message :: "LineId \<Rightarrow> T_Message \<Rightarrow> T_SenderNetwork \<Rightarrow> net_outcome" where
  "net_handle_message i msg st =
     (case msg of
        Msg_Hello hello \<Rightarrow> net_handle_hello i hello st
      | _ \<Rightarrow>
          (case nw_negotiated_lines st i of
             Some result \<Rightarrow>
               if \<not> ng_ok result
               then and_then (with_scheduler (on_line_protocol_error i) st) (net_mark_unavailable i)
               else (None, log_net (App_message i msg) st)
           | None \<Rightarrow> and_then (with_scheduler (on_line_protocol_error i) st) (net_mark_unavailable i)))"

section \<open>Operations\<close>

definition net_start :: "(LineId \<Rightarrow> connect_start) \<Rightarrow> T_SenderNetwork \<Rightarrow> net_outcome" where
  "net_start how = run_lines (start_all how)"

definition net_stop :: "T_SenderNetwork \<Rightarrow> T_SenderNetwork" where
  "net_stop st = st\<lparr>nw_lines := stop_reconnects (nw_lines st)\<rparr>"

definition not_sent :: T_NetworkSendResult where
  "not_sent = \<lparr>sr_sent = False, sr_line_id = 0, sr_bytes = 0\<rparr>"

definition net_send :: "T_Message \<Rightarrow> T_SendRequest \<Rightarrow> T_SenderNetwork \<Rightarrow> T_NetworkSendResult \<times> net_outcome" where
  "net_send msg request st =
     (case flush_controls st of
        (Some e, st1) \<Rightarrow> (not_sent, Some e, st1)
      | (None, st1) \<Rightarrow>
          (case try_acquire request (nw_scheduler st1) of
             (None, scheduler) \<Rightarrow> (not_sent, None, st1\<lparr>nw_scheduler := scheduler\<rparr>)
           | (Some grant, scheduler) \<Rightarrow>
               let st2 = st1\<lparr>nw_scheduler := scheduler\<rparr>
               in if \<not> lines_can_send (gr_line_id grant) st2
                  then (not_sent, net_mark_unavailable (gr_line_id grant) st2)
                  else (case lines_send (gr_line_id grant) msg st2 of
                          (Some e, st3) \<Rightarrow> (not_sent, Some e, st3)
                        | (None, st3) \<Rightarrow>
                            (\<lparr>sr_sent = True, sr_line_id = gr_line_id grant, sr_bytes = gr_bytes grant\<rparr>, None, st3))))"

definition send_control :: "T_Message \<Rightarrow> string \<Rightarrow> T_SenderNetwork \<Rightarrow> T_NetworkControlResult \<times> net_outcome" where
  "send_control msg log_label st =
     (let st1 = st\<lparr>nw_control_queue := nw_control_queue st @ [\<lparr>cm_message = msg, cm_log_label = log_label\<rparr>]\<rparr>
      in case flush_one_control st1 of
           (Some i, r) \<Rightarrow> (\<lparr>cr_queued = True, cr_sent = True, cr_line_id = i\<rparr>, r)
         | (None, r) \<Rightarrow> (\<lparr>cr_queued = True, cr_sent = False, cr_line_id = 0\<rparr>, r))"

definition net_on_heartbeat :: "LineId \<Rightarrow> T_Heartbeat \<Rightarrow> T_SenderNetwork \<Rightarrow> net_outcome" where
  "net_on_heartbeat i hb = with_scheduler (on_heartbeat i hb)"

fun mark_stale :: "T_LineSnapshot list \<Rightarrow> T_SenderNetwork \<Rightarrow> net_outcome" where
  "mark_stale [] st = (None, st)"
| "mark_stale (snapshot # rest) st =
     (if sn_connected snapshot \<and> sn_stale snapshot \<and> sn_pending_sends snapshot > 0
      then and_then (net_mark_unavailable (sn_id snapshot) st) (mark_stale rest)
      else mark_stale rest st)"

definition net_refill_ticks :: "u64 \<Rightarrow> T_SenderNetwork \<Rightarrow> net_outcome" where
  "net_refill_ticks ticks st =
     (let st1 = st\<lparr>nw_scheduler := refill_ticks ticks (nw_scheduler st)\<rparr>
      in and_then (mark_stale (snapshots (nw_scheduler st1)) st1) flush_controls)"

section \<open>Nothing but HELLO before the negotiation\<close>

text \<open>Whether the newest connection of a line has been negotiated, read off the trace.\<close>

definition hello_update :: "LineId \<Rightarrow> bool \<Rightarrow> net_event \<Rightarrow> bool" where
  "hello_update i b ev =
     (case ev of
        Ev_connected j \<Rightarrow> if j = i then False else b
      | Ev_unavailable j \<Rightarrow> if j = i then False else b
      | Ev_negotiated j \<Rightarrow> if j = i then True else b
      | _ \<Rightarrow> b)"

definition hello_done :: "LineId \<Rightarrow> net_event list \<Rightarrow> bool" where
  "hello_done i tr = foldl (hello_update i) False tr"

definition polite_event :: "net_event list \<Rightarrow> net_event \<Rightarrow> bool" where
  "polite_event past ev =
     (case ev of
        Ev_sent i msg \<Rightarrow> (\<exists>hello. msg = Msg_Hello hello) \<or> hello_done i past
      | App_message i msg \<Rightarrow> hello_done i past
      | App_connected i \<Rightarrow> hello_done i past
      | _ \<Rightarrow> True)"

definition polite :: "net_event list \<Rightarrow> bool" where
  "polite tr \<longleftrightarrow> (\<forall>n < length tr. polite_event (take n tr) (tr ! n))"

lemma hello_done_snoc [simp]: "hello_done i (tr @ [ev]) = hello_update i (hello_done i tr) ev"
  by (simp add: hello_done_def)

lemma polite_snoc [simp]: "polite (tr @ [ev]) \<longleftrightarrow> polite tr \<and> polite_event tr ev"
  by (auto simp: polite_def nth_append less_Suc_eq)

definition line_flags :: "T_MultiLineScheduler \<Rightarrow> (LineId \<times> bool) list" where
  "line_flags s = map (\<lambda>l. (id_of_line l, ln_negotiated l)) (sc_lines s)"

definition negotiated_ids :: "T_MultiLineScheduler \<Rightarrow> LineId set" where
  "negotiated_ids s = {i. (i, True) \<in> set (line_flags s)}"

definition ids_distinct :: "T_MultiLineScheduler \<Rightarrow> bool" where
  "ids_distinct s \<longleftrightarrow> distinct (map fst (line_flags s))"

lemma modify_line_set:
  "distinct (map id_of_line ls) \<Longrightarrow> l' \<in> set (modify_line i f ls) \<Longrightarrow>
   (l' \<in> set ls \<and> id_of_line l' \<noteq> i) \<or> (\<exists>l \<in> set ls. id_of_line l = i \<and> l' = f l)"
proof (induction ls)
  case (Cons a ls)
  then show ?case by (cases "id_of_line a = i") (auto simp: image_iff)
qed simp

lemma with_line_ids:
  assumes "with_line i c f s = Inr s'" "\<And>l. id_of_line (f l) = id_of_line l" "ids_distinct s"
  shows "ids_distinct s'"
  using assms modify_line_ids [of "\<lambda>l. if c then clear_inflight (f l) else f l" i]
  by (auto simp: with_line_def ids_distinct_def line_flags_def clear_inflight_def comp_def split: option.splits)

lemma with_line_negotiated:
  assumes "with_line i c f s = Inr s'" "\<And>l. id_of_line (f l) = id_of_line l" "ids_distinct s"
  shows "negotiated_ids s' \<subseteq> insert i (negotiated_ids s)" "(\<And>l. \<not> ln_negotiated (f l)) \<Longrightarrow> negotiated_ids s' \<subseteq> negotiated_ids s - {i}"
proof -
  let ?g = "\<lambda>l. if c then clear_inflight (f l) else f l"
  have lines: "sc_lines s' = modify_line i ?g (sc_lines s)"
    using assms(1) by (auto simp: with_line_def split: option.splits)
  have g: "id_of_line (?g l) = id_of_line l" "ln_negotiated (?g l) = ln_negotiated (f l)" for l
    using assms(2) by (auto simp: clear_inflight_def)
  have "distinct (map id_of_line (sc_lines s))" using assms(3) by (simp add: ids_distinct_def line_flags_def comp_def)
  note each = modify_line_set [of "sc_lines s" _ i ?g, folded lines, OF this]
  have mem: "j \<in> negotiated_ids s' \<Longrightarrow> (j \<in> negotiated_ids s \<and> j \<noteq> i) \<or> (\<exists>l. j = i \<and> ln_negotiated (f l))" for j
  proof -
    assume "j \<in> negotiated_ids s'"
    then obtain l' where l': "l' \<in> set (sc_lines s')" "id_of_line l' = j" "ln_negotiated l'"
      by (auto simp: negotiated_ids_def line_flags_def)
    from each [OF l'(1)] show ?thesis
    proof
      assume "l' \<in> set (sc_lines s) \<and> id_of_line l' \<noteq> i"
      then show ?thesis using l' by (force simp: negotiated_ids_def line_flags_def)
    next
      assume "\<exists>l\<in>set (sc_lines s). id_of_line l = i \<and> l' = ?g l"
      then obtain l where "id_of_line l = i" "l' = ?g l" by blast
      then have "j = i \<and> ln_negotiated (f l)" using l' g by metis
      then show ?thesis by blast
    qed
  qed
  then show "negotiated_ids s' \<subseteq> insert i (negotiated_ids s)" by blast
  show "negotiated_ids s' \<subseteq> negotiated_ids s - {i}" if "\<And>l. \<not> ln_negotiated (f l)"
    using mem that by blast
qed

lemma usable_negotiated: "l \<in> set (sc_lines s) \<Longrightarrow> line_usable l \<Longrightarrow> id_of_line l \<in> negotiated_ids s"
  by (force simp: line_usable_def negotiated_ids_def line_flags_def)

lemma choose_control_negotiated: "choose_control_line s = Some i \<Longrightarrow> i \<in> negotiated_ids s"
  using scan_best_Some(1,2) [of control_score "sc_lines s"]
  by (auto simp: choose_control_line_def control_score_def split: if_splits intro!: usable_negotiated)

lemma try_acquire_negotiated:
  assumes "try_acquire rq s = (r, s')"
  shows "line_flags s' = line_flags s \<and> (\<forall>g. r = Some g \<longrightarrow> gr_line_id g \<in> negotiated_ids s)"
proof (cases r)
  case None
  then show ?thesis using try_acquire_None [of rq s s'] assms by simp
next
  case (Some g)
  with assms have "try_acquire rq s = (Some g, s')" by simp
  then obtain i where i: "i < length (sc_lines s)" "acquire_score rq (sc_lines s ! i) = Some (score_line (sc_lines s ! i) rq)"
    "g = \<lparr>gr_line_id = id_of_line (sc_lines s ! i), gr_bytes = rq_bytes rq\<rparr>"
    "s' = s\<lparr>sc_lines := (sc_lines s)[i := grant_on_line rq
         ((ln_bucket (sc_lines s ! i))\<lparr>bk_tokens := bk_tokens (ln_bucket (sc_lines s ! i)) - rq_bytes rq\<rparr>)
         (sc_lines s ! i)]\<rparr>"
    by (rule try_acquire_Some)
  then have "line_flags s' = line_flags s"
    by (auto simp: line_flags_def grant_on_line_def Let_def map_update intro!: nth_equalityI simp: nth_list_update)
  then show ?thesis
    using i(1,3) acquire_scoreD(1) [OF i(2)] Some by (auto intro!: usable_negotiated)
qed

definition net_inv :: "T_SenderNetwork \<Rightarrow> bool" where
  "net_inv st \<longleftrightarrow> ids_distinct (nw_scheduler st) \<and>
     (\<forall>i \<in> negotiated_ids (nw_scheduler st). hello_done i (nw_trace st)) \<and>
     (\<forall>i r. nw_negotiated_lines st i = Some r \<longrightarrow> ng_ok r \<longrightarrow> hello_done i (nw_trace st)) \<and> polite (nw_trace st)"

lemma net_inv_updates [simp]:
  "net_inv (st\<lparr>nw_lines := ls\<rparr>) = net_inv st" "net_inv (st\<lparr>nw_control_queue := q\<rparr>) = net_inv st"
  by (simp_all add: net_inv_def)

text \<open>A scheduler update that negotiates no line.\<close>

lemma net_inv_scheduler:
  "net_inv st \<Longrightarrow> negotiated_ids s \<subseteq> negotiated_ids (nw_scheduler st) \<Longrightarrow> ids_distinct s \<Longrightarrow> net_inv (st\<lparr>nw_scheduler := s\<rparr>)"
  by (auto simp: net_inv_def)

lemma flags_inv:
  "net_inv st \<Longrightarrow> line_flags s = line_flags (nw_scheduler st) \<Longrightarrow> net_inv (st\<lparr>nw_scheduler := s\<rparr>)"
  by (rule net_inv_scheduler) (auto simp: negotiated_ids_def net_inv_def ids_distinct_def)

lemma log_net_inv:
  "net_inv st \<Longrightarrow> polite_event (nw_trace st) ev \<Longrightarrow> (\<And>i b. hello_update i b ev = b) \<Longrightarrow> net_inv (log_net ev st)"
  by (auto simp: net_inv_def log_net_def)

lemma and_then_inv: "net_inv (snd r) \<Longrightarrow> (\<And>st. net_inv st \<Longrightarrow> net_inv (snd (f st))) \<Longrightarrow> net_inv (snd (and_then r f))"
  by (auto simp: and_then_def split: prod.splits option.splits)

lemma lines_send_inv:
  "net_inv st \<Longrightarrow> (\<exists>hello. msg = Msg_Hello hello) \<or> hello_done i (nw_trace st) \<Longrightarrow> net_inv (snd (lines_send i msg st))"
  by (auto simp: lines_send_def polite_event_def hello_update_def split: prod.splits option.splits intro!: log_net_inv)

text \<open>The line that goes down or comes up anew loses its negotiation in the scheduler, in
  \<open>negotiated_lines_\<close> and in the trace.\<close>

lemma line_reset_inv:
  assumes "net_inv st" "negotiated_ids s \<subseteq> negotiated_ids (nw_scheduler st) - {i}" "ids_distinct s"
    "ev = Ev_connected i \<or> ev = Ev_unavailable i"
  shows "net_inv (log_net ev (st\<lparr>nw_scheduler := s, nw_negotiated_lines := (nw_negotiated_lines st)(i := None)\<rparr>))"
  using assms by (auto simp: net_inv_def log_net_def hello_update_def polite_event_def)

lemma scheduler_reset:
  assumes "on_line_connected i s = Inr s' \<or> on_line_disconnected i s = Inr s' \<or> on_line_protocol_error i s = Inr s'" "ids_distinct s"
  shows "negotiated_ids s' \<subseteq> negotiated_ids s - {i}" "ids_distinct s'"
proof -
  from assms(1) obtain f where f: "with_line i True f s = Inr s'" "\<And>l. id_of_line (f l) = id_of_line l" "\<And>l. \<not> ln_negotiated (f l)"
    unfolding on_line_connected_def on_line_disconnected_def on_line_protocol_error_def by (elim disjE) auto
  show "negotiated_ids s' \<subseteq> negotiated_ids s - {i}" by (rule with_line_negotiated(2) [OF f(1,2) assms(2) f(3)])
  show "ids_distinct s'" by (rule with_line_ids [OF f(1,2) assms(2)])
qed

lemma net_inv_ids: "net_inv st \<Longrightarrow> ids_distinct (nw_scheduler st)"
  by (simp add: net_inv_def)

lemma handle_connected_inv: "net_inv st \<Longrightarrow> net_inv (snd (handle_connected i st))"
  using scheduler_reset [of i "nw_scheduler st"] net_inv_ids [of st]
  by (auto simp: handle_connected_def and_then_def with_scheduler_def split: sum.splits intro!: lines_send_inv line_reset_inv)

lemma emit_lost_sends_inv: "net_inv st \<Longrightarrow> net_inv (emit_lost_sends st)"
  by (auto simp: emit_lost_sends_def take_lost_sends_def Let_def line_flags_def polite_event_def hello_update_def
      intro!: log_net_inv flags_inv)

lemma handle_unavailable_inv: "net_inv st \<Longrightarrow> net_inv (snd (handle_unavailable i had st))"
  using scheduler_reset [of i "nw_scheduler st"] net_inv_ids [of st]
  by (auto simp: handle_unavailable_def and_then_def with_scheduler_def Let_def split: sum.splits
      intro!: emit_lost_sends_inv line_reset_inv)

lemma handle_effects_inv: "net_inv st \<Longrightarrow> net_inv (snd (handle_effects effs st))"
  by (induction effs st rule: handle_effects.induct)
     (auto intro!: and_then_inv intro: handle_connected_inv handle_unavailable_inv)

lemma run_lines_inv: "net_inv st \<Longrightarrow> net_inv (snd (run_lines f st))"
  by (auto simp: run_lines_def split: prod.splits intro!: and_then_inv handle_effects_inv)

lemma mark_inv: "net_inv st \<Longrightarrow> net_inv (snd (net_mark_unavailable i st))"
  by (simp add: net_mark_unavailable_def run_lines_inv)

lemma flush_one_control_inv: "net_inv st \<Longrightarrow> net_inv (snd (snd (flush_one_control st)))"
proof -
  assume inv: "net_inv st"
  have "net_inv (snd (lines_send i msg st))" if "choose_control_line (nw_scheduler st) = Some i" for i msg
    using choose_control_negotiated [OF that] inv by (intro lines_send_inv) (auto simp: net_inv_def)
  then have sent: "net_inv st1" if "choose_control_line (nw_scheduler st) = Some i" "lines_send i msg st = (r, st1)" for i msg r st1
    using that by (metis snd_conv)
  show ?thesis using inv unfolding flush_one_control_def
    by (auto split: list.splits option.splits prod.splits intro: mark_inv sent)
qed

lemma flush_controls_inv: "net_inv st \<Longrightarrow> net_inv (snd (flush_controls st))"
proof (induction st rule: flush_controls.induct)
  case (1 st)
  show ?case
    using flush_one_control_inv [OF 1(2)] 1
    by (subst flush_controls.simps) (auto split: prod.splits option.splits)
qed

lemma reject_inv:
  "net_inv st \<Longrightarrow> net_inv (snd (and_then (with_scheduler (on_line_protocol_error i) st) (net_mark_unavailable i)))"
  using scheduler_reset [of i "nw_scheduler st"] net_inv_ids [of st]
  by (intro and_then_inv mark_inv) (auto simp: with_scheduler_def split: sum.splits intro!: net_inv_scheduler)

lemma hello_inv: "net_inv st \<Longrightarrow> net_inv (snd (net_handle_hello i hello st))"
proof -
  assume inv: "net_inv st"
  define result where "result = negotiate_hello (nw_local_hello st) hello RECEIVER"
  let ?st1 = "st\<lparr>nw_negotiated_lines := (nw_negotiated_lines st)(i \<mapsto> result)\<rparr>"
  show ?thesis
  proof (cases "ng_ok result")
    case False
    then have "net_inv ?st1" using inv by (auto simp: net_inv_def)
    then show ?thesis using False
      by (simp add: net_handle_hello_def Let_def result_def [symmetric] reject_inv del: fun_upd_apply)
  next
    case True
    let ?st2 = "log_net (Ev_negotiated i) ?st1" and ?done = "\<lambda>st. hello_done i (nw_trace st)"
    have st2: "net_inv ?st2" "?done ?st2" using inv
      by (auto simp: net_inv_def log_net_def hello_update_def polite_event_def)
    have "net_inv (snd (flush_controls (log_net (App_connected i) (?st2\<lparr>nw_scheduler := s\<rparr>))))"
      if s: "on_line_negotiated i w (nw_scheduler st) = Inr s" for s w
    proof -
      have "ids_distinct s" using with_line_ids [OF s [unfolded on_line_negotiated_def]] inv by (simp add: net_inv_def)
      moreover have "negotiated_ids s \<subseteq> insert i (negotiated_ids (nw_scheduler st))"
        using with_line_negotiated(1) [OF s [unfolded on_line_negotiated_def]] inv by (simp add: net_inv_def)
      moreover have "nw_scheduler ?st2 = nw_scheduler st" by (simp add: log_net_def)
      ultimately have "net_inv (?st2\<lparr>nw_scheduler := s\<rparr>)" using st2 by (auto simp: net_inv_def)
      then show ?thesis using st2(2)
        by (intro flush_controls_inv log_net_inv) (auto simp: polite_event_def hello_update_def)
    qed
    moreover have "nw_scheduler ?st2 = nw_scheduler st" by (simp add: log_net_def)
    ultimately show ?thesis using True st2(1)
      by (auto simp: net_handle_hello_def Let_def result_def [symmetric] and_then_def with_scheduler_def split: sum.splits)
  qed
qed

lemma message_inv: "net_inv st \<Longrightarrow> net_inv (snd (net_handle_message i msg st))"
  by (cases msg)
     (auto simp: net_handle_message_def hello_inv reject_inv polite_event_def hello_update_def net_inv_def [of st]
       split: option.splits intro!: log_net_inv)

lemma send_inv: "net_inv st \<Longrightarrow> net_inv (snd (snd (net_send msg rq st)))"
proof -
  assume "net_inv st"
  then have f: "net_inv (snd (flush_controls st))" by (rule flush_controls_inv)
  obtain e st1 where st1: "flush_controls st = (e, st1)" by (cases "flush_controls st")
  obtain r s where s: "try_acquire rq (nw_scheduler st1) = (r, s)" by (cases "try_acquire rq (nw_scheduler st1)")
  note acq = try_acquire_negotiated [OF s]
  have inv: "net_inv (st1\<lparr>nw_scheduler := s\<rparr>)" using f st1 acq by (auto intro: flags_inv)
  have sent: "net_inv (snd (lines_send (gr_line_id g) msg (st1\<lparr>nw_scheduler := s\<rparr>)))" if "r = Some g" for g
    using f st1 acq that by (intro lines_send_inv inv) (auto simp: net_inv_def)
  then have sent': "net_inv st3" if "r = Some g" "lines_send (gr_line_id g) msg (st1\<lparr>nw_scheduler := s\<rparr>) = (x, st3)" for g x st3
    using that by (metis snd_conv)
  show ?thesis using f st1 s inv
    by (auto simp: net_send_def Let_def split: option.splits prod.splits intro: mark_inv sent')
qed

lemma control_inv: "net_inv st \<Longrightarrow> net_inv (snd (snd (send_control msg label st)))"
  using flush_one_control_inv [of "st\<lparr>nw_control_queue := nw_control_queue st @ [\<lparr>cm_message = msg, cm_log_label = label\<rparr>]\<rparr>"]
  by (auto simp: send_control_def Let_def split: option.splits prod.splits)

lemma mark_stale_inv: "net_inv st \<Longrightarrow> net_inv (snd (mark_stale snaps st))"
  by (induction snaps arbitrary: st) (auto intro!: and_then_inv mark_inv)

lemma refill_inv: "net_inv st \<Longrightarrow> net_inv (snd (net_refill_ticks t st))"
  unfolding net_refill_ticks_def Let_def
  by (intro and_then_inv mark_stale_inv flush_controls_inv flags_inv)
     (auto simp: line_flags_def refill_ticks_def refill_line_def Let_def)

text \<open>What can happen to the network. The application reports a heartbeat to the network only from
  within the message callback, that is on a line whose negotiation is in place.\<close>

inductive net_step :: "T_SenderNetwork \<Rightarrow> T_SenderNetwork \<Rightarrow> bool" where
  net_starts: "net_step st (snd (net_start how st))"
| net_stops: "net_step st (net_stop st)"
| net_sends: "net_step st (snd (snd (net_send msg rq st)))"
| net_controls: "net_step st (snd (snd (send_control msg label st)))"
| net_marks: "net_step st (snd (net_mark_unavailable i st))"
| net_refills: "net_step st (snd (net_refill_ticks t st))"
| net_receives: "net_step st (snd (net_handle_message i msg st))"
| net_heartbeats: "\<lbrakk>nw_negotiated_lines st i = Some r; ng_ok r\<rbrakk> \<Longrightarrow> net_step st (snd (net_on_heartbeat i hb st))"
| net_line_events: "f \<in> {connect_succeeded i, connect_failed i, connection_closed i, connection_error i, reconnect_timer how i}
    \<Longrightarrow> net_step st (snd (run_lines f st))"

lemma heartbeat_inv:
  assumes "net_inv st" "nw_negotiated_lines st i = Some r" "ng_ok r"
  shows "net_inv (snd (net_on_heartbeat i hb st))"
proof (cases "on_heartbeat i hb (nw_scheduler st)")
  case (Inr s)
  have id: "id_of_line (heartbeat_on_line hb l) = id_of_line l" for l by (simp add: heartbeat_on_line_def Let_def)
  note w = Inr [unfolded on_heartbeat_def]
  show ?thesis
    using assms with_line_ids [OF w id] with_line_negotiated(1) [OF w id] Inr
    by (auto simp: net_on_heartbeat_def with_scheduler_def net_inv_def)
qed (use assms in \<open>simp add: net_on_heartbeat_def with_scheduler_def\<close>)

lemma net_step_inv: "net_step st st' \<Longrightarrow> net_inv st \<Longrightarrow> net_inv st'"
  by (induction rule: net_step.induct)
     (auto simp: net_start_def net_stop_def run_lines_inv send_inv control_inv mark_inv refill_inv message_inv intro: heartbeat_inv)

lemma add_lines_flags:
  "add_lines ls cs = Inr ls' \<Longrightarrow> \<forall>c \<in> set cs. \<not> lc_initially_connected c \<Longrightarrow> \<forall>l \<in> set ls. \<not> ln_negotiated l \<Longrightarrow>
   \<forall>l \<in> set ls'. \<not> ln_negotiated l"
  by (induction ls cs rule: add_lines.induct) (auto simp: initial_line_def split: if_splits sum.splits)

lemma make_SenderNetwork_inv:
  assumes "make_SenderNetwork endpoints configs policy hello = Inr st" "\<forall>c \<in> set configs. \<not> lc_initially_connected c"
  shows "net_inv st"
proof -
  obtain s where s: "make_scheduler configs = Inr s" and st: "nw_scheduler st = s" "nw_negotiated_lines st = Map.empty" "nw_trace st = []"
    using assms(1) by (auto simp: make_SenderNetwork_def split: sum.splits)
  have "\<forall>l \<in> set (sc_lines s). \<not> ln_negotiated l"
    using s assms(2) add_lines_flags [of "[]" configs "sc_lines s"] by (auto simp: make_scheduler_def split: if_splits sum.splits)
  then show ?thesis using make_scheduler_ok [OF s] st
    by (auto simp: net_inv_def ids_distinct_def line_flags_def sched_ok_def comp_def negotiated_ids_def polite_def)
qed

text \<open>C19: On every line nothing but a HELLO is sent before the negotiation of the current connection has
  succeeded. Whatever happens to the sender's network (connects, losses, timers, sends, control
  messages, messages of the peer, ticks), each message handed to a line is a HELLO or comes after an
  accepted HELLO of that line with no reconnect or loss of the line in between, and the application
  only sees messages and connection reports of such lines.\<close>

theorem hello_before_business:
  assumes "make_SenderNetwork endpoints configs policy hello = Inr st0"
    and "\<forall>c \<in> set configs. \<not> lc_initially_connected c" and "net_step\<^sup>*\<^sup>* st0 st"
  shows "polite (nw_trace st)"
proof -
  have "net_inv st"
    using assms(3) make_SenderNetwork_inv [OF assms(1,2)] by (induction rule: rtranclp_induct) (auto intro: net_step_inv)
  then show ?thesis by (simp add: net_inv_def)
qed

definition sample_network :: T_SenderNetwork where
  "sample_network = \<lparr>nw_lines = make_SenderLineSet [sample_endpoint] default_ReconnectPolicy,
     nw_scheduler = \<lparr>sc_lines = [initial_line ((sample_line 1)\<lparr>lc_initially_connected := False\<rparr>) \<lparr>bk_config = sample_limiter, bk_tokens = 100\<rparr>],
       sc_lost_sends = []\<rparr>,
     nw_local_hello = make_hello SENDER ''a'' 4096 0, nw_negotiated_lines = Map.empty, nw_control_queue = [], nw_trace = []\<rparr>"

lemma sample_network_made:
  "make_SenderNetwork [sample_endpoint] [(sample_line 1)\<lparr>lc_initially_connected := False\<rparr>] default_ReconnectPolicy
     (make_hello SENDER ''a'' 4096 0) = Inr sample_network"
  by (simp add: make_SenderNetwork_def make_scheduler_def sample_network_def find_line_def sample_line_def sample_limiter_def
      make_TokenBucket_def)

text \<open>A line that connects at once sends its HELLO and nothing else.\<close>

theorem hello_before_business_witness:
  "let st = snd (net_start (\<lambda>_. Connected_now) sample_network) in
   polite (nw_trace st) \<and> nw_trace st = [Ev_connected 1, Ev_sent 1 (Msg_Hello (make_hello SENDER ''a'' 4096 0))]"
proof -
  let ?st = "snd (net_start (\<lambda>_. Connected_now) sample_network)"
  have "polite (nw_trace ?st)"
    by (rule hello_before_business [OF sample_network_made]) (auto intro: net_starts)
  moreover have "nw_trace ?st = [Ev_connected 1, Ev_sent 1 (Msg_Hello (make_hello SENDER ''a'' 4096 0))]"
    by (simp add: net_start_def run_lines_def sample_network_def start_all_def make_SenderLineSet_def connect_def on_sender_def
        find_sender_def new_line_def sample_endpoint_def line_can_send_def connect_succeeded_def update_sender_def emit_def
        handle_connected_def and_then_def with_scheduler_def on_line_connected_def with_line_def find_line_def
        initial_line_def sample_line_def lines_send_def line_set_send_def log_net_def)
  ultimately show ?thesis by (simp add: Let_def)
qed

end
