(* ===== verification/Heartbeats.thy ===== *)
theory Heartbeats
  imports Network
begin

text \<open>
  The batching of heartbeats at the receiver, \<open>T_ReceiverNetwork\<close> in src/src/network/yisync_network.cpp.
  Heartbeats of one line and stream are merged until enough chunk acknowledgements are gathered or a
  flush is asked for. The hash table of pending heartbeats is an association list whose iteration
  order is a parameter; a line that is not open makes \<open>send\<close> throw.
\<close>

section \<open>State\<close>

record T_HeartbeatKey =
  hk_line_id :: LineId
  hk_stream_id :: u64

record T_PendingHeartbeat =
  ph_heartbeat :: T_Heartbeat
  ph_dirty :: bool

record T_ReceiverHeartbeats =
  rh_pending_heartbeats :: "(T_HeartbeatKey \<times> T_PendingHeartbeat) list"
  rh_heartbeat_ack_batch_size :: u64
  rh_sent :: "(LineId \<times> T_Heartbeat) list"

definition empty_heartbeat :: T_Heartbeat where
  "empty_heartbeat = \<lparr>hb_stream_id = 0, hb_next_seq = 0, hb_file_id = 0, hb_offset = 0, hb_durable_offset = 0,
     hb_recv_window_bytes = 0, hb_received_chunks = [], hb_missing_ranges = []\<rparr>"

definition no_pending :: T_PendingHeartbeat where
  "no_pending = \<lparr>ph_heartbeat = empty_heartbeat, ph_dirty = False\<rparr>"

definition make_heartbeats :: "u64 \<Rightarrow> T_ReceiverHeartbeats" where
  "make_heartbeats batch = \<lparr>rh_pending_heartbeats = [], rh_heartbeat_ack_batch_size = batch, rh_sent = []\<rparr>"

definition find_pending :: "T_ReceiverHeartbeats \<Rightarrow> T_HeartbeatKey \<Rightarrow> T_PendingHeartbeat option" where
  "find_pending st key = map_of (rh_pending_heartbeats st) key"

definition set_pending :: "T_HeartbeatKey \<Rightarrow> T_PendingHeartbeat \<Rightarrow> T_ReceiverHeartbeats \<Rightarrow> T_ReceiverHeartbeats" where
  "set_pending key p st = st\<lparr>rh_pending_heartbeats := AList.update key p (rh_pending_heartbeats st)\<rparr>"

definition is_dirty :: "T_ReceiverHeartbeats \<Rightarrow> T_HeartbeatKey \<Rightarrow> bool" where
  "is_dirty st key \<longleftrightarrow> (case find_pending st key of None \<Rightarrow> False | Some p \<Rightarrow> ph_dirty p)"

section \<open>Operations\<close>

text \<open>An operation returns the exception it ends with, if any, and the state it leaves.\<close>

definition rx_send ::
  "(LineId \<Rightarrow> bool) \<Rightarrow> LineId \<Rightarrow> T_Heartbeat \<Rightarrow> T_ReceiverHeartbeats \<Rightarrow> exn option \<times> T_ReceiverHeartbeats" where
  "rx_send can_send line_id hb st =
     (if \<not> can_send line_id then (Some (runtime_error ''receiver line has no active connection''), st)
      else (None, st\<lparr>rh_sent := rh_sent st @ [(line_id, hb)]\<rparr>))"

text \<open>The loop both flushes share: the entry is reset before the heartbeat is handed to the line.\<close>

fun flush_keys ::
  "(LineId \<Rightarrow> bool) \<Rightarrow> (T_HeartbeatKey \<Rightarrow> LineId) \<Rightarrow> T_HeartbeatKey list \<Rightarrow> T_ReceiverHeartbeats \<Rightarrow>
   exn option \<times> T_ReceiverHeartbeats" where
  "flush_keys can_send line_of [] st = (None, st)"
| "flush_keys can_send line_of (key # keys) st =
     (case find_pending st key of
        None \<Rightarrow> flush_keys can_send line_of keys st
      | Some p \<Rightarrow>
          if \<not> ph_dirty p then flush_keys can_send line_of keys st
          else
            (case rx_send can_send (line_of key) (ph_heartbeat p) (set_pending key no_pending st) of
               (Some e, st1) \<Rightarrow> (Some e, st1)
             | (None, st1) \<Rightarrow> flush_keys can_send line_of keys st1))"

definition flush_heartbeats ::
  "(T_HeartbeatKey list \<Rightarrow> T_HeartbeatKey list) \<Rightarrow> (LineId \<Rightarrow> bool) \<Rightarrow> LineId \<Rightarrow> T_ReceiverHeartbeats \<Rightarrow>
   exn option \<times> T_ReceiverHeartbeats" where
  "flush_heartbeats order can_send line_id st =
     flush_keys can_send (\<lambda>_. line_id)
       (filter (\<lambda>key. is_dirty st key \<and> hk_line_id key = line_id) (order (map fst (rh_pending_heartbeats st)))) st"

definition flush_all_heartbeats ::
  "(T_HeartbeatKey list \<Rightarrow> T_HeartbeatKey list) \<Rightarrow> (LineId \<Rightarrow> bool) \<Rightarrow> T_ReceiverHeartbeats \<Rightarrow>
   exn option \<times> T_ReceiverHeartbeats" where
  "flush_all_heartbeats order can_send st =
     flush_keys can_send hk_line_id (filter (is_dirty st) (order (map fst (rh_pending_heartbeats st)))) st"

definition maybe_flush_heartbeat_batch ::
  "(T_HeartbeatKey list \<Rightarrow> T_HeartbeatKey list) \<Rightarrow> (LineId \<Rightarrow> bool) \<Rightarrow> LineId \<Rightarrow> T_HeartbeatKey \<Rightarrow>
   T_ReceiverHeartbeats \<Rightarrow> exn option \<times> T_ReceiverHeartbeats" where
  "maybe_flush_heartbeat_batch order can_send line_id key st =
     (if rh_heartbeat_ack_batch_size st = 0 then (None, st)
      else case find_pending st key of
        None \<Rightarrow> (None, st)
      | Some p \<Rightarrow>
          if \<not> ph_dirty p then (None, st)
          else if length (hb_received_chunks (ph_heartbeat p)) < unat (rh_heartbeat_ack_batch_size st) then (None, st)
          else flush_heartbeats order can_send line_id st)"

definition merge_heartbeat :: "T_Heartbeat \<Rightarrow> T_Heartbeat \<Rightarrow> T_Heartbeat" where
  "merge_heartbeat old hb =
     old\<lparr>hb_stream_id := hb_stream_id hb, hb_next_seq := hb_next_seq hb, hb_file_id := hb_file_id hb,
       hb_offset := hb_offset hb, hb_durable_offset := hb_durable_offset hb,
       hb_recv_window_bytes := hb_recv_window_bytes hb,
       hb_received_chunks := hb_received_chunks old @ hb_received_chunks hb,
       hb_missing_ranges := hb_missing_ranges hb\<rparr>"

definition queue_heartbeat ::
  "(T_HeartbeatKey list \<Rightarrow> T_HeartbeatKey list) \<Rightarrow> (LineId \<Rightarrow> bool) \<Rightarrow> LineId \<Rightarrow> T_Heartbeat \<Rightarrow>
   T_ReceiverHeartbeats \<Rightarrow> exn option \<times> T_ReceiverHeartbeats" where
  "queue_heartbeat order can_send line_id hb st =
     (let key = \<lparr>hk_line_id = line_id, hk_stream_id = hb_stream_id hb\<rparr>;
          pending = (case find_pending st key of None \<Rightarrow> no_pending | Some p \<Rightarrow> p)
      in if \<not> ph_dirty pending
         then maybe_flush_heartbeat_batch order can_send line_id key
                (set_pending key \<lparr>ph_heartbeat = hb, ph_dirty = True\<rparr> st)
         else maybe_flush_heartbeat_batch order can_send line_id key
                (set_pending key (pending\<lparr>ph_heartbeat := merge_heartbeat (ph_heartbeat pending) hb\<rparr>) st))"

definition set_heartbeat_ack_batch_size :: "u64 \<Rightarrow> T_ReceiverHeartbeats \<Rightarrow> T_ReceiverHeartbeats" where
  "set_heartbeat_ack_batch_size n st = st\<lparr>rh_heartbeat_ack_batch_size := n\<rparr>"

section \<open>Acknowledgements are conserved\<close>

text \<open>What the line has been given for a key, and what still waits.\<close>

definition sent_chunks :: "T_HeartbeatKey \<Rightarrow> T_ReceiverHeartbeats \<Rightarrow> T_ReceivedChunk list" where
  "sent_chunks key st = concat (map (\<lambda>(line, hb).
     if line = hk_line_id key \<and> hb_stream_id hb = hk_stream_id key then hb_received_chunks hb else []) (rh_sent st))"

definition waiting_chunks :: "T_HeartbeatKey \<Rightarrow> T_ReceiverHeartbeats \<Rightarrow> T_ReceivedChunk list" where
  "waiting_chunks key st =
     (case find_pending st key of None \<Rightarrow> [] | Some p \<Rightarrow> if ph_dirty p then hb_received_chunks (ph_heartbeat p) else [])"

definition chunk_ledger :: "T_HeartbeatKey \<Rightarrow> T_ReceiverHeartbeats \<Rightarrow> T_ReceivedChunk list" where
  "chunk_ledger key st = sent_chunks key st @ waiting_chunks key st"

definition heartbeats_ok :: "T_ReceiverHeartbeats \<Rightarrow> bool" where
  "heartbeats_ok st \<longleftrightarrow>
     (\<forall>key p. find_pending st key = Some p \<longrightarrow> ph_dirty p \<longrightarrow> hb_stream_id (ph_heartbeat p) = hk_stream_id key)"

lemma find_set_pending [simp]:
  "find_pending (set_pending key p st) k = (if k = key then Some p else find_pending st k)"
  by (simp add: find_pending_def set_pending_def update_conv')

lemma find_pending_sent [simp]: "find_pending (st\<lparr>rh_sent := xs\<rparr>) k = find_pending st k"
  by (simp add: find_pending_def)

lemma set_pending_fields [simp]:
  "rh_sent (set_pending key p st) = rh_sent st"
  "rh_heartbeat_ack_batch_size (set_pending key p st) = rh_heartbeat_ack_batch_size st"
  by (simp_all add: set_pending_def)

lemma no_pending_clean [simp]: "\<not> ph_dirty no_pending"
  by (simp add: no_pending_def)

lemma heartbeats_ok_set:
  "heartbeats_ok st \<Longrightarrow> (ph_dirty p \<Longrightarrow> hb_stream_id (ph_heartbeat p) = hk_stream_id key) \<Longrightarrow> heartbeats_ok (set_pending key p st)"
  by (auto simp: heartbeats_ok_def)

lemma heartbeats_ok_sent [simp]: "heartbeats_ok (st\<lparr>rh_sent := xs\<rparr>) = heartbeats_ok st"
  by (simp add: heartbeats_ok_def)

lemma flush_one:
  assumes "heartbeats_ok st" "find_pending st key = Some p" "ph_dirty p"
    "rx_send can_send (hk_line_id key) (ph_heartbeat p) (set_pending key no_pending st) = (None, st1)"
  shows "heartbeats_ok st1 \<and> chunk_ledger k st1 = chunk_ledger k st \<and>
     rh_heartbeat_ack_batch_size st1 = rh_heartbeat_ack_batch_size st \<and>
     (\<forall>k. find_pending st1 k = (if k = key then Some no_pending else find_pending st k))"
proof -
  have sid: "hb_stream_id (ph_heartbeat p) = hk_stream_id key" using assms by (auto simp: heartbeats_ok_def)
  have st1: "st1 = (set_pending key no_pending st)\<lparr>rh_sent := rh_sent st @ [(hk_line_id key, ph_heartbeat p)]\<rparr>"
    using assms(4) by (auto simp: rx_send_def split: if_splits)
  have eq: "k = key \<longleftrightarrow> hk_line_id key = hk_line_id k \<and> hk_stream_id key = hk_stream_id k" for k
    by (cases k; cases key) auto
  show ?thesis
    using assms(1-3) sid eq [of k]
    by (auto simp: st1 chunk_ledger_def sent_chunks_def waiting_chunks_def intro: heartbeats_ok_set)
qed

lemma flush_keys_ledger:
  assumes "heartbeats_ok st" "\<forall>key \<in> set keys. line_of key = hk_line_id key" "flush_keys can_send line_of keys st = (None, st')"
  shows "heartbeats_ok st' \<and> chunk_ledger k st' = chunk_ledger k st \<and>
     rh_heartbeat_ack_batch_size st' = rh_heartbeat_ack_batch_size st \<and>
     (\<forall>k. is_dirty st' k \<longleftrightarrow> is_dirty st k \<and> k \<notin> set keys) \<and>
     (\<forall>k. k \<notin> set keys \<longrightarrow> find_pending st' k = find_pending st k)"
  using assms
proof (induction keys arbitrary: st)
  case (Cons key keys)
  show ?case
  proof (cases "is_dirty st key")
    case False
    then have "flush_keys can_send line_of keys st = (None, st')"
      using Cons.prems(3) by (auto simp: is_dirty_def split: option.splits)
    from Cons.IH [OF Cons.prems(1) _ this] show ?thesis using False Cons.prems(2) by auto
  next
    case True
    then obtain p where p: "find_pending st key = Some p" "ph_dirty p" by (auto simp: is_dirty_def split: option.splits)
    then obtain st1 where st1: "rx_send can_send (hk_line_id key) (ph_heartbeat p) (set_pending key no_pending st) = (None, st1)"
      "flush_keys can_send line_of keys st1 = (None, st')"
      using Cons.prems by (auto split: prod.splits option.splits)
    note one = flush_one [OF Cons.prems(1) p st1(1), of k]
    have "\<forall>k. is_dirty st1 k \<longleftrightarrow> is_dirty st k \<and> k \<noteq> key"
      using one by (auto simp: is_dirty_def)
    then show ?thesis using Cons.IH [of st1] one Cons.prems(2) st1(2) by auto
  qed
qed auto

lemma flush_heartbeats_ledger:
  assumes "heartbeats_ok st" "flush_heartbeats order can_send line_id st = (None, st')"
  shows "heartbeats_ok st' \<and> chunk_ledger k st' = chunk_ledger k st \<and>
     rh_heartbeat_ack_batch_size st' = rh_heartbeat_ack_batch_size st \<and>
     (\<forall>k. is_dirty st' k \<longrightarrow> is_dirty st k \<and> find_pending st' k = find_pending st k)"
  using flush_keys_ledger [OF assms(1) _ assms(2) [unfolded flush_heartbeats_def]] by auto

definition below_batch :: "T_ReceiverHeartbeats \<Rightarrow> bool" where
  "below_batch st \<longleftrightarrow>
     (rh_heartbeat_ack_batch_size st = 0 \<or>
      (\<forall>key. length (waiting_chunks key st) < unat (rh_heartbeat_ack_batch_size st)))"

lemma waiting_cong: "find_pending st' k = find_pending st k \<Longrightarrow> waiting_chunks k st' = waiting_chunks k st"
  by (simp add: waiting_chunks_def)

lemma waiting_clean: "\<not> is_dirty st k \<Longrightarrow> waiting_chunks k st = []"
  by (auto simp: waiting_chunks_def is_dirty_def split: option.splits)

lemma below_batch_shrink:
  assumes "below_batch st" "rh_heartbeat_ack_batch_size st' = rh_heartbeat_ack_batch_size st"
    "\<And>k. is_dirty st' k \<Longrightarrow> find_pending st' k = find_pending st k"
  shows "below_batch st'"
proof -
  have "length (waiting_chunks k st') \<le> length (waiting_chunks k st)" for k
    using assms(3) [of k] waiting_cong [of st' k st] waiting_clean [of st' k] by (cases "is_dirty st' k") auto
  then show ?thesis using assms(1,2) by (auto simp: below_batch_def intro: le_less_trans)
qed

lemma is_dirty_in_keys: "is_dirty st k \<Longrightarrow> k \<in> set (map fst (rh_pending_heartbeats st))"
  by (force simp: is_dirty_def find_pending_def split: option.splits dest: map_of_SomeD)

lemma maybe_flush_cases:
  assumes "maybe_flush_heartbeat_batch order can_send line_id key st = (None, st')"
  shows "rh_heartbeat_ack_batch_size st = 0 \<and> st' = st \<or>
    st' = st \<and> length (waiting_chunks key st) < unat (rh_heartbeat_ack_batch_size st) \<or>
    st' = st \<and> rh_heartbeat_ack_batch_size st \<noteq> 0 \<and> \<not> is_dirty st key \<or>
    is_dirty st key \<and> flush_heartbeats order can_send line_id st = (None, st')"
  using assms unfolding maybe_flush_heartbeat_batch_def waiting_chunks_def is_dirty_def
  by (cases "find_pending st key") (simp_all split: if_splits)

lemma maybe_flush_ledger:
  assumes ok: "heartbeats_ok st" and order: "\<And>ks. set (order ks) = set ks"
    and below: "\<And>k. k \<noteq> key \<Longrightarrow> rh_heartbeat_ack_batch_size st = 0 \<or> length (waiting_chunks k st) < unat (rh_heartbeat_ack_batch_size st)"
    and line: "hk_line_id key = line_id"
    and res: "maybe_flush_heartbeat_batch order can_send line_id key st = (None, st')"
  shows "heartbeats_ok st' \<and> chunk_ledger k st' = chunk_ledger k st \<and> below_batch st' \<and>
    rh_heartbeat_ack_batch_size st' = rh_heartbeat_ack_batch_size st"
proof -
  let ?b = "rh_heartbeat_ack_batch_size st"
  consider (zero) "?b = 0" "st' = st" | (wait) "st' = st" "length (waiting_chunks key st) < unat ?b"
    | (clean) "st' = st" "?b \<noteq> 0" "\<not> is_dirty st key"
    | (flush) "is_dirty st key" "flush_heartbeats order can_send line_id st = (None, st')"
    using maybe_flush_cases [OF res] by blast
  then show ?thesis
  proof cases
    case zero then show ?thesis using ok by (simp add: below_batch_def)
  next
    case wait then show ?thesis using ok below unfolding below_batch_def by metis
  next
    case clean
    then have "length (waiting_chunks j st) < unat ?b" for j
      using below [of j] waiting_clean [of st key] unat_gt_0 [of ?b] by (cases "j = key") auto
    then show ?thesis using ok clean unfolding below_batch_def by auto
  next
    case flush
    let ?keys = "filter (\<lambda>k. is_dirty st k \<and> hk_line_id k = line_id) (order (map fst (rh_pending_heartbeats st)))"
    note ledger = flush_keys_ledger [OF ok _ flush(2) [unfolded flush_heartbeats_def], of k]
    have "key \<in> set ?keys" using flush(1) line order is_dirty_in_keys by auto
    then have "waiting_chunks j st' = [] \<or> j \<noteq> key \<and> waiting_chunks j st' = waiting_chunks j st" for j
      using ledger waiting_clean [of st' j] waiting_cong [of st' j st] by (cases "j \<in> set ?keys") auto
    then have "?b = 0 \<or> length (waiting_chunks j st') < unat ?b" for j
      using below [of j] unat_gt_0 [of ?b] by (metis list.size(3))
    then have "below_batch st'" using ledger unfolding below_batch_def by auto
    then show ?thesis using ledger by auto
  qed
qed

lemma queue_ledger:
  assumes ok: "heartbeats_ok st" and order: "\<And>ks. set (order ks) = set ks" and below: "below_batch st"
    and res: "queue_heartbeat order can_send line_id hb st = (None, st')"
  shows "heartbeats_ok st' \<and> below_batch st' \<and> rh_heartbeat_ack_batch_size st' = rh_heartbeat_ack_batch_size st \<and>
    chunk_ledger k st' = chunk_ledger k st @ (if k = \<lparr>hk_line_id = line_id, hk_stream_id = hb_stream_id hb\<rparr> then hb_received_chunks hb else [])"
proof -
  let ?key = "\<lparr>hk_line_id = line_id, hk_stream_id = hb_stream_id hb\<rparr>"
  define p where "p = (case find_pending st ?key of None \<Rightarrow> no_pending | Some p \<Rightarrow> p)"
  define q where "q = (if ph_dirty p then p\<lparr>ph_heartbeat := merge_heartbeat (ph_heartbeat p) hb\<rparr> else \<lparr>ph_heartbeat = hb, ph_dirty = True\<rparr>)"
  define st1 where "st1 = set_pending ?key q st"
  have st': "maybe_flush_heartbeat_batch order can_send line_id ?key st1 = (None, st')"
    using res by (auto simp: queue_heartbeat_def Let_def p_def [symmetric] q_def st1_def split: if_splits)
  have q: "ph_dirty q" "hb_stream_id (ph_heartbeat q) = hb_stream_id hb" by (auto simp: q_def merge_heartbeat_def)
  have ok1: "heartbeats_ok st1" unfolding st1_def using ok q by (intro heartbeats_ok_set) auto
  have w: "waiting_chunks j st1 = waiting_chunks j st @ (if j = ?key then hb_received_chunks hb else [])" for j
    by (auto simp: st1_def waiting_chunks_def q(1)) (auto simp: q_def p_def merge_heartbeat_def split: option.splits)
  have "chunk_ledger k st1 = chunk_ledger k st @ (if k = ?key then hb_received_chunks hb else [])"
    using w [of k] by (simp add: chunk_ledger_def sent_chunks_def st1_def)
  moreover have "rh_heartbeat_ack_batch_size st1 = rh_heartbeat_ack_batch_size st" by (simp add: st1_def)
  moreover have "j \<noteq> ?key \<Longrightarrow> rh_heartbeat_ack_batch_size st1 = 0 \<or>
      length (waiting_chunks j st1) < unat (rh_heartbeat_ack_batch_size st1)" for j
    using below w [of j] by (auto simp: below_batch_def st1_def)
  ultimately show ?thesis using maybe_flush_ledger [OF ok1 order _ _ st', of k] by auto
qed

text \<open>A run of the receiver: heartbeats queued and flushed while lines open and close.\<close>

datatype heartbeat_op =
    HB_Queue "LineId \<Rightarrow> bool" LineId T_Heartbeat
  | HB_Flush "LineId \<Rightarrow> bool" LineId
  | HB_Flush_all "LineId \<Rightarrow> bool"

fun heartbeat_exec ::
  "(T_HeartbeatKey list \<Rightarrow> T_HeartbeatKey list) \<Rightarrow> heartbeat_op \<Rightarrow> T_ReceiverHeartbeats \<Rightarrow>
   exn option \<times> T_ReceiverHeartbeats" where
  "heartbeat_exec order (HB_Queue can_send line_id hb) st = queue_heartbeat order can_send line_id hb st"
| "heartbeat_exec order (HB_Flush can_send line_id) st = flush_heartbeats order can_send line_id st"
| "heartbeat_exec order (HB_Flush_all can_send) st = flush_all_heartbeats order can_send st"

fun heartbeat_run ::
  "(T_HeartbeatKey list \<Rightarrow> T_HeartbeatKey list) \<Rightarrow> heartbeat_op list \<Rightarrow> T_ReceiverHeartbeats \<Rightarrow>
   exn option \<times> T_ReceiverHeartbeats" where
  "heartbeat_run order [] st = (None, st)"
| "heartbeat_run order (op # ops) st =
     (case heartbeat_exec order op st of
        (Some e, st1) \<Rightarrow> (Some e, st1)
      | (None, st1) \<Rightarrow> heartbeat_run order ops st1)"

fun queued_chunks :: "T_HeartbeatKey \<Rightarrow> heartbeat_op list \<Rightarrow> T_ReceivedChunk list" where
  "queued_chunks key [] = []"
| "queued_chunks key (HB_Queue can_send line_id hb # ops) =
     (if key = \<lparr>hk_line_id = line_id, hk_stream_id = hb_stream_id hb\<rparr> then hb_received_chunks hb else []) @ queued_chunks key ops"
| "queued_chunks key (_ # ops) = queued_chunks key ops"

lemma heartbeat_exec_ledger:
  assumes "heartbeats_ok st" "\<And>ks. set (order ks) = set ks" "below_batch st" "heartbeat_exec order op st = (None, st')"
  shows "heartbeats_ok st' \<and> below_batch st' \<and> rh_heartbeat_ack_batch_size st' = rh_heartbeat_ack_batch_size st \<and>
    chunk_ledger k st' = chunk_ledger k st @ queued_chunks k [op]"
proof (cases op)
  case (HB_Queue can_send line_id hb)
  then show ?thesis using queue_ledger [OF assms(1-3), of can_send line_id hb st' k] assms(4) by auto
next
  case (HB_Flush can_send line_id)
  then show ?thesis
    using flush_heartbeats_ledger [OF assms(1), of order can_send line_id st' k] assms(3,4) below_batch_shrink [of st st'] by auto
next
  case (HB_Flush_all can_send)
  have "heartbeats_ok st' \<and> chunk_ledger k st' = chunk_ledger k st \<and>
     rh_heartbeat_ack_batch_size st' = rh_heartbeat_ack_batch_size st \<and>
     (\<forall>k. is_dirty st' k \<longrightarrow> find_pending st' k = find_pending st k)"
    using flush_keys_ledger [OF assms(1) _ assms(4) [unfolded HB_Flush_all heartbeat_exec.simps flush_all_heartbeats_def], of k] by auto
  then show ?thesis using HB_Flush_all assms(3) below_batch_shrink [of st st'] by auto
qed

lemma queued_chunks_Cons: "queued_chunks key (op # ops) = queued_chunks key [op] @ queued_chunks key ops"
  by (cases op) auto

lemma heartbeat_run_ledger:
  assumes "heartbeats_ok st" "\<And>ks. set (order ks) = set ks" "below_batch st" "heartbeat_run order ops st = (None, st')"
  shows "below_batch st' \<and> rh_heartbeat_ack_batch_size st' = rh_heartbeat_ack_batch_size st \<and>
    chunk_ledger k st' = chunk_ledger k st @ queued_chunks k ops"
  using assms
proof (induction ops arbitrary: st)
  case (Cons op ops)
  then obtain st1 where st1: "heartbeat_exec order op st = (None, st1)" "heartbeat_run order ops st1 = (None, st')"
    by (auto split: prod.splits option.splits)
  show ?case
    using heartbeat_exec_ledger [OF Cons.prems(1-3) st1(1), of k] Cons.IH [of st1] Cons.prems(2) st1(2)
    by (auto simp: queued_chunks_Cons [of k op ops])
qed auto

text \<open>C32: No acknowledgement is lost or repeated by the batching. After any sequence of queued and
  flushed heartbeats that raised no exception, the chunk acknowledgements handed to a line for a
  stream, in order, followed by those still waiting, are exactly the queued ones in order; and with a
  batch size set, fewer than that many wait for any line and stream.\<close>

theorem heartbeats_conserved:
  assumes "\<And>ks. set (order ks) = set ks"
    and "heartbeat_run order ops (make_heartbeats batch) = (None, st)"
  shows "sent_chunks key st @ waiting_chunks key st = queued_chunks key ops \<and>
    (batch \<noteq> 0 \<longrightarrow> length (waiting_chunks key st) < unat batch)"
proof -
  have init: "heartbeats_ok (make_heartbeats batch)" "below_batch (make_heartbeats batch)"
    "chunk_ledger key (make_heartbeats batch) = []"
    by (auto simp: heartbeats_ok_def below_batch_def make_heartbeats_def find_pending_def waiting_chunks_def
        chunk_ledger_def sent_chunks_def unat_gt_0)
  note run = heartbeat_run_ledger [OF init(1) assms(1) init(2) assms(2), of key]
  have "sent_chunks key st @ waiting_chunks key st = queued_chunks key ops"
    using run init(3) by (simp add: chunk_ledger_def)
  moreover have "length (waiting_chunks key st) < unat batch" if "batch \<noteq> 0"
    using run that by (auto simp: below_batch_def make_heartbeats_def)
  ultimately show ?thesis by blast
qed

definition sample_heartbeat :: "u64 \<Rightarrow> u64 \<Rightarrow> T_Heartbeat" where
  "sample_heartbeat stream chunk = empty_heartbeat\<lparr>hb_stream_id := stream,
     hb_received_chunks := [\<lparr>rc_seq = 1, rc_file_id = 7, rc_chunk_index = chunk\<rparr>]\<rparr>"

definition sample_ops :: "heartbeat_op list" where
  "sample_ops = [HB_Queue (\<lambda>_. True) 1 (sample_heartbeat 5 0), HB_Queue (\<lambda>_. True) 1 (sample_heartbeat 6 0),
     HB_Queue (\<lambda>_. True) 1 (sample_heartbeat 5 1), HB_Queue (\<lambda>_. True) 1 (sample_heartbeat 5 2)]"

lemmas heartbeat_eval = make_heartbeats_def sample_ops_def sample_heartbeat_def empty_heartbeat_def queue_heartbeat_def
  maybe_flush_heartbeat_batch_def flush_heartbeats_def flush_all_heartbeats_def find_pending_def set_pending_def
  is_dirty_def rx_send_def merge_heartbeat_def no_pending_def

theorem heartbeats_conserved_witness:
  "let st = snd (heartbeat_run rev sample_ops (make_heartbeats 2)); key = \<lparr>hk_line_id = 1, hk_stream_id = 5\<rparr>
   in sent_chunks key st @ waiting_chunks key st = queued_chunks key sample_ops \<and> length (waiting_chunks key st) < 2"
proof -
  obtain st where st: "heartbeat_run rev sample_ops (make_heartbeats 2) = (None, st)"
    by (simp add: heartbeat_eval)
  show ?thesis using heartbeats_conserved [OF _ st, where key = "\<lparr>hk_line_id = 1, hk_stream_id = 5\<rparr>"] st by simp
qed

text \<open>A line that closes while acknowledgements wait: the next tick of the receiver raises out of
  \<open>flush_all_heartbeats\<close>, since closing a line does not clear its pending heartbeats, and those
  acknowledgements are gone.\<close>

lemma closed_line_breaks_flush:
  "let (e1, st1) = queue_heartbeat rev (\<lambda>_. True) 1 (sample_heartbeat 5 0) (make_heartbeats 20);
       (e2, st2) = flush_all_heartbeats rev (\<lambda>_. False) st1
   in e1 = None \<and> e2 = Some (runtime_error ''receiver line has no active connection'') \<and>
      chunk_ledger \<lparr>hk_line_id = 1, hk_stream_id = 5\<rparr> st2 = []"
  by (simp add: heartbeat_eval chunk_ledger_def sent_chunks_def waiting_chunks_def)

end
