(* ===== verification/ReceiverNetwork.thy ===== *)
theory ReceiverNetwork
  imports Heartbeats LineSet
begin

text \<open>
  \<open>T_ReceiverLineSet\<close> and \<open>T_ReceiverNetwork\<close> of src/src/network/yisync_network.cpp: one accepted connection per line,
  the negotiation of each, the delivery of messages to the application and the heartbeats of
  the theory Heartbeats on top. Listening is not modelled; an accepted descriptor is an event.
\<close>

section \<open>State\<close>

record T_ReceiverLine =
  rl_endpoint :: T_LineEndpoint
  rl_connection :: "connection_state option"

datatype rx_event =
    RX_rejected LineId
  | RX_accepted LineId
  | RX_closed LineId
  | RX_error LineId string
  | RX_negotiated LineId
  | RX_sent LineId T_Message
  | RX_message LineId T_Message

record T_ReceiverNetwork =
  rn_lines :: "T_ReceiverLine list"
  rn_local_hello :: T_Hello
  rn_negotiated_lines :: "LineId \<rightharpoonup> T_NegotiationResult"
  rn_heartbeats :: T_ReceiverHeartbeats
  rn_trace :: "rx_event list"

type_synonym rx_outcome = "exn option \<times> T_ReceiverNetwork"

definition make_ReceiverNetwork :: "T_LineEndpoint list \<Rightarrow> T_Hello \<Rightarrow> T_ReceiverNetwork" where
  "make_ReceiverNetwork endpoints local_hello =
     \<lparr>rn_lines = map (\<lambda>e. \<lparr>rl_endpoint = e, rl_connection = None\<rparr>) endpoints, rn_local_hello = local_hello,
      rn_negotiated_lines = Map.empty, rn_heartbeats = make_heartbeats 20, rn_trace = []\<rparr>"

definition rx_find :: "T_ReceiverNetwork \<Rightarrow> LineId \<Rightarrow> T_ReceiverLine option" where
  "rx_find st i = List.find (\<lambda>l. le_id (rl_endpoint l) = i) (rn_lines st)"

fun rx_update :: "LineId \<Rightarrow> (T_ReceiverLine \<Rightarrow> T_ReceiverLine) \<Rightarrow> T_ReceiverLine list \<Rightarrow> T_ReceiverLine list" where
  "rx_update i f [] = []"
| "rx_update i f (l # ls) = (if le_id (rl_endpoint l) = i then f l # ls else l # rx_update i f ls)"

definition set_connection :: "LineId \<Rightarrow> connection_state option \<Rightarrow> T_ReceiverNetwork \<Rightarrow> T_ReceiverNetwork" where
  "set_connection i c st = st\<lparr>rn_lines := rx_update i (\<lambda>l. l\<lparr>rl_connection := c\<rparr>) (rn_lines st)\<rparr>"

definition rx_log :: "rx_event \<Rightarrow> T_ReceiverNetwork \<Rightarrow> T_ReceiverNetwork" where
  "rx_log ev st = st\<lparr>rn_trace := rn_trace st @ [ev]\<rparr>"

definition erase_negotiated :: "LineId \<Rightarrow> T_ReceiverNetwork \<Rightarrow> T_ReceiverNetwork" where
  "erase_negotiated i st = st\<lparr>rn_negotiated_lines := (rn_negotiated_lines st)(i := None)\<rparr>"

definition on_line :: "LineId \<Rightarrow> T_ReceiverNetwork \<Rightarrow> (T_ReceiverLine \<Rightarrow> rx_outcome) \<Rightarrow> rx_outcome" where
  "on_line i st body =
     (case rx_find st i of
        None \<Rightarrow> (Some (runtime_error ''unknown receiver network line''), st)
      | Some line \<Rightarrow> body line)"

section \<open>Operations\<close>

definition rx_can_send :: "T_ReceiverNetwork \<Rightarrow> LineId \<Rightarrow> bool" where
  "rx_can_send st i = (case rx_find st i of None \<Rightarrow> False | Some l \<Rightarrow> rl_connection l = Some Conn_open)"

definition on_accept :: "LineId \<Rightarrow> T_ReceiverNetwork \<Rightarrow> rx_outcome" where
  "on_accept i st = on_line i st (\<lambda>line.
     if rl_connection line = Some Conn_open then (None, rx_log (RX_rejected i) st)
     else (None, rx_log (RX_accepted i) (erase_negotiated i (set_connection i (Some Conn_open) st))))"

text \<open>The connection of a line closes and its close callback runs.\<close>

definition rx_closed :: "LineId \<Rightarrow> T_ReceiverNetwork \<Rightarrow> T_ReceiverNetwork" where
  "rx_closed i st = rx_log (RX_closed i) (erase_negotiated i (set_connection i (Some Conn_closed) st))"

text \<open>The connection of a line fails: the error callback, then the close.\<close>

definition rx_failed :: "LineId \<Rightarrow> string \<Rightarrow> T_ReceiverNetwork \<Rightarrow> T_ReceiverNetwork" where
  "rx_failed i error st = rx_closed i (rx_log (RX_error i error) (erase_negotiated i st))"

definition rx_close :: "LineId \<Rightarrow> T_ReceiverNetwork \<Rightarrow> rx_outcome" where
  "rx_close i st = on_line i st (\<lambda>line.
     (None, set_connection i None (if rl_connection line = Some Conn_open then rx_closed i st else st)))"

definition rx_send_message :: "LineId \<Rightarrow> T_Message \<Rightarrow> T_ReceiverNetwork \<Rightarrow> rx_outcome" where
  "rx_send_message i msg st = on_line i st (\<lambda>line.
     if rl_connection line \<noteq> Some Conn_open then (Some (runtime_error ''receiver line has no active connection''), st)
     else (None, rx_log (RX_sent i msg) st))"

definition fail_protocol :: "LineId \<Rightarrow> string \<Rightarrow> T_ReceiverNetwork \<Rightarrow> rx_outcome" where
  "fail_protocol i error st =
     (case rx_close i (erase_negotiated i st) of
        (Some e, st1) \<Rightarrow> (Some e, st1)
      | (None, st1) \<Rightarrow> (None, rx_log (RX_error i error) st1))"

definition rx_handle_hello :: "LineId \<Rightarrow> T_Hello \<Rightarrow> T_ReceiverNetwork \<Rightarrow> rx_outcome" where
  "rx_handle_hello i hello st =
     (let result = negotiate_hello (rn_local_hello st) hello SENDER;
          st1 = st\<lparr>rn_negotiated_lines := (rn_negotiated_lines st)(i \<mapsto> result)\<rparr>
      in if \<not> ng_ok result then fail_protocol i (''negotiation failed: '' @ ng_error result) st1
         else rx_send_message i (Msg_Hello (rn_local_hello st1)) (rx_log (RX_negotiated i) st1))"

definition rx_handle_message :: "LineId \<Rightarrow> T_Message \<Rightarrow> T_ReceiverNetwork \<Rightarrow> rx_outcome" where
  "rx_handle_message i msg st =
     (case msg of
        Msg_Hello hello \<Rightarrow> rx_handle_hello i hello st
      | _ \<Rightarrow>
          (case rn_negotiated_lines st i of
             None \<Rightarrow> fail_protocol i ''business message before T_Hello negotiation'' st
           | Some result \<Rightarrow>
               if \<not> ng_ok result then fail_protocol i ''business message before T_Hello negotiation'' st
               else (None, rx_log (RX_message i msg) st)))"

text \<open>The heartbeat operations send through the lines of this network.\<close>

definition with_heartbeats ::
  "((LineId \<Rightarrow> bool) \<Rightarrow> T_ReceiverHeartbeats \<Rightarrow> exn option \<times> T_ReceiverHeartbeats) \<Rightarrow> T_ReceiverNetwork \<Rightarrow> rx_outcome" where
  "with_heartbeats f st =
     (let (e, hs) = f (rx_can_send st) ((rn_heartbeats st)\<lparr>rh_sent := []\<rparr>)
      in (e, st\<lparr>rn_heartbeats := hs,
            rn_trace := rn_trace st @ map (\<lambda>(i, hb). RX_sent i (Msg_Heartbeat hb)) (rh_sent hs)\<rparr>))"

section \<open>Only negotiated connections reach the application\<close>

definition rx_hello_update :: "LineId \<Rightarrow> bool \<Rightarrow> rx_event \<Rightarrow> bool" where
  "rx_hello_update i b ev =
     (case ev of
        RX_accepted j \<Rightarrow> if j = i then False else b
      | RX_closed j \<Rightarrow> if j = i then False else b
      | RX_negotiated j \<Rightarrow> if j = i then True else b
      | _ \<Rightarrow> b)"

definition rx_hello_done :: "LineId \<Rightarrow> rx_event list \<Rightarrow> bool" where
  "rx_hello_done i tr = foldl (rx_hello_update i) False tr"

definition rx_polite_event :: "rx_event list \<Rightarrow> rx_event \<Rightarrow> bool" where
  "rx_polite_event past ev =
     (case ev of
        RX_message i msg \<Rightarrow> rx_hello_done i past
      | RX_sent i (Msg_Hello hello) \<Rightarrow> rx_hello_done i past
      | _ \<Rightarrow> True)"

definition rx_polite :: "rx_event list \<Rightarrow> bool" where
  "rx_polite tr \<longleftrightarrow> (\<forall>n < length tr. rx_polite_event (take n tr) (tr ! n))"

definition rx_inv :: "T_ReceiverNetwork \<Rightarrow> bool" where
  "rx_inv st \<longleftrightarrow> rx_polite (rn_trace st) \<and>
     (\<forall>i r. rn_negotiated_lines st i = Some r \<longrightarrow> ng_ok r \<longrightarrow> rx_hello_done i (rn_trace st))"

lemma rx_hello_done_snoc [simp]: "rx_hello_done i (tr @ [ev]) = rx_hello_update i (rx_hello_done i tr) ev"
  by (simp add: rx_hello_done_def)

lemma rx_polite_snoc [simp]: "rx_polite (tr @ [ev]) \<longleftrightarrow> rx_polite tr \<and> rx_polite_event tr ev"
  by (auto simp: rx_polite_def nth_append less_Suc_eq)

lemma rx_inv_set_connection [simp]: "rx_inv (set_connection i c st) = rx_inv st"
  by (simp add: rx_inv_def set_connection_def)

lemma rx_inv_erase: "rx_inv st \<Longrightarrow> rx_inv (erase_negotiated i st)"
  by (auto simp: rx_inv_def erase_negotiated_def)

lemma rx_inv_log:
  "rx_inv st \<Longrightarrow> rx_polite_event (rn_trace st) ev \<Longrightarrow> (\<And>i b. rx_hello_update i b ev = b) \<Longrightarrow> rx_inv (rx_log ev st)"
  by (auto simp: rx_inv_def rx_log_def)

lemma rx_inv_reset:
  "rx_inv st \<Longrightarrow> ev = RX_accepted i \<or> ev = RX_closed i \<Longrightarrow> rx_inv (rx_log ev (erase_negotiated i st))"
  by (auto simp: rx_inv_def rx_log_def erase_negotiated_def rx_hello_update_def rx_polite_event_def)

lemmas rx_event_simps = rx_polite_event_def rx_hello_update_def

lemma rx_closed_inv: "rx_inv st \<Longrightarrow> rx_inv (rx_closed i st)"
  by (simp add: rx_closed_def rx_inv_reset)

lemma rx_failed_inv: "rx_inv st \<Longrightarrow> rx_inv (rx_failed i e st)"
  by (auto simp: rx_failed_def rx_event_simps intro!: rx_closed_inv rx_inv_log rx_inv_erase)

lemma on_accept_inv: "rx_inv st \<Longrightarrow> rx_inv (snd (on_accept i st))"
  by (auto simp: on_accept_def on_line_def rx_event_simps split: option.splits intro!: rx_inv_log rx_inv_reset)

lemma rx_close_inv: "rx_inv st \<Longrightarrow> rx_inv (snd (rx_close i st))"
  by (auto simp: rx_close_def on_line_def split: option.splits intro: rx_closed_inv)

lemma fail_protocol_inv: "rx_inv st \<Longrightarrow> rx_inv (snd (fail_protocol i e st))"
  using rx_close_inv [OF rx_inv_erase, of st i i]
  by (auto simp: fail_protocol_def rx_event_simps split: prod.splits option.splits intro!: rx_inv_log)

lemma rx_hello_inv:
  assumes inv: "rx_inv st" shows "rx_inv (snd (rx_handle_hello i hello st))"
proof (cases "ng_ok (negotiate_hello (rn_local_hello st) hello SENDER)")
  case False
  let ?st1 = "st\<lparr>rn_negotiated_lines := (rn_negotiated_lines st)(i \<mapsto> negotiate_hello (rn_local_hello st) hello SENDER)\<rparr>"
  have "rx_inv ?st1" using inv False by (auto simp: rx_inv_def)
  then show ?thesis using False by (simp add: rx_handle_hello_def Let_def fail_protocol_inv del: fun_upd_apply)
next
  case True
  let ?st2 = "rx_log (RX_negotiated i) (st\<lparr>rn_negotiated_lines := (rn_negotiated_lines st)(i \<mapsto> negotiate_hello (rn_local_hello st) hello SENDER)\<rparr>)"
  have "rx_inv ?st2" "rx_hello_done i (rn_trace ?st2)" using inv
    by (auto simp: rx_inv_def rx_log_def rx_event_simps)
  then have "rx_inv (snd (rx_send_message i (Msg_Hello h) ?st2))" for h
    by (auto simp: rx_send_message_def on_line_def rx_event_simps split: option.splits intro!: rx_inv_log)
  then show ?thesis using True by (simp add: rx_handle_hello_def Let_def del: fun_upd_apply)
qed

lemma rx_message_inv: "rx_inv st \<Longrightarrow> rx_inv (snd (rx_handle_message i msg st))"
  by (cases msg)
     (auto simp: rx_handle_message_def rx_hello_inv fail_protocol_inv rx_event_simps rx_inv_def [of st] split: option.splits intro!: rx_inv_log)

lemma rx_log_heartbeats: "rx_inv st \<Longrightarrow> rx_inv (st\<lparr>rn_trace := rn_trace st @ map (\<lambda>(i, hb). RX_sent i (Msg_Heartbeat hb)) xs\<rparr>)"
proof (induction xs rule: rev_induct)
  case (snoc x xs)
  then show ?case by (auto simp: rx_inv_def rx_event_simps append_assoc [symmetric] simp del: append_assoc split: prod.splits)
qed simp

lemma rx_heartbeats_inv: "rx_inv st \<Longrightarrow> rx_inv (snd (with_heartbeats f st))"
  using rx_log_heartbeats [of "st\<lparr>rn_heartbeats := snd (f (rx_can_send st) ((rn_heartbeats st)\<lparr>rh_sent := []\<rparr>))\<rparr>"
      "rh_sent (snd (f (rx_can_send st) ((rn_heartbeats st)\<lparr>rh_sent := []\<rparr>)))"]
  by (simp add: with_heartbeats_def rx_inv_def case_prod_unfold Let_def)

inductive rx_step :: "T_ReceiverNetwork \<Rightarrow> T_ReceiverNetwork \<Rightarrow> bool" where
  rx_accepts: "rx_step st (snd (on_accept i st))"
| rx_closes: "rx_step st (rx_closed i st)"
| rx_fails: "rx_step st (rx_failed i error st)"
| rx_receives: "rx_step st (snd (rx_handle_message i msg st))"
| rx_sends: "\<forall>hello. msg \<noteq> Msg_Hello hello \<Longrightarrow> rx_step st (snd (rx_send_message i msg st))"
| rx_queues: "rx_step st (snd (with_heartbeats (\<lambda>can_send. queue_heartbeat order can_send i hb) st))"
| rx_flushes: "rx_step st (snd (with_heartbeats (\<lambda>can_send. flush_heartbeats order can_send i) st))"
| rx_ticks: "rx_step st (snd (with_heartbeats (flush_all_heartbeats order) st))"

lemma rx_send_inv: "rx_inv st \<Longrightarrow> \<forall>hello. msg \<noteq> Msg_Hello hello \<Longrightarrow> rx_inv (snd (rx_send_message i msg st))"
  by (cases msg) (auto simp: rx_send_message_def on_line_def rx_event_simps split: option.splits intro!: rx_inv_log)

lemma rx_step_inv: "rx_step st st' \<Longrightarrow> rx_inv st \<Longrightarrow> rx_inv st'"
  by (induction rule: rx_step.induct)
     (auto intro: on_accept_inv rx_closed_inv rx_failed_inv rx_message_inv rx_heartbeats_inv rx_send_inv)

text \<open>The receiver hands a message to the application only if it came over a connection whose
  negotiation has succeeded: in every run of the receiver's network, each delivered message comes
  after an accepted HELLO of its line with no new connection and no close of the line in between; and
  the receiver's own HELLO is only sent in answer to an accepted one.\<close>

theorem receiver_hello_first:
  assumes "rx_step\<^sup>*\<^sup>* (make_ReceiverNetwork endpoints local_hello) st"
  shows "rx_polite (rn_trace st)"
proof -
  have "rx_inv (make_ReceiverNetwork endpoints local_hello)"
    by (simp add: rx_inv_def make_ReceiverNetwork_def rx_polite_def)
  with assms have "rx_inv st" by (induction rule: rtranclp_induct) (auto intro: rx_step_inv)
  then show ?thesis by (simp add: rx_inv_def)
qed

definition sample_rx :: T_ReceiverNetwork where
  "sample_rx = make_ReceiverNetwork [sample_endpoint] (make_hello RECEIVER ''r'' 4096 1)"

definition rx_hello_run :: T_ReceiverNetwork where
  "rx_hello_run = snd (rx_handle_message 1 (Msg_Hello (make_hello SENDER ''a'' 4096 0)) (snd (on_accept 1 sample_rx)))"

lemmas rx_eval = rx_hello_run_def sample_rx_def make_ReceiverNetwork_def on_accept_def on_line_def rx_find_def sample_endpoint_def
  rx_handle_message_def rx_handle_hello_def rx_send_message_def rx_log_def erase_negotiated_def set_connection_def

lemma sample_negotiation_ok: "ng_ok (negotiate_hello (make_hello RECEIVER ''r'' 4096 1) (make_hello SENDER ''a'' 4096 0) SENDER)"
  by (simp add: negotiate_hello_def make_hello_def kRequiredFeatureFlags_def kSupportedFeatureFlags_def)

theorem receiver_hello_first_witness:
  "rx_polite (rn_trace rx_hello_run) \<and>
   rn_trace rx_hello_run = [RX_accepted 1, RX_negotiated 1, RX_sent 1 (Msg_Hello (make_hello RECEIVER ''r'' 4096 1))]"
proof
  have "rx_step\<^sup>*\<^sup>* sample_rx rx_hello_run"
    unfolding rx_hello_run_def
    by (rule converse_rtranclp_into_rtranclp [of rx_step], rule rx_accepts [of _ 1], rule r_into_rtranclp, rule rx_receives)
  then show "rx_polite (rn_trace rx_hello_run)" unfolding sample_rx_def by (rule receiver_hello_first)
  show "rn_trace rx_hello_run = [RX_accepted 1, RX_negotiated 1, RX_sent 1 (Msg_Hello (make_hello RECEIVER ''r'' 4096 1))]"
    by (simp add: rx_eval sample_negotiation_ok)
qed

text \<open>The other direction is not guarded. Heartbeats that wait when a connection closes are flushed on
  the next connection of the line as soon as it is accepted, before its HELLO.\<close>

lemma stale_heartbeat_before_hello:
  "let queue = (\<lambda>can_send. queue_heartbeat rev can_send 1 (sample_heartbeat 5 0));
       st1 = snd (with_heartbeats queue rx_hello_run);
       st2 = snd (on_accept 1 (rx_closed 1 st1));
       st3 = snd (with_heartbeats (flush_all_heartbeats rev) st2)
   in drop 3 (rn_trace st3) = [RX_closed 1, RX_accepted 1, RX_sent 1 (Msg_Heartbeat (sample_heartbeat 5 0))]"
  by (simp add: rx_eval sample_negotiation_ok with_heartbeats_def heartbeat_eval rx_closed_def rx_can_send_def)

end
