(* ===== verification/Coordinator.thy ===== *)
theory Coordinator
  imports ChunkedReceiver
begin

text \<open>
  The receiver's coordinator, src/src/receiver/yisync_receiver_coordinator.cpp, and the map of stream contexts it works on,
  src/src/receiver/yisync_receiver_streams.cpp: it hands messages to the append and the chunked receiver of their
  stream, moves fsync and commit work to the disk thread and answers with heartbeats and nacks. The
  disk thread is the list of accepted tasks in the order it runs them (theory DiskWriter); whether
  \<open>enqueue\<close> has room is an argument. A commit completion is shared between the two threads: it lives in
  a heap and is addressed by its position. Log texts are not modelled.
\<close>

section \<open>State\<close>

record T_ChunkCommitCompletion =
  cc_completed :: bool
  cc_failed :: bool
  cc_error :: string

record T_ReceiverStreamContext =
  sx_stream_id :: u64
  sx_root :: path
  sx_append :: "T_ReceiverStream option"
  sx_chunk :: "T_ChunkedReceiverStream option"
  sx_append_durable_file_id :: u64
  sx_append_durable_path :: path
  sx_append_durable_offset :: u64
  sx_append_durable_target :: u64
  sx_append_fsync_active_target :: u64
  sx_append_heartbeat_line_id :: LineId
  sx_append_fsync_queued :: bool
  sx_append_fsync_completed :: u64
  sx_append_fsync_failed :: bool
  sx_append_fsync_error :: string
  sx_chunk_commit_queued :: bool
  sx_chunk_commit_line_id :: LineId
  sx_chunk_commit_seq :: u64
  sx_chunk_commit_file_id :: u64
  sx_chunk_commit_final_size :: u64
  sx_chunk_commit_final_path :: path
  sx_chunk_commit_completion :: "nat option"

definition new_context :: "u64 \<Rightarrow> path \<Rightarrow> T_ReceiverStreamContext" where
  "new_context stream_id root =
     \<lparr>sx_stream_id = stream_id, sx_root = root, sx_append = None, sx_chunk = None, sx_append_durable_file_id = 0,
      sx_append_durable_path = [], sx_append_durable_offset = 0, sx_append_durable_target = 0,
      sx_append_fsync_active_target = 0, sx_append_heartbeat_line_id = 0, sx_append_fsync_queued = False,
      sx_append_fsync_completed = 0, sx_append_fsync_failed = False, sx_append_fsync_error = [],
      sx_chunk_commit_queued = False, sx_chunk_commit_line_id = 0, sx_chunk_commit_seq = 0, sx_chunk_commit_file_id = 0,
      sx_chunk_commit_final_size = 0, sx_chunk_commit_final_path = [], sx_chunk_commit_completion = None\<rparr>"

datatype disk_task =
    Fsync_append u64 path u64
  | Commit_chunks T_ChunkCommitTask nat

record T_ReceiverCoordinator =
  co_default_root :: path
  co_default_stream_id :: u64
  co_roots :: "(u64 \<times> path) list option"
  co_streams :: "(u64 \<times> T_ReceiverStreamContext) list"
  co_recv_window_bytes :: u64
  co_max_missing_ranges_per_heartbeat :: u64
  co_completions :: "T_ChunkCommitCompletion list"
  co_disk_tasks :: "disk_task list"
  co_fs :: filesystem

record T_ReceiverHeartbeatAction =
  ha_line_id :: LineId
  ha_heartbeat :: T_Heartbeat
  ha_flush :: bool
  ha_only_if_line_open :: bool

record T_ReceiverNackAction =
  na_line_id :: LineId
  na_nack :: T_Nack
  na_only_if_line_open :: bool

record T_ReceiverActionBatch =
  ab_heartbeats :: "T_ReceiverHeartbeatAction list"
  ab_nacks :: "T_ReceiverNackAction list"
  ab_schedule_quiet_stop :: bool
  ab_schedule_commit_poll :: bool
  ab_failed :: bool
  ab_failure :: string

definition no_actions :: T_ReceiverActionBatch where
  "no_actions = \<lparr>ab_heartbeats = [], ab_nacks = [], ab_schedule_quiet_stop = False, ab_schedule_commit_poll = False,
     ab_failed = False, ab_failure = []\<rparr>"

definition nack_only :: "LineId \<Rightarrow> T_Nack \<Rightarrow> T_ReceiverActionBatch" where
  "nack_only line_id n = no_actions\<lparr>ab_nacks := [\<lparr>na_line_id = line_id, na_nack = n, na_only_if_line_open = False\<rparr>]\<rparr>"

type_synonym coord_outcome = "T_ReceiverActionBatch result \<times> T_ReceiverCoordinator"

section \<open>Stream contexts\<close>

definition stream_root_for :: "T_ReceiverCoordinator \<Rightarrow> u64 \<Rightarrow> path" where
  "stream_root_for st stream_id =
     (case (case co_roots st of None \<Rightarrow> None | Some roots \<Rightarrow> map_of roots stream_id) of
        Some root \<Rightarrow> root
      | None \<Rightarrow>
          if stream_id = co_default_stream_id st then co_default_root st
          else co_default_root st @ [to_string (unat stream_id)])"

abbreviation find_context :: "T_ReceiverCoordinator \<Rightarrow> u64 \<Rightarrow> T_ReceiverStreamContext option" where
  "find_context st stream_id \<equiv> map_of (co_streams st) stream_id"

definition update_context ::
  "u64 \<Rightarrow> (T_ReceiverStreamContext \<Rightarrow> T_ReceiverStreamContext) \<Rightarrow> T_ReceiverCoordinator \<Rightarrow> T_ReceiverCoordinator" where
  "update_context stream_id f st = st\<lparr>co_streams := AList.map_entry stream_id f (co_streams st)\<rparr>"

definition context_for ::
  "system \<Rightarrow> u64 \<Rightarrow> T_ReceiverCoordinator \<Rightarrow> T_ReceiverStreamContext result \<times> T_ReceiverCoordinator" where
  "context_for sys stream_id st =
     (case find_context st stream_id of
        Some context \<Rightarrow> (Inr context, st)
      | None \<Rightarrow>
          (let context = new_context stream_id (stream_root_for st stream_id)
           in case create_directories sys (co_fs st) (sx_root context) of
                (Some m, fs) \<Rightarrow> (Inl (filesystem_error m), st\<lparr>co_fs := fs\<rparr>)
              | (None, fs) \<Rightarrow>
                  (Inr context, st\<lparr>co_fs := fs, co_streams := AList.update stream_id context (co_streams st)\<rparr>)))"

definition append_receiver_for ::
  "system \<Rightarrow> u64 \<Rightarrow> T_ReceiverCoordinator \<Rightarrow> T_ReceiverStream result \<times> T_ReceiverCoordinator" where
  "append_receiver_for sys stream_id st =
     (case context_for sys stream_id st of
        (Inl e, st1) \<Rightarrow> (Inl e, st1)
      | (Inr context, st1) \<Rightarrow>
          (case sx_append context of
             Some receiver \<Rightarrow> (Inr receiver, st1)
           | None \<Rightarrow>
               (case make_ReceiverStream sys (co_fs st1) stream_id (sx_root context) of
                  (Inl e, fs) \<Rightarrow> (Inl e, st1\<lparr>co_fs := fs\<rparr>)
                | (Inr receiver, fs) \<Rightarrow>
                    (Inr receiver, update_context stream_id (\<lambda>c. c\<lparr>sx_append := Some receiver\<rparr>) (st1\<lparr>co_fs := fs\<rparr>)))))"

definition chunk_receiver_for ::
  "system \<Rightarrow> u64 \<Rightarrow> T_ReceiverCoordinator \<Rightarrow> T_ChunkedReceiverStream result \<times> T_ReceiverCoordinator" where
  "chunk_receiver_for sys stream_id st =
     (case context_for sys stream_id st of
        (Inl e, st1) \<Rightarrow> (Inl e, st1)
      | (Inr context, st1) \<Rightarrow>
          (case sx_chunk context of
             Some receiver \<Rightarrow> (Inr receiver, st1)
           | None \<Rightarrow>
               (case make_ChunkedReceiverStream sys (co_fs st1) stream_id (sx_root context) of
                  (Inl e, fs) \<Rightarrow> (Inl e, st1\<lparr>co_fs := fs\<rparr>)
                | (Inr receiver, fs) \<Rightarrow>
                    (Inr receiver, update_context stream_id (\<lambda>c. c\<lparr>sx_chunk := Some receiver\<rparr>) (st1\<lparr>co_fs := fs\<rparr>)))))"

definition append_durable_idle :: "T_ReceiverCoordinator \<Rightarrow> bool" where
  "append_durable_idle st \<longleftrightarrow>
     list_all (\<lambda>(stream_id, context).
       \<not> (sx_append_fsync_queued context \<or> sx_append_durable_target context > sx_append_durable_offset context) \<and>
       \<not> sx_chunk_commit_queued context) (co_streams st)"

definition has_pending_chunk_commit :: "T_ReceiverCoordinator \<Rightarrow> bool" where
  "has_pending_chunk_commit st \<longleftrightarrow> list_ex (\<lambda>(stream_id, context). sx_chunk_commit_queued context) (co_streams st)"

text \<open>\<open>context.chunk->refresh_committed_from_disk()\<close>, when there is a chunked receiver.\<close>

definition refresh_chunk :: "system \<Rightarrow> u64 \<Rightarrow> T_ReceiverCoordinator \<Rightarrow> unit result \<times> T_ReceiverCoordinator" where
  "refresh_chunk sys stream_id st =
     (case find_context st stream_id of
        None \<Rightarrow> (Inr (), st)
      | Some context \<Rightarrow>
          (case sx_chunk context of
             None \<Rightarrow> (Inr (), st)
           | Some receiver \<Rightarrow>
               (case chunked_refresh_committed_from_disk sys (co_fs st) receiver of
                  Inl e \<Rightarrow> (Inl e, st)
                | Inr receiver1 \<Rightarrow> (Inr (), update_context stream_id (\<lambda>c. c\<lparr>sx_chunk := Some receiver1\<rparr>) st))))"

section \<open>Appending\<close>

definition reset_append_durable_context ::
  "u64 \<Rightarrow> path \<Rightarrow> u64 \<Rightarrow> T_ReceiverStreamContext \<Rightarrow> T_ReceiverStreamContext" where
  "reset_append_durable_context file_id p durable_offset context =
     (if sx_append_durable_file_id context = file_id
      then (if p \<noteq> [] then context\<lparr>sx_append_durable_path := p\<rparr> else context)
      else context\<lparr>sx_append_durable_file_id := file_id, sx_append_durable_path := p,
             sx_append_durable_offset := durable_offset, sx_append_durable_target := durable_offset,
             sx_append_fsync_active_target := 0, sx_append_fsync_queued := False,
             sx_append_fsync_completed := durable_offset, sx_append_fsync_failed := False,
             sx_append_fsync_error := []\<rparr>)"

text \<open>The task captures the atomics of the context: it finds them by the stream id.\<close>

definition maybe_enqueue_append_fsync ::
  "bool \<Rightarrow> u64 \<Rightarrow> T_ReceiverStreamContext \<Rightarrow> T_ReceiverStreamContext \<times> disk_task list" where
  "maybe_enqueue_append_fsync room target_offset context =
     (if target_offset \<le> sx_append_durable_offset context then (context, [])
      else
        let context1 = context\<lparr>sx_append_durable_target := max (sx_append_durable_target context) target_offset\<rparr>
        in if sx_append_fsync_queued context1 then (context1, [])
           else if sx_append_durable_path context1 = [] then (context1, [])
           else
             let durable_target = sx_append_durable_target context1;
                 context2 = context1\<lparr>sx_append_fsync_error := [], sx_append_fsync_failed := False\<rparr>
             in if room
                then (context2\<lparr>sx_append_fsync_queued := True, sx_append_fsync_active_target := durable_target\<rparr>,
                      [Fsync_append (sx_stream_id context2) (sx_append_durable_path context2) durable_target])
                else (context2, []))"

definition enqueue_fsync :: "bool \<Rightarrow> u64 \<Rightarrow> u64 \<Rightarrow> T_ReceiverCoordinator \<Rightarrow> T_ReceiverCoordinator" where
  "enqueue_fsync room stream_id target_offset st =
     (case find_context st stream_id of
        None \<Rightarrow> st
      | Some context \<Rightarrow>
          (let (context1, tasks) = maybe_enqueue_append_fsync room target_offset context
           in update_context stream_id (\<lambda>_. context1) (st\<lparr>co_disk_tasks := co_disk_tasks st @ tasks\<rparr>)))"

definition coord_create :: "system \<Rightarrow> LineId \<Rightarrow> T_Create \<Rightarrow> T_ReceiverCoordinator \<Rightarrow> coord_outcome" where
  "coord_create sys line_id create st =
     (case append_receiver_for sys (cr_stream_id create) st of
        (Inl e, st1) \<Rightarrow> (Inl e, st1)
      | (Inr receiver, st1) \<Rightarrow>
          (case apply_create sys (co_fs st1) receiver create of
             (res, receiver1, fs) \<Rightarrow>
               (let st2 = update_context (cr_stream_id create) (\<lambda>c. c\<lparr>sx_append := Some receiver1\<rparr>) (st1\<lparr>co_fs := fs\<rparr>)
                in case res of
                     Inl e \<Rightarrow> (Inl e, st2)
                   | Inr (Some n) \<Rightarrow> (Inr (nack_only line_id n), st2)
                   | Inr None \<Rightarrow>
                       (case refresh_chunk sys (cr_stream_id create)
                               (update_context (cr_stream_id create)
                                 (reset_append_durable_context (cr_file_id create) (rv_current_path receiver1) 0) st2) of
                          (Inl e, st3) \<Rightarrow> (Inl e, st3)
                        | (Inr _, st3) \<Rightarrow>
                            (Inr (no_actions\<lparr>ab_schedule_quiet_stop := True,
                               ab_heartbeats := [\<lparr>ha_line_id = line_id,
                                 ha_heartbeat = receiver_heartbeat receiver1 (co_recv_window_bytes st3)
                                   (rs_current_offset (rv_state receiver1)),
                                 ha_flush = True, ha_only_if_line_open = False\<rparr>]\<rparr>), st3)))))"

definition coord_data :: "system \<Rightarrow> bool \<Rightarrow> LineId \<Rightarrow> T_Data \<Rightarrow> T_ReceiverCoordinator \<Rightarrow> coord_outcome" where
  "coord_data sys room line_id data st =
     (case append_receiver_for sys (da_stream_id data) st of
        (Inl e, st1) \<Rightarrow> (Inl e, st1)
      | (Inr receiver, st1) \<Rightarrow>
          (case apply_data sys (co_fs st1) receiver data of
             (res, receiver1, fs) \<Rightarrow>
               (let st2 = update_context (da_stream_id data) (\<lambda>c. c\<lparr>sx_append := Some receiver1\<rparr>) (st1\<lparr>co_fs := fs\<rparr>)
                in case res of
                     Inl e \<Rightarrow> (Inl e, st2)
                   | Inr (Some n) \<Rightarrow> (Inr (nack_only line_id n), st2)
                   | Inr None \<Rightarrow>
                       (let st3 = enqueue_fsync room (da_stream_id data) (rs_current_offset (rv_state receiver1))
                              (update_context (da_stream_id data)
                                (\<lambda>c. reset_append_durable_context (da_file_id data) (rv_current_path receiver1) (da_offset data)
                                   (c\<lparr>sx_append_heartbeat_line_id := line_id\<rparr>)) st2);
                            durable = (case find_context st3 (da_stream_id data) of
                              None \<Rightarrow> 0 | Some context \<Rightarrow> sx_append_durable_offset context)
                        in case refresh_chunk sys (da_stream_id data) st3 of
                             (Inl e, st4) \<Rightarrow> (Inl e, st4)
                           | (Inr _, st4) \<Rightarrow>
                               (Inr (no_actions\<lparr>ab_schedule_quiet_stop := True,
                                  ab_heartbeats := [\<lparr>ha_line_id = line_id,
                                    ha_heartbeat = receiver_heartbeat receiver1 (co_recv_window_bytes st3) durable,
                                    ha_flush = False, ha_only_if_line_open = False\<rparr>]\<rparr>), st4)))))"

section \<open>Chunked files\<close>

definition chunk_heartbeat ::
  "T_ReceiverCoordinator \<Rightarrow> u64 \<Rightarrow> u64 \<Rightarrow> u64 \<Rightarrow> u64 \<Rightarrow> T_ReceivedChunk list \<Rightarrow> T_MissingChunkRange list \<Rightarrow> T_Heartbeat" where
  "chunk_heartbeat st stream_id next_seq file_id offset received missing =
     \<lparr>hb_stream_id = stream_id, hb_next_seq = next_seq, hb_file_id = file_id, hb_offset = offset,
      hb_durable_offset = offset, hb_recv_window_bytes = co_recv_window_bytes st,
      hb_received_chunks = received, hb_missing_ranges = missing\<rparr>"

definition set_chunk :: "u64 \<Rightarrow> T_ChunkedReceiverStream \<Rightarrow> T_ReceiverCoordinator \<Rightarrow> T_ReceiverCoordinator" where
  "set_chunk stream_id receiver = update_context stream_id (\<lambda>c. c\<lparr>sx_chunk := Some receiver\<rparr>)"

definition coord_begin :: "system \<Rightarrow> LineId \<Rightarrow> T_FileBegin \<Rightarrow> T_ReceiverCoordinator \<Rightarrow> coord_outcome" where
  "coord_begin sys line_id begin_msg st =
     (case chunk_receiver_for sys (fb_stream_id begin_msg) st of
        (Inl e, st1) \<Rightarrow> (Inl e, st1)
      | (Inr receiver, st1) \<Rightarrow>
          (case apply_begin sys (co_fs st1) receiver begin_msg of
             (res, receiver1, fs) \<Rightarrow>
               (let st2 = set_chunk (fb_stream_id begin_msg) receiver1 (st1\<lparr>co_fs := fs\<rparr>)
                in case res of
                     Inl e \<Rightarrow> (Inl e, st2)
                   | Inr (Some n) \<Rightarrow> (Inr (nack_only line_id n), st2)
                   | Inr None \<Rightarrow>
                       (Inr (no_actions\<lparr>ab_heartbeats := [\<lparr>ha_line_id = line_id,
                          ha_heartbeat = chunk_heartbeat st2 (fb_stream_id begin_msg) (ci_expected_seq receiver1)
                            (fb_file_id begin_msg) 0 [] [],
                          ha_flush = True, ha_only_if_line_open = False\<rparr>]\<rparr>), st2))))"

definition coord_chunk :: "system \<Rightarrow> LineId \<Rightarrow> T_Chunk \<Rightarrow> T_ReceiverCoordinator \<Rightarrow> coord_outcome" where
  "coord_chunk sys line_id chunk st =
     (case chunk_receiver_for sys (ch_stream_id chunk) st of
        (Inl e, st1) \<Rightarrow> (Inl e, st1)
      | (Inr receiver, st1) \<Rightarrow>
          (case apply_chunk sys (co_fs st1) receiver chunk of
             (res, receiver1, fs) \<Rightarrow>
               (let st2 = set_chunk (ch_stream_id chunk) receiver1 (st1\<lparr>co_fs := fs\<rparr>)
                in case res of
                     Inl e \<Rightarrow> (Inl e, st2)
                   | Inr (Some n) \<Rightarrow> (Inr (nack_only line_id n), st2)
                   | Inr None \<Rightarrow>
                       (Inr (no_actions\<lparr>ab_heartbeats := [\<lparr>ha_line_id = line_id,
                          ha_heartbeat = chunk_heartbeat st2 (ch_stream_id chunk) (ci_expected_seq receiver1)
                            (ch_file_id chunk) 0
                            [\<lparr>rc_seq = ch_seq chunk, rc_file_id = ch_file_id chunk, rc_chunk_index = ch_chunk_index chunk\<rparr>]
                            (missing_ranges receiver1 (ch_seq chunk) (co_max_missing_ranges_per_heartbeat st2)),
                          ha_flush = False, ha_only_if_line_open = False\<rparr>]\<rparr>), st2))))"

definition clear_chunk_commit :: "T_ReceiverStreamContext \<Rightarrow> T_ReceiverStreamContext" where
  "clear_chunk_commit context =
     context\<lparr>sx_chunk_commit_queued := False, sx_chunk_commit_line_id := 0, sx_chunk_commit_seq := 0,
       sx_chunk_commit_file_id := 0, sx_chunk_commit_final_size := 0, sx_chunk_commit_final_path := [],
       sx_chunk_commit_completion := None\<rparr>"

text \<open>The size a committed file has now, from the manifest of the stream or else from its legacy name.\<close>

definition committed_file_size :: "system \<Rightarrow> u64 \<Rightarrow> u64 \<Rightarrow> T_ReceiverCoordinator \<Rightarrow> u64 result" where
  "committed_file_size sys stream_id file_id st =
     (let root = stream_root_for st stream_id
      in case scan_manifest_stream sys (co_fs st) stream_id root (4 * 1024 * 1024) [] [] of
           Inl e \<Rightarrow> Inl e
         | Inr manifest \<Rightarrow>
             (case List.find (\<lambda>e. me_file_id e = file_id) (ms_entries manifest) of
                Some e \<Rightarrow> Inr (me_size e)
              | None \<Rightarrow> Inr (file_size_or_zero (co_fs st) (root @ path_parts (file_name_for_id file_id)))))"

definition coord_nack :: "T_FileCommit \<Rightarrow> u64 \<Rightarrow> u64 \<Rightarrow> EM_NackReason \<Rightarrow> string \<Rightarrow> T_Nack" where
  "coord_nack commit expected_seq expected_file_id reason detail =
     \<lparr>nk_stream_id = fc_stream_id commit, nk_got_seq = fc_seq commit, nk_expected_seq = expected_seq,
      nk_file_id = fc_file_id commit, nk_offset = 0, nk_expected_file_id = expected_file_id, nk_expected_offset = 0,
      nk_reason = reason, nk_detail = detail\<rparr>"

text \<open>A commit that is already queued for the stream.\<close>

definition commit_while_queued :: "LineId \<Rightarrow> T_FileCommit \<Rightarrow> T_ReceiverStreamContext \<Rightarrow> T_ReceiverActionBatch" where
  "commit_while_queued line_id commit context =
     (if sx_chunk_commit_seq context = fc_seq commit \<and> sx_chunk_commit_file_id context = fc_file_id commit then no_actions
      else nack_only line_id (coord_nack commit
        (case sx_chunk context of Some receiver \<Rightarrow> ci_expected_seq receiver | None \<Rightarrow> fc_seq commit)
        (sx_chunk_commit_file_id context) BAD_COMMIT ''another commit is already pending''))"

definition duplicate_commit ::
  "system \<Rightarrow> LineId \<Rightarrow> T_FileCommit \<Rightarrow> T_ChunkedReceiverStream \<Rightarrow> T_ReceiverCoordinator \<Rightarrow> coord_outcome" where
  "duplicate_commit sys line_id commit receiver st =
     (if fc_seq commit < ci_expected_seq receiver
      then case committed_file_size sys (fc_stream_id commit) (fc_file_id commit) st of
             Inl e \<Rightarrow> (Inl e, st)
           | Inr size_now \<Rightarrow>
               (Inr (no_actions\<lparr>ab_heartbeats := [\<lparr>ha_line_id = line_id,
                  ha_heartbeat = chunk_heartbeat st (fc_stream_id commit) (ci_expected_seq receiver) (fc_file_id commit)
                    size_now [] [],
                  ha_flush = True, ha_only_if_line_open = False\<rparr>]\<rparr>), st)
      else (Inr no_actions, st))"

definition queue_commit ::
  "bool \<Rightarrow> LineId \<Rightarrow> T_FileCommit \<Rightarrow> T_ChunkedReceiverStream \<Rightarrow> T_ChunkCommitTask \<Rightarrow> T_ReceiverCoordinator \<Rightarrow> coord_outcome" where
  "queue_commit room line_id commit receiver task st =
     (let cell = length (co_completions st);
          st1 = update_context (fc_stream_id commit) (\<lambda>c. c\<lparr>sx_chunk_commit_queued := True, sx_chunk_commit_line_id := line_id,
                  sx_chunk_commit_seq := ct_seq task, sx_chunk_commit_file_id := ct_file_id task,
                  sx_chunk_commit_final_size := ct_final_size task, sx_chunk_commit_final_path := ct_final_path task,
                  sx_chunk_commit_completion := Some cell\<rparr>)
                (st\<lparr>co_completions := co_completions st @ [\<lparr>cc_completed = False, cc_failed = False, cc_error = []\<rparr>]\<rparr>)
      in if room
         then (Inr (no_actions\<lparr>ab_schedule_commit_poll := True\<rparr>),
               st1\<lparr>co_disk_tasks := co_disk_tasks st1 @ [Commit_chunks task cell]\<rparr>)
         else
           let receiver1 = abort_commit receiver (fc_seq commit)
           in (Inr (nack_only line_id (coord_nack commit (ci_expected_seq receiver1) (fc_file_id commit) IO_ERROR
                 ''disk writer queue full while enqueueing commit'')),
               update_context (fc_stream_id commit) clear_chunk_commit (set_chunk (fc_stream_id commit) receiver1 st1)))"

definition coord_commit :: "system \<Rightarrow> bool \<Rightarrow> LineId \<Rightarrow> T_FileCommit \<Rightarrow> T_ReceiverCoordinator \<Rightarrow> coord_outcome" where
  "coord_commit sys room line_id commit st =
     (case context_for sys (fc_stream_id commit) st of
        (Inl e, st1) \<Rightarrow> (Inl e, st1)
      | (Inr context, st1) \<Rightarrow>
          if sx_chunk_commit_queued context then (Inr (commit_while_queued line_id commit context), st1)
          else
            (case chunk_receiver_for sys (fc_stream_id commit) st1 of
               (Inl e, st2) \<Rightarrow> (Inl e, st2)
             | (Inr receiver, st2) \<Rightarrow>
                 (case prepare_commit (co_fs st2) receiver commit default_commit_task of
                    (res, receiver1) \<Rightarrow>
                      (let st3 = set_chunk (fc_stream_id commit) receiver1 st2
                       in case res of
                            Inl e \<Rightarrow> (Inl e, st3)
                          | Inr (Some n, _) \<Rightarrow> (Inr (nack_only line_id n), st3)
                          | Inr (None, task) \<Rightarrow>
                              if ct_seq task = 0 then duplicate_commit sys line_id commit receiver1 st3
                              else queue_commit room line_id commit receiver1 task st3))))"

section \<open>The disk thread\<close>

definition copy_error :: "string \<Rightarrow> string" where
  "copy_error message = take 159 message"

definition fsync_append :: "system \<Rightarrow> filesystem \<Rightarrow> path \<Rightarrow> unit result" where
  "fsync_append sys fs p =
     (if sy_fails sys IO_open_read p \<or> node_at fs p = None
      then Inl (runtime_error (''failed to open append file for fsync: '' @ path_string p))
      else if sy_fails sys IO_fsync p
      then Inl (runtime_error (''failed to fsync append file: '' @ sy_message sys IO_fsync p))
      else Inr ())"

definition set_completion :: "nat \<Rightarrow> (T_ChunkCommitCompletion \<Rightarrow> T_ChunkCommitCompletion) \<Rightarrow> T_ReceiverCoordinator \<Rightarrow> T_ReceiverCoordinator" where
  "set_completion cell f st = st\<lparr>co_completions := (co_completions st)[cell := f (co_completions st ! cell)]\<rparr>"

text \<open>The disk thread runs the oldest accepted task.\<close>

definition run_disk_task :: "system \<Rightarrow> T_ReceiverCoordinator \<Rightarrow> T_ReceiverCoordinator" where
  "run_disk_task sys st =
     (case co_disk_tasks st of
        [] \<Rightarrow> st
      | Fsync_append stream_id p durable_target # rest \<Rightarrow>
          update_context stream_id
            (\<lambda>c. case fsync_append sys (co_fs st) p of
               Inl e \<Rightarrow> c\<lparr>sx_append_fsync_error := copy_error (exn_what e), sx_append_fsync_failed := True\<rparr>
             | Inr _ \<Rightarrow> c\<lparr>sx_append_fsync_completed := durable_target\<rparr>)
            (st\<lparr>co_disk_tasks := rest\<rparr>)
      | Commit_chunks task cell # rest \<Rightarrow>
          (case write_commit_task sys (co_fs st) task of
             (Inl e, fs) \<Rightarrow>
               set_completion cell (\<lambda>c. c\<lparr>cc_error := copy_error (exn_what e), cc_failed := True\<rparr>)
                 (st\<lparr>co_disk_tasks := rest, co_fs := fs\<rparr>)
           | (Inr _, fs) \<Rightarrow>
               set_completion cell (\<lambda>c. c\<lparr>cc_completed := True\<rparr>) (st\<lparr>co_disk_tasks := rest, co_fs := fs\<rparr>)))"

section \<open>Polling\<close>

definition add_actions :: "T_ReceiverActionBatch \<Rightarrow> T_ReceiverHeartbeatAction list \<Rightarrow> T_ReceiverActionBatch" where
  "add_actions actions hs = actions\<lparr>ab_heartbeats := ab_heartbeats actions @ hs\<rparr>"

definition fail_with :: "string \<Rightarrow> T_ReceiverActionBatch \<Rightarrow> T_ReceiverActionBatch" where
  "fail_with failure actions = actions\<lparr>ab_failed := True, ab_failure := failure\<rparr>"

definition poll_append_fsync ::
  "bool \<Rightarrow> u64 \<Rightarrow> T_ReceiverStreamContext \<Rightarrow> T_ReceiverActionBatch \<Rightarrow>
     (T_ReceiverStreamContext \<times> disk_task list) \<times> T_ReceiverActionBatch" where
  "poll_append_fsync room window context actions =
     (if sx_append_fsync_failed context
      then ((context, []), fail_with (''RECEIVER append fsync failed stream='' @ to_string (unat (sx_stream_id context)) @
              '' error='' @ sx_append_fsync_error context) actions)
      else
        let completed = sx_append_fsync_completed context;
            advanced = completed > sx_append_durable_offset context;
            context1 = (if advanced then context\<lparr>sx_append_durable_offset := completed\<rparr> else context);
            heartbeats = (case sx_append context1 of
              Some receiver \<Rightarrow>
                if advanced \<and> sx_append_heartbeat_line_id context1 \<noteq> 0
                then [\<lparr>ha_line_id = sx_append_heartbeat_line_id context1,
                       ha_heartbeat = receiver_heartbeat receiver window (sx_append_durable_offset context1),
                       ha_flush = False, ha_only_if_line_open = False\<rparr>]
                else []
            | None \<Rightarrow> []);
            context2 = (if sx_append_fsync_queued context1 \<and> completed \<ge> sx_append_fsync_active_target context1
              then context1\<lparr>sx_append_fsync_queued := False, sx_append_fsync_active_target := 0\<rparr> else context1)
        in (if \<not> sx_append_fsync_queued context2 \<and> sx_append_durable_target context2 > sx_append_durable_offset context2
            then maybe_enqueue_append_fsync room (sx_append_durable_target context2) context2
            else (context2, []), add_actions actions heartbeats))"

definition contains :: "string \<Rightarrow> string \<Rightarrow> bool" where
  "contains needle text = list_ex (\<lambda>n. take (length needle) (drop n text) = needle) [0..<Suc (length text)]"

definition chunk_commit_error_reason :: "string \<Rightarrow> EM_NackReason" where
  "chunk_commit_error_reason error =
     (if contains ''checksum'' error then CHECKSUM_MISMATCH
      else if contains ''already exists'' error then FILE_EXISTS
      else IO_ERROR)"

definition commit_failed ::
  "T_ReceiverStreamContext \<Rightarrow> string \<Rightarrow> T_ReceiverActionBatch \<Rightarrow> T_ReceiverStreamContext \<times> T_ReceiverActionBatch" where
  "commit_failed context error actions =
     (let context1 = context\<lparr>sx_chunk := map_option (\<lambda>r. abort_commit r (sx_chunk_commit_seq context)) (sx_chunk context)\<rparr>;
          nack = \<lparr>nk_stream_id = sx_stream_id context1, nk_got_seq = sx_chunk_commit_seq context1,
            nk_expected_seq = (case sx_chunk context1 of Some r \<Rightarrow> ci_expected_seq r | None \<Rightarrow> sx_chunk_commit_seq context1),
            nk_file_id = sx_chunk_commit_file_id context1, nk_offset = 0,
            nk_expected_file_id = sx_chunk_commit_file_id context1, nk_expected_offset = 0,
            nk_reason = chunk_commit_error_reason error, nk_detail = error\<rparr>
      in (clear_chunk_commit context1,
          fail_with ''receiver chunk commit failed'' (actions\<lparr>ab_nacks := ab_nacks actions @
            [\<lparr>na_line_id = sx_chunk_commit_line_id context1, na_nack = nack, na_only_if_line_open = True\<rparr>]\<rparr>)))"

text \<open>The completed commit: the chunked receiver moves on, the append receiver rereads the disk, which
  may raise, and the sender is told.\<close>

definition commit_completed ::
  "system \<Rightarrow> filesystem \<Rightarrow> u64 \<Rightarrow> T_ReceiverStreamContext \<Rightarrow> T_ReceiverActionBatch \<Rightarrow>
     exn option \<times> T_ReceiverStreamContext \<times> T_ReceiverActionBatch" where
  "commit_completed sys fs window context actions =
     (case sx_chunk context of
        None \<Rightarrow> (None, context, fail_with (''RECEIVER chunk commit completed without receiver stream='' @
                  to_string (unat (sx_stream_id context))) actions)
      | Some receiver \<Rightarrow>
          (case finish_commit receiver \<lparr>cres_stream_id = sx_stream_id context, cres_seq = sx_chunk_commit_seq context,
                  cres_file_id = sx_chunk_commit_file_id context, cres_final_size = sx_chunk_commit_final_size context,
                  cres_final_path = sx_chunk_commit_final_path context\<rparr> of
             Inl e \<Rightarrow> (None, context, fail_with (''RECEIVER chunk commit finish failed stream='' @
                  to_string (unat (sx_stream_id context)) @ '' error='' @ exn_what e) actions)
           | Inr receiver1 \<Rightarrow>
               (let context1 = context\<lparr>sx_chunk := Some receiver1\<rparr>;
                    refreshed = (case sx_append context1 of
                      None \<Rightarrow> (Inr (), context1)
                    | Some appender \<Rightarrow>
                        (case refresh_committed_from_disk sys fs appender of
                           (r, appender1) \<Rightarrow> (r, context1\<lparr>sx_append := Some appender1\<rparr>)))
                in case refreshed of
                     (Inl e, context2) \<Rightarrow> (Some e, context2, actions)
                   | (Inr _, context2) \<Rightarrow>
                       (None, clear_chunk_commit context2,
                        (add_actions actions [\<lparr>ha_line_id = sx_chunk_commit_line_id context2,
                           ha_heartbeat = \<lparr>hb_stream_id = sx_stream_id context2, hb_next_seq = ci_expected_seq receiver1,
                             hb_file_id = sx_chunk_commit_file_id context2, hb_offset = sx_chunk_commit_final_size context2,
                             hb_durable_offset = sx_chunk_commit_final_size context2, hb_recv_window_bytes = window,
                             hb_received_chunks = [], hb_missing_ranges = []\<rparr>,
                           ha_flush = True, ha_only_if_line_open = True\<rparr>])\<lparr>ab_schedule_quiet_stop := True\<rparr>))))"

definition poll_chunk_commit ::
  "system \<Rightarrow> filesystem \<Rightarrow> u64 \<Rightarrow> T_ChunkCommitCompletion list \<Rightarrow> T_ReceiverStreamContext \<Rightarrow> T_ReceiverActionBatch \<Rightarrow>
     exn option \<times> T_ReceiverStreamContext \<times> T_ReceiverActionBatch" where
  "poll_chunk_commit sys fs window completions context actions =
     (if \<not> sx_chunk_commit_queued context then (None, context, actions)
      else case sx_chunk_commit_completion context of
        None \<Rightarrow> (None, context, fail_with (''RECEIVER chunk commit missing completion stream='' @
                  to_string (unat (sx_stream_id context))) actions)
      | Some cell \<Rightarrow>
          (let completion = completions ! cell
           in if cc_failed completion
              then (case commit_failed context (cc_error completion) actions of (c, a) \<Rightarrow> (None, c, a))
              else if \<not> cc_completed completion then (None, context, actions)
              else commit_completed sys fs window context actions))"

fun poll_streams ::
  "system \<Rightarrow> (u64 \<Rightarrow> bool) \<Rightarrow> u64 list \<Rightarrow> T_ReceiverActionBatch \<Rightarrow> T_ReceiverCoordinator \<Rightarrow> coord_outcome" where
  "poll_streams sys room [] actions st = (Inr actions, st)"
| "poll_streams sys room (stream_id # ids) actions st =
     (case find_context st stream_id of
        None \<Rightarrow> poll_streams sys room ids actions st
      | Some context \<Rightarrow>
          (case poll_append_fsync (room stream_id) (co_recv_window_bytes st) context actions of
             ((context1, tasks), actions1) \<Rightarrow>
               (let st1 = update_context stream_id (\<lambda>_. context1) (st\<lparr>co_disk_tasks := co_disk_tasks st @ tasks\<rparr>)
                in if ab_failed actions1 then (Inr actions1, st1)
                   else
                     (case poll_chunk_commit sys (co_fs st1) (co_recv_window_bytes st1) (co_completions st1) context1 actions1 of
                        (e, context2, actions2) \<Rightarrow>
                          (let st2 = update_context stream_id (\<lambda>_. context2) st1
                           in case e of
                                Some ex \<Rightarrow> (Inl ex, st2)
                              | None \<Rightarrow>
                                  if ab_failed actions2 then (Inr actions2, st2)
                                  else poll_streams sys room ids actions2 st2)))))"

definition poll_completions :: "system \<Rightarrow> (u64 \<Rightarrow> bool) \<Rightarrow> (u64 list \<Rightarrow> u64 list) \<Rightarrow> T_ReceiverCoordinator \<Rightarrow> coord_outcome" where
  "poll_completions sys room order st = poll_streams sys room (order (map fst (co_streams st))) no_actions st"

section \<open>Committing in the background is committing\<close>

lemma find_update_context [simp]:
  "find_context (update_context i f st) j = (if j = i then map_option f (find_context st j) else find_context st j)"
  by (auto simp: update_context_def map_of_map_entry split: option.splits)

lemma map_entry_same: "map_of xs k = Some v \<Longrightarrow> AList.map_entry k (\<lambda>_. v) xs = xs"
  by (induction xs) auto

lemma update_context_same: "find_context st i = Some c \<Longrightarrow> update_context i (\<lambda>_. c) st = st"
  by (simp add: update_context_def map_entry_same)

lemma update_context_fields [simp]:
  "co_fs (update_context i f st) = co_fs st" "co_disk_tasks (update_context i f st) = co_disk_tasks st"
  "co_completions (update_context i f st) = co_completions st" "co_recv_window_bytes (update_context i f st) = co_recv_window_bytes st"
  by (simp_all add: update_context_def)

text \<open>A context in which no append waits for the disk.\<close>

definition append_quiet :: "T_ReceiverStreamContext \<Rightarrow> bool" where
  "append_quiet context \<longleftrightarrow> \<not> sx_append_fsync_failed context \<and> \<not> sx_append_fsync_queued context \<and>
     sx_append_fsync_completed context \<le> sx_append_durable_offset context \<and>
     sx_append_durable_target context \<le> sx_append_durable_offset context"

lemma poll_append_quiet:
  "append_quiet context \<Longrightarrow> poll_append_fsync room window context actions = ((context, []), actions)"
  by (auto simp: append_quiet_def poll_append_fsync_def Let_def add_actions_def dest: leD split: option.splits)

text \<open>What \<open>apply_commit\<close> of the chunked receiver did when it accepted a commit of the next file.\<close>

lemma prepare_commit_seq: "prepare_commit fs receiver commit task = (r, receiver1) \<Longrightarrow> ci_expected_seq receiver1 = ci_expected_seq receiver"
  by (auto simp: prepare_commit_def Let_def split: if_splits option.splits sum.splits bool.splits)

lemma apply_commit_accepted:
  assumes "apply_commit sys fs receiver commit = (Inr None, receiver', fs')" "ci_expected_seq receiver' \<noteq> ci_expected_seq receiver"
  obtains task receiver1 res where "prepare_commit fs receiver commit default_commit_task = (Inr (None, task), receiver1)"
    "ct_seq task \<noteq> 0" "write_commit_task sys fs task = (Inr res, fs')" "finish_commit receiver1 res = Inr receiver'"
proof -
  obtain r receiver1 where p: "prepare_commit fs receiver commit default_commit_task = (r, receiver1)" by fastforce
  show ?thesis
    using assms prepare_commit_seq [OF p] that unfolding apply_commit_def p
    by (auto simp: Let_def split: sum.splits prod.splits if_splits)
qed

lemma prepared_task:
  assumes "prepare_commit fs receiver commit default_commit_task = (Inr (None, task), receiver1)" "ct_seq task \<noteq> 0"
  shows "ct_stream_id task = fc_stream_id commit \<and> ct_file_id task = fc_file_id commit"
  using assms
  by (auto simp: prepare_commit_def Let_def make_commit_task_def default_commit_task_def
      split: if_splits option.splits sum.splits bool.splits)

lemma committed_result:
  "write_commit_task sys fs task = (Inr res, fs') \<Longrightarrow>
   cres_stream_id res = ct_stream_id task \<and> cres_seq res = ct_seq task \<and> cres_file_id res = ct_file_id task"
  by (auto simp: write_commit_task_def split: sum.splits prod.splits option.splits if_splits bool.splits)

text \<open>\<open>finish_commit\<close> looks at the stream, sequence number and file id of a result only.\<close>

lemma finish_commit_cong:
  "cres_stream_id res = cres_stream_id res' \<Longrightarrow> cres_seq res = cres_seq res' \<Longrightarrow> cres_file_id res = cres_file_id res' \<Longrightarrow>
   finish_commit receiver res = finish_commit receiver res'"
  by (simp add: finish_commit_def split: option.splits)

lemma chunk_receiver_present:
  "find_context st i = Some context \<Longrightarrow> sx_chunk context = Some receiver \<Longrightarrow> chunk_receiver_for sys i st = (Inr receiver, st)"
  by (simp add: chunk_receiver_for_def context_for_def)

definition commit_reply :: "T_ReceiverCoordinator \<Rightarrow> LineId \<Rightarrow> T_FileCommit \<Rightarrow> u64 \<Rightarrow> u64 \<Rightarrow> T_ReceiverHeartbeatAction" where
  "commit_reply st line_id commit next_seq final_size =
     \<lparr>ha_line_id = line_id, ha_heartbeat = chunk_heartbeat st (fc_stream_id commit) next_seq (fc_file_id commit) final_size [] [],
      ha_flush = True, ha_only_if_line_open = True\<rparr>"

lemma background_commit:
  assumes ctx: "find_context st (fc_stream_id commit) = Some context" "sx_stream_id context = fc_stream_id commit"
      "sx_chunk context = Some receiver" "\<not> sx_chunk_commit_queued context" "append_quiet context"
    and tasks: "co_disk_tasks st = []"
    and sync: "apply_commit sys (co_fs st) receiver commit = (Inr None, receiver', fs')"
      "ci_expected_seq receiver' \<noteq> ci_expected_seq receiver"
    and refresh: "\<And>appender. sx_append context = Some appender \<Longrightarrow> \<exists>u. fst (refresh_committed_from_disk sys fs' appender) = Inr u"
  obtains st1 final_size st2 where
    "coord_commit sys True line_id commit st = (Inr (no_actions\<lparr>ab_schedule_commit_poll := True\<rparr>), st1)"
    "poll_streams sys room [fc_stream_id commit] no_actions st1 = (Inr no_actions, st1)"
    "poll_streams sys room [fc_stream_id commit] no_actions (run_disk_task sys st1) =
       (Inr (no_actions\<lparr>ab_heartbeats := [commit_reply st line_id commit (ci_expected_seq receiver') final_size],
          ab_schedule_quiet_stop := True\<rparr>), st2)"
    "co_fs st2 = fs'" "map_option sx_chunk (find_context st2 (fc_stream_id commit)) = Some (Some receiver')"
    "co_disk_tasks st2 = []"
proof -
  let ?i = "fc_stream_id commit" and ?cell = "length (co_completions st)"
  from apply_commit_accepted [OF sync] obtain task receiver1 res where
    prep: "prepare_commit (co_fs st) receiver commit default_commit_task = (Inr (None, task), receiver1)" "ct_seq task \<noteq> 0"
    and wrote: "write_commit_task sys (co_fs st) task = (Inr res, fs')" and fin: "finish_commit receiver1 res = Inr receiver'" .
  let ?c1 = "context\<lparr>sx_chunk := Some receiver1, sx_chunk_commit_queued := True, sx_chunk_commit_line_id := line_id,
     sx_chunk_commit_seq := ct_seq task, sx_chunk_commit_file_id := ct_file_id task,
     sx_chunk_commit_final_size := ct_final_size task, sx_chunk_commit_final_path := ct_final_path task,
     sx_chunk_commit_completion := Some ?cell\<rparr>"
  define st1 where "st1 = snd (coord_commit sys True line_id commit st)"
  have run1: "coord_commit sys True line_id commit st = (Inr (no_actions\<lparr>ab_schedule_commit_poll := True\<rparr>), st1)"
    using ctx prep unfolding st1_def coord_commit_def
    by (simp add: context_for_def chunk_receiver_present queue_commit_def Let_def)
  have st1: "find_context st1 ?i = Some ?c1" "co_fs st1 = co_fs st" "co_disk_tasks st1 = [Commit_chunks task ?cell]"
    "co_completions st1 = co_completions st @ [\<lparr>cc_completed = False, cc_failed = False, cc_error = []\<rparr>]"
    "co_recv_window_bytes st1 = co_recv_window_bytes st"
    using ctx prep tasks unfolding st1_def coord_commit_def
    by (simp_all add: context_for_def chunk_receiver_present queue_commit_def set_chunk_def Let_def)
  have quiet: "append_quiet ?c1" using ctx(5) by (simp add: append_quiet_def)
  have poll1: "poll_streams sys room [?i] no_actions st1 = (Inr no_actions, st1)"
    using st1(1,4) quiet by (simp add: poll_append_quiet poll_chunk_commit_def Let_def update_context_same no_actions_def nth_append)
  define st' where "st' = run_disk_task sys st1"
  have st': "find_context st' ?i = Some ?c1" "co_fs st' = fs'" "co_disk_tasks st' = []"
    "cc_completed (co_completions st' ! ?cell)" "\<not> cc_failed (co_completions st' ! ?cell)"
    "co_recv_window_bytes st' = co_recv_window_bytes st"
    using st1 wrote by (simp_all add: st'_def run_disk_task_def set_completion_def)
  have fin': "finish_commit receiver1 \<lparr>cres_stream_id = sx_stream_id ?c1, cres_seq = sx_chunk_commit_seq ?c1,
      cres_file_id = sx_chunk_commit_file_id ?c1, cres_final_size = sx_chunk_commit_final_size ?c1,
      cres_final_path = sx_chunk_commit_final_path ?c1\<rparr> = Inr receiver'"
    using fin committed_result [OF wrote] prepared_task [OF prep] ctx(2)
    by (subst finish_commit_cong [of _ res]) simp_all
  have fid: "ct_file_id task = fc_file_id commit" using prepared_task [OF prep] by simp
  have "\<exists>c2. commit_completed sys fs' (co_recv_window_bytes st) ?c1 no_actions =
      (None, c2, no_actions\<lparr>ab_heartbeats := [commit_reply st line_id commit (ci_expected_seq receiver') (ct_final_size task)],
         ab_schedule_quiet_stop := True\<rparr>) \<and> sx_chunk c2 = Some receiver'"
    using fin' refresh ctx(2) fid
    by (cases "sx_append context")
       (auto simp: commit_completed_def Let_def clear_chunk_commit_def add_actions_def no_actions_def commit_reply_def
          chunk_heartbeat_def split: prod.splits)
  then obtain c2 where c2: "commit_completed sys fs' (co_recv_window_bytes st) ?c1 no_actions =
      (None, c2, no_actions\<lparr>ab_heartbeats := [commit_reply st line_id commit (ci_expected_seq receiver') (ct_final_size task)],
         ab_schedule_quiet_stop := True\<rparr>)" "sx_chunk c2 = Some receiver'" by blast
  have "poll_chunk_commit sys fs' (co_recv_window_bytes st) (co_completions st') ?c1 no_actions =
      commit_completed sys fs' (co_recv_window_bytes st) ?c1 no_actions"
    using st'(4,5) by (simp add: poll_chunk_commit_def Let_def)
  then have poll2: "poll_streams sys room [?i] no_actions st' =
      (Inr (no_actions\<lparr>ab_heartbeats := [commit_reply st line_id commit (ci_expected_seq receiver') (ct_final_size task)],
         ab_schedule_quiet_stop := True\<rparr>), update_context ?i (\<lambda>_. c2) (update_context ?i (\<lambda>_. ?c1) st'))"
    using st'(1,2,6) quiet c2(1) by (simp add: poll_append_quiet Let_def no_actions_def)
  show ?thesis
    by (rule that [OF run1 poll1 poll2 [unfolded st'_def]])
       (use st' c2(2) in \<open>simp_all add: st'_def [symmetric]\<close>)
qed


text \<open>A receiver that has all of a small file in its temporary file.\<close>

definition ready_receiver :: T_ChunkedReceiverStream where
  "ready_receiver = sample_chunked\<lparr>ci_active := [(1, \<lparr>af_seq = 1, af_file_id = 5, af_name = ''a'', af_final_size = 3, af_chunk_size = 4,
     af_chunk_count = 1, af_file_checksum = \<lparr>ck_algo = CRC32C, ck_offset = 0, ck_len = 0, ck_value = [0, 0, 0, 0]\<rparr>,
     af_prev_file_id = 0, af_prev_final_size = 0, af_prev_checksum = default_checksum,
     af_temp_path = [''r'', ''.yisync_tmp'', ''t''], af_final_path = [''r'', ''a''], af_received = [True], af_received_count = 1,
     af_commit_pending = False\<rparr>)]\<rparr>"

definition ready_fs :: filesystem where
  "ready_fs = [([''r''], Dir), ([''r'', ''.yisync_tmp''], Dir), ([''r'', ''.yisync_tmp'', ''t''], File [1, 2, 3])]"

definition ready_coordinator :: T_ReceiverCoordinator where
  "ready_coordinator = \<lparr>co_default_root = [''r''], co_default_stream_id = 1, co_roots = None,
     co_streams = [(1, (new_context 1 [''r''])\<lparr>sx_chunk := Some ready_receiver\<rparr>)], co_recv_window_bytes = 100,
     co_max_missing_ranges_per_heartbeat = 8, co_completions = [], co_disk_tasks = [], co_fs = ready_fs\<rparr>"

definition ready_commit :: T_FileCommit where
  "ready_commit = \<lparr>fc_stream_id = 1, fc_seq = 1, fc_file_id = 5\<rparr>"

definition committed_receiver :: T_ChunkedReceiverStream where
  "committed_receiver = sample_chunked\<lparr>ci_expected_seq := 2, ci_current_file_id := 5, ci_current_offset := 3\<rparr>"

lemma ready_commits:
  "apply_commit plain_system ready_fs ready_receiver ready_commit =
     (Inr None, committed_receiver, [([''r''], Dir), ([''r'', ''.yisync_tmp''], Dir), ([''r'', ''a''], File [1, 2, 3])])"
  by code_simp


section \<open>Where the durable offset is not durable\<close>

text \<open>A CREATE that is repeated after the last block of its file arrived is answered with the current
  offset as the durable one, although the fsync of that file has not run: here nothing was synced and
  the reply reports three durable bytes.\<close>

definition unsynced_coordinator :: T_ReceiverCoordinator where
  "unsynced_coordinator = ready_coordinator\<lparr>co_streams := [(1, (new_context 1 [''r''])\<lparr>
     sx_append := Some \<lparr>rv_stream_id = 1, rv_root = [''r''], rv_state = \<lparr>rs_active = True, rs_expected_seq = 2,
       rs_current_file_id = 5, rs_current_offset = 3, rs_current_final_size = 3, rs_next_create_file_id = 6\<rparr>,
       rv_current_kind = REGULAR_FILE, rv_current_path = [''r'', ''f'']\<rparr>,
     sx_append_durable_file_id := 5, sx_append_durable_path := [''r'', ''f''], sx_append_durable_target := 3,
     sx_append_fsync_queued := True, sx_append_fsync_active_target := 3\<rparr>)],
     co_disk_tasks := [Fsync_append 1 [''r'', ''f''] 3]\<rparr>"

definition repeated_create :: T_Create where
  "repeated_create = \<lparr>cr_stream_id = 1, cr_seq = 1, cr_file_id = 5, cr_kind = REGULAR_FILE, cr_name = ''f'', cr_link_target = [],
     cr_final_size = 3, cr_prev_file_id = 0, cr_prev_final_size = 0, cr_prev_checksum = default_checksum\<rparr>"

lemma repeated_create_reports_unsynced:
  "\<exists>actions st. coord_create plain_system 7 repeated_create unsynced_coordinator = (Inr actions, st) \<and>
     map (\<lambda>a. hb_durable_offset (ha_heartbeat a)) (ab_heartbeats actions) = [3] \<and>
     map_option sx_append_durable_offset (find_context st 1) = Some 0 \<and> co_disk_tasks st = [Fsync_append 1 [''r'', ''f''] 3]"
  by (simp add: coord_create_def append_receiver_for_def context_for_def unsynced_coordinator_def ready_coordinator_def new_context_def
      apply_create_def repeated_create_def reset_append_durable_context_def refresh_chunk_def no_actions_def receiver_heartbeat_def
      update_context_def)

text \<open>The fsync task of a file writes its target into the counter of the stream, whichever file the
  stream has moved on to: after CREATE of another file the next poll takes the old target for durable
  bytes of the new file.\<close>

lemma stale_fsync_counts_for_next_file:
  "let context = (new_context 1 [''r''])\<lparr>sx_append_durable_file_id := 5, sx_append_durable_path := [''r'', ''f''],
         sx_append_durable_target := 3, sx_append_fsync_queued := True, sx_append_fsync_active_target := 3\<rparr>;
       moved = reset_append_durable_context 6 [''r'', ''g''] 0 context;
       done = moved\<lparr>sx_append_fsync_completed := 3\<rparr>
   in sx_append_durable_file_id moved = 6 \<and> sx_append_durable_offset moved = 0 \<and>
      sx_append_durable_offset (fst (fst (poll_append_fsync True 0 done no_actions))) = 3"
  by (simp add: new_context_def reset_append_durable_context_def poll_append_fsync_def no_actions_def add_actions_def Let_def)

end
