(* ===== verification/Crc32cSse42.thy ===== *)
theory Crc32cSse42
  imports Crc32c
begin

text \<open>
  The checksum routine for processors with SSE4.2, src/crc32c/src/crc32c_sse42.cc, and the choice
  between it and the portable one, src/crc32c/src/crc32c.cc. The two instructions it uses are
  parameters: what is relied on is what the processor manual says of CRC32, that they feed the bytes
  of their second operand to the register of the reference, lowest byte first. Three blocks are run
  side by side and joined with tables that advance a register over a whole block.
\<close>

section \<open>The tables\<close>

definition kBlock0SkipTable :: "u32 list list" where
  "kBlock0SkipTable = [
    [0x00000000, 0xff770459, 0xfb027e43, 0x04757a1a, 0xf3e88a77, 0x0c9f8e2e, 0x08eaf434, 0xf79df06d,
     0xe23d621f, 0x1d4a6646, 0x193f1c5c, 0xe6481805, 0x11d5e868, 0xeea2ec31, 0xead7962b, 0x15a09272],
    [0x00000000, 0xc196b2cf, 0x86c1136f, 0x4757a1a0, 0x086e502f, 0xc9f8e2e0, 0x8eaf4340, 0x4f39f18f,
     0x10dca05e, 0xd14a1291, 0x961db331, 0x578b01fe, 0x18b2f071, 0xd92442be, 0x9e73e31e, 0x5fe551d1],
    [0x00000000, 0x21b940bc, 0x43728178, 0x62cbc1c4, 0x86e502f0, 0xa75c424c, 0xc5978388, 0xe42ec334,
     0x08267311, 0x299f33ad, 0x4b54f269, 0x6aedb2d5, 0x8ec371e1, 0xaf7a315d, 0xcdb1f099, 0xec08b025],
    [0x00000000, 0x104ce622, 0x2099cc44, 0x30d52a66, 0x41339888, 0x517f7eaa, 0x61aa54cc, 0x71e6b2ee,
     0x82673110, 0x922bd732, 0xa2fefd54, 0xb2b21b76, 0xc354a998, 0xd3184fba, 0xe3cd65dc, 0xf38183fe],
    [0x00000000, 0x012214d1, 0x024429a2, 0x03663d73, 0x04885344, 0x05aa4795, 0x06cc7ae6, 0x07ee6e37,
     0x0910a688, 0x0832b259, 0x0b548f2a, 0x0a769bfb, 0x0d98f5cc, 0x0cbae11d, 0x0fdcdc6e, 0x0efec8bf],
    [0x00000000, 0x12214d10, 0x24429a20, 0x3663d730, 0x48853440, 0x5aa47950, 0x6cc7ae60, 0x7ee6e370,
     0x910a6880, 0x832b2590, 0xb548f2a0, 0xa769bfb0, 0xd98f5cc0, 0xcbae11d0, 0xfdcdc6e0, 0xefec8bf0],
    [0x00000000, 0x27f8a7f1, 0x4ff14fe2, 0x6809e813, 0x9fe29fc4, 0xb81a3835, 0xd013d026, 0xf7eb77d7,
     0x3a294979, 0x1dd1ee88, 0x75d8069b, 0x5220a16a, 0xa5cbd6bd, 0x8233714c, 0xea3a995f, 0xcdc23eae],
    [0x00000000, 0x745292f2, 0xe8a525e4, 0x9cf7b716, 0xd4a63d39, 0xa0f4afcb, 0x3c0318dd, 0x48518a2f,
     0xaca00c83, 0xd8f29e71, 0x44052967, 0x3057bb95, 0x780631ba, 0x0c54a348, 0x90a3145e, 0xe4f186ac]]"

definition kBlock1SkipTable :: "u32 list list" where
  "kBlock1SkipTable = [
    [0x00000000, 0x79113270, 0xf22264e0, 0x8b335690, 0xe1a8bf31, 0x98b98d41, 0x138adbd1, 0x6a9be9a1,
     0xc6bd0893, 0xbfac3ae3, 0x349f6c73, 0x4d8e5e03, 0x2715b7a2, 0x5e0485d2, 0xd537d342, 0xac26e132],
    [0x00000000, 0x889667d7, 0x14c0b95f, 0x9c56de88, 0x298172be, 0xa1171569, 0x3d41cbe1, 0xb5d7ac36,
     0x5302e57c, 0xdb9482ab, 0x47c25c23, 0xcf543bf4, 0x7a8397c2, 0xf215f015, 0x6e432e9d, 0xe6d5494a],
    [0x00000000, 0xa605caf8, 0x49e7e301, 0xefe229f9, 0x93cfc602, 0x35ca0cfa, 0xda282503, 0x7c2deffb,
     0x2273faf5, 0x8476300d, 0x6b9419f4, 0xcd91d30c, 0xb1bc3cf7, 0x17b9f60f, 0xf85bdff6, 0x5e5e150e],
    [0x00000000, 0x44e7f5ea, 0x89cfebd4, 0xcd281e3e, 0x1673a159, 0x529454b3, 0x9fbc4a8d, 0xdb5bbf67,
     0x2ce742b2, 0x6800b758, 0xa528a966, 0xe1cf5c8c, 0x3a94e3eb, 0x7e731601, 0xb35b083f, 0xf7bcfdd5],
    [0x00000000, 0x59ce8564, 0xb39d0ac8, 0xea538fac, 0x62d66361, 0x3b18e605, 0xd14b69a9, 0x8885eccd,
     0xc5acc6c2, 0x9c6243a6, 0x7631cc0a, 0x2fff496e, 0xa77aa5a3, 0xfeb420c7, 0x14e7af6b, 0x4d292a0f],
    [0x00000000, 0x8eb5fb75, 0x1887801b, 0x96327b6e, 0x310f0036, 0xbfbafb43, 0x2988802d, 0xa73d7b58,
     0x621e006c, 0xecabfb19, 0x7a998077, 0xf42c7b02, 0x5311005a, 0xdda4fb2f, 0x4b968041, 0xc5237b34],
    [0x00000000, 0xc43c00d8, 0x8d947741, 0x49a87799, 0x1ec49873, 0xdaf898ab, 0x9350ef32, 0x576cefea,
     0x3d8930e6, 0xf9b5303e, 0xb01d47a7, 0x7421477f, 0x234da895, 0xe771a84d, 0xaed9dfd4, 0x6ae5df0c],
    [0x00000000, 0x7b1261cc, 0xf624c398, 0x8d36a254, 0xe9a5f1c1, 0x92b7900d, 0x1f813259, 0x64935395,
     0xd6a79573, 0xadb5f4bf, 0x208356eb, 0x5b913727, 0x3f0264b2, 0x4410057e, 0xc926a72a, 0xb234c6e6]]"

definition kBlock2SkipTable :: "u32 list list" where
  "kBlock2SkipTable = [
    [0x00000000, 0x8f158014, 0x1bc776d9, 0x94d2f6cd, 0x378eedb2, 0xb89b6da6, 0x2c499b6b, 0xa35c1b7f,
     0x6f1ddb64, 0xe0085b70, 0x74daadbd, 0xfbcf2da9, 0x589336d6, 0xd786b6c2, 0x4354400f, 0xcc41c01b],
    [0x00000000, 0xde3bb6c8, 0xb99b1b61, 0x67a0ada9, 0x76da4033, 0xa8e1f6fb, 0xcf415b52, 0x117aed9a,
     0xedb48066, 0x338f36ae, 0x542f9b07, 0x8a142dcf, 0x9b6ec055, 0x4555769d, 0x22f5db34, 0xfcce6dfc],
    [0x00000000, 0xde85763d, 0xb8e69a8b, 0x6663ecb6, 0x742143e7, 0xaaa435da, 0xccc7d96c, 0x1242af51,
     0xe84287ce, 0x36c7f1f3, 0x50a41d45, 0x8e216b78, 0x9c63c429, 0x42e6b214, 0x24855ea2, 0xfa00289f],
    [0x00000000, 0xd569796d, 0xaf3e842b, 0x7a57fd46, 0x5b917ea7, 0x8ef807ca, 0xf4affa8c, 0x21c683e1,
     0xb722fd4e, 0x624b8423, 0x181c7965, 0xcd750008, 0xecb383e9, 0x39dafa84, 0x438d07c2, 0x96e47eaf],
    [0x00000000, 0x6ba98c6d, 0xd75318da, 0xbcfa94b7, 0xab4a4745, 0xc0e3cb28, 0x7c195f9f, 0x17b0d3f2,
     0x5378f87b, 0x38d17416, 0x842be0a1, 0xef826ccc, 0xf832bf3e, 0x939b3353, 0x2f61a7e4, 0x44c82b89],
    [0x00000000, 0xa6f1f0f6, 0x480f971d, 0xeefe67eb, 0x901f2e3a, 0x36eedecc, 0xd810b927, 0x7ee149d1,
     0x25d22a85, 0x8323da73, 0x6dddbd98, 0xcb2c4d6e, 0xb5cd04bf, 0x133cf449, 0xfdc293a2, 0x5b336354],
    [0x00000000, 0x4ba4550a, 0x9748aa14, 0xdcecff1e, 0x2b7d22d9, 0x60d977d3, 0xbc3588cd, 0xf791ddc7,
     0x56fa45b2, 0x1d5e10b8, 0xc1b2efa6, 0x8a16baac, 0x7d87676b, 0x36233261, 0xeacfcd7f, 0xa16b9875],
    [0x00000000, 0xadf48b64, 0x5e056039, 0xf3f1eb5d, 0xbc0ac072, 0x11fe4b16, 0xe20fa04b, 0x4ffb2b2f,
     0x7df9f615, 0xd00d7d71, 0x23fc962c, 0x8e081d48, 0xc1f33667, 0x6c07bd03, 0x9ff6565e, 0x3202dd3a]]"

section \<open>The steps\<close>

record sse42 =
  mm_crc32_u8 :: "u32 \<Rightarrow> u8 \<Rightarrow> u32"
  mm_crc32_u64 :: "u64 \<Rightarrow> u64 \<Rightarrow> u64"

definition kGroups :: nat where
  "kGroups = 3"

text \<open>The three sizes of blocks, with their tables and the number of steps of eight bytes.\<close>

datatype block = Block0 | Block1 | Block2

fun block_size :: "block \<Rightarrow> nat" where
  "block_size Block0 = 16 * 1024 div kGroups div 64 * 64"
| "block_size Block1 = 4 * 1024 div kGroups div 8 * 8"
| "block_size Block2 = 1024 div kGroups div 8 * 8"

fun skip_table :: "block \<Rightarrow> u32 list list" where
  "skip_table Block0 = kBlock0SkipTable"
| "skip_table Block1 = kBlock1SkipTable"
| "skip_table Block2 = kBlock2SkipTable"

definition ReadUint64LE :: "Bytes \<Rightarrow> nat \<Rightarrow> u64 option" where
  "ReadUint64LE p offset =
     (if offset + 8 \<le> length p
      then Some (ucast (p ! offset) OR push_bit 8 (ucast (p ! (offset + 1))) OR
        push_bit 16 (ucast (p ! (offset + 2))) OR push_bit 24 (ucast (p ! (offset + 3))) OR
        push_bit 32 (ucast (p ! (offset + 4))) OR push_bit 40 (ucast (p ! (offset + 5))) OR
        push_bit 48 (ucast (p ! (offset + 6))) OR push_bit 56 (ucast (p ! (offset + 7))))
      else None)"

fun sse_STEP1 :: "sse42 \<Rightarrow> u32 \<times> Bytes \<Rightarrow> (u32 \<times> Bytes) option" where
  "sse_STEP1 cpu (l, []) = None"
| "sse_STEP1 cpu (l, b # p) = Some (mm_crc32_u8 cpu l b, p)"

fun sse_STEP8 :: "sse42 \<Rightarrow> u64 \<times> Bytes \<Rightarrow> (u64 \<times> Bytes) option" where
  "sse_STEP8 cpu (crc, p) = map_option (\<lambda>w. (mm_crc32_u64 cpu crc w, drop 8 p)) (ReadUint64LE p 0)"

type_synonym triple = "u64 \<times> u64 \<times> u64"

fun STEP8X3 :: "sse42 \<Rightarrow> nat \<Rightarrow> triple \<times> Bytes \<Rightarrow> (triple \<times> Bytes) option" where
  "STEP8X3 cpu bs ((crc0, crc1, crc2), p) =
     (case (ReadUint64LE p 0, ReadUint64LE p bs, ReadUint64LE p (2 * bs)) of
        (Some w0, Some w1, Some w2) \<Rightarrow>
          Some ((mm_crc32_u64 cpu crc0 w0, mm_crc32_u64 cpu crc1 w1, mm_crc32_u64 cpu crc2 w2), drop 8 p)
      | _ \<Rightarrow> None)"

definition SKIP_BLOCK :: "u64 \<Rightarrow> u32 list list \<Rightarrow> u64" where
  "SKIP_BLOCK crc tab =
     ucast (tab ! 0 ! unat (crc AND 0xf)) XOR ucast (tab ! 1 ! unat (drop_bit 4 crc AND 0xf)) XOR
     ucast (tab ! 2 ! unat (drop_bit 8 crc AND 0xf)) XOR ucast (tab ! 3 ! unat (drop_bit 12 crc AND 0xf)) XOR
     ucast (tab ! 4 ! unat (drop_bit 16 crc AND 0xf)) XOR ucast (tab ! 5 ! unat (drop_bit 20 crc AND 0xf)) XOR
     ucast (tab ! 6 ! unat (drop_bit 24 crc AND 0xf)) XOR ucast (tab ! 7 ! unat (drop_bit 28 crc AND 0xf))"

section \<open>The loops\<close>

text \<open>A counted loop around a step that may fail.\<close>

fun repeat_opt :: "nat \<Rightarrow> ('s \<Rightarrow> 's option) \<Rightarrow> 's \<Rightarrow> 's option" where
  "repeat_opt 0 f s = Some s"
| "repeat_opt (Suc n) f s = (case f s of None \<Rightarrow> None | Some s1 \<Rightarrow> repeat_opt n f s1)"

definition block_steps :: "sse42 \<Rightarrow> block \<Rightarrow> triple \<times> Bytes \<Rightarrow> (triple \<times> Bytes) option" where
  "block_steps cpu b =
     (case b of
        Block0 \<Rightarrow> repeat_opt (block_size b div (8 * 8)) (repeat_opt 8 (STEP8X3 cpu (block_size b)))
      | _ \<Rightarrow> repeat_opt (block_size b div 8) (STEP8X3 cpu (block_size b)))"

text \<open>One round of a loop over blocks, and the loop.\<close>

definition block_round :: "sse42 \<Rightarrow> block \<Rightarrow> u64 \<times> Bytes \<Rightarrow> (u64 \<times> Bytes) option" where
  "block_round cpu b s = (case s of (l64, p) \<Rightarrow>
     map_option (\<lambda>((l64, l641, l642), p).
         (SKIP_BLOCK (SKIP_BLOCK l64 (skip_table b) XOR l641) (skip_table b) XOR l642, drop ((kGroups - 1) * block_size b) p))
       (block_steps cpu b ((l64, 0, 0), p)))"

lemma block_size_values: "block_size Block0 = 5440" "block_size Block1 = 1360" "block_size Block2 = 336"
  by (simp_all add: kGroups_def)

text \<open>No step gives bytes back.\<close>

definition consuming :: "('c \<times> Bytes \<Rightarrow> ('c \<times> Bytes) option) \<Rightarrow> bool" where
  "consuming f \<longleftrightarrow> (\<forall>s s'. f s = Some s' \<longrightarrow> length (snd s') \<le> length (snd s))"

lemma consuming_repeat:
  assumes "consuming f"
  shows "consuming (repeat_opt n f)"
proof -
  have "length (snd s') \<le> length (snd s)" if "repeat_opt n f s = Some s'" for s s'
    using that
  proof (induction n arbitrary: s)
    case (Suc n)
    then obtain s1 where "f s = Some s1" "repeat_opt n f s1 = Some s'" by (auto split: option.splits)
    then show ?case using Suc.IH [of s1] assms by (meson consuming_def order_trans)
  qed simp
  then show ?thesis by (simp add: consuming_def)
qed

lemma consuming_STEP8X3: "consuming (STEP8X3 cpu bs)"
  by (auto simp: consuming_def split: option.splits)

lemma block_steps_length: "block_steps cpu b s = Some s' \<Longrightarrow> length (snd s') \<le> length (snd s)"
proof -
  have "consuming (block_steps cpu b)"
    by (cases b) (simp_all add: block_steps_def consuming_repeat consuming_STEP8X3)
  then show "block_steps cpu b s = Some s' \<Longrightarrow> length (snd s') \<le> length (snd s)" unfolding consuming_def by blast
qed

lemma block_round_shrinks:
  assumes "block_round cpu b s = Some s'" "kGroups * block_size b \<le> length (snd s)"
  shows "length (snd s') < length (snd s)"
proof -
  obtain l64 p where s: "s = (l64, p)" by (cases s)
  obtain c p' where "block_steps cpu b ((l64, 0, 0), p) = Some (c, p')" "s' = (fst s', drop ((kGroups - 1) * block_size b) p')"
    using assms(1) by (auto simp: block_round_def s)
  then have "length p' \<le> length p" "length (snd s') = length p' - (kGroups - 1) * block_size b"
    by (auto dest!: block_steps_length simp: snd_def split: prod.splits)
  then show ?thesis using assms(2) by (cases b) (auto simp: block_size_values kGroups_def s simp del: block_size.simps)
qed

function block_loop :: "sse42 \<Rightarrow> block \<Rightarrow> u64 \<times> Bytes \<Rightarrow> (u64 \<times> Bytes) option" where
  "block_loop cpu b s =
     (if kGroups * block_size b \<le> length (snd s)
      then (case block_round cpu b s of None \<Rightarrow> None | Some s1 \<Rightarrow> block_loop cpu b s1)
      else Some s)"
  by pat_completeness auto
termination by (relation "measure (\<lambda>(_, _, s). length (snd s))") (simp_all add: block_round_shrinks del: block_size.simps)

lemma sse_STEP8_drop: "sse_STEP8 cpu s = Some s' \<Longrightarrow> snd s' = drop 8 (snd s)"
  by (cases "(cpu, s)" rule: sse_STEP8.cases) auto

function words16 :: "sse42 \<Rightarrow> u64 \<times> Bytes \<Rightarrow> (u64 \<times> Bytes) option" where
  "words16 cpu s =
     (if 16 \<le> length (snd s)
      then (case Option.bind (sse_STEP8 cpu s) (sse_STEP8 cpu) of None \<Rightarrow> None | Some s1 \<Rightarrow> words16 cpu s1)
      else Some s)"
  by pat_completeness auto
termination
  by (relation "measure (\<lambda>(_, s). length (snd s))") (auto simp: bind_eq_Some_conv dest!: sse_STEP8_drop)

declare block_loop.simps [simp del] words16.simps [simp del] block_size.simps [simp del]

definition ExtendSse42 :: "sse42 \<Rightarrow> u64 \<Rightarrow> u32 \<Rightarrow> Bytes \<Rightarrow> u32 option" where
  "ExtendSse42 cpu addr crc data =
     (let e = addr + word_of_nat (length data);
          x = RoundUp 8 addr;
          aligned = (if x \<le> e then repeat_opt (unat (x - addr)) (sse_STEP1 cpu) (crc XOR kCRC32Xor, data)
                     else Some (crc XOR kCRC32Xor, data));
          blocks = Option.bind (map_option (\<lambda>(l, p). (ucast l, p)) aligned) (\<lambda>s.
            Option.bind (block_loop cpu Block0 s) (\<lambda>s. Option.bind (block_loop cpu Block1 s) (block_loop cpu Block2)))
      in map_option (\<lambda>(l, _). l XOR kCRC32Xor)
           (Option.bind (Option.bind blocks (words16 cpu)) (\<lambda>(l64, p). repeat_opt (length p) (sse_STEP1 cpu) (ucast l64, p))))"

text \<open>\<open>Extend\<close> on a processor that may have the instructions.\<close>

definition Extend :: "sse42 option \<Rightarrow> u64 \<Rightarrow> u32 \<Rightarrow> Bytes \<Rightarrow> u32 option" where
  "Extend can_use_sse42 addr crc data =
     (case can_use_sse42 of Some cpu \<Rightarrow> ExtendSse42 cpu addr crc data | None \<Rightarrow> ExtendPortable addr crc data)"

section \<open>What the instructions do\<close>

text \<open>The bytes of a word, lowest first.\<close>

definition bytes_of_u64 :: "u64 \<Rightarrow> Bytes" where
  "bytes_of_u64 w = map (\<lambda>i. ucast (drop_bit (8 * i) w)) [0..<8]"

definition sse42_documented :: "sse42 \<Rightarrow> bool" where
  "sse42_documented cpu \<longleftrightarrow>
     (\<forall>l b. mm_crc32_u8 cpu l b = crc_byte l b) \<and>
     (\<forall>l w. mm_crc32_u64 cpu (ucast (l :: u32)) w = ucast (foldl crc_byte l (bytes_of_u64 w)))"

fun le_word64 :: "Bytes \<Rightarrow> u64" where
  "le_word64 [] = 0"
| "le_word64 (b # bs) = ucast b OR push_bit 8 (le_word64 bs)"

lemma le_word64_bound: "8 * length bs \<le> k \<Longrightarrow> \<not> bit (le_word64 bs) k"
proof (induction bs arbitrary: k)
  case (Cons b bs)
  then show ?case using Cons.IH [of "k - 8"] by (auto simp: bit_simps dest: bit_imp_le_length)
qed simp

lemma le_word64_byte: "length bs \<le> 8 \<Longrightarrow> i < length bs \<Longrightarrow> ucast (drop_bit (8 * i) (le_word64 bs)) = bs ! i"
proof (induction bs arbitrary: i)
  case (Cons b bs)
  show ?case
  proof (cases i)
    case 0
    then show ?thesis by (auto simp: bit_simps intro!: bit_word_eqI)
  next
    case (Suc j)
    have "drop_bit 8 (le_word64 (b # bs)) = le_word64 bs"
    proof (rule bit_word_eqI)
      fix k :: nat
      have "\<not> bit (le_word64 bs) k" if "56 \<le> k" using that Cons.prems(1) by (intro le_word64_bound) simp
      then show "bit (drop_bit 8 (le_word64 (b # bs))) k = bit (le_word64 bs) k"
        by (cases "k < 56") (auto simp: bit_simps dest: bit_imp_le_length)
    qed
    moreover have "drop_bit (8 * i) (le_word64 (b # bs)) = drop_bit (8 * j) (drop_bit 8 (le_word64 (b # bs)))"
      by (simp only: Suc drop_bit_drop_bit mult_Suc_right add.commute)
    ultimately show ?thesis using Cons Suc by simp
  qed
qed simp

lemma bytes_of_le_word64: "length bs = 8 \<Longrightarrow> bytes_of_u64 (le_word64 bs) = bs"
  by (rule nth_equalityI) (simp_all add: bytes_of_u64_def le_word64_byte)

lemma ReadUint64LE_eq:
  assumes "n + 8 \<le> length p"
  obtains w where "ReadUint64LE p n = Some w" "bytes_of_u64 w = take 8 (drop n p)"
proof -
  have "take 8 (drop n p) = [p ! n, p ! (n + 1), p ! (n + 2), p ! (n + 3), p ! (n + 4), p ! (n + 5), p ! (n + 6), p ! (n + 7)]"
    using assms by (intro nth_equalityI) (auto simp: less_Suc_eq numeral_eq_Suc)
  moreover have "ReadUint64LE p n = Some (le_word64 \<dots>)"
    using assms by (simp only: ReadUint64LE_def if_True le_word64.simps push_bit_or push_bit_push_bit push_bit_of_0 or.assoc) simp
  ultimately have "ReadUint64LE p n = Some (le_word64 (take 8 (drop n p)))" by (simp only:)
  moreover have "length (take 8 (drop n p)) = 8" using assms by simp
  ultimately show ?thesis using that bytes_of_le_word64 by blast
qed

section \<open>The skip tables\<close>

lemma foldl_crc_split: "foldl crc_byte l xs = advance (length xs) l XOR foldl crc_byte 0 xs"
proof (induction xs arbitrary: l)
  case (Cons x xs)
  have "foldl crc_byte l (x # xs) = advance (length xs) (crc_byte l x) XOR foldl crc_byte 0 xs" using Cons [of "crc_byte l x"] by simp
  also have "\<dots> = advance (Suc (length xs)) l XOR (advance (length xs) (crc_byte 0 x) XOR foldl crc_byte 0 xs)"
  proof -
    have "crc_byte l x = (crc_bit ^^ 8) l XOR crc_byte 0 x" by (simp add: crc_byte_def bits.F_xor)
    then have "advance (length xs) (crc_byte l x) = (crc_bit ^^ (8 * length xs + 8)) l XOR advance (length xs) (crc_byte 0 x)"
      by (simp only: bits.F_xor crc_bits_add)
    then show ?thesis by (simp add: xor.assoc add.commute)
  qed
  also have "advance (length xs) (crc_byte 0 x) XOR foldl crc_byte 0 xs = foldl crc_byte 0 (x # xs)" using Cons [of "crc_byte 0 x"] by simp
  finally show ?case by simp
qed simp

text \<open>The value at the top bit determines the others: a lower bit arrives later.\<close>

lemma crc_bits_down: "i + d < 32 \<Longrightarrow> (crc_bit ^^ d) (2 ^ (i + d)) = 2 ^ i"
proof (induction d)
  case (Suc d)
  have "(crc_bit ^^ Suc d) (2 ^ (i + Suc d)) = (crc_bit ^^ d) (crc_bit (2 ^ Suc (i + d)))"
    by (simp add: funpow_swap1 [of crc_bit])
  with Suc show ?case by (simp add: crc_bit_double del: power_Suc)
qed simp

lemma crc_bits_lower: "i \<le> 31 \<Longrightarrow> (crc_bit ^^ n) (2 ^ i) = (crc_bit ^^ (31 - i)) ((crc_bit ^^ n) (2 ^ 31))"
proof -
  assume "i \<le> 31"
  then have "(crc_bit ^^ (31 - i)) (2 ^ 31) = (2 ^ i :: u32)" using crc_bits_down [of i "31 - i"] by simp
  then show ?thesis by (metis add.commute crc_bits_add)
qed

definition skip_basis :: "u32 \<Rightarrow> nat \<Rightarrow> u32 list" where
  "skip_basis hi k = rev (map (\<lambda>j. crc_trace 31 hi ! (31 - (4 * k + j))) [0..<4])"

lemma skip_lookup:
  assumes "hi = advance n (2 ^ 31)" "k < 8" "c < 16"
  shows "doubling (skip_basis hi k) ! c = advance n (push_bit (4 * k) (word_of_nat c))"
proof -
  have "skip_basis hi k = rev (map (\<lambda>j. advance n (2 ^ (4 * k + j))) [0..<4])"
    using assms(1,2) by (auto simp: skip_basis_def crc_trace_nth crc_bits_lower [of _ "8 * n"])
  then show ?thesis using bits.doubling_nth [of c 4 "4 * k" "8 * n"] assms(2,3) by simp
qed

lemma skip_table_values:
  "kBlock0SkipTable = map (\<lambda>k. doubling (skip_basis 0xaca00c83 k)) [0..<8]"
  "kBlock1SkipTable = map (\<lambda>k. doubling (skip_basis 0xd6a79573 k)) [0..<8]"
  "kBlock2SkipTable = map (\<lambda>k. doubling (skip_basis 0x7df9f615 k)) [0..<8]"
  subgoal by (simp add: kBlock0SkipTable_def skip_basis_def upt_rec Let_def crc_trace_numeral crc_bit_def castagnoli_def)
  subgoal by (simp add: kBlock1SkipTable_def skip_basis_def upt_rec Let_def crc_trace_numeral crc_bit_def castagnoli_def)
  subgoal by (simp add: kBlock2SkipTable_def skip_basis_def upt_rec Let_def crc_trace_numeral crc_bit_def castagnoli_def)
  done

definition skip32 :: "u32 list list \<Rightarrow> u32 \<Rightarrow> u32" where
  "skip32 tab crc =
     tab ! 0 ! unat (crc AND 0xf) XOR tab ! 1 ! unat (drop_bit 4 crc AND 0xf) XOR
     tab ! 2 ! unat (drop_bit 8 crc AND 0xf) XOR tab ! 3 ! unat (drop_bit 12 crc AND 0xf) XOR
     tab ! 4 ! unat (drop_bit 16 crc AND 0xf) XOR tab ! 5 ! unat (drop_bit 20 crc AND 0xf) XOR
     tab ! 6 ! unat (drop_bit 24 crc AND 0xf) XOR tab ! 7 ! unat (drop_bit 28 crc AND 0xf)"

lemma and_f: "(x :: 'a::len word) AND 0xf = take_bit 4 x"
  by (simp add: take_bit_eq_mask mask_eq_exp_minus_1)

lemma nibble_split:
  "push_bit s (drop_bit s x) = push_bit s (take_bit 4 (drop_bit s x)) XOR push_bit (s + 4) (drop_bit (s + 4) (x :: u32))"
proof (rule bit_word_eqI)
  fix i :: nat
  show "bit (push_bit s (drop_bit s x)) i = bit (push_bit s (take_bit 4 (drop_bit s x)) XOR push_bit (s + 4) (drop_bit (s + 4) x)) i"
    by (cases "s + 4 \<le> i") (auto simp: bit_simps)
qed

lemma skip32_eq:
  assumes "tab = map (\<lambda>k. doubling (skip_basis hi k)) [0..<8]" "hi = advance n (2 ^ 31)"
  shows "skip32 tab x = advance n x"
proof -
  let ?F = "advance n"
  have look: "tab ! k ! unat (drop_bit (4 * k) x AND 0xf) = ?F (push_bit (4 * k) (take_bit 4 (drop_bit (4 * k) x)))" if "k < 8" for k
  proof -
    have "drop_bit (4 * k) x AND 0xf \<le> 0xf" by (rule word_and_le1)
    then have "unat (drop_bit (4 * k) x AND 0xf) < 16" by (simp add: word_le_nat_alt)
    then show ?thesis using skip_lookup [OF assms(2) that] that by (simp add: assms(1) and_f)
  qed
  have step: "?F (push_bit s (drop_bit s x)) =
      ?F (push_bit s (take_bit 4 (drop_bit s x))) XOR ?F (push_bit (s + 4) (drop_bit (s + 4) x))" for s
    by (subst nibble_split) (rule bits.F_xor)
  have "drop_bit 32 x = 0" by (rule bit_word_eqI) (auto simp: bit_simps dest: bit_imp_le_length)
  then have "?F x = ?F (push_bit 0 (take_bit 4 (drop_bit 0 x))) XOR ?F (push_bit 4 (take_bit 4 (drop_bit 4 x))) XOR
      ?F (push_bit 8 (take_bit 4 (drop_bit 8 x))) XOR ?F (push_bit 12 (take_bit 4 (drop_bit 12 x))) XOR
      ?F (push_bit 16 (take_bit 4 (drop_bit 16 x))) XOR ?F (push_bit 20 (take_bit 4 (drop_bit 20 x))) XOR
      ?F (push_bit 24 (take_bit 4 (drop_bit 24 x))) XOR ?F (push_bit 28 (take_bit 4 (drop_bit 28 x)))"
    using step [of 0] step [of 4] step [of 8] step [of 12] step [of 16] step [of 20] step [of 24] step [of 28]
    by (simp add: xor.assoc)
  then show ?thesis
    unfolding skip32_def
    using look [of 0] look [of 1] look [of 2] look [of 3] look [of 4] look [of 5] look [of 6] look [of 7] by simp
qed

text \<open>The values at the top bit, each from the tables already justified: 336 bytes are 21 strides of 16,
  1360 are four times 336 and a stride, 5440 are four times 1360.\<close>

definition stride16 :: "u32 \<Rightarrow> u32" where
  "stride16 crc = kStrideExtensionTable3 ! unat (crc AND 0xff) XOR kStrideExtensionTable2 ! unat (drop_bit 8 crc AND 0xff) XOR
     kStrideExtensionTable1 ! unat (drop_bit 16 crc AND 0xff) XOR kStrideExtensionTable0 ! unat (drop_bit 24 crc)"

lemma stride16_eq: "stride16 crc = advance 16 crc"
  unfolding stride16_def by (rule stride_tables)

lemma funpow_numeral: "(f ^^ numeral k) x = (f ^^ pred_numeral k) (f x)"
  by (simp add: numeral_eq_Suc funpow_swap1)

lemma top336: "advance 336 (2 ^ 31) = 0x7df9f615"
proof -
  have "advance 336 (2 ^ 31) = (advance 16 ^^ 21) (2 ^ 31)" by (simp add: funpow_mult mult.commute)
  also have "advance 16 = stride16" by (simp add: fun_eq_iff stride16_eq)
  also have "(stride16 ^^ 21) (2 ^ 31) = 0x7df9f615"
    by (simp add: funpow_numeral stride16_def kStrideExtensionTable0_def kStrideExtensionTable1_def
        kStrideExtensionTable2_def kStrideExtensionTable3_def)
  finally show ?thesis .
qed

lemmas skip336 = skip32_eq [OF skip_table_values(3) top336 [symmetric]]

lemma top1360: "advance 1360 (2 ^ 31) = 0xd6a79573"
proof -
  have "advance 1360 (2 ^ 31) = advance 16 ((advance 336 ^^ 4) (2 ^ 31))" by (simp add: funpow_mult crc_bits_add mult.commute)
  also have "advance 336 = skip32 kBlock2SkipTable" by (simp add: fun_eq_iff skip336)
  also have "advance 16 ((skip32 kBlock2SkipTable ^^ 4) (2 ^ 31)) = stride16 ((skip32 kBlock2SkipTable ^^ 4) (2 ^ 31))"
    by (simp add: stride16_eq)
  also have "(skip32 kBlock2SkipTable ^^ 4) (2 ^ 31) = 0xd27285db"
    by (simp add: funpow_numeral skip32_def kBlock2SkipTable_def)
  also have "stride16 0xd27285db = 0xd6a79573"
    by (simp add: stride16_def kStrideExtensionTable0_def kStrideExtensionTable1_def
        kStrideExtensionTable2_def kStrideExtensionTable3_def)
  finally show ?thesis .
qed

lemmas skip1360 = skip32_eq [OF skip_table_values(2) top1360 [symmetric]]

lemma top5440: "advance 5440 (2 ^ 31) = 0xaca00c83"
proof -
  have "advance 5440 (2 ^ 31) = (advance 1360 ^^ 4) (2 ^ 31)" by (simp add: funpow_mult mult.commute)
  also have "advance 1360 = skip32 kBlock1SkipTable" by (simp add: fun_eq_iff skip1360)
  also have "(skip32 kBlock1SkipTable ^^ 4) (2 ^ 31) = 0xaca00c83"
    by (simp add: funpow_numeral skip32_def kBlock1SkipTable_def)
  finally show ?thesis .
qed

lemmas skip5440 = skip32_eq [OF skip_table_values(1) top5440 [symmetric]]

lemma widen_xor: "ucast (a XOR b) = (ucast (a :: u32) XOR ucast b :: u64)"
  by (rule bit_word_eqI) (simp add: bit_simps)

lemma widen_nibble: "unat (drop_bit n (ucast (x :: u32) :: u64) AND 0xf) = unat (drop_bit n x AND 0xf)"
proof -
  have "drop_bit n (ucast x :: u64) AND 0xf = ucast (drop_bit n x AND 0xf)"
    unfolding and_f by (rule bit_word_eqI) (auto simp: bit_simps dest: bit_imp_le_length)
  then show ?thesis by (simp add: unsigned_ucast_eq)
qed

lemma SKIP_BLOCK_eq: "SKIP_BLOCK (ucast x) (skip_table b) = ucast (advance (block_size b) x)"
proof -
  have "SKIP_BLOCK (ucast x) tab = ucast (skip32 tab x)" for tab
    using widen_nibble [of 0 x]
    by (simp add: SKIP_BLOCK_def skip32_def widen_nibble widen_xor)
  then show ?thesis by (cases b) (simp_all add: block_size_values skip336 skip1360 skip5440)
qed

section \<open>The loops\<close>

lemma repeat_opt_add: "repeat_opt (m + n) f s = Option.bind (repeat_opt m f s) (repeat_opt n f)"
  by (induction m arbitrary: s) (auto split: option.splits)

lemma repeat_opt_mult: "repeat_opt m (repeat_opt n f) s = repeat_opt (m * n) f s"
  by (induction m arbitrary: s) (auto simp: repeat_opt_add split: option.splits bind_splits)

lemma STEP1_loop:
  assumes "sse42_documented cpu" "n \<le> length p"
  shows "repeat_opt n (sse_STEP1 cpu) (l, p) = Some (foldl crc_byte l (take n p), drop n p)"
  using assms(2)
proof (induction n arbitrary: l p)
  case (Suc n)
  then show ?case using assms(1) by (cases p) (simp_all add: sse42_documented_def)
qed simp

lemma STEP8_eq:
  assumes "sse42_documented cpu" "8 \<le> length p"
  shows "sse_STEP8 cpu (ucast l, p) = Some (ucast (foldl crc_byte l (take 8 p)), drop 8 p)"
proof -
  obtain w where "ReadUint64LE p 0 = Some w" "bytes_of_u64 w = take 8 (drop 0 p)" using ReadUint64LE_eq [of 0 p] assms(2) by auto
  then show ?thesis using assms(1) by (simp add: sse42_documented_def)
qed

lemma STEP8X3_loop:
  assumes "sse42_documented cpu" "8 * n \<le> bs" "2 * bs + 8 * n \<le> length p"
  shows "repeat_opt n (STEP8X3 cpu bs) ((ucast a, ucast b, ucast c), p) =
    Some ((ucast (foldl crc_byte a (take (8 * n) p)), ucast (foldl crc_byte b (take (8 * n) (drop bs p))),
           ucast (foldl crc_byte c (take (8 * n) (drop (2 * bs) p)))), drop (8 * n) p)"
  using assms(2,3)
proof (induction n arbitrary: a b c p)
  case (Suc n)
  obtain w0 where w0: "ReadUint64LE p 0 = Some w0" "bytes_of_u64 w0 = take 8 (drop 0 p)"
    using ReadUint64LE_eq [of 0 p] Suc.prems by auto
  obtain w1 where w1: "ReadUint64LE p bs = Some w1" "bytes_of_u64 w1 = take 8 (drop bs p)"
    using ReadUint64LE_eq [of bs p] Suc.prems by auto
  obtain w2 where w2: "ReadUint64LE p (2 * bs) = Some w2" "bytes_of_u64 w2 = take 8 (drop (2 * bs) p)"
    using ReadUint64LE_eq [of "2 * bs" p] Suc.prems by auto
  have "STEP8X3 cpu bs ((ucast a, ucast b, ucast c), p) =
      Some ((ucast (foldl crc_byte a (take 8 p)), ucast (foldl crc_byte b (take 8 (drop bs p))),
             ucast (foldl crc_byte c (take 8 (drop (2 * bs) p)))), drop 8 p)"
    using assms(1) w0 w1 w2 by (simp add: sse42_documented_def)
  moreover have "take (8 * Suc n) q = take 8 q @ take (8 * n) (drop 8 q)" for q :: Bytes
    using take_add [of 8 "8 * n" q] by simp
  ultimately show ?case using Suc.IH [of "drop 8 p"] Suc.prems by (simp add: drop_drop add.commute)
qed simp

text \<open>A loop on one register that has consumed a prefix.\<close>

definition consumed :: "u32 \<times> Bytes \<Rightarrow> u64 \<times> Bytes \<Rightarrow> bool" where
  "consumed s s' \<longleftrightarrow> (\<exists>xs. snd s = xs @ snd s' \<and> fst s' = ucast (foldl crc_byte (fst s) xs))"

lemma block_steps_eq:
  "block_steps cpu b s = repeat_opt (block_size b div 8) (STEP8X3 cpu (block_size b)) s"
  by (cases b) (simp_all add: block_steps_def repeat_opt_mult block_size_values)

lemma block_round_eq:
  assumes "sse42_documented cpu" "3 * block_size b \<le> length p"
  shows "block_round cpu b (ucast l, p) = Some (ucast (foldl crc_byte l (take (3 * block_size b) p)), drop (3 * block_size b) p)"
proof -
  let ?n = "block_size b"
  have div: "8 * (?n div 8) = ?n" by (cases b) (simp_all add: block_size_values)
  have run: "block_steps cpu b ((ucast l, 0, 0), p) =
      Some ((ucast (foldl crc_byte l (take ?n p)), ucast (foldl crc_byte 0 (take ?n (drop ?n p))),
             ucast (foldl crc_byte 0 (take ?n (drop (2 * ?n) p)))), drop ?n p)"
    using STEP8X3_loop [OF assms(1), of "?n div 8" ?n p l 0 0] assms(2) div by (simp add: block_steps_eq)
  have "take (3 * ?n) p = take ?n p @ take ?n (drop ?n p) @ take ?n (drop (2 * ?n) p)"
    using take_add [of ?n "2 * ?n" p] take_add [of ?n ?n "drop ?n p"] by (simp add: mult_2 numeral_3_eq_3 mult_Suc)
  then have "foldl crc_byte l (take (3 * ?n) p) = advance ?n (advance ?n (foldl crc_byte l (take ?n p)) XOR
      foldl crc_byte 0 (take ?n (drop ?n p))) XOR foldl crc_byte 0 (take ?n (drop (2 * ?n) p))"
    using assms(2) foldl_crc_split [of "foldl crc_byte l (take ?n p)" "take ?n (drop ?n p)"]
      foldl_crc_split [of "foldl crc_byte (foldl crc_byte l (take ?n p)) (take ?n (drop ?n p))" "take ?n (drop (2 * ?n) p)"]
    by simp
  then show ?thesis
    using run by (simp add: block_round_def SKIP_BLOCK_eq kGroups_def add.commute flip: widen_xor)
qed

text \<open>Rounds of a loop that each consume a prefix.\<close>

lemma narrow_widen [simp]: "(ucast (ucast (l :: u32) :: u64) :: u32) = l"
  by (rule bit_word_eqI) (simp add: bit_simps)

lemma widen_inj [simp]: "(ucast (a :: u32) :: u64) = ucast b \<longleftrightarrow> a = b"
  by (metis narrow_widen)

lemma consumed_trans:
  "consumed (l, p) (ucast l', p') \<Longrightarrow> consumed (l', p') s'' \<Longrightarrow> consumed (l, p) s''"
  by (fastforce simp: consumed_def)

lemma consumed_take: "consumed (l, p) (ucast (foldl crc_byte l (take n p)), drop n p)"
  by (auto simp: consumed_def intro!: exI [of _ "take n p"])

lemma block_loop_consumed:
  assumes "sse42_documented cpu"
  shows "\<exists>(l' :: u32) p'. block_loop cpu b (ucast l, p) = Some (ucast l', p') \<and> consumed (l, p) (ucast l', p')"
proof (induction "length p" arbitrary: l p rule: less_induct)
  case less
  show ?case
  proof (cases "3 * block_size b \<le> length p")
    case True
    let ?l = "foldl crc_byte l (take (3 * block_size b) p)" and ?p = "drop (3 * block_size b) p"
    have "length ?p < length p" using True by (cases b) (simp_all add: block_size_values)
    then obtain l' :: u32 and p' where rest: "block_loop cpu b (ucast ?l, ?p) = Some (ucast l', p')" "consumed (?l, ?p) (ucast l', p')"
      using less [of ?p ?l] by blast
    have "block_loop cpu b (ucast l, p) = block_loop cpu b (ucast ?l, ?p)"
      using True by (subst block_loop.simps) (simp add: kGroups_def block_round_eq [OF assms True])
    then show ?thesis using rest(1) consumed_trans [OF consumed_take rest(2)] by (intro exI conjI) simp_all
  next
    case False
    then show ?thesis using consumed_take [of l p 0]
      by (subst block_loop.simps) (auto simp: kGroups_def)
  qed
qed

lemma words16_consumed:
  assumes "sse42_documented cpu"
  shows "\<exists>(l' :: u32) p'. words16 cpu (ucast l, p) = Some (ucast l', p') \<and> consumed (l, p) (ucast l', p')"
proof (induction "length p" arbitrary: l p rule: less_induct)
  case less
  show ?case
  proof (cases "16 \<le> length p")
    case True
    let ?l = "foldl crc_byte (foldl crc_byte l (take 8 p)) (take 8 (drop 8 p))"
    have shorter: "length (drop 16 p) < length p" using True by simp
    obtain l' :: u32 and p' where rest: "words16 cpu (ucast ?l, drop 16 p) = Some (ucast l', p')" "consumed (?l, drop 16 p) (ucast l', p')"
      using less [of "drop 16 p" ?l, OF shorter] by blast
    have "take 16 p = take 8 p @ take 8 (drop 8 p)" using take_add [of 8 8 p] by simp
    then have "consumed (l, p) (ucast ?l, drop 16 p)" using consumed_take [of l p 16] by simp
    then show ?thesis using True rest consumed_trans
      by (subst words16.simps) (auto simp: STEP8_eq [OF assms] simp del: sse_STEP8.simps)
  next
    case False
    then show ?thesis using consumed_take [of l p 0] by (subst words16.simps) auto
  qed
qed

lemma extend_sse42:
  assumes "sse42_documented cpu" "unat addr + length data + 7 < 2 ^ 64"
  shows "ExtendSse42 cpu addr crc data = Some (crc_bitwise crc data)"
proof -
  define n where "n = (if RoundUp 8 addr \<le> addr + word_of_nat (length data) then unat (RoundUp 8 addr - addr) else 0)"
  define l0 where "l0 = foldl crc_byte (crc XOR kCRC32Xor) (take n data)"
  have n: "n \<le> length data" using RoundUp_near [of 3 addr "length data"] assms(2) by (simp add: n_def)
  obtain l1 :: u32 and p1 where 1: "block_loop cpu Block0 (ucast l0, drop n data) = Some (ucast l1, p1)" "consumed (l0, drop n data) (ucast l1, p1)"
    using block_loop_consumed [OF assms(1)] by blast
  obtain l2 :: u32 and p2 where 2: "block_loop cpu Block1 (ucast l1, p1) = Some (ucast l2, p2)" "consumed (l1, p1) (ucast l2, p2)"
    using block_loop_consumed [OF assms(1)] by blast
  obtain l3 :: u32 and p3 where 3: "block_loop cpu Block2 (ucast l2, p2) = Some (ucast l3, p3)" "consumed (l2, p2) (ucast l3, p3)"
    using block_loop_consumed [OF assms(1)] by blast
  obtain l4 :: u32 and p4 where 4: "words16 cpu (ucast l3, p3) = Some (ucast l4, p4)" "consumed (l3, p3) (ucast l4, p4)"
    using words16_consumed [OF assms(1)] by blast
  have "consumed (l0, drop n data) (ucast l4, p4)" using 1(2) 2(2) 3(2) 4(2) by (blast intro: consumed_trans)
  then obtain xs where xs: "drop n data = xs @ p4" "l4 = foldl crc_byte l0 xs"
    by (auto simp: consumed_def)
  have "data = take n data @ xs @ p4" using xs(1) by (metis append_take_drop_id)
  then have "foldl crc_byte (crc XOR kCRC32Xor) data = foldl crc_byte l4 p4"
    using xs(2) l0_def by (metis foldl_append)
  moreover have "(if RoundUp 8 addr \<le> addr + word_of_nat (length data)
      then repeat_opt (unat (RoundUp 8 addr - addr)) (sse_STEP1 cpu) (crc XOR kCRC32Xor, data)
      else Some (crc XOR kCRC32Xor, data)) = Some (l0, drop n data)"
    using STEP1_loop [OF assms(1) n, of "crc XOR kCRC32Xor"] by (auto simp: n_def l0_def)
  ultimately show ?thesis
    using 1(1) 2(1) 3(1) 4(1) by (simp add: ExtendSse42_def Let_def crc_bitwise_def STEP1_loop [OF assms(1)])
qed

lemma extend_any:
  assumes "pred_option sse42_documented can_use_sse42" "unat addr + length data + 7 < 2 ^ 64"
  shows "Extend can_use_sse42 addr crc data = Some (crc_bitwise crc data)"
proof (cases can_use_sse42)
  case None
  have "unat addr + length data + 3 < 2 ^ 64" using assms(2) by linarith
  then show ?thesis unfolding Extend_def None option.case by (rule extend_portable)
next
  case (Some cpu)
  have "sse42_documented cpu" using assms(1) Some by simp
  then show ?thesis unfolding Extend_def Some option.case by (rule extend_sse42 [OF _ assms(2)])
qed

text \<open>C18: The checksum routines compute CRC-32C. On a processor whose CRC32 instructions do what its
  manual says, and on one without them, \<open>Extend\<close> returns for every buffer that fits the address space,
  wherever it lies, exactly the bitwise CRC of the reference with the Castagnoli polynomial: the
  alignment prologue, the interleaved strides and blocks, the tables that join them and the last bytes
  together. No read leaves the buffer, and sender and receiver agree whatever processors they run on.\<close>

theorem Extend_correct:
  assumes "pred_option sse42_documented can_use_sse42" and "unat addr + length data + 7 < 2 ^ 64"
  shows "Extend can_use_sse42 addr crc data = Some (crc_bitwise crc data)"
  by (rule extend_any [OF assms])

definition sample_sse42 :: sse42 where
  "sample_sse42 = \<lparr>mm_crc32_u8 = crc_byte, mm_crc32_u64 = (\<lambda>l w. ucast (foldl crc_byte (ucast l) (bytes_of_u64 w)))\<rparr>"

lemma sample_sse42_documented: "sse42_documented sample_sse42"
  by (simp add: sse42_documented_def sample_sse42_def)

theorem Extend_correct_witness:
  "Extend (Some sample_sse42) 0x1001 0 [0x31, 0x32, 0x33, 0x34, 0x35, 0x36, 0x37, 0x38, 0x39] = Some 0xe3069283"
proof -
  let ?d = "[0x31, 0x32, 0x33, 0x34, 0x35, 0x36, 0x37, 0x38, 0x39]"
  have "Extend (Some sample_sse42) 0x1001 0 ?d = Some (crc_bitwise 0 ?d)"
    by (rule Extend_correct) (simp_all add: sample_sse42_documented)
  then show ?thesis by (simp only: crc_check_value)
qed

text \<open>Extending block by block, at any addresses, is extending by the whole data: a checksum accumulated
  over reads of any sizes is the checksum of the file.\<close>

lemma extend_blocks:
  assumes "pred_option sse42_documented can_use_sse42"
    and "\<forall>(addr, block) \<in> set blocks. unat addr + length block + 7 < 2 ^ 64"
  shows "fold (\<lambda>(addr, block) acc. Option.bind acc (\<lambda>crc. Extend can_use_sse42 addr crc block)) blocks (Some crc) =
    Some (crc_bitwise crc (concat (map snd blocks)))"
  using assms(2) by (induction blocks arbitrary: crc) (auto simp: crc_bitwise_laws extend_any [OF assms(1)])

text \<open>A change confined to four neighbouring bytes is always detected: two buffers that agree up to
  some position and again after the next four bytes (or fewer), and differ in between, have different
  checksums, wherever they lie in memory and whatever processors the two checksums were computed on.\<close>

theorem Extend_detects_burst:
  assumes "pred_option sse42_documented cpu" and "pred_option sse42_documented cpu'"
    and "length w \<le> 4" and "length w' = length w" and "w \<noteq> w'"
    and "unat addr + length (xs @ w @ ys) + 7 < 2 ^ 64" and "unat addr' + length (xs @ w @ ys) + 7 < 2 ^ 64"
  shows "Extend cpu addr crc (xs @ w @ ys) \<noteq> Extend cpu' addr' crc (xs @ w' @ ys)"
  using crc_burst [OF assms(3-5)] assms(4,6,7)
  by (simp add: extend_any [OF assms(1)] extend_any [OF assms(2)])

theorem Extend_detects_burst_witness:
  "Extend (Some sample_sse42) 0x1001 0 [1, 2, 3] \<noteq> Extend None 0x2000 0 [1, 7, 3]"
  using Extend_detects_burst [of "Some sample_sse42" None "[2]" "[7]" "0x1001" "[1]" "[3]" "0x2000" 0]
  by (simp add: sample_sse42_documented)

end
