(* ===== verification/NodeConfig.thy ===== *)
theory NodeConfig
  imports Source SenderNetwork
begin

text \<open>
  Options and configuration of a node, src/src/node/yisync_node_common.cpp and
  src/include/node/yisync_node_common.hpp: the INI reader with its comment, quote and list syntax, the
  size and number parsers, the checks of the configured values, the lines and endpoints built from
  them, and the command line. The content of the configuration file is an argument; paths are kept as
  the text the user wrote.
\<close>

section \<open>Constants and options\<close>

definition kStreamId :: u64 where "kStreamId = 9001"
definition kSeq :: u64 where "kSeq = 1"
definition kFileId :: u64 where "kFileId = 1"
definition kLineBudgetBytes :: u64 where "kLineBudgetBytes = 96 * 1024"
definition kLineWindowBytes :: u64 where "kLineWindowBytes = 2 * kLineBudgetBytes"
definition kMaxFrameBytes :: u64 where "kMaxFrameBytes = 1024 * 1024"

record T_StreamRootConfig =
  sr_stream_id :: u64
  sr_root :: string
  sr_entry_name_regex :: string

record T_NodeOptions =
  no_mode :: string
  no_host :: string
  no_base_port :: u16
  no_lines :: u32
  no_size :: u64
  no_root :: string
  no_source_root :: string
  no_drop_line_once :: LineId
  no_config_path :: string
  no_source_streams :: "T_StreamRootConfig list"
  no_line_endpoints :: "T_LineEndpoint list"
  no_line_configs :: "T_LineConfig list"
  no_compression :: EM_Compression
  no_checksum_algo :: EM_ChecksumAlgo
  no_recv_window_bytes :: u64
  no_chunk_size :: u64
  no_heartbeat_timeout_ticks :: u64
  no_chunk_retransmit_ticks :: u64
  no_max_retransmit_retries :: u64
  no_max_manifest_recovery_attempts :: u64
  no_max_missing_ranges_per_heartbeat :: u64
  no_heartbeat_ack_batch_size :: u64
  no_reconnect_base_delay_ms :: u64
  no_reconnect_max_delay_ms :: u64
  no_receiver_heartbeat_interval :: int
  no_receiver_commit_poll_interval :: int
  no_watch :: bool
  no_watch_backend :: EM_WatchBackend
  no_watch_poll_interval :: int
  no_watch_rescan_debounce :: int

definition default_NodeOptions :: "string \<Rightarrow> T_NodeOptions" where
  "default_NodeOptions temp_directory =
     \<lparr>no_mode = [], no_host = ''127.0.0.1'', no_base_port = 19000, no_lines = 2, no_size = 150 * 1024,
      no_root = temp_directory @ ''/yisync_ab_receiver'', no_source_root = [], no_drop_line_once = 0, no_config_path = [],
      no_source_streams = [], no_line_endpoints = [], no_line_configs = [], no_compression = Compression_NONE,
      no_checksum_algo = CRC32C, no_recv_window_bytes = kLineWindowBytes, no_chunk_size = kDefaultChunkSizeBytes,
      no_heartbeat_timeout_ticks = 300, no_chunk_retransmit_ticks = 100, no_max_retransmit_retries = 5,
      no_max_manifest_recovery_attempts = 3, no_max_missing_ranges_per_heartbeat = 64, no_heartbeat_ack_batch_size = 20,
      no_reconnect_base_delay_ms = 100, no_reconnect_max_delay_ms = 2000, no_receiver_heartbeat_interval = 50,
      no_receiver_commit_poll_interval = 2, no_watch = False, no_watch_backend = Backend_AUTO,
      no_watch_poll_interval = 500, no_watch_rescan_debounce = 200\<rparr>"

text \<open>Sequencing of code that may throw.\<close>

abbreviation try_then :: "'a result \<Rightarrow> ('a \<Rightarrow> 'b result) \<Rightarrow> 'b result" where
  "try_then r f \<equiv> (case r of Inl e \<Rightarrow> Inl e | Inr x \<Rightarrow> f x)"

abbreviation check_that :: "bool \<Rightarrow> exn \<Rightarrow> 'a result \<Rightarrow> 'a result" where
  "check_that ok e k \<equiv> (if ok then k else Inl e)"

fun map_results :: "('a \<Rightarrow> 'b result) \<Rightarrow> 'a list \<Rightarrow> 'b list result" where
  "map_results f [] = Inr []"
| "map_results f (x # xs) = try_then (f x) (\<lambda>y. try_then (map_results f xs) (\<lambda>ys. Inr (y # ys)))"

section \<open>Text\<close>

definition is_space :: "char \<Rightarrow> bool" where
  "is_space c \<longleftrightarrow> (of_char c :: nat) = 32 \<or> (9 \<le> (of_char c :: nat) \<and> (of_char c :: nat) \<le> 13)"

definition trim :: "string \<Rightarrow> string" where
  "trim s = rev (dropWhile is_space (rev (dropWhile is_space s)))"

definition lower_char :: "char \<Rightarrow> char" where
  "lower_char c = (if 65 \<le> (of_char c :: nat) \<and> (of_char c :: nat) \<le> 90 then char_of ((of_char c :: nat) + 32) else c)"

definition lower_ascii :: "string \<Rightarrow> string" where
  "lower_ascii s = map lower_char s"

definition wrapped_in :: "char \<Rightarrow> char \<Rightarrow> string \<Rightarrow> bool" where
  "wrapped_in a b s \<longleftrightarrow> 2 \<le> length s \<and> hd s = a \<and> last s = b"

definition unwrap :: "string \<Rightarrow> string" where
  "unwrap s = butlast (tl s)"

definition strip_braces :: "string \<Rightarrow> string" where
  "strip_braces value0 =
     (let v = trim value0 in if wrapped_in (CHR ''{'') (CHR ''}'') v then trim (unwrap v) else v)"

text \<open>The text before a comment: quotes open and close unless a backslash stands before them.\<close>

fun before_comment :: "bool \<Rightarrow> char \<Rightarrow> char option \<Rightarrow> string \<Rightarrow> string" where
  "before_comment in_quote quote prev [] = []"
| "before_comment in_quote quote prev (ch # rest) =
     (if (ch = CHR 0x22 \<or> ch = CHR 0x27) \<and> prev \<noteq> Some (CHR 0x5C)
      then ch # (if \<not> in_quote then before_comment True ch (Some ch) rest
                 else before_comment (quote \<noteq> ch) quote (Some ch) rest)
      else if \<not> in_quote \<and> (ch = CHR ''#'' \<or> ch = CHR '';'') then []
      else ch # before_comment in_quote quote (Some ch) rest)"

definition strip_inline_comment :: "string \<Rightarrow> string" where
  "strip_inline_comment line = trim (before_comment False (CHR 0x00) None line)"

fun split_commas :: "string \<Rightarrow> string list" where
  "split_commas [] = [[]]"
| "split_commas (c # cs) =
     (if c = CHR '','' then [] # split_commas cs
      else case split_commas cs of [] \<Rightarrow> [[c]] | p # ps \<Rightarrow> (c # p) # ps)"

definition list_item :: "string \<Rightarrow> string list" where
  "list_item part =
     (let item = trim part;
          item1 = (if wrapped_in (CHR 0x22) (CHR 0x22) item \<or> wrapped_in (CHR 0x27) (CHR 0x27) item then unwrap item else item)
      in if item = [] \<or> item1 = [] then [] else [item1])"

definition split_list :: "string \<Rightarrow> string list" where
  "split_list v = concat (map list_item (split_commas (strip_braces v)))"

section \<open>Numbers\<close>

definition parse_u64_text :: "string \<Rightarrow> u64 option" where
  "parse_u64_text s =
     (if s \<noteq> [] \<and> list_all is_digit s \<and> digits_value s < 2 ^ 64 then Some (word_of_int (digits_value s)) else None)"

definition parse_stream_dir_name :: "path \<Rightarrow> u64 option" where
  "parse_stream_dir_name p = (if p = [] then None else parse_u64_text (last p))"

definition parse_u64_strict :: "string \<Rightarrow> u64 option" where
  "parse_u64_strict s = (if trim s = [] then None else parse_u64_text (trim s))"

definition size_multiplier :: "string \<Rightarrow> u64 option" where
  "size_multiplier suffix =
     (if suffix = [] then Some 1
      else if suffix \<in> {''k'', ''kb'', ''ki'', ''kib''} then Some 1024
      else if suffix \<in> {''m'', ''mb'', ''mi'', ''mib''} then Some (1024 * 1024)
      else if suffix \<in> {''g'', ''gb'', ''gi'', ''gib''} then Some (1024 * 1024 * 1024)
      else None)"

definition parse_size_bytes :: "string \<Rightarrow> u64 option" where
  "parse_size_bytes s =
     (let v = trim s
      in if v = [] then None
         else
           let w = filter (\<lambda>c. c \<noteq> CHR ''_'') v;
               digits = takeWhile is_digit w
           in if digits = [] then None
              else
                case parse_u64_strict digits of
                  None \<Rightarrow> None
                | Some number \<Rightarrow>
                    (let suffix0 = lower_ascii (trim (dropWhile is_digit w));
                         suffix = (if suffix0 \<noteq> [] \<and> last suffix0 = CHR ''b'' then butlast suffix0 else suffix0)
                     in case size_multiplier suffix of
                          None \<Rightarrow> None
                        | Some multiplier \<Rightarrow>
                            if number > UINT64_MAX div multiplier then None else Some (number * multiplier)))"

definition checked_port :: "u64 \<Rightarrow> string \<Rightarrow> u16 result" where
  "checked_port v key =
     (if v = 0 \<or> v > 65535 then Inl (runtime_error (key @ '' must be in range 1..65535'')) else Inr (ucast v))"

section \<open>Enumerations\<close>

definition parse_compression :: "string \<Rightarrow> EM_Compression result" where
  "parse_compression v =
     (let s = lower_ascii (trim v)
      in if s = [] \<or> s \<in> {''none'', ''off'', ''false'', ''0''} then Inr Compression_NONE
         else if s = ''lz4'' then Inr LZ4
         else if s = ''zstd'' then Inr ZSTD
         else Inl (runtime_error (''unsupported compression in config: '' @ v)))"

definition parse_checksum :: "string \<Rightarrow> EM_ChecksumAlgo result" where
  "parse_checksum v =
     (let s = lower_ascii (trim v)
      in if s \<in> {[], ''crc32c'', ''crc''} then Inr CRC32C
         else if s \<in> {''none'', ''off'', ''false'', ''0''} then Inr Checksum_NONE
         else if s = ''md5'' then Inr MD5
         else Inl (runtime_error (''unsupported checksum in config: '' @ v)))"

definition parse_bool :: "string \<Rightarrow> bool result" where
  "parse_bool v =
     (let s = lower_ascii (trim v)
      in if s \<in> {''1'', ''true'', ''yes'', ''on''} then Inr True
         else if s \<in> {''0'', ''false'', ''no'', ''off''} then Inr False
         else Inl (runtime_error (''bad boolean value in config: '' @ v)))"

definition parse_watch_backend :: "string \<Rightarrow> EM_WatchBackend result" where
  "parse_watch_backend v =
     (let s = lower_ascii (trim v)
      in if s \<in> {[], ''auto''} then Inr Backend_AUTO
         else if s \<in> {''polling'', ''poll''} then Inr Backend_POLLING
         else if s = ''inotify'' then Inr Backend_INOTIFY
         else if s \<in> {''fsevents'', ''fsevent''} then Inr Backend_FSEVENTS
         else Inl (runtime_error (''unsupported watch backend in config: '' @ v)))"

section \<open>The INI file\<close>

type_synonym T_IniConfig = "((string \<times> string) \<times> string) list"

definition ini_get :: "T_IniConfig \<Rightarrow> string \<Rightarrow> string \<Rightarrow> string option" where
  "ini_get config section_name key = map_of config (lower_ascii section_name, lower_ascii key)"

fun get_any :: "T_IniConfig \<Rightarrow> string \<Rightarrow> string list \<Rightarrow> string option" where
  "get_any config section_name [] = None"
| "get_any config section_name (key # keys) =
     (case ini_get config section_name key of Some v \<Rightarrow> Some v | None \<Rightarrow> get_any config section_name keys)"

text \<open>\<open>std::getline\<close>: a final line without a newline counts, an empty rest does not.\<close>

fun text_lines :: "string \<Rightarrow> string list" where
  "text_lines [] = []"
| "text_lines (c # cs) =
     (if c = CHR 0x0A then [] # text_lines cs
      else case text_lines cs of
             [] \<Rightarrow> [[c]]
           | l # ls \<Rightarrow> (c # l) # ls)"

fun find_char :: "char \<Rightarrow> string \<Rightarrow> nat option" where
  "find_char c [] = None"
| "find_char c (x # xs) = (if x = c then Some 0 else map_option Suc (find_char c xs))"

fun ini_lines :: "nat \<Rightarrow> string \<Rightarrow> string list \<Rightarrow> T_IniConfig \<Rightarrow> T_IniConfig result" where
  "ini_lines line_no section_name [] config = Inr config"
| "ini_lines line_no section_name (line # rest) config =
     (let s = strip_inline_comment line
      in if s = [] then ini_lines (line_no + 1) section_name rest config
         else if hd s = CHR ''['' \<and> last s = CHR '']''
         then (let name = lower_ascii (trim (unwrap s))
               in if name = [] then Inl (runtime_error (''empty config section at line '' @ to_string (line_no + 1)))
                  else ini_lines (line_no + 1) name rest config)
         else
           (case find_char (CHR ''='') s of
              None \<Rightarrow> Inl (runtime_error (''bad config line '' @ to_string (line_no + 1) @ '': '' @ s))
            | Some equal \<Rightarrow>
                if section_name = [] then Inl (runtime_error (''config key before section at line '' @ to_string (line_no + 1)))
                else
                  let key = lower_ascii (trim (take equal s)); v = trim (drop (equal + 1) s)
                  in if key = [] then Inl (runtime_error (''empty config key at line '' @ to_string (line_no + 1)))
                     else ini_lines (line_no + 1) section_name rest (AList.update (section_name, key) v config)))"

definition load_ini_config :: "(string \<Rightarrow> string option) \<Rightarrow> string \<Rightarrow> T_IniConfig result" where
  "load_ini_config read_file p =
     (case read_file p of
        None \<Rightarrow> Inl (runtime_error (''failed to open config: '' @ p))
      | Some content \<Rightarrow> ini_lines 0 [] (text_lines content) [])"

section \<open>Configured values\<close>

definition parse_port :: "string \<Rightarrow> u16 result" where
  "parse_port part =
     (case parse_u64_strict part of
        None \<Rightarrow> Inl (runtime_error (''bad port value in config: '' @ part))
      | Some v \<Rightarrow> checked_port v ''port'')"

definition parse_ports :: "T_IniConfig \<Rightarrow> string \<Rightarrow> u16 \<Rightarrow> u16 list result" where
  "parse_ports config mode fallback_base_port =
     (case get_any config ''common'' [''ports'', ''line_ports''] of
        Some ports_text \<Rightarrow> map_results parse_port (split_list ports_text)
      | None \<Rightarrow>
          (case get_any config mode [''port''] of
             None \<Rightarrow> Inr [fallback_base_port]
           | Some port_value \<Rightarrow>
               if trim port_value = [] then Inr [fallback_base_port]
               else
                 let parts = split_list port_value
                 in if length parts > 1 then map_results parse_port parts
                    else try_then (parse_port port_value) (\<lambda>p. Inr [p])))"

definition parse_line_hosts :: "T_IniConfig \<Rightarrow> T_NodeOptions \<Rightarrow> string list" where
  "parse_line_hosts config options =
     (case get_any config ''common'' [''ips'', ''hosts'', ''line_ips''] of
        Some hosts \<Rightarrow> split_list hosts
      | None \<Rightarrow>
          (case get_any config (no_mode options) [''ip'', ''ips'', ''host'', ''hosts''] of
             Some hosts \<Rightarrow> split_list hosts
           | None \<Rightarrow> [no_host options]))"

definition parse_bandwidth_limit :: "string \<Rightarrow> u64 result" where
  "parse_bandwidth_limit part =
     (case parse_size_bytes part of
        None \<Rightarrow> Inl (runtime_error (''bad Bandwidth_Limit value in config: '' @ part))
      | Some v \<Rightarrow> if v = 0 then Inl (runtime_error (''bad Bandwidth_Limit value in config: '' @ part)) else Inr v)"

definition parse_bandwidth_limits :: "T_IniConfig \<Rightarrow> u64 list result" where
  "parse_bandwidth_limits config =
     (case get_any config ''common'' [''bandwidth_limit'', ''bandwidth_limits'', ''line_limits''] of
        None \<Rightarrow> Inr []
      | Some s \<Rightarrow> map_results parse_bandwidth_limit (split_list s))"

text \<open>An option that is absent or empty leaves the target; the result says whether it was given.\<close>

definition apply_size_option :: "T_IniConfig \<Rightarrow> string list \<Rightarrow> u64 \<Rightarrow> (bool \<times> u64) result" where
  "apply_size_option config keys target =
     (case get_any config ''common'' keys of
        None \<Rightarrow> Inr (False, target)
      | Some s \<Rightarrow>
          if trim s = [] then Inr (False, target)
          else (case parse_size_bytes s of
                  None \<Rightarrow> Inl (runtime_error (''bad size value in config: '' @ s))
                | Some v \<Rightarrow> if v = 0 then Inl (runtime_error (''bad size value in config: '' @ s)) else Inr (True, v)))"

definition apply_u64_option :: "T_IniConfig \<Rightarrow> string list \<Rightarrow> u64 \<Rightarrow> (bool \<times> u64) result" where
  "apply_u64_option config keys target =
     (case get_any config ''common'' keys of
        None \<Rightarrow> Inr (False, target)
      | Some s \<Rightarrow>
          if trim s = [] then Inr (False, target)
          else (case parse_u64_strict s of
                  None \<Rightarrow> Inl (runtime_error (''bad integer value in config: '' @ s))
                | Some v \<Rightarrow> Inr (True, v)))"

definition apply_ms_option :: "T_IniConfig \<Rightarrow> string list \<Rightarrow> int \<Rightarrow> int result" where
  "apply_ms_option config keys target =
     try_then (apply_u64_option config keys 0) (\<lambda>(given, v).
       if \<not> given then Inr target
       else if v = 0 \<or> v > 9223372036854775807
       then Inl (runtime_error ''millisecond config value must be positive and in range'')
       else Inr (uint v))"

text \<open>\<open>apply_runtime_config\<close>: first the values are read, then they are checked.\<close>

definition read_runtime_config :: "T_NodeOptions \<Rightarrow> T_IniConfig \<Rightarrow> (bool \<times> T_NodeOptions) result" where
  "read_runtime_config o0 config =
     try_then (apply_size_option config [''recv_window'', ''recv_window_bytes'', ''receive_window'', ''receive_window_bytes'']
                 (no_recv_window_bytes o0)) (\<lambda>(recv_window_configured, recv_window).
     try_then (apply_size_option config [''chunk_size'', ''chunk_bytes''] (no_chunk_size o0)) (\<lambda>(_, chunk_size).
     try_then (apply_u64_option config [''heartbeat_timeout_ticks''] (no_heartbeat_timeout_ticks o0)) (\<lambda>(_, timeout_ticks).
     try_then (apply_u64_option config [''chunk_retransmit_ticks'', ''retransmit_ticks'']
                 (no_chunk_retransmit_ticks o0)) (\<lambda>(_, retransmit_ticks).
     try_then (apply_u64_option config [''max_retransmit_retries'', ''retransmit_retries'']
                 (no_max_retransmit_retries o0)) (\<lambda>(_, retries).
     try_then (apply_u64_option config [''max_manifest_recovery_attempts'', ''manifest_recovery_attempts'']
                 (no_max_manifest_recovery_attempts o0)) (\<lambda>(_, attempts).
     try_then (apply_u64_option config [''max_missing_ranges_per_heartbeat'', ''max_missing_ranges'']
                 (no_max_missing_ranges_per_heartbeat o0)) (\<lambda>(_, ranges).
     try_then (apply_u64_option config [''heartbeat_ack_batch_size'', ''ack_batch_size'']
                 (no_heartbeat_ack_batch_size o0)) (\<lambda>(_, batch).
     try_then (apply_u64_option config [''reconnect_base_delay_ms'', ''reconnect_base_ms'']
                 (no_reconnect_base_delay_ms o0)) (\<lambda>(_, base_delay).
     try_then (apply_u64_option config [''reconnect_max_delay_ms'', ''reconnect_max_ms'']
                 (no_reconnect_max_delay_ms o0)) (\<lambda>(_, max_delay).
     try_then (apply_ms_option config [''heartbeat_interval_ms'', ''receiver_heartbeat_interval_ms'']
                 (no_receiver_heartbeat_interval o0)) (\<lambda>heartbeat_interval.
     try_then (apply_ms_option config [''commit_poll_interval_ms'', ''receiver_commit_poll_interval_ms'']
                 (no_receiver_commit_poll_interval o0)) (\<lambda>commit_poll_interval.
     try_then (apply_ms_option config [''watch_interval_ms'', ''watch_poll_interval_ms'']
                 (no_watch_poll_interval o0)) (\<lambda>watch_interval.
     try_then (apply_ms_option config [''watch_rescan_debounce_ms'', ''rescan_debounce_ms'']
                 (no_watch_rescan_debounce o0)) (\<lambda>debounce.
     Inr (recv_window_configured,
       o0\<lparr>no_recv_window_bytes := recv_window, no_chunk_size := chunk_size, no_heartbeat_timeout_ticks := timeout_ticks,
          no_chunk_retransmit_ticks := retransmit_ticks, no_max_retransmit_retries := retries,
          no_max_manifest_recovery_attempts := attempts, no_max_missing_ranges_per_heartbeat := ranges,
          no_heartbeat_ack_batch_size := batch, no_reconnect_base_delay_ms := base_delay,
          no_reconnect_max_delay_ms := max_delay, no_receiver_heartbeat_interval := heartbeat_interval,
          no_receiver_commit_poll_interval := commit_poll_interval, no_watch_poll_interval := watch_interval,
          no_watch_rescan_debounce := debounce\<rparr>)))))))))))))))"

definition apply_runtime_config :: "T_NodeOptions \<Rightarrow> T_IniConfig \<Rightarrow> T_NodeOptions result" where
  "apply_runtime_config o0 config =
     try_then (read_runtime_config o0 config) (\<lambda>(recv_window_configured, o1).
       check_that (\<not> (no_chunk_size o1 = 0 \<or> no_chunk_size o1 + 1024 > kMaxFrameBytes))
         (runtime_error ''common.chunk_size must be positive and leave room inside max frame'')
       (let o2 = (if recv_window_configured then o1
                  else o1\<lparr>no_recv_window_bytes := max (no_recv_window_bytes o1) (no_chunk_size o1 * 2)\<rparr>)
        in check_that (\<not> no_recv_window_bytes o2 < no_chunk_size o2)
             (runtime_error ''common.recv_window_bytes must be at least common.chunk_size'')
           (check_that (\<not> (no_reconnect_base_delay_ms o2 = 0 \<or> no_reconnect_max_delay_ms o2 = 0))
             (runtime_error ''reconnect delay config values must be positive'')
           (check_that (\<not> no_reconnect_max_delay_ms o2 < no_reconnect_base_delay_ms o2)
             (runtime_error ''reconnect_max_delay_ms must be >= reconnect_base_delay_ms'')
           (check_that (\<not> (no_watch_poll_interval o2 \<le> 0 \<or> no_watch_rescan_debounce o2 \<le> 0))
             (runtime_error ''watch interval config values must be positive'')
           (Inr o2))))))"

definition resolve_line_count :: "T_NodeOptions \<Rightarrow> T_IniConfig \<Rightarrow> nat \<Rightarrow> nat \<Rightarrow> nat \<Rightarrow> u32 result" where
  "resolve_line_count options config host_count port_count limit_count =
     try_then (case get_any config ''common'' [''link_num'', ''line_num'', ''lines''] of
                 None \<Rightarrow> Inr (ucast (no_lines options))
               | Some v \<Rightarrow>
                   (case parse_u64_strict v of
                      None \<Rightarrow> Inl (runtime_error ''common.link_num must be a positive integer'')
                    | Some n \<Rightarrow> if n = 0 then Inl (runtime_error ''common.link_num must be a positive integer'') else Inr n))
       (\<lambda>n :: u64.
          let lines = max (max (max n (word_of_nat host_count)) (word_of_nat port_count)) (word_of_nat limit_count)
          in if lines = 0 \<or> lines > 4294967295 then Inl (runtime_error ''line count is out of range'')
             else Inr (ucast lines))"

section \<open>Stream roots\<close>

fun find_str :: "string \<Rightarrow> string \<Rightarrow> nat option" where
  "find_str needle [] = (if needle = [] then Some 0 else None)"
| "find_str needle (x # xs) = (if take (length needle) (x # xs) = needle then Some 0 else map_option Suc (find_str needle xs))"

fun parse_stream_roots :: "string list \<Rightarrow> u64 \<Rightarrow> (T_StreamRootConfig list \<times> u64) result" where
  "parse_stream_roots [] next_stream_id = Inr ([], next_stream_id)"
| "parse_stream_roots (item # items) next_stream_id =
     (let (path_and_id, regex_text) =
            (case find_str ''::'' item of None \<Rightarrow> (item, []) | Some n \<Rightarrow> (take n item, drop (n + 2) item))
      in case find_char (CHR '':'') path_and_id of
           None \<Rightarrow>
             try_then (parse_stream_roots items (next_stream_id + 1)) (\<lambda>(roots, next).
               Inr (\<lparr>sr_stream_id = next_stream_id, sr_root = path_and_id, sr_entry_name_regex = regex_text\<rparr> # roots, next))
         | Some colon \<Rightarrow>
             (let path_text = trim (drop (colon + 1) path_and_id)
              in case parse_u64_strict (trim (take colon path_and_id)) of
                   None \<Rightarrow> Inl (runtime_error (''bad stream root config: '' @ item))
                 | Some stream \<Rightarrow>
                     if stream = 0 \<or> path_text = [] then Inl (runtime_error (''bad stream root config: '' @ item))
                     else try_then (parse_stream_roots items next_stream_id) (\<lambda>(roots, next).
                       Inr (\<lparr>sr_stream_id = stream, sr_root = path_text, sr_entry_name_regex = regex_text\<rparr> # roots, next))))"

definition append_stream_roots ::
  "T_StreamRootConfig list \<Rightarrow> string option \<Rightarrow> u64 \<Rightarrow> (T_StreamRootConfig list \<times> u64) result" where
  "append_stream_roots out v next_stream_id =
     (case v of
        None \<Rightarrow> Inr (out, next_stream_id)
      | Some s \<Rightarrow> try_then (parse_stream_roots (split_list s) next_stream_id) (\<lambda>(roots, next). Inr (out @ roots, next)))"

section \<open>Lines\<close>

definition line_name :: "u32 \<Rightarrow> string" where
  "line_name i = ''tcp-line-'' @ to_string (unat i)"

definition line_config :: "T_NodeOptions \<Rightarrow> u32 \<Rightarrow> u64 \<Rightarrow> T_LineConfig" where
  "line_config options i budget =
     \<lparr>lc_id = i, lc_name = line_name i,
      lc_limiter = \<lparr>tb_tokens_per_tick = budget, tb_capacity = budget, tb_tick = 10\<rparr>,
      lc_initial_recv_window_bytes = no_recv_window_bytes options,
      lc_heartbeat_timeout_ticks = no_heartbeat_timeout_ticks options, lc_initially_connected = False\<rparr>"

definition line_endpoint :: "u32 \<Rightarrow> string \<Rightarrow> u16 \<Rightarrow> T_LineEndpoint" where
  "line_endpoint i host port =
     \<lparr>le_id = i, le_protocol = TCP, le_endpoint = \<lparr>ep_host = host, ep_port = port\<rparr>, le_name = line_name i\<rparr>"

definition line_ids :: "u32 \<Rightarrow> u32 list" where
  "line_ids lines = map word_of_nat [1..<Suc (unat lines)]"

definition line_port :: "T_NodeOptions \<Rightarrow> LineId \<Rightarrow> u16" where
  "line_port options line_id = ucast (ucast (no_base_port options) + line_id - 1 :: u32)"

definition make_line_configs :: "T_NodeOptions \<Rightarrow> T_LineConfig list" where
  "make_line_configs options =
     (if no_line_configs options \<noteq> [] then no_line_configs options
      else map (\<lambda>i. line_config options i kLineBudgetBytes) (line_ids (no_lines options)))"

definition make_line_endpoints :: "T_NodeOptions \<Rightarrow> T_LineEndpoint list" where
  "make_line_endpoints options =
     (if no_line_endpoints options \<noteq> [] then no_line_endpoints options
      else map (\<lambda>i. line_endpoint i (no_host options) (line_port options i)) (line_ids (no_lines options)))"

text \<open>The part of \<open>apply_config_file\<close> that lays out the lines.\<close>

definition expand_ports :: "u16 list \<Rightarrow> u32 \<Rightarrow> u16 list result" where
  "expand_ports ports lines =
     (if length ports = 1
      then map_results (\<lambda>i. checked_port (ucast (hd ports) + word_of_nat i) ''port'') [0..<unat lines]
      else if length ports = unat lines then Inr ports
      else Inl (runtime_error ''port list size must be 1 or match link_num''))"

definition apply_lines :: "T_NodeOptions \<Rightarrow> T_IniConfig \<Rightarrow> T_NodeOptions result" where
  "apply_lines o1 config =
     (let hosts0 = parse_line_hosts config o1;
          hosts1 = (if hosts0 = [] then [no_host o1] else hosts0)
      in try_then (parse_ports config (no_mode o1) (no_base_port o1)) (\<lambda>ports.
         try_then (parse_bandwidth_limits config) (\<lambda>limits.
         try_then (resolve_line_count o1 config (length hosts1) (length ports) (length limits)) (\<lambda>lines.
         let hosts = (if length hosts1 = 1 then replicate (unat lines) (hd hosts1) else hosts1)
         in check_that (length hosts = unat lines) (runtime_error ''ip list size must be 1 or match link_num'')
            (try_then (expand_ports ports lines) (\<lambda>expanded_ports.
               let o2 = o1\<lparr>no_lines := lines, no_base_port := hd ports, no_host := hd hosts\<rparr>;
                   budget = (\<lambda>index. if limits = [] then kLineBudgetBytes else limits ! min index (length limits - 1))
               in Inr (o2\<lparr>
                    no_line_endpoints := map (\<lambda>i. line_endpoint i (hosts ! (unat i - 1)) (expanded_ports ! (unat i - 1))) (line_ids lines),
                    no_line_configs := map (\<lambda>i. line_config o2 i (budget (unat i - 1))) (line_ids lines)\<rparr>)))))))"

definition option_set :: "(string \<Rightarrow> 'a result) \<Rightarrow> string option \<Rightarrow> 'a \<Rightarrow> 'a result" where
  "option_set parse v old = (case v of None \<Rightarrow> Inr old | Some s \<Rightarrow> parse s)"

definition text_option :: "string option \<Rightarrow> string \<Rightarrow> string" where
  "text_option v old = (case v of None \<Rightarrow> old | Some s \<Rightarrow> if trim s = [] then old else trim s)"

definition apply_config_file :: "(string \<Rightarrow> string option) \<Rightarrow> T_NodeOptions \<Rightarrow> string \<Rightarrow> T_NodeOptions result" where
  "apply_config_file read_file o0 p =
     try_then (load_ini_config read_file p) (\<lambda>config.
     try_then (option_set parse_compression (get_any config ''common'' [''compress'', ''compression'']) (no_compression o0)) (\<lambda>compression.
     try_then (option_set parse_checksum (get_any config ''common'' [''checksum'']) (no_checksum_algo o0)) (\<lambda>checksum.
     try_then (option_set parse_bool (get_any config ''common'' [''watch'', ''watch_enabled'']) (no_watch o0)) (\<lambda>watch.
     try_then (option_set parse_watch_backend (get_any config ''common'' [''watch_backend'']) (no_watch_backend o0)) (\<lambda>backend.
     try_then (apply_runtime_config (o0\<lparr>no_compression := compression, no_checksum_algo := checksum, no_watch := watch,
                 no_watch_backend := backend\<rparr>) config) (\<lambda>o1.
     let o2 = o1\<lparr>no_root := text_option (get_any config ''receiver'' [''mount_dir'', ''root'']) (no_root o1),
                 no_source_root := text_option (get_any config ''sender'' [''source_root'', ''root'']) (no_source_root o1)\<rparr>
     in try_then (append_stream_roots [] (get_any config ''sender'' [''high_prioity_dirs'', ''high_priority_dirs'']) kStreamId) (\<lambda>(high, next).
        try_then (append_stream_roots high (get_any config ''sender'' [''low_prioirt_dies'', ''low_priority_dirs'']) next) (\<lambda>(roots, _).
        apply_lines (o2\<lparr>no_source_streams := roots,
                       no_source_root := (if roots = [] then no_source_root o2 else sr_root (hd roots))\<rparr>) config))))))))"

section \<open>The command line\<close>

text \<open>\<open>std::stoul\<close> and \<open>std::stoull\<close>, both of 64 bits: leading blanks and a sign are taken, what follows
  the digits is ignored, a negative number wraps.\<close>

definition stoul :: "string \<Rightarrow> string \<Rightarrow> u64 result" where
  "stoul name s =
     (let s1 = dropWhile is_space s;
          signed_text = s1 \<noteq> [] \<and> (hd s1 = CHR ''-'' \<or> hd s1 = CHR ''+'');
          digits = takeWhile is_digit (if signed_text then tl s1 else s1)
      in if digits = [] then Inl (invalid_argument name)
         else if digits_value digits \<ge> 2 ^ 64 then Inl (out_of_range name)
         else Inr (if signed_text \<and> hd s1 = CHR ''-'' then - word_of_int (digits_value digits)
                   else word_of_int (digits_value digits)))"

definition missing_value :: "string \<Rightarrow> 'a result" where
  "missing_value name = Inl (runtime_error (''missing value for '' @ name))"

fun find_config_path :: "string list \<Rightarrow> string \<Rightarrow> string result" where
  "find_config_path [] found = Inr found"
| "find_config_path (arg # args) found =
     (if arg \<noteq> ''--config'' then find_config_path args found
      else case args of [] \<Rightarrow> missing_value ''--config'' | v # rest \<Rightarrow> find_config_path rest v)"

text \<open>An option with its value; \<open>None\<close> for an unknown option.\<close>

definition apply_argument :: "string \<Rightarrow> string \<Rightarrow> T_NodeOptions \<Rightarrow> T_NodeOptions result option" where
  "apply_argument arg v o0 =
     (if arg = ''--config'' then Some (Inr o0)
      else if arg = ''--host'' then Some (Inr (o0\<lparr>no_host := v, no_line_endpoints := []\<rparr>))
      else if arg = ''--base-port''
      then Some (try_then (stoul ''stoul'' v) (\<lambda>n. Inr (o0\<lparr>no_base_port := ucast n, no_line_endpoints := []\<rparr>)))
      else if arg = ''--lines''
      then Some (try_then (stoul ''stoul'' v) (\<lambda>n. Inr (o0\<lparr>no_lines := ucast n, no_line_endpoints := [], no_line_configs := []\<rparr>)))
      else if arg = ''--root'' then Some (Inr (o0\<lparr>no_root := v\<rparr>))
      else if arg = ''--source-root'' then Some (Inr (o0\<lparr>no_source_root := v, no_source_streams := []\<rparr>))
      else if arg = ''--size'' then Some (try_then (stoul ''stoull'' v) (\<lambda>n. Inr (o0\<lparr>no_size := n\<rparr>)))
      else if arg = ''--drop-line-once'' then Some (try_then (stoul ''stoul'' v) (\<lambda>n. Inr (o0\<lparr>no_drop_line_once := ucast n\<rparr>)))
      else if arg = ''--watch-backend'' then Some (try_then (parse_watch_backend v) (\<lambda>b. Inr (o0\<lparr>no_watch_backend := b\<rparr>)))
      else None)"

fun parse_arguments :: "string list \<Rightarrow> T_NodeOptions \<Rightarrow> T_NodeOptions result" where
  "parse_arguments [] o0 = Inr o0"
| "parse_arguments (arg # args) o0 =
     (if arg = ''--watch'' then parse_arguments args (o0\<lparr>no_watch := True\<rparr>)
      else if apply_argument arg [] o0 = None then Inl (runtime_error (''unknown option: '' @ arg))
      else case args of
        [] \<Rightarrow> missing_value arg
      | v # rest \<Rightarrow>
          (case apply_argument arg v o0 of
             None \<Rightarrow> Inl (runtime_error (''unknown option: '' @ arg))
           | Some (Inl e) \<Rightarrow> Inl e
           | Some (Inr o1) \<Rightarrow> parse_arguments rest o1))"

definition mode_name :: "string \<Rightarrow> string" where
  "mode_name mode = (if mode = ''source'' then ''sender'' else if mode = ''sink'' then ''receiver'' else mode)"

text \<open>The arguments after the name of the program.\<close>

definition parse_options :: "string \<Rightarrow> (string \<Rightarrow> string option) \<Rightarrow> string list \<Rightarrow> T_NodeOptions result" where
  "parse_options temp_directory read_file args =
     (case args of
        [] \<Rightarrow> Inl (runtime_error ''missing mode'')
      | first # others \<Rightarrow>
          check_that (\<not> (first = ''--config'' \<and> length others < 2)) (runtime_error ''--config requires a path and mode'')
          (let (mode, config_path, rest) =
                 (if first = ''--config'' then (others ! 1, others ! 0, drop 2 others) else (first, [], others));
               o0 = (default_NodeOptions temp_directory)\<lparr>no_mode := mode_name mode\<rparr>
           in try_then (find_config_path rest config_path) (\<lambda>config.
              try_then (if config = [] then Inr o0 else apply_config_file read_file (o0\<lparr>no_config_path := config\<rparr>) config) (\<lambda>o1.
              try_then (parse_arguments rest o1) (\<lambda>o2.
                check_that (no_mode o2 = ''receiver'' \<or> no_mode o2 = ''sender'') (runtime_error ''mode must be receiver or sender'')
                (check_that (no_lines o2 \<noteq> 0) (runtime_error ''at least one line is required'') (Inr o2)))))))"

section \<open>What a configuration that is accepted looks like\<close>

lemma try_then_Inr [simp]: "try_then r f = Inr y \<longleftrightarrow> (\<exists>x. r = Inr x \<and> f x = Inr y)"
  by (cases r) auto

lemma check_that_Inr [simp]: "check_that ok e k = Inr y \<longleftrightarrow> ok \<and> k = Inr y"
  by simp

lemma map_results_all2: "map_results f xs = Inr ys \<Longrightarrow> list_all2 (\<lambda>x y. f x = Inr y) xs ys"
  by (induction xs arbitrary: ys) auto

lemma map_results_all: "map_results f xs = Inr ys \<Longrightarrow> (\<And>x y. f x = Inr y \<Longrightarrow> P y) \<Longrightarrow> length ys = length xs \<and> list_all P ys"
  by (induction xs arbitrary: ys) auto

lemma checked_port_ok: "checked_port v key = Inr p \<Longrightarrow> p \<noteq> 0 \<and> unat p = unat v"
proof -
  assume "checked_port v key = Inr p"
  then have v: "v \<noteq> 0" "v \<le> 65535" "p = ucast v" by (auto simp: checked_port_def not_less split: if_splits)
  then have "unat v < 65536" by (simp add: word_le_nat_alt)
  then have "unat p = unat v" using v(3) by (simp add: unsigned_ucast_eq take_bit_nat_eq_self)
  then show ?thesis using v(1) by (metis unat_eq_zero)
qed

lemma parse_port_ok: "parse_port part = Inr p \<Longrightarrow> p \<noteq> 0"
  by (auto simp: parse_port_def split: option.splits dest: checked_port_ok)

lemma parse_ports_ok:
  "parse_ports config mode base = Inr ports \<Longrightarrow> length ports = 1 \<or> list_all (\<lambda>p. p \<noteq> 0) ports"
  by (auto simp: parse_ports_def Let_def split: option.splits if_splits
      dest: map_results_all [where f = parse_port, OF _ parse_port_ok])

lemma expand_ports_ok:
  assumes "expand_ports ports lines = Inr expanded" "length ports = 1 \<or> list_all (\<lambda>p. p \<noteq> 0) ports"
  shows "length expanded = unat lines \<and> list_all (\<lambda>p. p \<noteq> 0) expanded"
  using assms checked_port_ok
  by (auto simp: expand_ports_def split: if_splits dest!: map_results_all [where P = "\<lambda>p. p \<noteq> 0"])

lemma limits_ok: "parse_bandwidth_limits config = Inr limits \<Longrightarrow> list_all (\<lambda>l. l \<noteq> 0) limits"
proof -
  have "parse_bandwidth_limit part = Inr l \<Longrightarrow> l \<noteq> 0" for part l
    by (auto simp: parse_bandwidth_limit_def split: option.splits if_splits)
  then show "parse_bandwidth_limits config = Inr limits \<Longrightarrow> list_all (\<lambda>l. l \<noteq> 0) limits"
    by (auto simp: parse_bandwidth_limits_def split: option.splits dest: map_results_all [where P = "\<lambda>l. l \<noteq> 0"])
qed

lemma line_ids_props: "distinct (line_ids n)" "0 \<notin> set (line_ids n)" "length (line_ids n) = unat n"
  "i \<in> set (line_ids n) \<Longrightarrow> 0 < unat i \<and> unat i \<le> unat n"
proof -
  have small: "unat (word_of_nat k :: u32) = k" if "k \<le> unat n" for k
    using le_less_trans [OF that unat_u32_lt] by (intro unat_word_of_nat_lt) simp
  have inj: "inj_on (word_of_nat :: nat \<Rightarrow> u32) {1..<Suc (unat n)}"
    by (rule inj_on_inverseI [of _ unat]) (simp add: small)
  then show "distinct (line_ids n)" by (simp add: line_ids_def distinct_map del: upt_Suc)
  show "length (line_ids n) = unat n" by (simp add: line_ids_def)
  show *: "0 < unat i \<and> unat i \<le> unat n" if "i \<in> set (line_ids n)" for i
    using that small by (auto simp: line_ids_def)
  show "0 \<notin> set (line_ids n)" using * by fastforce
qed

text \<open>What the network is built from: numbered lines with usable ports and budgets.\<close>

definition lines_ok :: "T_NodeOptions \<Rightarrow> bool" where
  "lines_ok options \<longleftrightarrow> no_lines options \<noteq> 0 \<and>
     map le_id (no_line_endpoints options) = line_ids (no_lines options) \<and>
     map lc_id (no_line_configs options) = line_ids (no_lines options) \<and>
     list_all (\<lambda>e. ep_port (le_endpoint e) \<noteq> 0) (no_line_endpoints options) \<and>
     list_all (\<lambda>c. tb_capacity (lc_limiter c) \<noteq> 0 \<and> tb_tokens_per_tick (lc_limiter c) = tb_capacity (lc_limiter c) \<and>
       tb_tick (lc_limiter c) = 10) (no_line_configs options)"

lemma resolve_lines_ok: "resolve_line_count options config h p l = Inr n \<Longrightarrow> n \<noteq> 0"
proof -
  assume "resolve_line_count options config h p l = Inr n"
  then obtain m :: u64 where "(if m = 0 \<or> m > 4294967295 then Inl (runtime_error ''line count is out of range'')
      else Inr (ucast m)) = Inr n"
    unfolding resolve_line_count_def try_then_Inr Let_def by blast
  then have m: "m \<noteq> 0" "\<not> m > 4294967295" "n = ucast m" by (auto split: if_splits)
  then have "unat m < 4294967296" by (simp add: word_le_nat_alt not_less)
  then have "unat n = unat m" using m(3) by (simp add: unsigned_ucast_eq take_bit_nat_eq_self)
  then show ?thesis using m(1) by (metis unat_eq_zero)
qed

lemma apply_lines_ok:
  assumes "apply_lines o1 config = Inr o2"
  shows "lines_ok o2 \<and> no_chunk_size o2 = no_chunk_size o1 \<and> no_recv_window_bytes o2 = no_recv_window_bytes o1 \<and>
    no_reconnect_base_delay_ms o2 = no_reconnect_base_delay_ms o1 \<and> no_reconnect_max_delay_ms o2 = no_reconnect_max_delay_ms o1"
proof -
  define hosts1 where "hosts1 = (if parse_line_hosts config o1 = [] then [no_host o1] else parse_line_hosts config o1)"
  define hosts where "hosts = (\<lambda>lines :: u32. if length hosts1 = 1 then replicate (unat lines) (hd hosts1) else hosts1)"
  obtain ports limits lines expanded where p: "parse_ports config (no_mode o1) (no_base_port o1) = Inr ports"
    and l: "parse_bandwidth_limits config = Inr limits"
    and n: "resolve_line_count o1 config (length hosts1) (length ports) (length limits) = Inr lines"
    and e: "expand_ports ports lines = Inr expanded"
    and o2: "o2 = (let o2 = o1\<lparr>no_lines := lines, no_base_port := hd ports, no_host := hd (hosts lines)\<rparr>;
         budget = (\<lambda>index. if limits = [] then kLineBudgetBytes else limits ! min index (length limits - 1))
       in o2\<lparr>no_line_endpoints := map (\<lambda>i. line_endpoint i (hosts lines ! (unat i - 1)) (expanded ! (unat i - 1))) (line_ids lines),
             no_line_configs := map (\<lambda>i. line_config o2 i (budget (unat i - 1))) (line_ids lines)\<rparr>)"
    using assms
    unfolding apply_lines_def Let_def try_then_Inr check_that_Inr sum.inject hosts1_def [symmetric]
    by (elim exE conjE) (rule that, assumption+, simp only: Let_def hosts_def)
  have ex: "length expanded = unat lines" "list_all (\<lambda>p. p \<noteq> 0) expanded"
    using expand_ports_ok [OF e parse_ports_ok [OF p]] by auto
  have port: "expanded ! (unat i - 1) \<noteq> 0" if "i \<in> set (line_ids lines)" for i
    using line_ids_props(4) [OF that] ex by (auto simp: list_all_length)
  have budget: "(if limits = [] then kLineBudgetBytes else limits ! min k (length limits - 1)) \<noteq> 0" for k
    using limits_ok [OF l] by (cases limits) (auto simp: list_all_length kLineBudgetBytes_def less_Suc_eq_le)
  have "lines \<noteq> 0" by (rule resolve_lines_ok [OF n])
  then have "lines_ok o2"
    using port budget
    by (auto simp: o2 Let_def lines_ok_def line_endpoint_def line_config_def list.pred_set comp_def)
  then show ?thesis by (simp add: o2 Let_def)
qed

lemma runtime_config_ok:
  assumes "apply_runtime_config o0 config = Inr o1"
  shows "no_chunk_size o1 \<noteq> 0 \<and> no_chunk_size o1 + 1024 \<le> kMaxFrameBytes \<and> no_chunk_size o1 \<le> no_recv_window_bytes o1 \<and>
    0 < no_reconnect_base_delay_ms o1 \<and> no_reconnect_base_delay_ms o1 \<le> no_reconnect_max_delay_ms o1"
proof -
  obtain given o' where o1: "o1 = (if given then o' else o'\<lparr>no_recv_window_bytes := max (no_recv_window_bytes o') (no_chunk_size o' * 2)\<rparr>)"
    and frame: "\<not> (no_chunk_size o' = 0 \<or> kMaxFrameBytes < no_chunk_size o' + 1024)"
    and checks: "\<not> no_recv_window_bytes o1 < no_chunk_size o1"
      "\<not> (no_reconnect_base_delay_ms o1 = 0 \<or> no_reconnect_max_delay_ms o1 = 0)"
      "\<not> no_reconnect_max_delay_ms o1 < no_reconnect_base_delay_ms o1"
    using assms unfolding apply_runtime_config_def Let_def try_then_Inr split_paired_Ex prod.case check_that_Inr sum.inject
    by blast
  have "no_chunk_size o1 = no_chunk_size o'" by (simp add: o1)
  then show ?thesis using frame checks by (auto simp: not_less word_neq_0_conv)
qed

lemma config_file_ok:
  assumes "apply_config_file read_file o0 p = Inr o2"
  shows "lines_ok o2" "no_chunk_size o2 \<noteq> 0" "no_chunk_size o2 + 1024 \<le> kMaxFrameBytes"
    "no_chunk_size o2 \<le> no_recv_window_bytes o2"
    "0 < no_reconnect_base_delay_ms o2" "no_reconnect_base_delay_ms o2 \<le> no_reconnect_max_delay_ms o2"
proof -
  obtain config o0' o1 roots rt src where r: "apply_runtime_config o0' config = Inr o1"
    and l: "apply_lines (o1\<lparr>no_root := rt, no_source_streams := roots, no_source_root := src\<rparr>) config = Inr o2"
    using assms unfolding apply_config_file_def Let_def try_then_Inr
    by (auto simp del: get_any.simps)
  show "lines_ok o2" "no_chunk_size o2 \<noteq> 0" "no_chunk_size o2 + 1024 \<le> kMaxFrameBytes"
    "no_chunk_size o2 \<le> no_recv_window_bytes o2"
    "0 < no_reconnect_base_delay_ms o2" "no_reconnect_base_delay_ms o2 \<le> no_reconnect_max_delay_ms o2"
    using runtime_config_ok [OF r] apply_lines_ok [OF l] by auto
qed

section \<open>Every accepted command line gives a usable network\<close>

text \<open>The typing of the options: the lines are numbered from one, every line has an endpoint and a usable
  rate limiter, a chunk fits the receive window and a frame (or is so large that the check of the frame
  wraps around), the reconnect delays are ordered.\<close>

definition limiter_ok :: "T_LineConfig \<Rightarrow> bool" where
  "limiter_ok c \<longleftrightarrow> 0 < tb_tick (lc_limiter c) \<and> tb_capacity (lc_limiter c) \<noteq> 0 \<and> tb_tokens_per_tick (lc_limiter c) \<noteq> 0"

definition lines_typed :: "T_NodeOptions \<Rightarrow> bool" where
  "lines_typed options \<longleftrightarrow>
     map le_id (make_line_endpoints options) = line_ids (no_lines options) \<and>
     map lc_id (make_line_configs options) = line_ids (no_lines options) \<and>
     list_all limiter_ok (make_line_configs options)"

definition runtime_typed :: "T_NodeOptions \<Rightarrow> bool" where
  "runtime_typed options \<longleftrightarrow>
     no_chunk_size options \<noteq> 0 \<and>
     (unat (no_chunk_size options) + 1024 \<le> unat kMaxFrameBytes \<or> 2 ^ 64 - 1024 \<le> unat (no_chunk_size options)) \<and>
     no_chunk_size options \<le> no_recv_window_bytes options \<and>
     0 < no_reconnect_base_delay_ms options \<and> no_reconnect_base_delay_ms options \<le> no_reconnect_max_delay_ms options"

lemma frame_check: "c + 1024 \<le> kMaxFrameBytes \<Longrightarrow> unat c + 1024 \<le> unat kMaxFrameBytes \<or> 2 ^ 64 - 1024 \<le> unat c"
proof -
  assume "c + 1024 \<le> kMaxFrameBytes"
  then have "unat (c + 1024) \<le> unat kMaxFrameBytes" by (simp add: word_le_nat_alt)
  then show ?thesis
    by (cases "unat c + 1024 < 2 ^ 64") (auto simp: unat_word_ariths(1))
qed

lemma default_lines_typed: "no_line_endpoints options = [] \<Longrightarrow> no_line_configs options = [] \<Longrightarrow> lines_typed options"
  by (simp add: lines_typed_def make_line_endpoints_def make_line_configs_def line_endpoint_def line_config_def comp_def
      limiter_ok_def list.pred_set kLineBudgetBytes_def)

lemma lines_ok_typed: "lines_ok options \<Longrightarrow> lines_typed options"
  by (auto simp: lines_ok_def lines_typed_def make_line_endpoints_def make_line_configs_def limiter_ok_def list.pred_set
      line_ids_def simp del: upt_Suc)

lemma reset_endpoints_typed: "lines_typed options \<Longrightarrow> no_line_endpoints options' = [] \<Longrightarrow>
    no_line_configs options' = no_line_configs options \<Longrightarrow> no_lines options' = no_lines options \<Longrightarrow> lines_typed options'"
  by (cases "no_line_configs options = []")
     (auto simp: lines_typed_def make_line_endpoints_def make_line_configs_def line_endpoint_def comp_def line_config_def
      limiter_ok_def list.pred_set kLineBudgetBytes_def)

lemma same_lines_typed: "lines_typed options \<Longrightarrow> no_line_endpoints options' = no_line_endpoints options \<Longrightarrow>
    no_line_configs options' = no_line_configs options \<Longrightarrow> no_lines options' = no_lines options \<Longrightarrow> lines_typed options'"
  by (cases "no_line_configs options = []"; cases "no_line_endpoints options = []")
     (auto simp: lines_typed_def make_line_endpoints_def make_line_configs_def line_endpoint_def comp_def line_config_def
      limiter_ok_def list.pred_set kLineBudgetBytes_def)

lemma argument_keeps_types:
  assumes "apply_argument arg v o0 = Some (Inr o1)" "lines_typed o0" "runtime_typed o0"
  shows "lines_typed o1 \<and> runtime_typed o1 \<and> no_mode o1 = no_mode o0"
proof -
  have "runtime_typed o1 \<and> no_mode o1 = no_mode o0"
    using assms(1,3) by (auto simp: apply_argument_def runtime_typed_def split: if_splits)
  moreover have "lines_typed o1"
    using assms(1,2)
    by (auto simp: apply_argument_def split: if_splits
        intro: default_lines_typed reset_endpoints_typed [OF assms(2)] same_lines_typed [OF assms(2)])
  ultimately show ?thesis by simp
qed

lemma arguments_keep_types:
  "parse_arguments args o0 = Inr o1 \<Longrightarrow> lines_typed o0 \<Longrightarrow> runtime_typed o0 \<Longrightarrow> lines_typed o1 \<and> runtime_typed o1"
proof (induction args o0 rule: parse_arguments.induct)
  case (2 arg args o0)
  show ?case
  proof (cases "arg = ''--watch''")
    case True
    have "lines_typed (o0\<lparr>no_watch := True\<rparr>)" "runtime_typed (o0\<lparr>no_watch := True\<rparr>)"
      using "2.prems"(2,3) same_lines_typed [OF "2.prems"(2)] by (auto simp: runtime_typed_def)
    then show ?thesis using True "2.prems"(1) "2.IH"(1) by auto
  next
    case False
    then show ?thesis
      using "2.prems" "2.IH"(2) argument_keeps_types
      by (auto simp: missing_value_def split: if_splits list.splits option.splits sum.splits)
  qed
qed simp

lemma options_typed:
  assumes "parse_options tmp read_file args = Inr o1"
  shows "lines_typed o1 \<and> runtime_typed o1 \<and> no_lines o1 \<noteq> 0"
proof -
  obtain first others where a: "args = first # others"
    using assms by (auto simp: parse_options_def split: list.splits)
  obtain mode0 path0 rest where
    t: "(if first = ''--config'' then (others ! 1, others ! 0, drop 2 others) else (first, [], others)) = (mode0, path0, rest)"
    by (metis prod_cases3)
  obtain config o0 where
    o0: "(if config = [] then Inr ((default_NodeOptions tmp)\<lparr>no_mode := mode_name mode0\<rparr>)
          else apply_config_file read_file ((default_NodeOptions tmp)\<lparr>no_mode := mode_name mode0, no_config_path := config\<rparr>) config) = Inr o0"
    and args: "parse_arguments rest o0 = Inr o1" and lines: "no_lines o1 \<noteq> 0"
    using assms unfolding a parse_options_def Let_def list.case t prod.case check_that_Inr try_then_Inr sum.inject by blast
  have "lines_typed o0 \<and> runtime_typed o0"
  proof (cases "config = []")
    case True
    then have "o0 = (default_NodeOptions tmp)\<lparr>no_mode := mode_name mode0\<rparr>" using o0 by simp
    then show ?thesis
      by (simp add: default_lines_typed runtime_typed_def default_NodeOptions_def kLineWindowBytes_def kLineBudgetBytes_def
          kDefaultChunkSizeBytes_def kMaxFrameBytes_def)
  next
    case False
    then have "apply_config_file read_file ((default_NodeOptions tmp)\<lparr>no_mode := mode_name mode0, no_config_path := config\<rparr>) config = Inr o0"
      using o0 by simp
    note ok = config_file_ok [OF this]
    show ?thesis using lines_ok_typed [OF ok(1)] ok(2,4-) frame_check [OF ok(3)] by (simp add: runtime_typed_def)
  qed
  then show ?thesis using arguments_keep_types [OF args] lines by blast
qed

lemma add_lines_succeeds:
  "distinct (map lc_id configs) \<Longrightarrow> 0 \<notin> lc_id ` set configs \<Longrightarrow> list_all limiter_ok configs \<Longrightarrow>
     lc_id ` set configs \<inter> id_of_line ` set lines = {} \<Longrightarrow>
     \<exists>lines'. add_lines lines configs = Inr lines' \<and> map id_of_line lines' = map id_of_line lines @ map lc_id configs"
proof (induction configs arbitrary: lines)
  case (Cons c cs)
  obtain bucket where b: "make_TokenBucket (lc_limiter c) = Inr bucket"
    using Cons.prems(3) by (auto simp: limiter_ok_def make_TokenBucket_def)
  have id: "id_of_line (initial_line c bucket) = lc_id c" by (simp add: initial_line_def)
  have "find_line lines (lc_id c) = None" using Cons.prems(4) by (simp add: find_line_None)
  then show ?case
    using Cons.IH [of "lines @ [initial_line c bucket]"] Cons.prems b id by auto
qed simp

lemma typed_lines_make_scheduler:
  assumes "lines_typed options" "no_lines options \<noteq> 0"
  shows "\<exists>s. make_scheduler (make_line_configs options) = Inr s \<and> map id_of_line (sc_lines s) = line_ids (no_lines options)"
proof -
  have ids: "map lc_id (make_line_configs options) = line_ids (no_lines options)"
    and ok: "list_all limiter_ok (make_line_configs options)"
    using assms(1) by (auto simp: lines_typed_def)
  have "\<exists>ls. add_lines [] (make_line_configs options) = Inr ls \<and> map id_of_line ls = line_ids (no_lines options)"
    using add_lines_succeeds [of "make_line_configs options" "[]"] ids ok line_ids_props(1,2) [of "no_lines options"]
    by (metis append_Nil image_empty inf_bot_right list.set(1) list.simps(8) list.set_map)
  moreover have "make_line_configs options \<noteq> []"
    using ids line_ids_props(3) [of "no_lines options"] assms(2) by (metis length_map list.size(3) unat_eq_zero)
  ultimately show ?thesis by (auto simp: make_scheduler_def)
qed

section \<open>Sizes\<close>

lemma trim_id: "\<not> is_space (hd s) \<Longrightarrow> \<not> is_space (last s) \<Longrightarrow> trim s = s"
proof (cases s)
  case (Cons c cs)
  moreover assume "\<not> is_space (hd s)" "\<not> is_space (last s)"
  ultimately have "dropWhile is_space s = s" "dropWhile is_space (rev s) = rev s"
    by (simp, cases "rev s") (auto simp: last_conv_nth hd_rev [symmetric] Cons)
  then show ?thesis by (simp add: trim_def)
qed (simp add: trim_def)

lemma digit_not_space: "is_digit c \<Longrightarrow> \<not> is_space c \<and> c \<noteq> CHR ''_''"
  by (auto simp: is_digit_def is_space_def)

lemma digits_trim: "list_all is_digit ds \<Longrightarrow> trim ds = ds"
  by (cases "ds = []") (simp add: trim_def, rule trim_id, auto simp: digit_not_space list.pred_set)

definition size_units :: "(string \<times> u64) list" where
  "size_units =
     [([], 1), (''B'', 1), (''k'', 1024), (''K'', 1024), (''KB'', 1024), (''KiB'', 1024), ('' kib'', 1024),
      (''m'', 1048576), (''M'', 1048576), (''MB'', 1048576), (''MiB'', 1048576), ('' mib'', 1048576),
      (''g'', 1073741824), (''G'', 1073741824), (''GB'', 1073741824), (''GiB'', 1073741824), ('' gib'', 1073741824)]"

definition unit_read_as :: "string \<Rightarrow> u64 \<Rightarrow> bool" where
  "unit_read_as u k \<longleftrightarrow> takeWhile is_digit u = [] \<and> CHR ''_'' \<notin> set u \<and> (u = [] \<or> \<not> is_space (last u)) \<and>
     (let suffix0 = lower_ascii (trim u) in
      size_multiplier (if suffix0 \<noteq> [] \<and> last suffix0 = CHR ''b'' then butlast suffix0 else suffix0) = Some k)"

lemma size_units_read: "list_all (\<lambda>(u, k). unit_read_as u k) size_units"
  by code_simp

lemma parse_digits: "ds \<noteq> [] \<Longrightarrow> list_all is_digit ds \<Longrightarrow>
    parse_u64_strict ds = (if digits_value ds < 2 ^ 64 then Some (word_of_int (digits_value ds)) else None)"
  by (simp add: parse_u64_strict_def parse_u64_text_def digits_trim)

lemma scaled_size:
  assumes "k \<in> {1, 1024, 1048576, 1073741824}" and "0 \<le> n" "n < 2 ^ 64"
  shows "(if word_of_int n > UINT64_MAX div k then None else Some (word_of_int n * k)) =
    (if n * uint k < 2 ^ 64 then Some (word_of_int (n * uint k) :: u64) else None)"
proof -
  have n: "uint (word_of_int n :: u64) = n" using assms(2,3) by (simp add: uint_word_of_int)
  have max: "uint (UINT64_MAX :: u64) = 18446744073709551615" by code_simp
  have "word_of_int n * k = (word_of_int (n * uint k) :: u64)" by simp
  moreover have "word_of_int n > UINT64_MAX div k \<longleftrightarrow> \<not> n * uint k < 2 ^ 64"
    using assms(1) unfolding word_less_def uint_div n max by auto
  ultimately show ?thesis by simp
qed

lemma unit_multiplier: "size_multiplier s = Some k \<Longrightarrow> k \<in> {1, 1024, 1048576, 1073741824}"
  by (auto simp: size_multiplier_def split: if_splits)

lemma parse_size_unit:
  assumes ds: "ds \<noteq> []" "list_all is_digit ds" and u: "unit_read_as u k"
  shows "parse_size_bytes (ds @ u) =
    (if digits_value ds * uint k < 2 ^ 64 then Some (word_of_int (digits_value ds * uint k)) else None)"
proof -
  obtain s where s: "s = (let suffix0 = lower_ascii (trim u) in
      if suffix0 \<noteq> [] \<and> last suffix0 = CHR ''b'' then butlast suffix0 else suffix0)" and k: "size_multiplier s = Some k"
    using u by (auto simp: unit_read_as_def Let_def)
  have t: "trim (ds @ u) = ds @ u"
    using ds u by (intro trim_id) (auto simp: unit_read_as_def hd_append list.pred_set digit_not_space last_append)
  have f: "filter (\<lambda>c. c \<noteq> CHR ''_'') (ds @ u) = ds @ u"
    using ds u by (auto simp: filter_id_conv unit_read_as_def list.pred_set digit_not_space)
  have tw: "takeWhile is_digit (ds @ u) = ds" "dropWhile is_digit (ds @ u) = u"
    using ds u by (auto simp: unit_read_as_def list.pred_set takeWhile_append2 dropWhile_append2 takeWhile_eq_Nil_iff dropWhile_eq_self_iff)
  have "parse_size_bytes (ds @ u) =
      (if digits_value ds < 2 ^ 64
       then if word_of_int (digits_value ds) > UINT64_MAX div k then None else Some (word_of_int (digits_value ds) * k) else None)"
    unfolding parse_size_bytes_def t f tw Let_def parse_digits [OF ds] using ds k s by (simp add: Let_def)
  moreover have "digits_value ds * uint k < 2 ^ 64 \<Longrightarrow> digits_value ds < 2 ^ 64"
    using unit_multiplier [OF k] digits_value_nonneg [OF ds(2)] by auto
  ultimately show ?thesis
    using scaled_size [OF unit_multiplier [OF k] digits_value_nonneg [OF ds(2)]] by auto
qed

section \<open>The properties\<close>


definition sample_config :: string where
  "sample_config = concat (map (\<lambda>l. l @ [CHR 0x0A])
     [''[common] # shared'', ''lines = 2'', ''ports = {7000, 7001}'', ''Bandwidth_Limit = 1MiB'', ''chunk_size = 64k'',
      ''[sender]'', ''ip = 10.0.0.1'', ''high_priority_dirs = 5:/data/a::log, /data/b''])"

lemma sample_config_accepted:
  "\<not> isl (parse_options ''/tmp'' (\<lambda>_. Some sample_config) [''--config'', ''y.ini'', ''sender'', ''--watch''])"
  by code_simp


text \<open>C36: A size is read exactly: decimal digits followed by a unit of \<open>size_units\<close> give the number times the
  unit when that is below 2 to the 64, and are refused otherwise; no value wraps around.\<close>

theorem parse_size_bytes_exact:
  assumes "ds \<noteq> []" and "list_all is_digit ds" and "(u, k) \<in> set size_units"
  shows "parse_size_bytes (ds @ u) =
    (if digits_value ds * uint k < 2 ^ 64 then Some (word_of_int (digits_value ds * uint k)) else None)"
  using parse_size_unit [OF assms(1,2)] size_units_read assms(3) by (auto simp: list.pred_set)

theorem parse_size_bytes_exact_witness:
  "parse_size_bytes ''17179869183GiB'' = Some 18446744072635809792 \<and> parse_size_bytes ''17179869184GiB'' = None"
  using parse_size_bytes_exact [of "''17179869183''" "''GiB''" 1073741824]
    parse_size_bytes_exact [of "''17179869184''" "''GiB''" 1073741824]
  by (simp add: size_units_def is_digit_def digits_value_def)

section \<open>Values that slip through\<close>

text \<open>The check of the chunk size against the frame wraps: the largest size passes it.\<close>

lemma chunk_size_check_wraps:
  "map_sum id no_chunk_size (apply_runtime_config (default_NodeOptions [])
     [((''common'', ''chunk_size''), ''18446744073709551615''), ((''common'', ''recv_window''), ''18446744073709551615'')]) =
   Inr 18446744073709551615"
  by code_simp

text \<open>On the command line a port is cut to 16 bits, and the ports after 65535 wrap to 0.\<close>

lemma base_port_truncated:
  "map_sum id no_base_port (parse_arguments [''--base-port'', ''65537''] (default_NodeOptions [])) = Inr 1"
  "map_sum id (\<lambda>o1. line_port o1 2) (parse_arguments [''--base-port'', ''65535''] (default_NodeOptions [])) = Inr 0"
  by code_simp+

end
