(* ===== verification/SenderApp.thy ===== *)
theory SenderApp
  imports SenderPlan SendBuffer SenderNetwork NodeConfig Protocol
begin

text \<open>
  The sender application, src/src/sender/yisync_sender_app.cpp: it answers the receiver's manifest,
  sends what the plan of each stream asks for, keeps every unacknowledged send in the send buffer,
  reacts to heartbeats, NACKs, lost lines and timeouts, and falls back to a new manifest exchange a
  bounded number of times.

  The state is the object \<open>SenderApp\<close> with its network (theory SenderNetwork), send buffer and streams;
  streams and tasks are addressed by their position. A network operation that makes a line unavailable
  calls \<open>on_lost_sends\<close> of this class while it runs; here that handler runs when the operation returns
  and before its result is used. How deep such calls may nest is bounded by a number, since each needs
  a connected line to be lost; the callback is an argument of the operations. Timers are events, and
  log texts are not modelled.
\<close>

section \<open>Round trip time\<close>

record RtoEstimator =
  re_initialized :: bool
  re_srtt_ticks :: u64
  re_rttvar_ticks :: u64

definition new_RtoEstimator :: RtoEstimator where
  "new_RtoEstimator = \<lparr>re_initialized = False, re_srtt_ticks = 0, re_rttvar_ticks = 0\<rparr>"

definition clamp :: "u64 \<Rightarrow> u64 \<Rightarrow> u64 \<Rightarrow> u64" where
  "clamp v lo hi = (if v < lo then lo else if hi < v then hi else v)"

definition rto_ticks :: "RtoEstimator \<Rightarrow> u64 \<Rightarrow> u64" where
  "rto_ticks r fallback_ticks =
     (if \<not> re_initialized r then max 1 fallback_ticks
      else
        let candidate = re_srtt_ticks r + max 1 (re_rttvar_ticks r * 4)
        in clamp candidate (max 1 (fallback_ticks div 2)) (max 1 (fallback_ticks * 8)))"

definition rto_observe :: "u64 \<Rightarrow> RtoEstimator \<Rightarrow> RtoEstimator" where
  "rto_observe sample0 r =
     (let sample = (if sample0 = 0 then 1 else sample0)
      in if \<not> re_initialized r
         then \<lparr>re_initialized = True, re_srtt_ticks = sample, re_rttvar_ticks = max 1 (sample div 2)\<rparr>
         else
           let abs_delta = (if re_srtt_ticks r > sample then re_srtt_ticks r - sample else sample - re_srtt_ticks r)
           in r\<lparr>re_rttvar_ticks := max 1 ((3 * re_rttvar_ticks r + abs_delta) div 4),
                re_srtt_ticks := max 1 ((7 * re_srtt_ticks r + sample) div 8)\<rparr>)"

section \<open>Messages\<close>

definition make_sender_bytes :: "u64 \<Rightarrow> Bytes" where
  "make_sender_bytes n = map (\<lambda>i. word_of_nat (65 + i mod 26)) [0..<unat n]"

definition make_chunk_from_payload :: "system \<Rightarrow> u64 \<Rightarrow> u64 \<Rightarrow> u64 \<Rightarrow> u64 \<Rightarrow> Bytes \<Rightarrow> u64 \<Rightarrow> T_Chunk" where
  "make_chunk_from_payload sys stream_id seq file_id chunk_index payload chunk_size =
     \<lparr>ch_stream_id = stream_id, ch_seq = seq, ch_file_id = file_id, ch_chunk_index = chunk_index,
      ch_offset = chunk_index * chunk_size, ch_raw_len = word_of_nat (length payload),
      ch_compression = Compression_NONE, ch_checksum_algo = CRC32C, ch_checksum = crc32c_bytes sys payload,
      ch_payload = payload\<rparr>"

definition make_data_from_payload :: "system \<Rightarrow> u64 \<Rightarrow> u64 \<Rightarrow> u64 \<Rightarrow> u64 \<Rightarrow> u64 \<Rightarrow> Bytes \<Rightarrow> T_Data" where
  "make_data_from_payload sys stream_id file_id seq offset final_size payload =
     \<lparr>da_stream_id = stream_id, da_seq = seq, da_file_id = file_id, da_offset = offset, da_final_size = final_size,
      da_raw_len = word_of_nat (length payload), da_compression = Compression_NONE, da_checksum_algo = CRC32C,
      da_checksum = crc32c_bytes sys payload, da_payload = payload\<rparr>"

definition encoded_message_size :: "T_Message \<Rightarrow> u64" where
  "encoded_message_size message = word_of_nat (length (encode_frame message))"

definition chunk_send_order :: "u64 \<Rightarrow> u64 list" where
  "chunk_send_order chunk_count =
     (if chunk_count = 0 then [] else (chunk_count - 1) # map word_of_nat [0..<unat chunk_count - 1])"

section \<open>State\<close>

record SenderApp =
  sa_options :: T_NodeOptions
  sa_streams :: "T_StreamSendState list"
  sa_network :: T_SenderNetwork
  sa_send_buffer :: T_SenderSendBuffer
  sa_rto :: RtoEstimator
  sa_next_manifest_id :: u64
  sa_current_tick :: u64
  sa_manifest_recovery_attempts :: u64
  sa_dropped_line_once :: bool
  sa_rescan_scheduled :: bool
  sa_rescan_pending :: bool
  sa_done :: bool
  sa_failed :: bool
  sa_loop_stopped :: bool

type_synonym 'a step = "'a result \<times> SenderApp"

text \<open>What the operations are given: the disk, a bound on the rounds of a loop, and \<open>on_lost_sends\<close>.\<close>

record app_env =
  ev_sys :: system
  ev_fs :: filesystem
  ev_rounds :: nat
  ev_lost :: "T_LostSend list \<Rightarrow> SenderApp \<Rightarrow> unit step"

definition app_then :: "'a step \<Rightarrow> ('a \<Rightarrow> SenderApp \<Rightarrow> 'b step) \<Rightarrow> 'b step" where
  "app_then r f = (case r of (Inl e, app) \<Rightarrow> (Inl e, app) | (Inr x, app) \<Rightarrow> f x app)"

definition app_ok :: "SenderApp \<Rightarrow> unit step" where
  "app_ok app = (Inr (), app)"

definition modify_stream :: "nat \<Rightarrow> (T_StreamSendState \<Rightarrow> T_StreamSendState) \<Rightarrow> SenderApp \<Rightarrow> SenderApp" where
  "modify_stream i f app = app\<lparr>sa_streams := (sa_streams app)[i := f (sa_streams app ! i)]\<rparr>"

definition modify_task :: "nat \<Rightarrow> nat \<Rightarrow> (T_FileSendTask \<Rightarrow> T_FileSendTask) \<Rightarrow> SenderApp \<Rightarrow> SenderApp" where
  "modify_task i k f = modify_stream i (\<lambda>s. s\<lparr>st_tasks := (st_tasks s)[k := f (st_tasks s ! k)]\<rparr>)"

abbreviation stream_at :: "SenderApp \<Rightarrow> nat \<Rightarrow> T_StreamSendState" where
  "stream_at app i \<equiv> sa_streams app ! i"

abbreviation task_at :: "SenderApp \<Rightarrow> nat \<Rightarrow> nat \<Rightarrow> T_FileSendTask" where
  "task_at app i k \<equiv> st_tasks (stream_at app i) ! k"

definition stream_for_id :: "u64 \<Rightarrow> SenderApp \<Rightarrow> nat option" where
  "stream_for_id stream_id app = find_index (\<lambda>s. st_stream_id s = stream_id) (sa_streams app)"

text \<open>The position of \<open>active_task\<close>.\<close>

definition active_index :: "T_StreamSendState \<Rightarrow> nat option" where
  "active_index stream = (if st_current_task stream \<ge> length (st_tasks stream) then None else Some (st_current_task stream))"

section \<open>Calling the network\<close>

definition lost_callbacks :: "net_event list \<Rightarrow> T_LostSend list list" where
  "lost_callbacks evs = List.map_filter (\<lambda>ev. case ev of App_lost_sends lost \<Rightarrow> Some lost | _ \<Rightarrow> None) evs"

fun run_callbacks :: "app_env \<Rightarrow> T_LostSend list list \<Rightarrow> SenderApp \<Rightarrow> unit step" where
  "run_callbacks env [] app = app_ok app"
| "run_callbacks env (lost # rest) app = app_then (ev_lost env lost app) (\<lambda>_. run_callbacks env rest)"

definition on_net :: "app_env \<Rightarrow> (T_SenderNetwork \<Rightarrow> 'a \<times> net_outcome) \<Rightarrow> SenderApp \<Rightarrow> 'a step" where
  "on_net env f app =
     (case f (sa_network app) of
        (x, e, nw) \<Rightarrow>
          app_then (run_callbacks env (lost_callbacks (drop (length (nw_trace (sa_network app))) (nw_trace nw)))
                      (app\<lparr>sa_network := nw\<rparr>))
            (\<lambda>_ app1. (case e of Some ex \<Rightarrow> Inl ex | None \<Rightarrow> Inr x, app1)))"

definition send_buffered :: "app_env \<Rightarrow> T_Message \<Rightarrow> T_SendRequest \<Rightarrow> SenderApp \<Rightarrow> T_NetworkSendResult step" where
  "send_buffered env message request app =
     app_then (on_net env (net_send message request) app) (\<lambda>result app1.
       (Inr result,
        if \<not> sr_sent result then app1
        else app1\<lparr>sa_send_buffer := remember (sa_send_buffer app1) message (request\<lparr>rq_bytes := sr_bytes result\<rparr>)
                    (sa_current_tick app1)\<rparr>))"

section \<open>Acknowledgements and failure\<close>

definition observe_ack_sample :: "T_AckedSendSample \<Rightarrow> SenderApp \<Rightarrow> SenderApp" where
  "observe_ack_sample sample app =
     (if as_rtt_ticks sample = 0 then app else app\<lparr>sa_rto := rto_observe (as_rtt_ticks sample) (sa_rto app)\<rparr>)"

definition observe_ack_samples :: "T_AckedSendSample list \<Rightarrow> SenderApp \<Rightarrow> SenderApp" where
  "observe_ack_samples samples app = fold observe_ack_sample samples app"

definition erase_completed_buffered :: "T_Heartbeat \<Rightarrow> SenderApp \<Rightarrow> SenderApp" where
  "erase_completed_buffered heartbeat app =
     (case erase_completed (sa_send_buffer app) heartbeat (sa_current_tick app) of
        (samples, buf) \<Rightarrow> observe_ack_samples samples (app\<lparr>sa_send_buffer := buf\<rparr>))"

definition observe_erased :: "T_AckedSendSample option \<times> T_SenderSendBuffer \<Rightarrow> SenderApp \<Rightarrow> SenderApp" where
  "observe_erased r app =
     (case r of
        (None, buf) \<Rightarrow> app\<lparr>sa_send_buffer := buf\<rparr>
      | (Some sample, buf) \<Rightarrow> observe_ack_sample sample (app\<lparr>sa_send_buffer := buf\<rparr>))"

definition erase_file_begin_buffered :: "u64 \<Rightarrow> u64 \<Rightarrow> u64 \<Rightarrow> SenderApp \<Rightarrow> SenderApp" where
  "erase_file_begin_buffered stream_id file_id seq app =
     observe_erased (erase_file_begin (sa_send_buffer app) stream_id file_id seq (sa_current_tick app)) app"

definition erase_chunk_buffered :: "T_ReceivedChunk \<Rightarrow> u64 \<Rightarrow> SenderApp \<Rightarrow> SenderApp" where
  "erase_chunk_buffered chunk stream_id app =
     observe_erased (erase_chunk (sa_send_buffer app) chunk stream_id (sa_current_tick app)) app"

definition current_rto_ticks :: "SenderApp \<Rightarrow> u64" where
  "current_rto_ticks app = rto_ticks (sa_rto app) (no_chunk_retransmit_ticks (sa_options app))"

definition fail_and_stop :: "SenderApp \<Rightarrow> SenderApp" where
  "fail_and_stop app = app\<lparr>sa_failed := True, sa_loop_stopped := True\<rparr>"

definition final_fail :: "SenderApp \<Rightarrow> SenderApp" where
  "final_fail app = app\<lparr>sa_failed := True, sa_network := net_stop (sa_network app), sa_loop_stopped := True\<rparr>"

definition is_recoverable_nack :: "EM_NackReason \<Rightarrow> bool" where
  "is_recoverable_nack reason \<longleftrightarrow>
     reason \<in> {BAD_CHECKSUM, BAD_COMMIT, SIZE_CONFLICT, CHECKSUM_MISMATCH, BAD_SEQ, BAD_OFFSET, BAD_CHUNK}"

section \<open>Manifest exchange and recovery\<close>

definition manifest1_label :: "T_Manifest1 \<Rightarrow> SenderApp \<Rightarrow> string" where
  "manifest1_label manifest app =
     ''message=T_Manifest1 manifest_id='' @ to_string (unat (m1_manifest_id manifest)) @
     '' streams='' @ to_string (length (m1_streams manifest)) @
     '' entries='' @ to_string (sum_list (map (\<lambda>s. length (ms_entries (st_source_manifest s))) (sa_streams app)))"

definition send_manifest1 :: "app_env \<Rightarrow> SenderApp \<Rightarrow> unit step" where
  "send_manifest1 env app =
     (if sa_streams app = [] then app_ok app
      else
        let manifest = manifest1_from_streams (sa_next_manifest_id app) (sa_streams app);
            app1 = app\<lparr>sa_next_manifest_id := sa_next_manifest_id app + 1\<rparr>
        in app_then (on_net env (send_control (Msg_Manifest1 manifest) (manifest1_label manifest app1)) app1)
             (\<lambda>_. app_ok))"

definition reset_task_for_manifest_recovery :: "T_FileSendTask \<Rightarrow> T_FileSendTask" where
  "reset_task_for_manifest_recovery task =
     task\<lparr>tk_chunk_mode := tk_preferred_chunk_mode task, tk_begin_sent := False, tk_begin_ready := False,
       tk_commit_sent := False, tk_begin_line_id := 0, tk_commit_line_id := 0,
       tk_append := reset_append_state (tk_append task), tk_chunk_resend := reset_chunk_resend_state (tk_chunk_resend task)\<rparr>"

definition reset_stream_for_manifest_recovery :: "T_StreamSendState \<Rightarrow> T_StreamSendState" where
  "reset_stream_for_manifest_recovery stream =
     stream\<lparr>st_manifest_applied := False, st_complete := False, st_has_pending_changes := st_tasks stream \<noteq> [],
       st_current_task := (if st_current_task stream > length (st_tasks stream) then length (st_tasks stream)
                           else st_current_task stream),
       st_tasks := map reset_task_for_manifest_recovery (st_tasks stream)\<rparr>"

definition recover_with_manifest1 :: "app_env \<Rightarrow> SenderApp \<Rightarrow> bool step" where
  "recover_with_manifest1 env app =
     (if sa_failed app then (Inr False, app)
      else if sa_manifest_recovery_attempts app \<ge> no_max_manifest_recovery_attempts (sa_options app)
      then (Inr False, final_fail app)
      else
        app_then (send_manifest1 env
          (app\<lparr>sa_manifest_recovery_attempts := sa_manifest_recovery_attempts app + 1,
             sa_send_buffer := buffer_clear (sa_send_buffer app),
             sa_streams := map reset_stream_for_manifest_recovery (sa_streams app), sa_done := False\<rparr>))
          (\<lambda>_ app1. (Inr True, app1)))"

definition request_rescan :: "SenderApp \<Rightarrow> SenderApp" where
  "request_rescan app =
     (if \<not> no_watch (sa_options app) \<or> sa_rescan_scheduled app then app else app\<lparr>sa_rescan_scheduled := True\<rparr>)"

definition check_all_done :: "SenderApp \<Rightarrow> SenderApp" where
  "check_all_done app =
     (if sa_failed app \<or> sa_done app \<or> sa_streams app = [] then app
      else if \<not> list_all st_complete (sa_streams app) then app
      else
        let app1 = app\<lparr>sa_done := True\<rparr>
        in if \<not> no_watch (sa_options app)
           then app1\<lparr>sa_network := net_stop (sa_network app1), sa_loop_stopped := True\<rparr>
           else
             let app2 = app1\<lparr>sa_streams := map (\<lambda>s. s\<lparr>st_has_pending_changes := False\<rparr>) (sa_streams app1)\<rparr>
             in if sa_rescan_pending app2 then request_rescan (app2\<lparr>sa_rescan_pending := False\<rparr>) else app2)"

section \<open>Sending\<close>

definition send_request :: "u64 \<Rightarrow> u64 \<Rightarrow> u64 \<Rightarrow> u64 \<Rightarrow> u64 \<Rightarrow> T_Message \<Rightarrow> EM_SendKind \<Rightarrow> u64 \<Rightarrow> T_SendRequest" where
  "send_request stream_id file_id seq offset end_offset message kind chunk_index =
     \<lparr>rq_stream_id = stream_id, rq_file_id = file_id, rq_seq = seq, rq_offset = offset, rq_end_offset = end_offset,
      rq_bytes = encoded_message_size message, rq_split_allowed = False, rq_kind = kind, rq_chunk_index = chunk_index\<rparr>"

definition send_file_begin :: "app_env \<Rightarrow> nat \<Rightarrow> nat \<Rightarrow> SenderApp \<Rightarrow> unit step" where
  "send_file_begin env i k app =
     (let task = task_at app i k
      in if \<not> tk_chunk_mode task \<or> tk_begin_sent task \<or> \<not> st_manifest_applied (stream_at app i) then app_ok app
         else
           let message = Msg_FileBegin \<lparr>fb_stream_id = tk_stream_id task, fb_seq = tk_seq task, fb_file_id = tk_file_id task,
                 fb_name = tk_name task, fb_final_size = tk_source_size task,
                 fb_chunk_size = no_chunk_size (sa_options app), fb_chunk_count = tk_chunk_count task,
                 fb_file_checksum = tk_source_checksum task, fb_prev_file_id = 0, fb_prev_final_size = 0,
                 fb_prev_checksum = default_checksum\<rparr>
           in app_then (send_buffered env message
                (send_request (tk_stream_id task) (tk_file_id task) (tk_seq task) 0 0 message SEND_FILE_BEGIN 0) app)
                (\<lambda>result app1.
                  app_ok (if \<not> sr_sent result then app1
                    else modify_task i k (\<lambda>t. t\<lparr>tk_begin_sent := True, tk_begin_line_id := sr_line_id result\<rparr>) app1)))"

text \<open>\<open>try_send_buffered_kind\<close>: the line that was used, if the message went out.\<close>

definition try_send_buffered_kind ::
  "app_env \<Rightarrow> T_Message \<Rightarrow> EM_SendKind \<Rightarrow> u64 \<Rightarrow> u64 \<Rightarrow> u64 \<Rightarrow> u64 \<Rightarrow> u64 \<Rightarrow> SenderApp \<Rightarrow> LineId option step" where
  "try_send_buffered_kind env message kind seq offset end_offset stream_id file_id app =
     app_then (send_buffered env message (send_request stream_id file_id seq offset end_offset message kind 0) app)
       (\<lambda>result app1. (Inr (if sr_sent result then Some (sr_line_id result) else None), app1))"

definition update_append :: "nat \<Rightarrow> nat \<Rightarrow> (T_AppendSendState \<Rightarrow> T_AppendSendState) \<Rightarrow> SenderApp \<Rightarrow> SenderApp" where
  "update_append i k f = modify_task i k (\<lambda>t. t\<lparr>tk_append := f (tk_append t)\<rparr>)"

definition send_append_create :: "app_env \<Rightarrow> nat \<Rightarrow> nat \<Rightarrow> SenderApp \<Rightarrow> unit step" where
  "send_append_create env i k app =
     (let task = task_at app i k; seq = ap_seq (tk_append task)
      in app_then (try_send_buffered_kind env
            (Msg_Create \<lparr>cr_stream_id = tk_stream_id task, cr_seq = seq, cr_file_id = tk_file_id task, cr_kind = tk_kind task,
               cr_name = tk_name task, cr_link_target = tk_link_target task, cr_final_size = tk_source_size task,
               cr_prev_file_id = 0, cr_prev_final_size = 0, cr_prev_checksum = default_checksum\<rparr>)
            SEND_CREATE seq 0 0 (tk_stream_id task) (tk_file_id task) app)
          (\<lambda>sent app1. app_ok (case sent of
             None \<Rightarrow> app1
           | Some line_id \<Rightarrow> update_append i k (\<lambda>a. mark_append_create_sent a line_id) app1)))"

definition send_append_data :: "app_env \<Rightarrow> nat \<Rightarrow> nat \<Rightarrow> SenderApp \<Rightarrow> unit step" where
  "send_append_data env i k app =
     (let task = task_at app i k;
          offset = ap_next_offset (tk_append task);
          data_len = min (no_chunk_size (sa_options app)) (tk_source_size task - offset)
      in case read_task_range (ev_sys env) (ev_fs env) task offset data_len of
           Inl e \<Rightarrow> (Inl e, app)
         | Inr payload \<Rightarrow>
             (let data = make_data_from_payload (ev_sys env) (tk_stream_id task) (tk_file_id task) (ap_seq (tk_append task))
                    offset (tk_source_size task) payload
              in app_then (try_send_buffered_kind env (Msg_Data data) SEND_DATA (ap_seq (tk_append task)) (da_offset data)
                    (da_offset data + ucast (da_raw_len data)) (tk_stream_id task) (tk_file_id task) app)
                  (\<lambda>sent app1. app_ok (case sent of
                     None \<Rightarrow> app1
                   | Some line_id \<Rightarrow> update_append i k (\<lambda>a. mark_append_data_sent a line_id data_len) app1))))"

definition send_append_if_possible :: "app_env \<Rightarrow> nat \<Rightarrow> nat \<Rightarrow> SenderApp \<Rightarrow> unit step" where
  "send_append_if_possible env i k app =
     (let task = task_at app i k; ap = tk_append task
      in if tk_chunk_mode task \<or> \<not> st_manifest_applied (stream_at app i) \<or> sa_done app \<or> sa_failed app then app_ok app
         else if ap_needs_create ap \<and> \<not> ap_create_sent ap then send_append_create env i k app
         else if ap_needs_create ap \<and> \<not> ap_create_ready ap then app_ok app
         else if ap_data_sent ap then app_ok app
         else if ap_next_offset ap < tk_source_size task then send_append_data env i k app
         else app_ok app)"

definition apply_append_plan :: "app_env \<Rightarrow> nat \<Rightarrow> nat \<Rightarrow> T_SyncStart \<Rightarrow> SenderApp \<Rightarrow> unit step" where
  "apply_append_plan env i k diff app =
     (let task = task_at app i k
      in if append_inflight (tk_append task) \<or> sa_done app then app_ok app
         else if ss_start_file_id diff \<noteq> tk_file_id task \<or> ss_start_offset diff > tk_source_size task
         then app_ok (fail_and_stop app)
         else send_append_if_possible env i k
                (update_append i k (\<lambda>a. start_append_plan a diff (tk_seq task) (tk_source_size task)) app))"

definition send_commit_if_possible :: "app_env \<Rightarrow> nat \<Rightarrow> nat \<Rightarrow> SenderApp \<Rightarrow> unit step" where
  "send_commit_if_possible env i k app =
     (let task = task_at app i k
      in if tk_commit_sent task then app_ok app
         else
           let message = Msg_FileCommit \<lparr>fc_stream_id = tk_stream_id task, fc_seq = tk_seq task, fc_file_id = tk_file_id task\<rparr>
           in app_then (send_buffered env message
                (send_request (tk_stream_id task) (tk_file_id task) (tk_seq task) 0 0 message SEND_FILE_COMMIT 0) app)
                (\<lambda>result app1.
                  app_ok (if \<not> sr_sent result then app1
                    else modify_task i k (\<lambda>t. t\<lparr>tk_commit_sent := True, tk_commit_line_id := sr_line_id result\<rparr>) app1)))"

definition maybe_drop_line_once :: "app_env \<Rightarrow> LineId \<Rightarrow> SenderApp \<Rightarrow> unit step" where
  "maybe_drop_line_once env line_id app =
     (if no_drop_line_once (sa_options app) = 0 \<or> sa_dropped_line_once app then app_ok app
      else if line_id \<noteq> no_drop_line_once (sa_options app) then app_ok app
      else on_net env (\<lambda>nw. ((), net_mark_unavailable line_id nw)) (app\<lparr>sa_dropped_line_once := True\<rparr>))"

text \<open>One chunk: \<open>None\<close> when the loop of \<open>schedule_chunk_work\<close> returns from the function.\<close>

definition max_chunk_attempts :: "SenderApp \<Rightarrow> u64" where
  "max_chunk_attempts app =
     (if no_max_retransmit_retries (sa_options app) = UINT64_MAX then UINT64_MAX
      else no_max_retransmit_retries (sa_options app) + 1)"

definition send_chunk :: "app_env \<Rightarrow> nat \<Rightarrow> nat \<Rightarrow> u64 \<Rightarrow> SenderApp \<Rightarrow> bool step" where
  "send_chunk env i k chunk_index app =
     (let task = task_at app i k
      in if chunk_attempts (tk_chunk_resend task) chunk_index \<ge> max_chunk_attempts app
         then app_then (recover_with_manifest1 env app) (\<lambda>_ app1. (Inr False, app1))
         else
           case read_chunk_payload (ev_sys env) (ev_fs env) task chunk_index (no_chunk_size (sa_options app)) of
             Inl e \<Rightarrow> (Inl e, app)
           | Inr payload \<Rightarrow>
               (let chunk = make_chunk_from_payload (ev_sys env) (tk_stream_id task) (tk_seq task) (tk_file_id task)
                      chunk_index payload (no_chunk_size (sa_options app));
                    message = Msg_Chunk chunk
                in app_then (send_buffered env message
                     (send_request (ch_stream_id chunk) (ch_file_id chunk) (ch_seq chunk) 0 0 message SEND_CHUNK
                       (ch_chunk_index chunk)) app)
                     (\<lambda>result app1.
                       if \<not> sr_sent result then (Inr False, app1)
                       else app_then (maybe_drop_line_once env (sr_line_id result)
                              (modify_task i k (\<lambda>t. t\<lparr>tk_chunk_resend :=
                                 snd (mark_chunk_sent (tk_chunk_resend t) chunk_index (sr_line_id result) (sa_current_tick app1))\<rparr>) app1))
                            (\<lambda>_ app2. (Inr True, app2)))))"

text \<open>The loop over the chunks that may be sent now: whether it ended because there are none.\<close>

fun chunk_loop :: "app_env \<Rightarrow> nat \<Rightarrow> nat \<Rightarrow> nat \<Rightarrow> SenderApp \<Rightarrow> bool step" where
  "chunk_loop env 0 i k app = (Inr False, app)"
| "chunk_loop env (Suc n) i k app =
     (case next_unsent_chunk_index (task_at app i k) (sa_current_tick app) (current_rto_ticks app) of
        None \<Rightarrow> (Inr True, app)
      | Some chunk_index \<Rightarrow>
          app_then (send_chunk env i k chunk_index app) (\<lambda>sent app1.
            if sent then chunk_loop env n i k app1 else (Inr False, app1)))"

definition schedule_chunk_work :: "app_env \<Rightarrow> nat \<Rightarrow> nat \<Rightarrow> SenderApp \<Rightarrow> unit step" where
  "schedule_chunk_work env i k app =
     (if \<not> tk_begin_ready (task_at app i k) \<or> sa_failed app \<or> sa_done app then send_file_begin env i k app
      else
        app_then (chunk_loop env (ev_rounds env) i k app) (\<lambda>exhausted app1.
          if exhausted \<and> task_all_chunks_acked (task_at app1 i k) then send_commit_if_possible env i k app1
          else app_ok app1))"

section \<open>Retransmission\<close>

definition mark_retransmitted_task :: "EM_SendKind \<Rightarrow> T_SendRequest \<Rightarrow> LineId \<Rightarrow> u64 \<Rightarrow> T_FileSendTask \<Rightarrow> T_FileSendTask" where
  "mark_retransmitted_task kind request line_id current_tick task =
     (case kind of
        SEND_CREATE \<Rightarrow>
          if \<not> tk_chunk_mode task
          then task\<lparr>tk_append := mark_append_create_retransmitted (tk_append task) line_id\<rparr> else task
      | SEND_DATA \<Rightarrow>
          if \<not> tk_chunk_mode task
          then task\<lparr>tk_append := mark_append_data_retransmitted (tk_append task) line_id (rq_offset request) (rq_end_offset request)\<rparr>
          else task
      | SEND_FILE_BEGIN \<Rightarrow>
          if tk_chunk_mode task then task\<lparr>tk_begin_sent := True, tk_begin_line_id := line_id\<rparr> else task
      | SEND_CHUNK \<Rightarrow>
          if tk_chunk_mode task
          then task\<lparr>tk_chunk_resend := snd (mark_chunk_sent (tk_chunk_resend task) (rq_chunk_index request) line_id current_tick)\<rparr>
          else task
      | SEND_FILE_COMMIT \<Rightarrow>
          if tk_chunk_mode task then task\<lparr>tk_commit_sent := True, tk_commit_line_id := line_id\<rparr> else task)"

definition mark_task_retransmitted :: "T_SendRequest \<Rightarrow> LineId \<Rightarrow> SenderApp \<Rightarrow> SenderApp" where
  "mark_task_retransmitted request line_id app =
     (case stream_for_id (rq_stream_id request) app of
        None \<Rightarrow> app
      | Some i \<Rightarrow>
          if st_complete (stream_at app i) then app
          else case active_index (stream_at app i) of
            None \<Rightarrow> app
          | Some k \<Rightarrow>
              if tk_file_id (task_at app i k) \<noteq> rq_file_id request \<or> tk_seq (task_at app i k) \<noteq> rq_seq request then app
              else modify_task i k (mark_retransmitted_task (rq_kind request) request line_id (sa_current_tick app)) app)"

definition drop_queued :: "SenderApp \<Rightarrow> SenderApp" where
  "drop_queued app = app\<lparr>sa_send_buffer := erase_retransmit (sa_send_buffer app) 0\<rparr>"

text \<open>The loop never advances its index: it removes the entry at the front or returns. It moves the
  message back into the entry, which therefore keeps it.\<close>

fun retransmit_loop :: "app_env \<Rightarrow> nat \<Rightarrow> SenderApp \<Rightarrow> bool step" where
  "retransmit_loop env 0 app = (Inr False, app)"
| "retransmit_loop env (Suc n) app =
     (case sb_retransmit_queue (sa_send_buffer app) of
        [] \<Rightarrow> (Inr True, app)
      | key # _ \<Rightarrow>
          (case buffer_find (sa_send_buffer app) key of
             None \<Rightarrow> retransmit_loop env n (drop_queued app)
           | Some buffered \<Rightarrow>
               if bs_nack_retries buffered \<ge> no_max_retransmit_retries (sa_options app)
               then app_then (recover_with_manifest1 env (drop_queued app)) (\<lambda>_ app1. (Inr False, app1))
               else
                 app_then (on_net env (net_send (bs_message buffered) (bs_request buffered)) app) (\<lambda>result app1.
                   if \<not> sr_sent result then (Inr False, app1)
                   else
                     retransmit_loop env n
                       (drop_queued (mark_task_retransmitted (bs_request buffered) (sr_line_id result)
                         (app1\<lparr>sa_send_buffer := snd (mark_retransmitted (sa_send_buffer app1) key (sr_bytes result)
                            (sa_current_tick app1))\<rparr>))))))"

definition flush_retransmits :: "app_env \<Rightarrow> SenderApp \<Rightarrow> bool step" where
  "flush_retransmits env app =
     (if sa_failed app \<or> sa_done app then (Inr True, app) else retransmit_loop env (ev_rounds env) app)"

fun enqueue_expired :: "app_env \<Rightarrow> T_SendBufferKey list \<Rightarrow> SenderApp \<Rightarrow> bool step" where
  "enqueue_expired env [] app = (Inr True, app)"
| "enqueue_expired env (key # keys) app =
     (case buffer_find (sa_send_buffer app) key of
        None \<Rightarrow> enqueue_expired env keys app
      | Some buffered \<Rightarrow>
          if bs_nack_retries buffered \<ge> no_max_retransmit_retries (sa_options app) then recover_with_manifest1 env app
          else enqueue_expired env keys
                 (app\<lparr>sa_send_buffer := snd (enqueue_retransmit (sa_send_buffer app) key)\<rparr>))"

definition enqueue_rto_retransmits :: "app_env \<Rightarrow> SenderApp \<Rightarrow> bool step" where
  "enqueue_rto_retransmits env app =
     (if sa_failed app \<or> sa_done app then (Inr True, app)
      else enqueue_expired env (expired_keys (sa_send_buffer app) (sa_current_tick app) (current_rto_ticks app) 32) app)"

section \<open>Scheduling\<close>

definition stream_work :: "app_env \<Rightarrow> nat \<Rightarrow> SenderApp \<Rightarrow> unit step" where
  "stream_work env i app =
     (let stream = stream_at app i
      in if \<not> st_manifest_applied stream \<or> st_complete stream then app_ok app
         else case active_index stream of
           None \<Rightarrow> app_ok (modify_stream i (\<lambda>s. s\<lparr>st_complete := True\<rparr>) app)
         | Some k \<Rightarrow>
             if \<not> tk_chunk_mode (task_at app i k) then send_append_if_possible env i k app
             else schedule_chunk_work env i k app)"

fun streams_work :: "app_env \<Rightarrow> nat list \<Rightarrow> SenderApp \<Rightarrow> unit step" where
  "streams_work env [] app = app_ok app"
| "streams_work env (i # is) app = app_then (stream_work env i app) (\<lambda>_. streams_work env is)"

definition schedule_work :: "app_env \<Rightarrow> SenderApp \<Rightarrow> unit step" where
  "schedule_work env app =
     (if sa_failed app \<or> sa_done app then app_ok app
      else
        app_then (enqueue_rto_retransmits env app) (\<lambda>go app1.
          if \<not> go then app_ok app1
          else app_then (flush_retransmits env app1) (\<lambda>go app2.
            if \<not> go then app_ok app2
            else app_then (streams_work env [0..<length (sa_streams app2)] app2) (\<lambda>_ app3. app_ok (check_all_done app3)))))"

definition advance_stream_task :: "app_env \<Rightarrow> nat \<Rightarrow> SenderApp \<Rightarrow> unit step" where
  "advance_stream_task env i app =
     (let app1 = modify_stream i (\<lambda>s. if st_current_task s < length (st_tasks s)
            then s\<lparr>st_current_task := st_current_task s + 1\<rparr> else s) (app\<lparr>sa_manifest_recovery_attempts := 0\<rparr>)
      in case active_index (stream_at app1 i) of
           None \<Rightarrow> app_ok (check_all_done (modify_stream i (\<lambda>s. s\<lparr>st_complete := True\<rparr>) app1))
         | Some k \<Rightarrow>
             if tk_chunk_mode (task_at app1 i k)
             then app_then (send_file_begin env i k app1) (\<lambda>_. schedule_work env)
             else apply_append_plan env i k
                    \<lparr>ss_stream_id = st_stream_id (stream_at app1 i), ss_start_file_id = tk_file_id (task_at app1 i k),
                     ss_start_offset = 0, ss_start_action = CREATE_MISSING\<rparr> app1)"

section \<open>Events\<close>

definition on_connected :: "app_env \<Rightarrow> LineId \<Rightarrow> SenderApp \<Rightarrow> unit step" where
  "on_connected env line_id app =
     (if sa_done app \<and> no_watch (sa_options app) then app_ok app
      else app_then (send_manifest1 env app) (\<lambda>_. schedule_work env))"

definition apply_manifest2_stream :: "app_env \<Rightarrow> T_Manifest2 \<Rightarrow> nat \<Rightarrow> SenderApp \<Rightarrow> unit step" where
  "apply_manifest2_stream env manifest2 i app =
     (case apply_manifest2_to_stream manifest2 (stream_at app i) of
        (Inl e, stream1) \<Rightarrow> app_ok (fail_and_stop (modify_stream i (\<lambda>_. stream1) app))
      | (Inr None, stream1) \<Rightarrow> app_ok (modify_stream i (\<lambda>_. stream1) app)
      | (Inr (Some result), stream1) \<Rightarrow>
          (let app1 = modify_stream i (\<lambda>_. stream1) app
           in if mar_in_sync result then app_ok (check_all_done app1)
              else case active_index (stream_at app1 i) of
                None \<Rightarrow> app_ok (check_all_done (modify_stream i (\<lambda>s. s\<lparr>st_complete := True\<rparr>) app1))
              | Some k \<Rightarrow>
                  if mar_should_start_chunk result then send_file_begin env i k app1
                  else if mar_should_start_append result then apply_append_plan env i k (mar_start result) app1
                  else app_ok app1))"

text \<open>The loop over the streams: whether it ran to its end.\<close>

fun apply_manifest2_streams :: "app_env \<Rightarrow> T_Manifest2 \<Rightarrow> nat list \<Rightarrow> SenderApp \<Rightarrow> bool step" where
  "apply_manifest2_streams env manifest2 [] app = (Inr True, app)"
| "apply_manifest2_streams env manifest2 (i # is) app =
     app_then (apply_manifest2_stream env manifest2 i app) (\<lambda>_ app1.
       if sa_failed app1 then (Inr False, app1) else apply_manifest2_streams env manifest2 is app1)"

definition on_manifest2 :: "app_env \<Rightarrow> T_Manifest2 \<Rightarrow> SenderApp \<Rightarrow> unit step" where
  "on_manifest2 env manifest2 app =
     app_then (apply_manifest2_streams env manifest2 [0..<length (sa_streams app)] app)
       (\<lambda>completed app1. if completed then schedule_work env app1 else app_ok app1)"

text \<open>A heartbeat for a task in append mode.\<close>

definition append_heartbeat :: "app_env \<Rightarrow> nat \<Rightarrow> nat \<Rightarrow> T_Heartbeat \<Rightarrow> SenderApp \<Rightarrow> unit step" where
  "append_heartbeat env i k heartbeat app =
     (let same_file = (hb_file_id heartbeat = tk_file_id (task_at app i k));
          app1 = (if same_file then update_append i k (\<lambda>a. snd (mark_append_create_ready_from_heartbeat a heartbeat)) app else app);
          app2 = (if same_file then update_append i k (\<lambda>a. snd (mark_append_data_ready_from_heartbeat a heartbeat)) app1 else app1);
          task = task_at app2 i k
      in if same_file \<and> append_complete_by_heartbeat (tk_append task) heartbeat (tk_kind task) (tk_source_size task)
         then advance_stream_task env i app2
         else send_append_if_possible env i k app2)"

definition acknowledge_received :: "nat \<Rightarrow> nat \<Rightarrow> u64 \<Rightarrow> T_ReceivedChunk \<Rightarrow> SenderApp \<Rightarrow> SenderApp" where
  "acknowledge_received i k stream_id received app =
     (let task = task_at app i k
      in if rc_seq received \<noteq> tk_seq task \<or> rc_file_id received \<noteq> tk_file_id task then app
         else case acknowledge_chunk (tk_chunk_resend task) (rc_chunk_index received) of
           (False, _) \<Rightarrow> app
         | (True, resend) \<Rightarrow>
             erase_chunk_buffered received stream_id (modify_task i k (\<lambda>t. t\<lparr>tk_chunk_resend := resend\<rparr>) app))"

text \<open>A heartbeat for a task in chunk mode.\<close>

definition chunk_heartbeat_received :: "app_env \<Rightarrow> nat \<Rightarrow> nat \<Rightarrow> T_Heartbeat \<Rightarrow> SenderApp \<Rightarrow> unit step" where
  "chunk_heartbeat_received env i k heartbeat app =
     (let task = task_at app i k;
          app1 = (if tk_begin_sent task \<and> \<not> tk_begin_ready task \<and> hb_file_id heartbeat = tk_file_id task \<and>
                     hb_received_chunks heartbeat = []
                  then erase_file_begin_buffered (tk_stream_id task) (tk_file_id task) (tk_seq task)
                         (modify_task i k (\<lambda>t. t\<lparr>tk_begin_ready := True\<rparr>) app)
                  else app);
          app2 = fold (acknowledge_received i k (hb_stream_id heartbeat)) (hb_received_chunks heartbeat) app1;
          app3 = modify_task i k (\<lambda>t. t\<lparr>tk_chunk_resend :=
                   snd (apply_missing_hints (tk_chunk_resend t) (tk_seq t) (tk_file_id t) (hb_missing_ranges heartbeat))\<rparr>) app2
      in if tk_commit_sent (task_at app3 i k) \<and> hb_next_seq heartbeat > tk_seq (task_at app3 i k)
         then advance_stream_task env i app3
         else schedule_work env app3)"

definition sender_on_heartbeat :: "app_env \<Rightarrow> LineId \<Rightarrow> T_Heartbeat \<Rightarrow> SenderApp \<Rightarrow> unit step" where
  "sender_on_heartbeat env line_id heartbeat app =
     app_then (on_net env (\<lambda>nw. ((), net_on_heartbeat line_id heartbeat nw)) app) (\<lambda>_ app0.
       let app1 = erase_completed_buffered heartbeat app0
       in case stream_for_id (hb_stream_id heartbeat) app1 of
            None \<Rightarrow> app_ok app1
          | Some i \<Rightarrow>
              (case active_index (stream_at app1 i) of
                 None \<Rightarrow> app_ok (check_all_done app1)
               | Some k \<Rightarrow>
                   if \<not> tk_chunk_mode (task_at app1 i k) then append_heartbeat env i k heartbeat app1
                   else chunk_heartbeat_received env i k heartbeat app1))"

definition nack_received :: "app_env \<Rightarrow> T_Nack \<Rightarrow> SenderApp \<Rightarrow> unit step" where
  "nack_received env nack app =
     (case enqueue_nack_retransmit (sa_send_buffer app) nack (no_chunk_size (sa_options app)) of
        (True, buf) \<Rightarrow> schedule_work env (app\<lparr>sa_send_buffer := buf\<rparr>)
      | (False, buf) \<Rightarrow>
          (let app1 = app\<lparr>sa_send_buffer := buf\<rparr>
           in if is_recoverable_nack (nk_reason nack) then app_then (recover_with_manifest1 env app1) (\<lambda>_. app_ok)
              else app_ok (final_fail app1)))"

definition sender_on_message :: "app_env \<Rightarrow> LineId \<Rightarrow> T_Message \<Rightarrow> SenderApp \<Rightarrow> unit step" where
  "sender_on_message env line_id message app =
     (case message of
        Msg_Manifest2 manifest2 \<Rightarrow> on_manifest2 env manifest2 app
      | Msg_Heartbeat heartbeat \<Rightarrow> sender_on_heartbeat env line_id heartbeat app
      | Msg_Nack nack \<Rightarrow> nack_received env nack app
      | _ \<Rightarrow> app_ok (fail_and_stop app))"

text \<open>One lost send: whether something is to be sent again.\<close>

definition lost_send_task :: "T_LostSend \<Rightarrow> nat \<Rightarrow> nat \<Rightarrow> SenderApp \<Rightarrow> bool \<times> SenderApp" where
  "lost_send_task lost i k app =
     (let task = task_at app i k
      in if \<not> tk_chunk_mode task
         then (if append_lost_matches (tk_append task) lost
               then (True, modify_stream i (\<lambda>s. s\<lparr>st_manifest_applied := False\<rparr>) (update_append i k reset_append_inflight app))
               else (False, app))
         else if ls_seq lost \<noteq> tk_seq task then (False, app)
         else if ls_kind lost = SEND_FILE_BEGIN \<and> tk_begin_sent task \<and> \<not> tk_begin_ready task
         then (True, modify_task i k (\<lambda>t. t\<lparr>tk_begin_sent := False, tk_begin_line_id := 0\<rparr>) app)
         else if ls_kind lost = SEND_CHUNK
         then (case mark_chunk_lost (tk_chunk_resend task) (ls_chunk_index lost) of
                 (marked, resend) \<Rightarrow> (marked, modify_task i k (\<lambda>t. t\<lparr>tk_chunk_resend := resend\<rparr>) app))
         else if ls_kind lost = SEND_FILE_COMMIT \<and> tk_commit_sent task
         then (True, modify_task i k (\<lambda>t. t\<lparr>tk_commit_sent := False, tk_commit_line_id := 0\<rparr>) app)
         else (False, app))"

definition lost_send :: "T_LostSend \<Rightarrow> SenderApp \<Rightarrow> bool \<times> SenderApp" where
  "lost_send lost app =
     (case stream_for_id (ls_stream_id lost) app of
        None \<Rightarrow> (False, app)
      | Some i \<Rightarrow>
          if st_complete (stream_at app i) then (False, app)
          else case active_index (stream_at app i) of
            None \<Rightarrow> (False, app)
          | Some k \<Rightarrow>
              if tk_file_id (task_at app i k) \<noteq> ls_file_id lost then (False, app)
              else
                (case enqueue_retransmit (sa_send_buffer app) (key_for_lost_send lost) of
                   (True, buf) \<Rightarrow> (True, app\<lparr>sa_send_buffer := buf\<rparr>)
                 | (False, _) \<Rightarrow> lost_send_task lost i k app))"

fun lost_sends :: "T_LostSend list \<Rightarrow> bool \<Rightarrow> SenderApp \<Rightarrow> bool \<times> SenderApp" where
  "lost_sends [] changed app = (changed, app)"
| "lost_sends (lost # rest) changed app =
     (case lost_send lost app of (c, app1) \<Rightarrow> lost_sends rest (changed \<or> c) app1)"

definition on_lost_sends :: "app_env \<Rightarrow> T_LostSend list \<Rightarrow> SenderApp \<Rightarrow> unit step" where
  "on_lost_sends env lost app =
     (case lost_sends lost False app of
        (changed, app1) \<Rightarrow>
          if changed \<and> \<not> sa_failed app1 \<and> \<not> sa_done app1 then schedule_work env app1 else app_ok app1)"

text \<open>The handler that the network calls, nested at most \<open>depth\<close> times.\<close>

fun lost_callback :: "system \<Rightarrow> filesystem \<Rightarrow> nat \<Rightarrow> nat \<Rightarrow> T_LostSend list \<Rightarrow> SenderApp \<Rightarrow> unit step" where
  "lost_callback sys fs rounds 0 lost app = app_ok app"
| "lost_callback sys fs rounds (Suc depth) lost app =
     on_lost_sends \<lparr>ev_sys = sys, ev_fs = fs, ev_rounds = rounds, ev_lost = lost_callback sys fs rounds depth\<rparr> lost app"

definition app_environment :: "system \<Rightarrow> filesystem \<Rightarrow> nat \<Rightarrow> nat \<Rightarrow> app_env" where
  "app_environment sys fs rounds depth =
     \<lparr>ev_sys = sys, ev_fs = fs, ev_rounds = rounds, ev_lost = lost_callback sys fs rounds depth\<rparr>"

definition app_tick :: "app_env \<Rightarrow> SenderApp \<Rightarrow> unit step" where
  "app_tick env app =
     (if sa_failed app then app_ok app
      else
        app_then (on_net env (\<lambda>nw. ((), net_refill_ticks 1 nw)) (app\<lparr>sa_current_tick := sa_current_tick app + 1\<rparr>))
          (\<lambda>_ app1. if sa_done app1 then app_ok app1 else schedule_work env app1))"

section \<open>The streams to send\<close>

text \<open>Paths of the options are taken from the root of the file system. Where the code sorts with
  \<open>std::sort\<close>, equal stream ids keep their order here.\<close>

record T_ConfiguredRoot =
  cg_stream_id :: u64
  cg_root :: path
  cg_entry_name_regex :: string

fun unique_stream_ids :: "T_ConfiguredRoot list \<Rightarrow> T_ConfiguredRoot list" where
  "unique_stream_ids [] = []"
| "unique_stream_ids [r] = [r]"
| "unique_stream_ids (r # s # rest) =
     (if cg_stream_id r = cg_stream_id s then unique_stream_ids (r # rest) else r # unique_stream_ids (s # rest))"

definition option_roots :: "T_NodeOptions \<Rightarrow> T_ConfiguredRoot list" where
  "option_roots options =
     unique_stream_ids (sort_key cg_stream_id
       (map (\<lambda>s. \<lparr>cg_stream_id = sr_stream_id s, cg_root = path_parts (sr_root s), cg_entry_name_regex = sr_entry_name_regex s\<rparr>)
          (no_source_streams options)))"

definition directory_roots :: "filesystem \<Rightarrow> path \<Rightarrow> T_ConfiguredRoot list" where
  "directory_roots fs source_root =
     (let found = sort_key cg_stream_id (List.map_filter (\<lambda>q.
            map_option (\<lambda>i. \<lparr>cg_stream_id = i, cg_root = q, cg_entry_name_regex = []\<rparr>) (parse_stream_dir_name q))
            (subdirectories fs source_root))
      in if found = [] then [\<lparr>cg_stream_id = kStreamId, cg_root = source_root, cg_entry_name_regex = []\<rparr>] else found)"

definition simulated_stream :: "system \<Rightarrow> T_NodeOptions \<Rightarrow> T_StreamSendState result" where
  "simulated_stream sys options =
     (let data = make_sender_bytes (no_size options)
      in try_then (make_simulated_file_task sys kStreamId kSeq kFileId data (Some (SimulatedSourceReader data))
             (no_chunk_size options) [])
           (\<lambda>task. Inr
             \<lparr>st_stream_id = tk_stream_id task, st_root = [], st_entry_name_regex = [], st_source_directory = None,
              st_source_manifest = \<lparr>ms_stream_id = tk_stream_id task, ms_root = ''<simulated>'',
                ms_entries = [\<lparr>me_file_id = tk_file_id task, me_seq = tk_seq task, me_kind = tk_kind task, me_name = tk_name task,
                  me_link_target = tk_link_target task, me_size = tk_source_size task, me_checksum = tk_range_checksum task\<rparr>]\<rparr>,
              st_tasks = [task], st_current_task = 0, st_manifest_applied = False, st_complete = False,
              st_has_pending_changes = True\<rparr>))"

text \<open>One configured root: no stream when it holds nothing and is not watched.\<close>

definition root_stream :: "system \<Rightarrow> filesystem \<Rightarrow> T_NodeOptions \<Rightarrow> T_ConfiguredRoot \<Rightarrow> T_StreamSendState option result" where
  "root_stream sys fs options configured =
     (let directory = \<lparr>sd_stream_id = cg_stream_id configured, sd_root = cg_root configured,
            sd_checksum_range_len = 4 * 1024 * 1024, sd_entry_name_regex = cg_entry_name_regex configured\<rparr>
      in check_that (fs_exists_ec fs (cg_root configured))
           (runtime_error (''source stream root does not exist: '' @ path_string (cg_root configured)))
         (try_then (scan_manifest sys fs directory) (\<lambda>manifest.
            if ms_entries manifest = [] \<and> \<not> no_watch options then Inr None
            else
              try_then (source_files sys fs directory) (\<lambda>files.
              try_then (map_results (\<lambda>file. make_real_file_task sys fs (cg_stream_id configured) file directory
                          (Some (SourceDirectory directory)) (no_chunk_size options) []) files) (\<lambda>tasks.
                Inr (Some
                  \<lparr>st_stream_id = cg_stream_id configured, st_root = cg_root configured,
                   st_entry_name_regex = cg_entry_name_regex configured, st_source_directory = Some directory,
                   st_source_manifest = manifest, st_tasks = tasks, st_current_task = 0, st_manifest_applied = False,
                   st_complete = (tasks = []), st_has_pending_changes = (tasks \<noteq> [])\<rparr>))))))"

definition the_streams :: "T_StreamSendState option list \<Rightarrow> T_StreamSendState list" where
  "the_streams = List.map_filter (\<lambda>s. s)"

definition build_source_streams :: "system \<Rightarrow> filesystem \<Rightarrow> T_NodeOptions \<Rightarrow> T_StreamSendState list result" where
  "build_source_streams sys fs options =
     (if no_source_root options = [] then try_then (simulated_stream sys options) (\<lambda>stream. Inr [stream])
      else
        let source_root = path_parts (no_source_root options);
            configured = option_roots options
        in check_that (fs_exists_ec fs source_root \<or> configured \<noteq> [])
             (runtime_error (''source root does not exist: '' @ no_source_root options))
           (check_that (configured \<noteq> [] \<or> node_at fs source_root = Some Dir)
             (filesystem_error ''directory iterator cannot open directory'')
           (try_then (map_results (root_stream sys fs options)
                (if configured = [] then directory_roots fs source_root else configured)) (\<lambda>streams.
              check_that (the_streams streams \<noteq> [] \<or> no_watch options)
                (runtime_error ''source root has no syncable entries'')
                (Inr (the_streams streams))))))"

section \<open>Watching\<close>

text \<open>\<open>make_watcher\<close> is \<open>make_source_watcher\<close>: whether it raises for a root. Watchers are kept by
  stream and root; what they report is an argument of the poll.\<close>

fun start_watchers_loop ::
  "(path \<Rightarrow> EM_WatchBackend \<Rightarrow> bool) \<Rightarrow> T_StreamSendState list \<Rightarrow> (u64 \<times> path) list \<Rightarrow> SenderApp \<Rightarrow> (u64 \<times> path) list \<times> SenderApp" where
  "start_watchers_loop make_watcher [] watchers app = (watchers, app)"
| "start_watchers_loop make_watcher (stream # streams) watchers app =
     (if st_root stream = [] then start_watchers_loop make_watcher streams watchers app
      else if \<not> make_watcher (st_root stream) (no_watch_backend (sa_options app)) then (watchers, fail_and_stop app)
      else start_watchers_loop make_watcher streams (watchers @ [(st_stream_id stream, st_root stream)]) app)"

definition start_watchers :: "(path \<Rightarrow> EM_WatchBackend \<Rightarrow> bool) \<Rightarrow> SenderApp \<Rightarrow> (u64 \<times> path) list \<times> SenderApp" where
  "start_watchers make_watcher app = start_watchers_loop make_watcher (sa_streams app) [] app"

definition watch_poll_tick :: "T_WatchEvent list list \<Rightarrow> SenderApp \<Rightarrow> SenderApp" where
  "watch_poll_tick polled app =
     (if sa_failed app \<or> \<not> no_watch (sa_options app) then app
      else if list_ex (\<lambda>events. events \<noteq> []) polled then request_rescan app else app)"

definition rescan_and_send_manifest :: "app_env \<Rightarrow> SenderApp \<Rightarrow> unit step" where
  "rescan_and_send_manifest env app =
     (if sa_failed app then app_ok app
      else if \<not> sa_done app \<and> sa_streams app \<noteq> [] then app_ok (app\<lparr>sa_rescan_pending := True\<rparr>)
      else
        let app1 = app\<lparr>sa_send_buffer := buffer_clear (sa_send_buffer app), sa_streams := [], sa_done := False\<rparr>
        in case build_source_streams (ev_sys env) (ev_fs env) (sa_options app) of
             Inl e \<Rightarrow> app_ok (fail_and_stop app1)
           | Inr streams \<Rightarrow>
               (let app2 = app1\<lparr>sa_streams := streams\<rparr>
                in if streams \<noteq> [] then send_manifest1 env app2 else app_ok app2))"

definition rescan_timer :: "app_env \<Rightarrow> SenderApp \<Rightarrow> unit step" where
  "rescan_timer env app = rescan_and_send_manifest env (app\<lparr>sa_rescan_scheduled := False\<rparr>)"

section \<open>Start and end\<close>

definition make_SenderApp :: "system \<Rightarrow> filesystem \<Rightarrow> T_NodeOptions \<Rightarrow> SenderApp result" where
  "make_SenderApp sys fs options =
     try_then (make_SenderNetwork (make_line_endpoints options) (make_line_configs options)
         \<lparr>rp_base_delay = no_reconnect_base_delay_ms options, rp_max_delay = no_reconnect_max_delay_ms options, rp_max_shift = 5\<rparr>
         (make_hello SENDER ''sender'' (ucast (no_chunk_size options)) (no_recv_window_bytes options))) (\<lambda>network.
     try_then (build_source_streams sys fs options) (\<lambda>streams.
       Inr \<lparr>sa_options = options, sa_streams = streams, sa_network = network, sa_send_buffer = empty_send_buffer,
            sa_rto = new_RtoEstimator, sa_next_manifest_id = 1, sa_current_tick = 0, sa_manifest_recovery_attempts = 0,
            sa_dropped_line_once = False, sa_rescan_scheduled = False, sa_rescan_pending = False, sa_done = False,
            sa_failed = False, sa_loop_stopped = False\<rparr>))"

definition timeout_30s :: "SenderApp \<Rightarrow> SenderApp" where
  "timeout_30s app = (if \<not> no_watch (sa_options app) \<and> \<not> sa_done app then fail_and_stop app else app)"

definition exit_code :: "SenderApp \<Rightarrow> int" where
  "exit_code app = (if sa_failed app \<or> \<not> sa_done app then 1 else 0)"

end
