(* ===== verification/SenderRun.thy ===== *)
theory SenderRun
  imports SenderApp
begin

text \<open>
  What the sender application (theory SenderApp) guarantees whatever the network does: its handlers
  call each other again through \<open>on_lost_sends\<close> while the network loses lines, and still every loop
  ends, the identity of streams and files stays, the recovery attempts stay within their limit and a
  run that is done has completed every stream.
\<close>

section \<open>A line is lost at most once\<close>

definition live :: "T_SenderLineSet \<Rightarrow> nat" where
  "live st = length (filter (\<lambda>l. sl_connection l \<noteq> None) (ss_lines st))"

fun is_loss :: "line_effect \<Rightarrow> bool" where
  "is_loss (Eff_unavailable i had) = had"
| "is_loss _ = False"

definition losses :: "line_effect list \<Rightarrow> nat" where
  "losses effs = length (filter is_loss effs)"

definition no_connects :: "line_effect list \<Rightarrow> bool" where
  "no_connects effs \<longleftrightarrow> (\<forall>i. Eff_connected i \<notin> set effs)"

lemma update_first_live:
  "List.find (\<lambda>l. sender_line_id l = i) ls = Some line \<Longrightarrow>
     length (filter (\<lambda>l. sl_connection l \<noteq> None) (update_first i f ls)) + (if sl_connection line \<noteq> None then 1 else 0) =
     length (filter (\<lambda>l. sl_connection l \<noteq> None) ls) + (if sl_connection (f line) \<noteq> None then 1 else 0)"
  by (induction ls) (auto split: if_splits)

lemma update_first_live_same:
  "(\<And>l. sl_connection (f l) = sl_connection l) \<Longrightarrow>
     length (filter (\<lambda>l. sl_connection l \<noteq> None) (update_first i f ls)) = length (filter (\<lambda>l. sl_connection l \<noteq> None) ls)"
  by (induction ls) (auto simp del: not_None_eq)

lemma schedule_live:
  "live (snd (schedule_reconnect i st)) = live st"
  "losses (ss_effects (snd (schedule_reconnect i st))) = losses (ss_effects st)"
  "no_connects (ss_effects (snd (schedule_reconnect i st))) = no_connects (ss_effects st)"
  by (auto simp: schedule_reconnect_def on_sender_def Let_def live_def update_sender_def emit_def losses_def no_connects_def
      find_sender_def update_first_live_same simp del: not_None_eq split: option.splits)

lemma moved_out_live:
  assumes "find_sender st i = Some line"
  shows "live (moved_out i (sl_connection line \<noteq> None) st) + losses (ss_effects (moved_out i (sl_connection line \<noteq> None) st)) =
     live st + losses (ss_effects st)"
    "no_connects (ss_effects (moved_out i b st)) = no_connects (ss_effects st)"
  using update_first_live [OF assms [unfolded find_sender_def],
      of "\<lambda>l. l\<lparr>sl_connecting := False, sl_connector := None, sl_connection := None\<rparr>"]
  by (auto simp: moved_out_def live_def update_sender_def emit_def losses_def no_connects_def split: if_splits)

lemma mark_unavailable_live:
  "live (snd (mark_unavailable i st)) + losses (ss_effects (snd (mark_unavailable i st))) \<le> live st + losses (ss_effects st) \<and>
   (no_connects (ss_effects st) \<longrightarrow> no_connects (ss_effects (snd (mark_unavailable i st))))"
proof (induction i st rule: mark_unavailable.induct)
  case (1 i st)
  have eff: "live (emit (Eff_close_connection i) s) = live s" "losses (ss_effects (emit (Eff_close_connection i) s)) = losses (ss_effects s)"
    "no_connects (ss_effects (emit (Eff_close_connection i) s)) = no_connects (ss_effects s)" for s
    by (auto simp: emit_def live_def losses_def no_connects_def)
  show ?case
  proof (cases "find_sender st i")
    case None
    then show ?thesis by (simp add: mark_unavailable.simps [of i st])
  next
    case (Some line)
    define st1 where "st1 = moved_out i (sl_connection line \<noteq> None) st"
    have m: "live st1 + losses (ss_effects st1) = live st + losses (ss_effects st)"
      "no_connects (ss_effects st1) = no_connects (ss_effects st)"
      unfolding st1_def by (rule moved_out_live [OF Some])+
    show ?thesis
      using "1.IH" [OF Some _ st1_def refl _ refl] m
      unfolding mark_unavailable.simps [of i st] Some option.case Let_def st1_def [symmetric]
      by (auto simp: schedule_live eff simp del: not_None_eq split: if_splits)
  qed
qed

section \<open>Calls of the network\<close>

text \<open>The network's state after an operation that opens no connection: its trace has grown, and every
  loss it has reported is a connection less.\<close>

definition net_shrinks :: "T_SenderNetwork \<Rightarrow> T_SenderNetwork \<Rightarrow> bool" where
  "net_shrinks nw nw' \<longleftrightarrow> (\<exists>evs. nw_trace nw' = nw_trace nw @ evs \<and>
     live (nw_lines nw') + length (lost_callbacks evs) \<le> live (nw_lines nw))"

lemma lost_callbacks_append [simp]: "lost_callbacks (xs @ ys) = lost_callbacks xs @ lost_callbacks ys"
  by (simp add: lost_callbacks_def map_filter_def)

lemma net_shrinks_refl [simp]: "net_shrinks nw nw"
  by (simp add: net_shrinks_def lost_callbacks_def map_filter_def)

lemma net_shrinks_trans [trans]: "net_shrinks a b \<Longrightarrow> net_shrinks b c \<Longrightarrow> net_shrinks a c"
  by (fastforce simp: net_shrinks_def)

lemma handle_effects_lines:
  "no_connects effs \<Longrightarrow> \<exists>evs. nw_lines (snd (handle_effects effs st)) = nw_lines st \<and>
     nw_trace (snd (handle_effects effs st)) = nw_trace st @ evs \<and> length (lost_callbacks evs) \<le> losses effs"
proof (induction effs arbitrary: st)
  case Nil
  then show ?case by (simp add: lost_callbacks_def map_filter_def)
next
  case (Cons eff effs)
  have rest: "no_connects effs" using Cons.prems by (auto simp: no_connects_def)
  show ?case
  proof (cases eff)
    case (Eff_unavailable i had)
    define r where "r = handle_unavailable i had st"
    have r: "nw_lines (snd r) = nw_lines st \<and> (\<exists>evs. nw_trace (snd r) = nw_trace st @ evs \<and>
        length (lost_callbacks evs) \<le> (if had then 1 else 0))"
      by (auto simp: r_def handle_unavailable_def and_then_def with_scheduler_def Let_def emit_lost_sends_def log_net_def
          lost_callbacks_def map_filter_def take_lost_sends_def split: sum.splits prod.splits)
    then obtain evs where evs: "nw_trace (snd r) = nw_trace st @ evs" "length (lost_callbacks evs) \<le> (if had then 1 else 0)"
      by blast
    show ?thesis
    proof (cases "fst r")
      case None
      then have eq: "handle_effects (eff # effs) st = handle_effects effs (snd r)"
        by (cases r) (simp add: Eff_unavailable r_def [symmetric] and_then_def)
      obtain evs' where "nw_lines (snd (handle_effects effs (snd r))) = nw_lines (snd r)"
        "nw_trace (snd (handle_effects effs (snd r))) = nw_trace (snd r) @ evs'" "length (lost_callbacks evs') \<le> losses effs"
        using Cons.IH [OF rest] by blast
      then show ?thesis
        using r evs unfolding eq by (intro exI [of _ "evs @ evs'"]) (auto simp: losses_def Eff_unavailable)
    next
      case (Some e)
      then have "handle_effects (eff # effs) st = r"
        by (cases r) (simp add: Eff_unavailable r_def [symmetric] and_then_def)
      then show ?thesis using r evs by (intro exI [of _ evs]) (auto simp: losses_def Eff_unavailable)
    qed
  qed (use Cons.prems Cons.IH [OF rest] in \<open>auto simp: losses_def no_connects_def\<close>)
qed

lemma net_mark_unavailable_shrinks: "net_shrinks nw (snd (net_mark_unavailable i nw))"
proof -
  define ls where "ls = snd (mark_unavailable i ((nw_lines nw)\<lparr>ss_effects := []\<rparr>))"
  have l: "live ls + losses (ss_effects ls) \<le> live (nw_lines nw)" "no_connects (ss_effects ls)"
    using mark_unavailable_live [of i "(nw_lines nw)\<lparr>ss_effects := []\<rparr>"]
    by (auto simp: ls_def live_def losses_def no_connects_def)
  have "snd (net_mark_unavailable i nw) = snd (handle_effects (ss_effects ls) (nw\<lparr>nw_lines := ls\<rparr>))"
    by (auto simp: net_mark_unavailable_def run_lines_def ls_def and_then_def split: prod.splits option.splits)
  then show ?thesis
    using handle_effects_lines [OF l(2), of "nw\<lparr>nw_lines := ls\<rparr>"] l(1) by (auto simp: net_shrinks_def)
qed

lemma lines_send_shrinks: "net_shrinks nw (snd (lines_send i msg nw))"
  by (auto simp: lines_send_def log_net_def net_shrinks_def lost_callbacks_def map_filter_def split: prod.splits option.splits)

lemma lines_send_keeps: "nw_trace (nw\<lparr>nw_control_queue := q\<rparr>) = nw_trace nw" "live (nw_lines (nw\<lparr>nw_control_queue := q\<rparr>)) = live (nw_lines nw)"
  by simp_all

lemma net_shrinks_fields [simp]:
  "net_shrinks a (b\<lparr>nw_control_queue := q\<rparr>) = net_shrinks a b"
  "net_shrinks a (b\<lparr>nw_scheduler := s\<rparr>) = net_shrinks a b"
  "net_shrinks (a\<lparr>nw_control_queue := q\<rparr>) b = net_shrinks a b"
  "net_shrinks (a\<lparr>nw_scheduler := s\<rparr>) b = net_shrinks a b"
  by (simp_all add: net_shrinks_def)

lemma flush_one_control_shrinks: "net_shrinks nw (snd (snd (flush_one_control nw)))"
  using net_mark_unavailable_shrinks [of nw]
  by (auto simp: flush_one_control_def lines_send_def log_net_def net_shrinks_def lost_callbacks_def map_filter_def
      split: list.splits option.splits prod.splits)

lemma flush_controls_shrinks: "net_shrinks nw (snd (flush_controls nw))"
proof (induction nw rule: flush_controls.induct)
  case (1 nw)
  obtain c e nw1 where f: "flush_one_control nw = (c, e, nw1)" by (cases "flush_one_control nw") auto
  have "net_shrinks nw nw1" using flush_one_control_shrinks [of nw] f by simp
  then show ?case
    using "1.IH" [OF f [symmetric]] f
    by (cases c) (auto simp: flush_controls.simps [of nw] intro: net_shrinks_trans)
qed

lemma net_send_shrinks: "net_shrinks nw (snd (snd (net_send msg request nw)))"
proof -
  obtain e nw1 where f: "flush_controls nw = (e, nw1)" by (cases "flush_controls nw") auto
  have "net_shrinks nw nw1" using flush_controls_shrinks [of nw] f by simp
  then show ?thesis
    using net_mark_unavailable_shrinks lines_send_shrinks f
    by (auto simp: net_send_def Let_def split: option.splits prod.splits)
       (metis net_shrinks_trans net_shrinks_fields(4) snd_conv)+
qed

lemma send_control_shrinks: "net_shrinks nw (snd (snd (send_control msg label nw)))"
  using flush_one_control_shrinks [of "nw\<lparr>nw_control_queue := nw_control_queue nw @ [\<lparr>cm_message = msg, cm_log_label = label\<rparr>]\<rparr>"]
  by (auto simp: send_control_def Let_def split: prod.splits option.splits)

lemma net_on_heartbeat_shrinks: "net_shrinks nw (snd (net_on_heartbeat i hb nw))"
  by (auto simp: net_on_heartbeat_def with_scheduler_def split: sum.splits)

lemma mark_stale_shrinks: "net_shrinks nw (snd (mark_stale snaps nw))"
proof (induction snaps arbitrary: nw)
  case (Cons s snaps)
  then show ?case
    using net_mark_unavailable_shrinks [of nw "sn_id s"]
    by (auto simp: and_then_def split: option.splits prod.splits) (metis net_shrinks_trans snd_conv)
qed simp

lemma net_refill_shrinks: "net_shrinks nw (snd (net_refill_ticks n nw))"
proof -
  define nw1 where "nw1 = nw\<lparr>nw_scheduler := refill_ticks n (nw_scheduler nw)\<rparr>"
  have "net_shrinks nw (snd (mark_stale (snapshots (nw_scheduler nw1)) nw1))"
    using mark_stale_shrinks [of nw1] by (simp add: nw1_def)
  then show ?thesis
    using flush_controls_shrinks
    by (auto simp: net_refill_ticks_def Let_def nw1_def [symmetric] and_then_def split: option.splits prod.splits)
       (metis net_shrinks_trans snd_conv)
qed

lemma net_stop_shrinks: "net_shrinks nw (net_stop nw)"
  by (simp add: net_shrinks_def net_stop_def stop_reconnects_def live_def lost_callbacks_def map_filter_def comp_def)

lemmas net_op_shrinks =
  net_mark_unavailable_shrinks net_send_shrinks send_control_shrinks net_on_heartbeat_shrinks net_refill_shrinks

section \<open>What a handler may change\<close>

text \<open>What names a task and a stream, and does not change while it is sent.\<close>

definition task_identity :: "T_FileSendTask \<Rightarrow> u64 \<times> u64 \<times> u64 \<times> string \<times> u64" where
  "task_identity t = (tk_stream_id t, tk_seq t, tk_file_id t, tk_name t, tk_source_size t)"

definition stream_identity :: "T_StreamSendState \<Rightarrow> u64 \<times> T_Manifest1Stream \<times> (u64 \<times> u64 \<times> u64 \<times> string \<times> u64) list" where
  "stream_identity s = (st_stream_id s, st_source_manifest s, map task_identity (st_tasks s))"

definition stream_sane :: "T_StreamSendState \<Rightarrow> bool" where
  "stream_sane s \<longleftrightarrow> st_current_task s \<le> length (st_tasks s) \<and> (st_complete s \<longrightarrow> st_current_task s = length (st_tasks s)) \<and>
     list_all (\<lambda>t. resend_ok (tk_chunk_resend t)) (st_tasks s)"

definition app_sane :: "SenderApp \<Rightarrow> bool" where
  "app_sane app \<longleftrightarrow>
     sa_manifest_recovery_attempts app \<le> no_max_manifest_recovery_attempts (sa_options app) \<and>
     (sa_failed app \<longrightarrow> sa_loop_stopped app) \<and> (sa_done app \<longrightarrow> list_all st_complete (sa_streams app)) \<and>
     list_all stream_sane (sa_streams app)"

definition conn :: "SenderApp \<Rightarrow> nat" where
  "conn app = live (nw_lines (sa_network app))"

definition evolves :: "SenderApp \<Rightarrow> SenderApp \<Rightarrow> bool" where
  "evolves app app' \<longleftrightarrow>
     conn app' \<le> conn app \<and> sa_options app' = sa_options app \<and> sa_current_tick app' = sa_current_tick app \<and>
     map stream_identity (sa_streams app') = map stream_identity (sa_streams app) \<and>
     (app_sane app \<longrightarrow> sa_manifest_recovery_attempts app \<le> sa_manifest_recovery_attempts app' \<and>
        map st_current_task (sa_streams app') = map st_current_task (sa_streams app)) \<and>
     (sa_failed app \<longrightarrow> sa_failed app') \<and> (app_sane app \<longrightarrow> app_sane app')"

lemma evolves_refl [simp, intro]: "evolves app app"
  by (simp add: evolves_def)

lemma evolves_trans [trans]: "evolves a b \<Longrightarrow> evolves b c \<Longrightarrow> evolves a c"
  by (auto simp: evolves_def)

lemma evolves_fields [simp]:
  "evolves a (b\<lparr>sa_send_buffer := x1\<rparr>) = evolves a b" "evolves (a\<lparr>sa_send_buffer := x1\<rparr>) b = evolves a b"
  "evolves a (b\<lparr>sa_rto := x2\<rparr>) = evolves a b" "evolves (a\<lparr>sa_rto := x2\<rparr>) b = evolves a b"
  "evolves a (b\<lparr>sa_next_manifest_id := x3\<rparr>) = evolves a b" "evolves (a\<lparr>sa_next_manifest_id := x3\<rparr>) b = evolves a b"
  "evolves a (b\<lparr>sa_dropped_line_once := x4\<rparr>) = evolves a b" "evolves (a\<lparr>sa_dropped_line_once := x4\<rparr>) b = evolves a b"
  "evolves a (b\<lparr>sa_rescan_scheduled := x5\<rparr>) = evolves a b" "evolves (a\<lparr>sa_rescan_scheduled := x5\<rparr>) b = evolves a b"
  "evolves a (b\<lparr>sa_rescan_pending := x6\<rparr>) = evolves a b" "evolves (a\<lparr>sa_rescan_pending := x6\<rparr>) b = evolves a b"
  by (simp_all add: evolves_def app_sane_def conn_def)

lemma app_then_evolves:
  assumes "evolves app (snd r)" and "\<And>x app1. r = (Inr x, app1) \<Longrightarrow> evolves app app1 \<Longrightarrow> evolves app1 (snd (f x app1))"
  shows "evolves app (snd (app_then r f))"
  using assms by (cases r; cases "fst r") (auto simp: app_then_def intro: evolves_trans)

lemma snd_app_then_ok: "snd (app_then r (\<lambda>_. app_ok)) = snd r"
  by (cases r; cases "fst r") (auto simp: app_then_def app_ok_def)

lemma app_ok_snd [simp]: "snd (app_ok app) = app"
  by (simp add: app_ok_def)

section \<open>Changing a stream or a task\<close>

lemma list_all_update_at:
  "list_all P xs \<Longrightarrow> (i < length xs \<Longrightarrow> P (xs ! i) \<Longrightarrow> P y) \<Longrightarrow> list_all P (xs[i := y])"
  by (cases "i < length xs") (auto simp: list_all_length nth_list_update)

lemma map_update_same: "(i < length xs \<Longrightarrow> g y = g (xs ! i)) \<Longrightarrow> map g (xs[i := y]) = map g xs"
  by (cases "i < length xs") (simp_all add: map_update list_update_same_conv list_update_beyond)

lemma modify_stream_evolves:
  assumes "stream_identity (f (stream_at app i)) = stream_identity (stream_at app i)"
    and "stream_sane (stream_at app i) \<Longrightarrow> stream_sane (f (stream_at app i))"
    and "st_complete (stream_at app i) \<Longrightarrow> st_complete (f (stream_at app i))"
    and "st_current_task (f (stream_at app i)) = st_current_task (stream_at app i)"
  shows "evolves app (modify_stream i f app)"
  using assms
  by (auto simp: evolves_def modify_stream_def conn_def app_sane_def map_update_same intro!: list_all_update_at)

lemma complete_evolves:
  assumes "active_index (stream_at app i) = None"
  shows "evolves app (modify_stream i (\<lambda>s. s\<lparr>st_complete := True\<rparr>) app)"
  using assms
  by (intro modify_stream_evolves) (auto simp: stream_identity_def stream_sane_def active_index_def split: if_splits)

lemma modify_task_evolves:
  assumes "task_identity (f (task_at app i k)) = task_identity (task_at app i k)"
    and "resend_ok (tk_chunk_resend (task_at app i k)) \<Longrightarrow> resend_ok (tk_chunk_resend (f (task_at app i k)))"
  shows "evolves app (modify_task i k f app)"
  unfolding modify_task_def
  using assms
  by (intro modify_stream_evolves) (auto simp: stream_identity_def stream_sane_def map_update_same intro!: list_all_update_at)

lemma update_append_evolves: "evolves app (update_append i k f app)"
  unfolding update_append_def by (rule modify_task_evolves) (simp_all add: task_identity_def)

lemma resend_ok_mark [simp]: "resend_ok s \<Longrightarrow> resend_ok (snd (mark_chunk_sent s i l t))"
  by (simp add: mark_chunk_sent_ok)

lemma fail_and_stop_evolves: "evolves app (fail_and_stop app)"
  by (simp add: evolves_def fail_and_stop_def conn_def app_sane_def)

lemma final_fail_evolves: "evolves app (final_fail app)"
  using net_stop_shrinks [of "sa_network app"]
  by (auto simp: evolves_def final_fail_def conn_def app_sane_def net_shrinks_def)

lemma request_rescan_evolves: "evolves app (request_rescan app)"
  by (simp add: request_rescan_def)

lemma check_all_done_evolves: "evolves app (check_all_done app)"
proof -
  have live: "live (nw_lines (net_stop nw)) \<le> live (nw_lines nw)" for nw
    using net_stop_shrinks [of nw] by (auto simp: net_shrinks_def)
  have "evolves app (app\<lparr>sa_done := True, sa_network := net_stop (sa_network app), sa_loop_stopped := True\<rparr>)"
    "evolves app (app\<lparr>sa_done := True, sa_streams := map (\<lambda>s. s\<lparr>st_has_pending_changes := False\<rparr>) (sa_streams app)\<rparr>)"
    if "list_all st_complete (sa_streams app)"
    using that live
    by (auto simp: evolves_def conn_def app_sane_def stream_identity_def comp_def list.pred_map stream_sane_def list.pred_set)
  then show ?thesis
    by (auto simp: check_all_done_def Let_def request_rescan_def)
qed

lemma mark_task_retransmitted_evolves: "evolves app (mark_task_retransmitted request line_id app)"
proof -
  have "evolves app (modify_task i k (mark_retransmitted_task kind request line_id tick) app)" for i k kind tick
    by (rule modify_task_evolves) (auto simp: mark_retransmitted_task_def task_identity_def split: EM_SendKind.splits)
  then show ?thesis
    by (auto simp: mark_task_retransmitted_def Let_def split: option.splits)
qed

lemma drop_queued_evolves [simp]: "evolves a (drop_queued b) = evolves a b" "evolves (drop_queued a) b = evolves a b"
  by (simp_all add: drop_queued_def)

lemma reset_stream_sane: "stream_sane s \<Longrightarrow> stream_sane (reset_stream_for_manifest_recovery s)"
  by (auto simp: stream_sane_def reset_stream_for_manifest_recovery_def reset_task_for_manifest_recovery_def list.pred_map
      list.pred_set reset_ok)

lemma reset_stream_current: "stream_sane s \<Longrightarrow> st_current_task (reset_stream_for_manifest_recovery s) = st_current_task s"
  by (simp add: stream_sane_def reset_stream_for_manifest_recovery_def)

lemma reset_stream_identity: "stream_identity (reset_stream_for_manifest_recovery s) = stream_identity s"
  by (simp add: stream_identity_def reset_stream_for_manifest_recovery_def reset_task_for_manifest_recovery_def
      task_identity_def comp_def)

section \<open>Handlers under a callback that keeps its contract\<close>

text \<open>The contract between the application and the network: the handler of lost sends, which the
  network calls in the middle of an operation, opens no connection and changes only what any other
  handler may change. The operations are proved against this contract.\<close>

locale lost_handler =
  fixes env :: app_env
  assumes lost_evolves: "evolves app (snd (ev_lost env lost app))"
begin

lemma run_callbacks_evolves: "evolves app (snd (run_callbacks env lost app))"
  by (induction lost arbitrary: app) (auto intro: app_then_evolves lost_evolves)

lemma on_net_cases:
  assumes "\<And>nw. net_shrinks nw (snd (snd (f nw)))"
  shows "evolves app (snd (on_net env f app)) \<and>
    (conn (snd (on_net env f app)) < conn app \<or> snd (on_net env f app) = app\<lparr>sa_network := snd (snd (f (sa_network app)))\<rparr>)"
proof -
  obtain x e nw where f: "f (sa_network app) = (x, e, nw)" by (cases "f (sa_network app)") auto
  obtain evs where evs: "nw_trace nw = nw_trace (sa_network app) @ evs"
      "live (nw_lines nw) + length (lost_callbacks evs) \<le> live (nw_lines (sa_network app))"
    using assms [of "sa_network app"] f by (auto simp: net_shrinks_def)
  define r where "r = run_callbacks env (lost_callbacks evs) (app\<lparr>sa_network := nw\<rparr>)"
  have snd: "snd (on_net env f app) = snd r"
    by (cases r; cases "fst r") (auto simp: on_net_def f evs(1) app_then_def r_def [symmetric])
  have start: "evolves app (app\<lparr>sa_network := nw\<rparr>)" using evs(2) by (simp add: evolves_def conn_def app_sane_def)
  have more: "evolves (app\<lparr>sa_network := nw\<rparr>) (snd r)" unfolding r_def by (rule run_callbacks_evolves)
  show ?thesis
  proof (cases "lost_callbacks evs")
    case Nil
    then show ?thesis using start by (simp add: snd r_def f)
  next
    case (Cons l ls)
    then have "conn (app\<lparr>sa_network := nw\<rparr>) < conn app" using evs(2) by (simp add: conn_def)
    then show ?thesis using more start by (auto simp: snd evolves_def intro: evolves_trans)
  qed
qed

lemmas on_net_evolves = on_net_cases [THEN conjunct1]

lemma send_buffered_evolves: "evolves app (snd (send_buffered env message request app))"
  unfolding send_buffered_def
  by (rule app_then_evolves) (auto intro: on_net_evolves net_send_shrinks)

lemma send_manifest1_evolves: "evolves app (snd (send_manifest1 env app))"
proof (cases "sa_streams app = []")
  case False
  define app1 where "app1 = app\<lparr>sa_next_manifest_id := sa_next_manifest_id app + 1\<rparr>"
  have "evolves app app1" by (simp add: app1_def)
  moreover have "evolves app1 (snd (app_then (on_net env (send_control m l) app1) (\<lambda>_. app_ok)))" for m l
    by (rule app_then_evolves) (auto intro: on_net_evolves send_control_shrinks)
  ultimately show ?thesis
    using False by (auto simp: send_manifest1_def Let_def app1_def [symmetric] intro: evolves_trans)
qed (simp add: send_manifest1_def)

lemma recover_start_evolves:
  assumes "sa_manifest_recovery_attempts app < no_max_manifest_recovery_attempts (sa_options app)"
  shows "evolves app (app\<lparr>sa_manifest_recovery_attempts := sa_manifest_recovery_attempts app + 1,
    sa_send_buffer := buf, sa_streams := map reset_stream_for_manifest_recovery (sa_streams app), sa_done := False\<rparr>)"
proof -
  have "unat (sa_manifest_recovery_attempts app + 1) = unat (sa_manifest_recovery_attempts app) + 1"
    using assms unat_u64_lt [of "no_max_manifest_recovery_attempts (sa_options app)"]
    by (simp add: unat_word_ariths(1) word_less_nat_alt)
  then have "sa_manifest_recovery_attempts app \<le> sa_manifest_recovery_attempts app + 1 \<and>
      sa_manifest_recovery_attempts app + 1 \<le> no_max_manifest_recovery_attempts (sa_options app)"
    using assms by (simp add: word_le_nat_alt word_less_nat_alt)
  then show ?thesis
    by (auto simp: evolves_def conn_def app_sane_def comp_def reset_stream_identity list.pred_map list.pred_set
        reset_stream_sane reset_stream_current)
qed

lemma recover_counts:
  assumes "app_sane app" "\<not> sa_failed app"
    and "sa_manifest_recovery_attempts app < no_max_manifest_recovery_attempts (sa_options app)"
  shows "sa_manifest_recovery_attempts app < sa_manifest_recovery_attempts (snd (recover_with_manifest1 env app))"
proof -
  define app1 where "app1 = app\<lparr>sa_manifest_recovery_attempts := sa_manifest_recovery_attempts app + 1,
    sa_send_buffer := buffer_clear (sa_send_buffer app), sa_streams := map reset_stream_for_manifest_recovery (sa_streams app),
    sa_done := False\<rparr>"
  have "app_sane app1" using recover_start_evolves [OF assms(3)] assms(1) by (simp add: evolves_def app1_def)
  then have "sa_manifest_recovery_attempts app + 1 \<le> sa_manifest_recovery_attempts (snd (send_manifest1 env app1))"
    using send_manifest1_evolves [of app1] by (simp add: evolves_def app1_def)
  moreover have "sa_manifest_recovery_attempts app < sa_manifest_recovery_attempts app + 1"
    using assms(3) unat_u64_lt [of "no_max_manifest_recovery_attempts (sa_options app)"]
    by (simp add: unat_word_ariths(1) word_less_nat_alt)
  moreover have "snd (recover_with_manifest1 env app) = snd (send_manifest1 env app1)"
    using assms(2,3) by (cases "send_manifest1 env app1"; cases "fst (send_manifest1 env app1)")
      (auto simp: recover_with_manifest1_def app1_def app_then_def not_le)
  ultimately show ?thesis by simp
qed

lemma recover_evolves: "evolves app (snd (recover_with_manifest1 env app))"
proof (cases "sa_failed app \<or> sa_manifest_recovery_attempts app \<ge> no_max_manifest_recovery_attempts (sa_options app)")
  case True
  then show ?thesis by (auto simp: recover_with_manifest1_def final_fail_evolves)
next
  case False
  then show ?thesis
    unfolding recover_with_manifest1_def
    by (auto simp: not_le intro!: app_then_evolves intro: evolves_trans [OF recover_start_evolves send_manifest1_evolves])
qed

lemma send_file_begin_evolves: "evolves app (snd (send_file_begin env i k app))"
  unfolding send_file_begin_def Let_def
  by (auto intro!: app_then_evolves send_buffered_evolves modify_task_evolves simp: task_identity_def)

lemma try_send_evolves: "evolves app (snd (try_send_buffered_kind env message kind seq off eoff sid fid app))"
  unfolding try_send_buffered_kind_def by (rule app_then_evolves) (auto intro: send_buffered_evolves)

lemma send_append_create_evolves: "evolves app (snd (send_append_create env i k app))"
  unfolding send_append_create_def Let_def
  by (auto intro!: app_then_evolves try_send_evolves intro: update_append_evolves split: option.splits)

lemma send_append_data_evolves: "evolves app (snd (send_append_data env i k app))"
  unfolding send_append_data_def Let_def
  by (auto intro!: app_then_evolves try_send_evolves intro: update_append_evolves split: option.splits sum.splits)

lemma send_append_evolves: "evolves app (snd (send_append_if_possible env i k app))"
  by (simp add: send_append_if_possible_def Let_def send_append_create_evolves send_append_data_evolves)

lemma apply_append_plan_evolves: "evolves app (snd (apply_append_plan env i k diff app))"
  by (auto simp: apply_append_plan_def Let_def fail_and_stop_evolves intro: evolves_trans [OF update_append_evolves send_append_evolves])

lemma send_commit_evolves: "evolves app (snd (send_commit_if_possible env i k app))"
  unfolding send_commit_if_possible_def Let_def
  by (auto intro!: app_then_evolves send_buffered_evolves modify_task_evolves simp: task_identity_def)

lemma maybe_drop_evolves: "evolves app (snd (maybe_drop_line_once env line_id app))"
  using on_net_evolves [of "\<lambda>nw. ((), net_mark_unavailable (no_drop_line_once (sa_options app)) nw)" "app\<lparr>sa_dropped_line_once := True\<rparr>"]
  by (simp add: maybe_drop_line_once_def net_mark_unavailable_shrinks)

lemma chunk_sent_evolves: "evolves app (snd (maybe_drop_line_once env line_id (modify_task i k
    (\<lambda>t. t\<lparr>tk_chunk_resend := snd (mark_chunk_sent (tk_chunk_resend t) c line_id tick)\<rparr>) app)))"
  by (rule evolves_trans [OF modify_task_evolves maybe_drop_evolves]) (auto simp: task_identity_def)

lemma send_chunk_evolves: "evolves app (snd (send_chunk env i k c app))"
  unfolding send_chunk_def Let_def
  by (auto intro!: app_then_evolves send_buffered_evolves recover_evolves
      intro: chunk_sent_evolves split: sum.splits)

lemma chunk_loop_evolves: "evolves app (snd (chunk_loop env n i k app))"
  by (induction n arbitrary: app) (auto intro!: app_then_evolves send_chunk_evolves split: option.splits)

lemma schedule_chunk_work_evolves: "evolves app (snd (schedule_chunk_work env i k app))"
  unfolding schedule_chunk_work_def
  by (auto intro!: app_then_evolves chunk_loop_evolves send_file_begin_evolves send_commit_evolves)

lemma retransmit_loop_evolves: "evolves app (snd (retransmit_loop env n app))"
proof (induction n arbitrary: app)
  case (Suc n)
  have next_round: "evolves app (snd (retransmit_loop env n (drop_queued (mark_task_retransmitted r l (app\<lparr>sa_send_buffer := b\<rparr>)))))"
    for app r l b
  proof -
    define marked where "marked = mark_task_retransmitted r l (app\<lparr>sa_send_buffer := b\<rparr>)"
    have "evolves app marked" using mark_task_retransmitted_evolves [of "app\<lparr>sa_send_buffer := b\<rparr>"] by (simp add: marked_def)
    also have "evolves marked (snd (retransmit_loop env n (drop_queued marked)))" using Suc.IH [of "drop_queued marked"] by simp
    finally show ?thesis by (simp add: marked_def)
  qed
  show ?case
    using Suc.IH [of "drop_queued app"] recover_evolves [of "drop_queued app"]
    by (auto intro!: app_then_evolves on_net_evolves net_send_shrinks next_round split: list.splits option.splits)
qed simp

lemma flush_retransmits_evolves: "evolves app (snd (flush_retransmits env app))"
  by (simp add: flush_retransmits_def retransmit_loop_evolves)

lemma enqueue_expired_evolves: "evolves app (snd (enqueue_expired env keys app))"
proof (induction keys arbitrary: app)
  case (Cons key keys)
  have "evolves app (snd (enqueue_expired env keys (app\<lparr>sa_send_buffer := b\<rparr>)))" for b
    using Cons.IH [of "app\<lparr>sa_send_buffer := b\<rparr>"] by simp
  then show ?case using Cons.IH recover_evolves by (simp split: option.splits)
qed simp

lemma enqueue_rto_evolves: "evolves app (snd (enqueue_rto_retransmits env app))"
  by (simp add: enqueue_rto_retransmits_def enqueue_expired_evolves)

lemma stream_work_evolves: "evolves app (snd (stream_work env i app))"
  by (auto simp: stream_work_def Let_def send_append_evolves schedule_chunk_work_evolves complete_evolves split: option.splits)

lemma streams_work_evolves: "evolves app (snd (streams_work env is app))"
  by (induction "is" arbitrary: app) (auto intro!: app_then_evolves stream_work_evolves)

lemma schedule_work_evolves: "evolves app (snd (schedule_work env app))"
  unfolding schedule_work_def
  by (auto intro!: app_then_evolves enqueue_rto_evolves flush_retransmits_evolves streams_work_evolves check_all_done_evolves)

end

section \<open>The handler of lost sends keeps the contract\<close>

lemma lost_send_task_evolves: "evolves app (snd (lost_send_task lost i k app))"
proof -
  have "evolves app (modify_stream i (\<lambda>s. s\<lparr>st_manifest_applied := False\<rparr>) (update_append i k reset_append_inflight app))"
    by (rule evolves_trans [OF update_append_evolves modify_stream_evolves]) (simp_all add: stream_identity_def stream_sane_def)
  then show ?thesis
    using mark_chunk_lost_ok [of "tk_chunk_resend (task_at app i k)" "ls_chunk_index lost"]
    by (auto simp: lost_send_task_def Let_def task_identity_def split: prod.splits intro!: modify_task_evolves)
qed

lemma lost_send_evolves: "evolves app (snd (lost_send lost app))"
  by (auto simp: lost_send_def Let_def lost_send_task_evolves split: option.splits prod.splits bool.splits)

lemma lost_sends_evolves: "evolves app (snd (lost_sends lost changed app))"
proof (induction lost arbitrary: changed app)
  case (Cons l ls)
  then show ?case
    using lost_send_evolves [of app l] by (auto split: prod.splits) (metis evolves_trans snd_conv)
qed simp

context lost_handler
begin

lemma on_lost_sends_evolves: "evolves app (snd (on_lost_sends env lost app))"
  using lost_sends_evolves [of app lost False]
  by (auto simp: on_lost_sends_def split: prod.splits intro: evolves_trans schedule_work_evolves)

end

lemma lost_callback_evolves: "evolves app (snd (lost_callback sys fs rounds depth lost app))"
proof (induction depth arbitrary: lost app)
  case (Suc depth)
  then have "lost_handler \<lparr>ev_sys = sys, ev_fs = fs, ev_rounds = rounds, ev_lost = lost_callback sys fs rounds depth\<rparr>"
    by unfold_locales simp
  then show ?case by (simp add: lost_handler.on_lost_sends_evolves)
qed simp

interpretation sender: lost_handler "app_environment sys fs rounds depth"
  by unfold_locales (simp add: app_environment_def lost_callback_evolves)

section \<open>Events\<close>

text \<open>What the event loop delivers to the application.\<close>

datatype app_event =
    On_connected LineId
  | On_message LineId T_Message
  | On_lost "T_LostSend list"
  | On_tick
  | On_rescan_timer
  | On_watch_poll "T_WatchEvent list list"
  | On_timeout

definition app_handle :: "app_env \<Rightarrow> app_event \<Rightarrow> SenderApp \<Rightarrow> unit step" where
  "app_handle env ev app =
     (case ev of
        On_connected line_id \<Rightarrow> on_connected env line_id app
      | On_message line_id message \<Rightarrow> sender_on_message env line_id message app
      | On_lost lost \<Rightarrow> on_lost_sends env lost app
      | On_tick \<Rightarrow> app_tick env app
      | On_rescan_timer \<Rightarrow> rescan_timer env app
      | On_watch_poll polled \<Rightarrow> app_ok (watch_poll_tick polled app)
      | On_timeout \<Rightarrow> app_ok (timeout_30s app))"

text \<open>What every handler keeps, those that finish a file and so forget earlier recoveries included.\<close>

definition keeps :: "SenderApp \<Rightarrow> SenderApp \<Rightarrow> bool" where
  "keeps app app' \<longleftrightarrow>
     conn app' \<le> conn app \<and> sa_options app' = sa_options app \<and>
     map stream_identity (sa_streams app') = map stream_identity (sa_streams app) \<and>
     (sa_failed app \<longrightarrow> sa_failed app') \<and> (app_sane app \<longrightarrow> app_sane app')"

lemma evolves_keeps: "evolves a b \<Longrightarrow> keeps a b"
  by (simp add: evolves_def keeps_def)

lemma keeps_refl [simp, intro]: "keeps app app"
  by (simp add: keeps_def)

lemma keeps_trans [trans]: "keeps a b \<Longrightarrow> keeps b c \<Longrightarrow> keeps a c"
  by (auto simp: keeps_def)

lemma keeps_evolves_trans: "keeps a b \<Longrightarrow> evolves b c \<Longrightarrow> keeps a c"
  by (rule keeps_trans [OF _ evolves_keeps])

lemma evolves_keeps_trans: "evolves a b \<Longrightarrow> keeps b c \<Longrightarrow> keeps a c"
  by (rule keeps_trans [OF evolves_keeps])

lemma app_then_keeps:
  assumes "keeps app (snd r)" and "\<And>x app1. r = (Inr x, app1) \<Longrightarrow> keeps app app1 \<Longrightarrow> keeps app1 (snd (f x app1))"
  shows "keeps app (snd (app_then r f))"
  using assms by (cases r; cases "fst r") (auto simp: app_then_def intro: keeps_trans)

lemma observe_evolves [simp]:
  "evolves a (observe_ack_sample s b) = evolves a b" "evolves a (observe_ack_samples ss b) = evolves a b"
proof -
  show one: "evolves a (observe_ack_sample s b) = evolves a b" for s b by (simp add: observe_ack_sample_def)
  show "evolves a (observe_ack_samples ss b) = evolves a b"
    unfolding observe_ack_samples_def by (induction ss arbitrary: b) (simp_all add: one)
qed

lemma erase_evolves [simp]:
  "evolves a (erase_completed_buffered hb b) = evolves a b"
  "evolves a (erase_file_begin_buffered sid fid sq b) = evolves a b"
  "evolves a (erase_chunk_buffered c sid b) = evolves a b"
  by (auto simp: erase_completed_buffered_def erase_file_begin_buffered_def erase_chunk_buffered_def observe_erased_def
      split: prod.splits option.splits)

lemma acknowledge_received_evolves: "evolves app (acknowledge_received i k sid received app)"
  using acknowledge_chunk_ok [of "tk_chunk_resend (task_at app i k)" "rc_chunk_index received"]
  by (auto simp: acknowledge_received_def Let_def task_identity_def split: prod.splits bool.splits intro!: modify_task_evolves)

lemma acknowledge_all_evolves: "evolves app (fold (acknowledge_received i k sid) received app)"
  by (induction received arbitrary: app) (auto intro: evolves_trans acknowledge_received_evolves)

lemma find_index_less: "find_index P xs = Some i \<Longrightarrow> i < length xs"
  by (induction xs arbitrary: i) (auto split: if_splits)

lemma modify_stream_keeps:
  assumes "stream_identity (f (stream_at app i)) = stream_identity (stream_at app i)"
    and "stream_sane (stream_at app i) \<Longrightarrow> stream_sane (f (stream_at app i))"
    and "st_complete (stream_at app i) \<Longrightarrow> st_complete (f (stream_at app i))"
  shows "keeps app (modify_stream i f app)"
  using assms
  by (auto simp: keeps_def modify_stream_def conn_def app_sane_def map_update_same intro!: list_all_update_at)

lemma apply_manifest2_keeps:
  assumes "apply_manifest2_to_stream manifest2 (stream_at app i) = (r, stream1)"
  shows "keeps app (modify_stream i (\<lambda>_. stream1) app)"
proof -
  define s where "s = stream_at app i"
  have "stream_identity stream1 = stream_identity s \<and> (stream_sane s \<longrightarrow> stream_sane stream1) \<and> (st_complete s \<longrightarrow> st_complete stream1)"
  proof (cases "st_manifest_applied s \<or> st_complete s")
    case True
    then show ?thesis using assms by (simp add: apply_manifest2_to_stream_def s_def)
  next
    case False
    then show ?thesis
      using assms unfolding s_def [symmetric] apply_manifest2_to_stream_def
      by (auto simp: Let_def stream_identity_def stream_sane_def active_task_def task_identity_def map_update_same list.pred_set
          dest: find_index_less split: option.splits if_splits dest!: set_update_subset_insert [THEN subsetD])
  qed
  then show ?thesis by (intro modify_stream_keeps) (simp_all add: s_def)
qed

text \<open>The part of a task that acknowledgements and hints leave alone.\<close>

definition task_view :: "T_FileSendTask \<Rightarrow> bool \<times> bool \<times> u64 \<times> u64 \<times> EM_EntryKind \<times> u64" where
  "task_view t = (tk_chunk_mode t, tk_commit_sent t, tk_seq t, tk_file_id t, tk_kind t, tk_source_size t)"

definition views :: "SenderApp \<Rightarrow> (bool \<times> bool \<times> u64 \<times> u64 \<times> EM_EntryKind \<times> u64) list list" where
  "views app = map (\<lambda>s. map task_view (st_tasks s)) (sa_streams app)"

lemma modify_task_views: "task_view (f (task_at app i k)) = task_view (task_at app i k) \<Longrightarrow> views (modify_task i k f app) = views app"
  by (simp add: views_def modify_task_def modify_stream_def map_update_same)

lemma views_fields [simp]: "views (app\<lparr>sa_send_buffer := b\<rparr>) = views app" "views (app\<lparr>sa_rto := r\<rparr>) = views app"
  by (simp_all add: views_def)

lemma views_observe [simp]: "views (observe_erased r app) = views app"
  by (auto simp: observe_erased_def observe_ack_sample_def split: prod.splits option.splits)

lemma update_append_views: "views (update_append i k f app) = views app"
  unfolding update_append_def by (rule modify_task_views) (simp add: task_view_def)

lemma acknowledge_views: "views (fold (acknowledge_received i k sid) received app) = views app"
proof (induction received arbitrary: app)
  case (Cons c cs)
  have "views (acknowledge_received i k sid c app) = views app"
    by (auto simp: acknowledge_received_def Let_def erase_chunk_buffered_def task_view_def
        split: prod.splits bool.splits intro!: modify_task_views)
  then show ?case using Cons.IH by simp
qed simp

lemma views_task:
  assumes "views app' = views app" "i < length (sa_streams app)" "k < length (st_tasks (stream_at app i))"
  shows "task_view (task_at app' i k) = task_view (task_at app i k)"
proof -
  have l: "length (sa_streams app') = length (sa_streams app)" using assms(1) by (metis length_map views_def)
  have m: "map task_view (st_tasks (stream_at app' i)) = map task_view (st_tasks (stream_at app i))"
    using arg_cong [OF assms(1), of "\<lambda>v. v ! i"] assms(2) l by (simp add: views_def)
  then have "length (st_tasks (stream_at app' i)) = length (st_tasks (stream_at app i))" by (metis length_map)
  then show ?thesis using arg_cong [OF m, of "\<lambda>v. v ! k"] assms(3) by simp
qed

text \<open>What a heartbeat changes in a task in chunk mode before the next work is scheduled.\<close>

lemma chunk_heartbeat_start:
  obtains app3 where "evolves app app3" and "views app3 = views app"
    and "\<And>env. chunk_heartbeat_received env i k heartbeat app =
      (if tk_commit_sent (task_at app3 i k) \<and> hb_next_seq heartbeat > tk_seq (task_at app3 i k)
       then advance_stream_task env i app3 else schedule_work env app3)"
proof -
  define app1 where "app1 = (if tk_begin_sent (task_at app i k) \<and> \<not> tk_begin_ready (task_at app i k) \<and>
      hb_file_id heartbeat = tk_file_id (task_at app i k) \<and> hb_received_chunks heartbeat = []
    then erase_file_begin_buffered (tk_stream_id (task_at app i k)) (tk_file_id (task_at app i k)) (tk_seq (task_at app i k))
      (modify_task i k (\<lambda>t. t\<lparr>tk_begin_ready := True\<rparr>) app) else app)"
  define app2 where "app2 = fold (acknowledge_received i k (hb_stream_id heartbeat)) (hb_received_chunks heartbeat) app1"
  define app3 where "app3 = modify_task i k (\<lambda>t. t\<lparr>tk_chunk_resend :=
      snd (apply_missing_hints (tk_chunk_resend t) (tk_seq t) (tk_file_id t) (hb_missing_ranges heartbeat))\<rparr>) app2"
  have "evolves app app1" by (auto simp: app1_def task_identity_def intro!: modify_task_evolves)
  also have "evolves app1 app2" unfolding app2_def by (rule acknowledge_all_evolves)
  also have "evolves app2 app3" unfolding app3_def
    by (rule modify_task_evolves) (simp_all add: task_identity_def apply_missing_hints_ok)
  finally have e: "evolves app app3" .
  have "views app1 = views app"
    by (auto simp: app1_def erase_file_begin_buffered_def task_view_def intro!: modify_task_views)
  then have v: "views app3 = views app"
    by (simp add: app3_def app2_def modify_task_views task_view_def acknowledge_views)
  show ?thesis
    by (rule that [OF e v])
       (simp only: chunk_heartbeat_received_def Let_def app1_def [symmetric] app2_def [symmetric] app3_def [symmetric])
qed

text \<open>The first step of \<open>advance_stream_task\<close>.\<close>

definition next_position :: "nat \<Rightarrow> SenderApp \<Rightarrow> SenderApp" where
  "next_position i app = modify_stream i (\<lambda>s. if st_current_task s < length (st_tasks s)
     then s\<lparr>st_current_task := st_current_task s + 1\<rparr> else s) (app\<lparr>sa_manifest_recovery_attempts := 0\<rparr>)"

lemma next_position_keeps: "keeps app (next_position i app)"
proof -
  have "keeps app (app\<lparr>sa_manifest_recovery_attempts := 0\<rparr>)" by (simp add: keeps_def conn_def app_sane_def)
  also have "keeps (app\<lparr>sa_manifest_recovery_attempts := 0\<rparr>) (next_position i app)"
    unfolding next_position_def by (rule modify_stream_keeps) (auto simp: stream_identity_def stream_sane_def)
  finally show ?thesis .
qed

context lost_handler
begin

lemma send_append_keeps: "keeps app (snd (send_append_if_possible env i k app))"
  by (rule evolves_keeps [OF send_append_evolves])

lemma advance_rest: "evolves (next_position i app) (snd (advance_stream_task env i app))"
  unfolding advance_stream_task_def Let_def next_position_def [symmetric]
  by (auto intro: evolves_trans [OF complete_evolves] check_all_done_evolves apply_append_plan_evolves
      intro!: app_then_evolves send_file_begin_evolves schedule_work_evolves split: option.splits)

lemma advance_keeps: "keeps app (snd (advance_stream_task env i app))"
  by (rule keeps_evolves_trans [OF next_position_keeps advance_rest])

lemma on_connected_evolves: "evolves app (snd (on_connected env line_id app))"
  by (auto simp: on_connected_def intro!: app_then_evolves send_manifest1_evolves schedule_work_evolves)

lemma apply_manifest2_stream_keeps: "keeps app (snd (apply_manifest2_stream env manifest2 i app))"
proof -
  obtain r stream1 where a: "apply_manifest2_to_stream manifest2 (stream_at app i) = (r, stream1)" by fastforce
  define app1 where "app1 = modify_stream i (\<lambda>_. stream1) app"
  have s: "keeps app app1" unfolding app1_def by (rule apply_manifest2_keeps [OF a])
  have "keeps app (check_all_done (modify_stream i (\<lambda>s. s\<lparr>st_complete := True\<rparr>) app1))" if "active_index (stream_at app1 i) = None"
    by (rule keeps_evolves_trans [OF s evolves_trans [OF complete_evolves [OF that] check_all_done_evolves]])
  then show ?thesis
    using keeps_evolves_trans [OF s fail_and_stop_evolves] keeps_evolves_trans [OF s check_all_done_evolves]
      keeps_evolves_trans [OF s send_file_begin_evolves] keeps_evolves_trans [OF s apply_append_plan_evolves] s
    by (auto simp: apply_manifest2_stream_def a app1_def [symmetric] Let_def split: sum.splits option.splits)
qed

lemma apply_manifest2_streams_keeps: "keeps app (snd (apply_manifest2_streams env manifest2 is app))"
  by (induction "is" arbitrary: app) (auto intro!: app_then_keeps apply_manifest2_stream_keeps)

lemma on_manifest2_keeps: "keeps app (snd (on_manifest2 env manifest2 app))"
  unfolding on_manifest2_def
  by (auto intro!: app_then_keeps apply_manifest2_streams_keeps evolves_keeps [OF schedule_work_evolves])

lemma append_heartbeat_keeps: "keeps app (snd (append_heartbeat env i k heartbeat app))"
proof -
  define app1 where "app1 = (if hb_file_id heartbeat = tk_file_id (task_at app i k)
    then update_append i k (\<lambda>a. snd (mark_append_create_ready_from_heartbeat a heartbeat)) app else app)"
  define app2 where "app2 = (if hb_file_id heartbeat = tk_file_id (task_at app i k)
    then update_append i k (\<lambda>a. snd (mark_append_data_ready_from_heartbeat a heartbeat)) app1 else app1)"
  have "evolves app app2" by (auto simp: app1_def app2_def intro: evolves_trans update_append_evolves)
  then show ?thesis
    unfolding append_heartbeat_def Let_def app1_def [symmetric] app2_def [symmetric]
    by (auto intro: evolves_keeps_trans [OF _ advance_keeps] evolves_keeps_trans [OF _ send_append_keeps])
qed

lemma chunk_heartbeat_keeps: "keeps app (snd (chunk_heartbeat_received env i k heartbeat app))"
proof -
  obtain app3 where "evolves app app3"
    and "chunk_heartbeat_received env i k heartbeat app =
      (if tk_commit_sent (task_at app3 i k) \<and> hb_next_seq heartbeat > tk_seq (task_at app3 i k)
       then advance_stream_task env i app3 else schedule_work env app3)"
    by (rule chunk_heartbeat_start) blast
  then show ?thesis
    by (auto intro: evolves_keeps_trans [OF _ advance_keeps] evolves_keeps evolves_trans schedule_work_evolves)
qed

lemma on_heartbeat_keeps: "keeps app (snd (sender_on_heartbeat env line_id heartbeat app))"
  unfolding sender_on_heartbeat_def
proof (rule app_then_keeps)
  show "keeps app (snd (on_net env (\<lambda>nw. ((), net_on_heartbeat line_id heartbeat nw)) app))"
    by (rule evolves_keeps, rule on_net_evolves) (simp add: net_on_heartbeat_shrinks)
  fix x app0
  have "evolves app0 (erase_completed_buffered heartbeat app0)" by simp
  moreover have "keeps app0 (check_all_done (erase_completed_buffered heartbeat app0))"
    by (rule evolves_keeps [OF evolves_trans [OF _ check_all_done_evolves]]) simp
  ultimately show "keeps app0 (snd (let app1 = erase_completed_buffered heartbeat app0 in case stream_for_id (hb_stream_id heartbeat) app1 of
            None \<Rightarrow> app_ok app1
          | Some i \<Rightarrow>
              (case active_index (stream_at app1 i) of
                 None \<Rightarrow> app_ok (check_all_done app1)
               | Some k \<Rightarrow>
                   if \<not> tk_chunk_mode (task_at app1 i k) then append_heartbeat env i k heartbeat app1
                   else chunk_heartbeat_received env i k heartbeat app1)))"
    by (auto simp: Let_def intro: evolves_keeps_trans [OF _ append_heartbeat_keeps] evolves_keeps_trans [OF _ chunk_heartbeat_keeps]
        evolves_keeps split: option.splits)
qed

lemma nack_received_evolves: "evolves app (snd (nack_received env nack app))"
proof -
  define app1 where "app1 b = app\<lparr>sa_send_buffer := b\<rparr>" for b
  have s: "evolves app (app1 b)" for b by (simp add: app1_def)
  have "evolves (app1 b) (snd (app_then (recover_with_manifest1 env (app1 b)) (\<lambda>_. app_ok)))" for b
    by (rule app_then_evolves) (simp_all add: recover_evolves)
  then show ?thesis
    unfolding nack_received_def Let_def app1_def [symmetric]
    by (auto intro: evolves_trans [OF s] schedule_work_evolves final_fail_evolves split: prod.splits bool.splits)
qed

lemma on_message_keeps: "keeps app (snd (sender_on_message env line_id message app))"
  by (auto simp: sender_on_message_def on_heartbeat_keeps on_manifest2_keeps
      intro: evolves_keeps nack_received_evolves fail_and_stop_evolves split: T_Message.splits)

lemma tick_rest: "evolves app (snd (app_then (on_net env (\<lambda>nw. ((), net_refill_ticks 1 nw)) app)
    (\<lambda>_ app1. if sa_done app1 then app_ok app1 else schedule_work env app1)))"
  by (rule app_then_evolves) (auto intro!: on_net_evolves schedule_work_evolves simp: net_refill_shrinks)

lemma tick_keeps: "keeps app (snd (app_tick env app))"
proof (cases "sa_failed app")
  case False
  have "keeps app (app\<lparr>sa_current_tick := sa_current_tick app + 1\<rparr>)" by (simp add: keeps_def conn_def app_sane_def)
  then show ?thesis using False tick_rest by (auto simp: app_tick_def intro: keeps_evolves_trans)
qed (simp add: app_tick_def)

lemma handle_keeps: "ev \<noteq> On_rescan_timer \<Longrightarrow> keeps app (snd (app_handle env ev app))"
  by (cases ev) (auto simp: app_handle_def on_message_keeps tick_keeps watch_poll_tick_def timeout_30s_def
      intro: evolves_keeps on_connected_evolves on_lost_sends_evolves request_rescan_evolves fail_and_stop_evolves)

end

section \<open>Start and rescans\<close>

lemma initialize_task_ok: "initialize_file_task t cm cs order = Inr t' \<Longrightarrow> resend_ok (tk_chunk_resend t')"
  by (auto simp: initialize_file_task_def initialize_ok split: sum.splits)

lemma real_task_ok: "make_real_file_task sys fs sid f d rd cs order = Inr t \<Longrightarrow> resend_ok (tk_chunk_resend t)"
  by (auto simp: make_real_file_task_def Let_def split: sum.splits dest: initialize_task_ok)

lemma root_stream_sane: "root_stream sys fs options configured = Inr (Some s) \<Longrightarrow> stream_sane s"
  unfolding root_stream_def Let_def
  by (auto simp: stream_sane_def split: if_splits dest: map_results_all [where P = "\<lambda>t. resend_ok (tk_chunk_resend t)", OF _ real_task_ok])

lemma build_streams_sane:
  assumes "build_source_streams sys fs options = Inr streams"
  shows "list_all stream_sane streams"
proof (cases "no_source_root options = []")
  case True
  then show ?thesis
    using assms
    by (auto simp: build_source_streams_def simulated_stream_def Let_def stream_sane_def make_simulated_file_task_def
        dest: initialize_task_ok)
next
  case False
  then obtain found roots where "map_results (root_stream sys fs options) roots = Inr found" "streams = the_streams found"
    using assms by (auto simp: build_source_streams_def Let_def split: if_splits)
  moreover from this have "list_all (\<lambda>s. case s of None \<Rightarrow> True | Some s \<Rightarrow> stream_sane s) found"
    by (auto dest!: map_results_all [where P = "\<lambda>s. case s of None \<Rightarrow> True | Some s \<Rightarrow> stream_sane s"]
        dest: root_stream_sane split: option.splits)
  ultimately show ?thesis
    by (auto simp: the_streams_def list.pred_set map_filter_def split: option.splits)
qed

lemma make_SenderApp_sane: "make_SenderApp sys fs options = Inr app \<Longrightarrow> app_sane app \<and> sa_options app = options"
  by (auto simp: make_SenderApp_def app_sane_def dest: build_streams_sane)

lemma fail_sane: "app_sane a \<Longrightarrow> app_sane (fail_and_stop a)"
  using fail_and_stop_evolves [of a] by (simp add: evolves_def)

lemma app_sane_fields [simp]:
  "app_sane (app\<lparr>sa_rescan_scheduled := b\<rparr>) = app_sane app" "app_sane (app\<lparr>sa_rescan_pending := b\<rparr>) = app_sane app"
  "app_sane (app\<lparr>sa_network := nw\<rparr>) = app_sane app" "app_sane (app\<lparr>sa_send_buffer := buf\<rparr>) = app_sane app"
  by (simp_all add: app_sane_def)

context lost_handler
begin

lemma rescan_sane:
  assumes "app_sane app"
  shows "app_sane (snd (rescan_timer env app)) \<and> sa_options (snd (rescan_timer env app)) = sa_options app"
proof -
  have sent: "app_sane a \<Longrightarrow> app_sane (snd (send_manifest1 env a))" "sa_options (snd (send_manifest1 env a)) = sa_options a" for a
    using send_manifest1_evolves [of a] by (auto simp: evolves_def)
  have rebuilt: "app_sane (app\<lparr>sa_rescan_scheduled := False, sa_send_buffer := b, sa_done := False, sa_streams := streams\<rparr>)"
    if "list_all stream_sane streams" for streams b
    using assms that by (simp add: app_sane_def)
  have "app_sane (app\<lparr>sa_rescan_scheduled := False, sa_send_buffer := b, sa_streams := [], sa_done := False, sa_failed := True,
      sa_loop_stopped := True\<rparr>)" for b
    using assms by (simp add: app_sane_def)
  then show ?thesis
    using assms rebuilt [OF build_streams_sane] sent
    by (auto simp: rescan_timer_def rescan_and_send_manifest_def Let_def fail_and_stop_def split: sum.splits)
qed

lemma handle_sane:
  "app_sane app \<Longrightarrow> app_sane (snd (app_handle env ev app)) \<and> sa_options (snd (app_handle env ev app)) = sa_options app"
  using handle_keeps [of ev app] rescan_sane [of app]
  by (cases "ev = On_rescan_timer") (auto simp: keeps_def app_handle_def)

end

section \<open>Reachable states\<close>

text \<open>The states of a run: between two events the network and the disk may change in any way.\<close>

inductive app_reachable :: "T_NodeOptions \<Rightarrow> SenderApp \<Rightarrow> bool" for options where
  start: "make_SenderApp sys fs options = Inr app \<Longrightarrow> app_reachable options app"
| network: "app_reachable options app \<Longrightarrow> app_reachable options (app\<lparr>sa_network := nw\<rparr>)"
| event: "app_reachable options app \<Longrightarrow>
    app_reachable options (snd (app_handle (app_environment sys fs rounds depth) ev app))"

lemma reachable_sane: "app_reachable options app \<Longrightarrow> app_sane app \<and> sa_options app = options"
proof (induction rule: app_reachable.induct)
  case (start sys fs app)
  then show ?case by (rule make_SenderApp_sane)
next
  case (network app nw)
  then show ?case by simp
next
  case (event app sys fs rounds depth ev)
  then show ?case by (simp add: sender.handle_sane)
qed

section \<open>Files that count as sent\<close>

text \<open>What the receiver's heartbeat must say for the file a stream is sending to count as sent: in chunk
  mode that it has gone past the commit, in append mode that a regular file is durable to its end.\<close>

definition confirms :: "T_Heartbeat \<Rightarrow> T_FileSendTask \<Rightarrow> bool" where
  "confirms heartbeat task \<longleftrightarrow>
     (if tk_chunk_mode task then tk_commit_sent task \<and> tk_seq task < hb_next_seq heartbeat
      else hb_file_id heartbeat = tk_file_id task \<and>
        (tk_kind task \<noteq> REGULAR_FILE \<or> tk_source_size task \<le> hb_durable_offset heartbeat))"

lemma on_heartbeat_net:
  assumes "on_net env (\<lambda>nw. ((), net_on_heartbeat line_id heartbeat nw)) app = (r, app0)"
  shows "sa_streams app0 = sa_streams app \<and> (app_sane app \<longrightarrow> app_sane app0)"
proof -
  obtain e nw where n: "net_on_heartbeat line_id heartbeat (sa_network app) = (e, nw)" by fastforce
  then have "nw_trace nw = nw_trace (sa_network app)"
    by (auto simp: net_on_heartbeat_def with_scheduler_def split: sum.splits)
  then have "lost_callbacks (drop (length (nw_trace (sa_network app))) (nw_trace nw)) = []"
    by (simp add: lost_callbacks_def map_filter_def)
  then have "app0 = app\<lparr>sa_network := nw\<rparr>"
    using assms by (simp add: on_net_def n app_then_def app_ok_def split: option.splits)
  then show ?thesis by simp
qed

lemma erase_completed_streams [simp]: "sa_streams (erase_completed_buffered hb app) = sa_streams app"
proof -
  have "sa_streams (observe_ack_samples ss a) = sa_streams a" for ss a
    unfolding observe_ack_samples_def by (induction ss arbitrary: a) (simp_all add: observe_ack_sample_def)
  then show ?thesis by (simp add: erase_completed_buffered_def split: prod.splits)
qed

abbreviation positions :: "SenderApp \<Rightarrow> nat list" where
  "positions app \<equiv> map st_current_task (sa_streams app)"

lemma evolves_positions: "evolves a b \<Longrightarrow> app_sane a \<Longrightarrow> positions b = positions a \<and> app_sane b"
  by (simp add: evolves_def)

lemma same_active:
  assumes "map stream_identity (sa_streams a) = map stream_identity (sa_streams b)" "positions a = positions b"
    and "i < length (sa_streams b)"
  shows "active_index (stream_at a i) = active_index (stream_at b i)"
proof -
  have l: "length (sa_streams a) = length (sa_streams b)" using assms(2) by (metis length_map)
  have "stream_identity (stream_at a i) = stream_identity (stream_at b i)" "st_current_task (stream_at a i) = st_current_task (stream_at b i)"
    using arg_cong [OF assms(1), of "\<lambda>v. v ! i"] arg_cong [OF assms(2), of "\<lambda>v. v ! i"] assms(3) l by simp_all
  moreover from this have "length (st_tasks (stream_at a i)) = length (st_tasks (stream_at b i))"
    by (auto simp: stream_identity_def dest: map_eq_imp_length_eq)
  ultimately show ?thesis by (simp add: active_index_def)
qed

context lost_handler
begin

lemma advance_positions:
  assumes "app_sane app" "i < length (sa_streams app)" "active_index (stream_at app i) = Some k"
  shows "positions (snd (advance_stream_task env i app)) = (positions app)[i := Suc k]"
proof -
  have k: "k = st_current_task (stream_at app i)" "k < length (st_tasks (stream_at app i))"
    using assms(3) by (auto simp: active_index_def split: if_splits)
  have "app_sane (next_position i app)" using next_position_keeps [of app i] assms(1) by (simp add: keeps_def)
  then have "positions (snd (advance_stream_task env i app)) = positions (next_position i app)"
    using evolves_positions advance_rest by blast
  also have "\<dots> = (positions app)[i := Suc k]"
    using k assms(2) by (simp add: next_position_def modify_stream_def map_update)
  finally show ?thesis .
qed

lemma append_heartbeat_positions:
  assumes "app_sane app" "i < length (sa_streams app)" "active_index (stream_at app i) = Some k" "\<not> tk_chunk_mode (task_at app i k)"
  shows "positions (snd (append_heartbeat env i k hb app)) = positions app \<or>
    positions (snd (append_heartbeat env i k hb app)) = (positions app)[i := Suc k] \<and> confirms hb (task_at app i k)"
proof -
  define app1 where "app1 = (if hb_file_id hb = tk_file_id (task_at app i k)
    then update_append i k (\<lambda>a. snd (mark_append_create_ready_from_heartbeat a hb)) app else app)"
  define app2 where "app2 = (if hb_file_id hb = tk_file_id (task_at app i k)
    then update_append i k (\<lambda>a. snd (mark_append_data_ready_from_heartbeat a hb)) app1 else app1)"
  have e: "evolves app app2" by (auto simp: app1_def app2_def intro: evolves_trans update_append_evolves)
  have sane: "app_sane app2" "positions app2 = positions app" using evolves_positions [OF e assms(1)] by auto
  have ids: "map stream_identity (sa_streams app2) = map stream_identity (sa_streams app)" using e by (simp add: evolves_def)
  have k: "k < length (st_tasks (stream_at app i))" "k = st_current_task (stream_at app i)"
    using assms(3) by (auto simp: active_index_def split: if_splits)
  have view: "task_view (task_at app2 i k) = task_view (task_at app i k)"
    by (rule views_task) (use assms(2) k in \<open>auto simp: app1_def app2_def update_append_views\<close>)
  have act: "i < length (sa_streams app2)" "active_index (stream_at app2 i) = Some k"
    using same_active [OF ids sane(2) assms(2)] assms(2,3) ids by (auto dest: map_eq_imp_length_eq)
  have eq: "append_heartbeat env i k hb app = (if hb_file_id hb = tk_file_id (task_at app i k) \<and>
      append_complete_by_heartbeat (tk_append (task_at app2 i k)) hb (tk_kind (task_at app2 i k)) (tk_source_size (task_at app2 i k))
    then advance_stream_task env i app2 else send_append_if_possible env i k app2)"
    unfolding append_heartbeat_def Let_def app1_def [symmetric] app2_def [symmetric] ..
  show ?thesis
  proof (cases "hb_file_id hb = tk_file_id (task_at app i k) \<and>
      append_complete_by_heartbeat (tk_append (task_at app2 i k)) hb (tk_kind (task_at app2 i k)) (tk_source_size (task_at app2 i k))")
    case True
    then have "confirms hb (task_at app i k)"
      using view assms(4) by (auto simp: confirms_def append_complete_by_heartbeat_def task_view_def split: if_splits)
    then show ?thesis
      using True advance_positions [OF sane(1) act] sane(2) by (simp add: eq)
  next
    case False
    then have "append_heartbeat env i k hb app = send_append_if_possible env i k app2" unfolding eq by (rule if_not_P)
    then show ?thesis using evolves_positions [OF send_append_evolves sane(1)] sane(2) by simp
  qed
qed


lemma chunk_heartbeat_positions:
  assumes "app_sane app" "i < length (sa_streams app)" "active_index (stream_at app i) = Some k" "tk_chunk_mode (task_at app i k)"
  shows "positions (snd (chunk_heartbeat_received env i k hb app)) = positions app \<or>
    positions (snd (chunk_heartbeat_received env i k hb app)) = (positions app)[i := Suc k] \<and> confirms hb (task_at app i k)"
proof -
  obtain app3 where e: "evolves app app3" and v: "views app3 = views app"
    and eq: "chunk_heartbeat_received env i k hb app =
      (if tk_commit_sent (task_at app3 i k) \<and> hb_next_seq hb > tk_seq (task_at app3 i k)
       then advance_stream_task env i app3 else schedule_work env app3)"
    by (rule chunk_heartbeat_start) blast
  have sane: "app_sane app3" "positions app3 = positions app" using evolves_positions [OF e assms(1)] by auto
  have ids: "map stream_identity (sa_streams app3) = map stream_identity (sa_streams app)" using e by (simp add: evolves_def)
  have k: "k < length (st_tasks (stream_at app i))" using assms(3) by (auto simp: active_index_def split: if_splits)
  have act: "i < length (sa_streams app3)" "active_index (stream_at app3 i) = Some k"
    using same_active [OF ids sane(2) assms(2)] assms(2,3) ids by (auto dest: map_eq_imp_length_eq)
  show ?thesis
  proof (cases "tk_commit_sent (task_at app3 i k) \<and> hb_next_seq hb > tk_seq (task_at app3 i k)")
    case True
    then have "confirms hb (task_at app i k)"
      using views_task [OF v assms(2) k] assms(4) by (simp add: confirms_def task_view_def)
    then show ?thesis using True advance_positions [OF sane(1) act] sane(2) by (simp add: eq)
  next
    case False
    then have "chunk_heartbeat_received env i k hb app = schedule_work env app3" unfolding eq by (rule if_not_P)
    then show ?thesis using evolves_positions [OF schedule_work_evolves sane(1)] sane(2) by simp
  qed
qed

lemma tick_positions:
  assumes "app_sane app"
  shows "positions (snd (app_tick env app)) = positions app"
proof (cases "sa_failed app")
  case False
  define app1 where "app1 = app\<lparr>sa_current_tick := sa_current_tick app + 1\<rparr>"
  have "app_sane app1" using assms by (simp add: app1_def app_sane_def)
  then show ?thesis
    using evolves_positions [OF tick_rest] False by (simp add: app_tick_def app1_def)
qed (simp add: app_tick_def)

lemma heartbeat_positions:
  assumes "app_sane app"
  shows "positions (snd (sender_on_heartbeat env line_id hb app)) = positions app \<or>
    (\<exists>i k. i < length (sa_streams app) \<and> st_stream_id (stream_at app i) = hb_stream_id hb \<and>
       active_index (stream_at app i) = Some k \<and> confirms hb (task_at app i k) \<and>
       positions (snd (sender_on_heartbeat env line_id hb app)) = (positions app)[i := Suc k])"
proof -
  obtain r app0 where o: "on_net env (\<lambda>nw. ((), net_on_heartbeat line_id hb nw)) app = (r, app0)" by fastforce
  define app1 where "app1 = erase_completed_buffered hb app0"
  have s0: "sa_streams app0 = sa_streams app" "app_sane app0" using on_heartbeat_net [OF o] assms by auto
  have e1: "evolves app0 app1" by (simp add: app1_def)
  have s1: "sa_streams app1 = sa_streams app" "app_sane app1"
    using evolves_positions [OF e1 s0(2)] s0(1) by (simp_all add: app1_def)
  have finish: "positions (check_all_done app1) = positions app"
    using evolves_positions [OF check_all_done_evolves s1(2)] s1(1) by simp
  show ?thesis
  proof (cases r)
    case (Inl e)
    then show ?thesis using o s0 by (simp add: sender_on_heartbeat_def app_then_def)
  next
    case (Inr u)
    then have h: "snd (sender_on_heartbeat env line_id hb app) = snd (case stream_for_id (hb_stream_id hb) app1 of
            None \<Rightarrow> app_ok app1
          | Some i \<Rightarrow>
              (case active_index (stream_at app1 i) of
                 None \<Rightarrow> app_ok (check_all_done app1)
               | Some k \<Rightarrow>
                   if \<not> tk_chunk_mode (task_at app1 i k) then append_heartbeat env i k hb app1
                   else chunk_heartbeat_received env i k hb app1))"
      by (simp only: sender_on_heartbeat_def o app_then_def prod.case sum.case Let_def app1_def)
    show ?thesis
    proof (cases "stream_for_id (hb_stream_id hb) app1")
      case None
      then show ?thesis using h s1 by simp
    next
      case (Some i)
      then have i: "i < length (sa_streams app)" "st_stream_id (stream_at app i) = hb_stream_id hb"
        using find_index_Some [of _ "sa_streams app1" i] s1(1) by (auto simp: stream_for_id_def)
      show ?thesis
      proof (cases "active_index (stream_at app1 i)")
        case None
        then show ?thesis using h Some finish by simp
      next
        case k: (Some k)
        have "positions (snd (sender_on_heartbeat env line_id hb app)) = positions app \<or>
            positions (snd (sender_on_heartbeat env line_id hb app)) = (positions app)[i := Suc k] \<and> confirms hb (task_at app i k)"
          using append_heartbeat_positions [OF s1(2) _ k] chunk_heartbeat_positions [OF s1(2) _ k] i h Some k s1(1)
          by (cases "tk_chunk_mode (task_at app1 i k)") simp_all
        then show ?thesis using i k s1(1) by auto
      qed
    qed
  qed
qed

end

section \<open>The properties\<close>


definition sample_options :: T_NodeOptions where
  "sample_options = (default_NodeOptions [])\<lparr>no_mode := ''sender'', no_size := 3\<rparr>"

lemma sample_app_made: "\<not> isl (make_SenderApp plain_system [] sample_options)"
  by code_simp


text \<open>C10: A file counts as sent only when the receiver says so: no event but a heartbeat, a manifest or a
  rescan moves a stream to its next file, and a heartbeat moves one stream by one file, the stream it names,
  after it has confirmed the file being sent.\<close>

theorem only_confirmed_files_advance:
  assumes "app_sane app"
    and "\<forall>line manifest2. ev \<noteq> On_message line (Msg_Manifest2 manifest2)" and "ev \<noteq> On_rescan_timer"
    and "map st_current_task (sa_streams (snd (app_handle (app_environment sys fs rounds depth) ev app))) \<noteq>
      map st_current_task (sa_streams app)"
  shows "\<exists>line hb i k. ev = On_message line (Msg_Heartbeat hb) \<and> i < length (sa_streams app) \<and>
    st_stream_id (stream_at app i) = hb_stream_id hb \<and> active_index (stream_at app i) = Some k \<and> confirms hb (task_at app i k) \<and>
    map st_current_task (sa_streams (snd (app_handle (app_environment sys fs rounds depth) ev app))) =
      (map st_current_task (sa_streams app))[i := Suc k]"
proof -
  let ?env = "app_environment sys fs rounds depth"
  have same: "positions b = positions app" if "evolves app b" for b using evolves_positions [OF that assms(1)] by simp
  have tick: "positions (snd (app_tick ?env app)) = positions app" by (rule sender.tick_positions [OF assms(1)])
  have hb: "ev = On_message line (Msg_Heartbeat hb) \<Longrightarrow> ?thesis" for line hb
    using sender.heartbeat_positions [OF assms(1), where line_id = line and hb = hb] assms(4)
    by (simp add: app_handle_def sender_on_message_def) metis
  have others: "positions (snd (app_handle ?env ev app)) = positions app" if "\<nexists>line message. ev = On_message line message"
    using that assms(3)
    by (cases ev) (simp_all add: app_handle_def tick same [OF sender.on_connected_evolves] same [OF sender.on_lost_sends_evolves]
        watch_poll_tick_def same [OF request_rescan_evolves] timeout_30s_def same [OF fail_and_stop_evolves])
  show ?thesis
  proof (cases ev)
    case (On_message line message)
    then show ?thesis
      using assms hb same [OF sender.nack_received_evolves] same [OF fail_and_stop_evolves]
      by (cases message) (auto simp: app_handle_def sender_on_message_def)
  qed (use assms(4) others in auto)
qed

definition sample_sending :: SenderApp where
  "sample_sending = modify_stream 0 (\<lambda>s. s\<lparr>st_manifest_applied := True\<rparr>)
     (update_append 0 0 (\<lambda>a. a\<lparr>ap_next_offset := 3\<rparr>) (projr (make_SenderApp plain_system [] sample_options)))"

definition sample_durable :: T_Heartbeat where
  "sample_durable = \<lparr>hb_stream_id = kStreamId, hb_next_seq = 2, hb_file_id = kFileId, hb_offset = 3, hb_durable_offset = 3,
     hb_recv_window_bytes = 1000, hb_received_chunks = [], hb_missing_ranges = []\<rparr>"

lemma sample_sending_sane: "app_sane sample_sending"
  by code_simp

lemma sample_sending_advances:
  "map st_current_task (sa_streams sample_sending) = [0]"
  "map st_current_task (sa_streams (snd (app_handle (app_environment plain_system [] 9 2) (On_message 1 (Msg_Heartbeat sample_durable))
      sample_sending))) = [1]"
  by code_simp+

theorem only_confirmed_files_advance_witness:
  "confirms sample_durable (task_at sample_sending 0 0)"
proof -
  have "\<exists>line hb i k. On_message 1 (Msg_Heartbeat sample_durable) = On_message line (Msg_Heartbeat hb) \<and>
      i < length (sa_streams sample_sending) \<and> st_stream_id (stream_at sample_sending i) = hb_stream_id hb \<and>
      active_index (stream_at sample_sending i) = Some k \<and> confirms hb (task_at sample_sending i k) \<and>
      map st_current_task (sa_streams (snd (app_handle (app_environment plain_system [] 9 2)
        (On_message 1 (Msg_Heartbeat sample_durable)) sample_sending))) = (map st_current_task (sa_streams sample_sending))[i := Suc k]"
    by (rule only_confirmed_files_advance) (simp_all add: sample_sending_sane sample_sending_advances)
  then obtain i k where "i < length (sa_streams sample_sending)" "active_index (stream_at sample_sending i) = Some k"
      "confirms sample_durable (task_at sample_sending i k)" by auto
  moreover have "length (sa_streams sample_sending) = 1" using arg_cong [OF sample_sending_advances(1), of length] by simp
  moreover have "st_current_task (stream_at sample_sending 0) = 0"
    using arg_cong [OF sample_sending_advances(1), of "\<lambda>v. v ! 0"] calculation(4) by simp
  ultimately show ?thesis by (auto simp: active_index_def split: if_splits)
qed

text \<open>C24: No NACK is ignored. It is answered by a retransmission of the packet it refuses; when the packet is no
  longer buffered, a NACK that can be recovered from, while the limit is not reached, costs a recovery
  attempt, and any other makes the run fail.\<close>

theorem nack_answered:
  assumes "app_sane app" and "\<not> sa_failed app"
    and "\<not> fst (enqueue_nack_retransmit (sa_send_buffer app) nack (no_chunk_size (sa_options app)))"
  shows "(if is_recoverable_nack (nk_reason nack) \<and>
        sa_manifest_recovery_attempts app < no_max_manifest_recovery_attempts (sa_options app)
      then sa_manifest_recovery_attempts app <
        sa_manifest_recovery_attempts (snd (nack_received (app_environment sys fs rounds depth) nack app))
      else sa_failed (snd (nack_received (app_environment sys fs rounds depth) nack app)))"
proof -
  let ?env = "app_environment sys fs rounds depth"
  obtain buf where b: "enqueue_nack_retransmit (sa_send_buffer app) nack (no_chunk_size (sa_options app)) = (False, buf)"
    using assms(3) by (cases "enqueue_nack_retransmit (sa_send_buffer app) nack (no_chunk_size (sa_options app))") auto
  have nack: "snd (nack_received ?env nack app) = (if is_recoverable_nack (nk_reason nack)
      then snd (recover_with_manifest1 ?env (app\<lparr>sa_send_buffer := buf\<rparr>)) else final_fail (app\<lparr>sa_send_buffer := buf\<rparr>))"
    by (simp add: nack_received_def b Let_def snd_app_then_ok)
  have "sa_manifest_recovery_attempts app < sa_manifest_recovery_attempts (snd (recover_with_manifest1 ?env (app\<lparr>sa_send_buffer := buf\<rparr>)))"
    if "sa_manifest_recovery_attempts app < no_max_manifest_recovery_attempts (sa_options app)"
    using sender.recover_counts [of "app\<lparr>sa_send_buffer := buf\<rparr>"] assms that by simp
  then show ?thesis
    using assms(2) by (auto simp: nack recover_with_manifest1_def final_fail_def not_less)
qed

definition sample_nack :: T_Nack where
  "sample_nack = \<lparr>nk_stream_id = kStreamId, nk_got_seq = 1, nk_expected_seq = 1, nk_file_id = kFileId, nk_offset = 0,
     nk_expected_file_id = kFileId, nk_expected_offset = 0, nk_reason = BAD_CHECKSUM, nk_detail = []\<rparr>"

lemma sample_nack_missed:
  "\<not> sa_failed sample_sending"
  "\<not> fst (enqueue_nack_retransmit (sa_send_buffer sample_sending) sample_nack (no_chunk_size (sa_options sample_sending)))"
  "is_recoverable_nack (nk_reason sample_nack)"
  "sa_manifest_recovery_attempts sample_sending < no_max_manifest_recovery_attempts (sa_options sample_sending)"
  "sa_manifest_recovery_attempts sample_sending = 0"
  by code_simp+

theorem nack_answered_witness:
  "0 < sa_manifest_recovery_attempts (snd (nack_received (app_environment plain_system [] 9 2) sample_nack sample_sending))"
  using nack_answered [OF sample_sending_sane sample_nack_missed(1,2), of plain_system "[]" 9 2] sample_nack_missed(3-)
  by simp

lemma clamp_range: "lo \<le> hi \<Longrightarrow> lo \<le> clamp v lo hi \<and> clamp v lo hi \<le> hi"
  by (simp add: clamp_def not_less)

text \<open>With a configured retransmission time below 2 to the 61 ticks, the time after which a packet is sent
  again is at least one tick and lies between half and eight times the configured one, whatever round trip
  times have been measured.\<close>

theorem rto_ticks_bounds:
  assumes "unat fallback < 2 ^ 61"
  shows "max 1 (unat fallback div 2) \<le> unat (rto_ticks r fallback) \<and> unat (rto_ticks r fallback) \<le> max 1 (8 * unat fallback)"
proof -
  have m: "unat (fallback * 8) = 8 * unat fallback" using assms iffD1 [OF unat_mult_lem, of fallback 8] by simp
  have d: "unat (fallback div 2) = unat fallback div 2" by (simp add: unat_div)
  have lo: "unat (max 1 (fallback div 2)) = max 1 (unat fallback div 2)" using d by (simp add: max_def word_le_nat_alt)
  have hi: "unat (max 1 (fallback * 8)) = max 1 (8 * unat fallback)" using m by (simp add: max_def word_le_nat_alt)
  have f: "unat (max 1 fallback) = max 1 (unat fallback)" by (simp add: max_def word_le_nat_alt)
  have order: "max 1 (fallback div 2) \<le> max 1 (fallback * 8)" unfolding word_le_nat_alt lo hi by linarith
  show ?thesis
  proof (cases "re_initialized r")
    case True
    have "max 1 (fallback div 2) \<le> rto_ticks r fallback \<and> rto_ticks r fallback \<le> max 1 (fallback * 8)"
      using clamp_range [OF order] True by (simp only: rto_ticks_def Let_def not_True_eq_False if_False)
    then show ?thesis unfolding word_le_nat_alt lo hi .
  next
    case False
    then have "unat (rto_ticks r fallback) = max 1 (unat fallback)" using f by (simp only: rto_ticks_def not_False_eq_True if_True)
    then show ?thesis by linarith
  qed
qed

theorem rto_ticks_bounds_witness:
  "50 \<le> unat (rto_ticks (rto_observe 7 new_RtoEstimator) 100) \<and> unat (rto_ticks (rto_observe 7 new_RtoEstimator) 100) \<le> 800"
  using rto_ticks_bounds [of 100 "rto_observe 7 new_RtoEstimator"] by simp

text \<open>Beyond that bound the upper limit handed to \<open>std::clamp\<close> wraps below the lower one.\<close>

lemma clamp_limits_cross: "max 1 ((2305843009213693952 :: u64) * 8) < max 1 (2305843009213693952 div 2)"
  by code_simp

end
