(* ===== verification/SenderTermination.thy ===== *)
theory SenderTermination
  imports SenderRun
begin

text \<open>
  Every handler of the sender application returns. The loops of the model (theory SenderApp) are bounded
  by a number of rounds and the nesting of handlers through the network's callback by a depth; here it is
  shown that both bounds are only a device: from some number on the result no longer depends on them. A
  round of a loop either loses a line, of which there are finitely many, or shortens what is left to send.
\<close>

section \<open>Values that settle\<close>

definition settles :: "(nat \<Rightarrow> 'a) \<Rightarrow> bool" where
  "settles F \<longleftrightarrow> (\<exists>n. \<forall>m \<ge> n. F m = F n)"

lemma settles_const [simp, intro]: "settles (\<lambda>_. v)"
  by (simp add: settles_def)

lemma settles_eventually:
  assumes "settles G" and "\<And>m. n0 \<le> m \<Longrightarrow> F m = G m"
  shows "settles F"
proof -
  obtain n where n: "\<forall>m \<ge> n. G m = G n" using assms(1) by (auto simp: settles_def)
  have "F m = F (max n n0)" if "m \<ge> max n n0" for m
    using n assms(2) [of m] assms(2) [of "max n n0"] that by (metis max.bounded_iff max.cobounded1 max.cobounded2)
  then show ?thesis unfolding settles_def by blast
qed

lemma settles_app_then:
  assumes "settles r" and "\<And>x app1 m. r m = (Inr x, app1) \<Longrightarrow> settles (\<lambda>m. f m x app1)"
  shows "settles (\<lambda>m. app_then (r m) (f m))"
proof -
  obtain n where n: "\<forall>m \<ge> n. r m = r n" using assms(1) by (auto simp: settles_def)
  obtain v app1 where r: "r n = (v, app1)" by fastforce
  have "settles (\<lambda>m. app_then (r n) (f m))"
    using assms(2) [of n] by (cases v) (simp_all add: r app_then_def)
  then show ?thesis
  proof (rule settles_eventually)
    fix m assume "n \<le> m"
    then have "r m = r n" using n by blast
    then show "app_then (r m) (f m) = app_then (r n) (f m)" by (rule arg_cong)
  qed
qed

lemma settles_if: "(b \<Longrightarrow> settles F) \<Longrightarrow> (\<not> b \<Longrightarrow> settles G) \<Longrightarrow> settles (\<lambda>m. if b then F m else G m)"
  by (cases b) simp_all

lemma settles_option:
  "(v = None \<Longrightarrow> settles F) \<Longrightarrow> (\<And>x. v = Some x \<Longrightarrow> settles (\<lambda>m. G m x)) \<Longrightarrow>
     settles (\<lambda>m. case v of None \<Rightarrow> F m | Some x \<Rightarrow> G m x)"
  by (cases v) simp_all

lemma settles_sum:
  "(\<And>x. v = Inl x \<Longrightarrow> settles (\<lambda>m. F m x)) \<Longrightarrow> (\<And>x. v = Inr x \<Longrightarrow> settles (\<lambda>m. G m x)) \<Longrightarrow>
     settles (\<lambda>m. case v of Inl x \<Rightarrow> F m x | Inr x \<Rightarrow> G m x)"
  by (cases v) simp_all

lemma settles_pair: "(\<And>x y. v = (x, y) \<Longrightarrow> settles (\<lambda>m. F m x y)) \<Longrightarrow> settles (\<lambda>m. case v of (x, y) \<Rightarrow> F m x y)"
  by (cases v) simp

lemmas settles_cases = settles_if settles_option settles_sum settles_pair

section \<open>What a round uses up\<close>

definition open_chunks :: "T_ChunkResendState \<Rightarrow> nat" where
  "open_chunks r = card {j. j < length (cs_acked r) \<and> \<not> cs_acked r ! j \<and> (\<not> cs_sent r ! j \<or> cs_priority r ! j)}"

lemma mark_sent_closes:
  assumes "resend_ok r" and "next_chunk_to_send r now rto = Some c"
  shows "open_chunks (snd (mark_chunk_sent r c line tick)) < open_chunks r"
proof -
  have c: "c < cs_chunk_count r" "\<not> cs_acked r ! unat c" "\<not> cs_sent r ! unat c \<or> cs_priority r ! unat c"
    using next_chunk_can_send [OF assms(2)] can_send_chunk_ok [OF assms(1)] by auto
  have valid: "chunk_index_valid r c" using c(1) assms(1) by (simp add: resend_ok_valid)
  have len: "unat c < length (cs_acked r)" "length (cs_sent r) = length (cs_acked r)" "length (cs_priority r) = length (cs_acked r)"
    using c(1) by (simp_all add: resend_ok_lengths [OF assms(1)] word_lt_unat)
  show ?thesis
    unfolding open_chunks_def
    by (rule psubset_card_mono)
       (use c valid len in \<open>auto simp: mark_chunk_sent_def Let_def nth_list_update psubset_eq split: if_splits\<close>)
qed

lemma conn_simps [simp]:
  "conn (modify_task i k f app) = conn app" "conn (drop_queued app) = conn app" "conn (app\<lparr>sa_send_buffer := b\<rparr>) = conn app"
  "conn (app\<lparr>sa_dropped_line_once := d\<rparr>) = conn app" "conn (mark_task_retransmitted r l app) = conn app"
  by (auto simp: conn_def modify_task_def modify_stream_def drop_queued_def mark_task_retransmitted_def split: option.splits)

context lost_handler
begin

lemma send_buffered_cases:
  assumes "send_buffered env message request app = (r, app1)"
  shows "conn app1 < conn app \<or> sa_streams app1 = sa_streams app"
proof -
  obtain r0 app0 where o: "on_net env (net_send message request) app = (r0, app0)" by fastforce
  have "conn app0 < conn app \<or> sa_streams app0 = sa_streams app"
    using on_net_cases [of "net_send message request" app] o by (auto simp: net_send_shrinks)
  then show ?thesis
    using assms o by (cases r0) (auto simp: send_buffered_def app_then_def split: if_splits)
qed

lemma maybe_drop_cases:
  assumes "maybe_drop_line_once env line_id app = (r, app1)"
  shows "conn app1 < conn app \<or> sa_streams app1 = sa_streams app"
  using assms on_net_cases [of "\<lambda>nw. ((), net_mark_unavailable line_id nw)" "app\<lparr>sa_dropped_line_once := True\<rparr>"]
  by (auto simp: maybe_drop_line_once_def app_ok_def net_mark_unavailable_shrinks split: if_splits)

lemma send_chunk_progress:
  assumes "send_chunk env i k c app = (Inr True, app1)" "app_sane app" "i < length (sa_streams app)"
    "k < length (st_tasks (stream_at app i))" "next_unsent_chunk_index (task_at app i k) now rto = Some c"
  shows "conn app1 < conn app \<or> open_chunks (tk_chunk_resend (task_at app1 i k)) < open_chunks (tk_chunk_resend (task_at app i k))"
proof -
  obtain message request result appA where s: "send_buffered env message request app = (Inr result, appA)"
    and d: "\<exists>r. maybe_drop_line_once env (sr_line_id result) (modify_task i k (\<lambda>t. t\<lparr>tk_chunk_resend :=
        snd (mark_chunk_sent (tk_chunk_resend t) c (sr_line_id result) (sa_current_tick appA))\<rparr>) appA) = (r, app1)"
    using assms(1)
    by (auto simp: send_chunk_def Let_def app_then_def split: if_splits sum.splits prod.splits)
  define appB where "appB = modify_task i k (\<lambda>t. t\<lparr>tk_chunk_resend :=
        snd (mark_chunk_sent (tk_chunk_resend t) c (sr_line_id result) (sa_current_tick appA))\<rparr>) appA"
  have leA: "conn appA \<le> conn app" using send_buffered_evolves [of app message request] s by (simp add: evolves_def)
  have leB: "conn app1 \<le> conn appB" using maybe_drop_evolves [of appB "sr_line_id result"] d by (auto simp: evolves_def appB_def)
  have "resend_ok (tk_chunk_resend (task_at app i k))"
    using assms(2,3,4) by (simp add: app_sane_def stream_sane_def list_all_length)
  then have "open_chunks (snd (mark_chunk_sent (tk_chunk_resend (task_at app i k)) c l t)) < open_chunks (tk_chunk_resend (task_at app i k))" for l t
    using assms(5) by (intro mark_sent_closes) (auto simp: next_unsent_chunk_index_def)
  moreover have "sa_streams app1 = sa_streams appB \<or> conn app1 < conn appB" using maybe_drop_cases d unfolding appB_def [symmetric] by blast
  moreover have "sa_streams appA = sa_streams app \<or> conn appA < conn app" using send_buffered_cases [OF s] by auto
  moreover have "conn appB = conn appA" by (simp add: appB_def)
  ultimately show ?thesis
    using leA leB assms(3,4) by (auto simp: appB_def modify_task_def modify_stream_def)
qed

end

section \<open>Handlers whose callback settles\<close>

text \<open>The contract under which the handlers settle: environments that differ in their bounds only, whose
  callback settles on every state with fewer than \<open>c\<close> connections.\<close>

locale settled =
  fixes E :: "nat \<Rightarrow> app_env" and sys :: system and fs :: filesystem and c :: nat
  assumes handler: "lost_handler (E m)"
    and env_sys: "ev_sys (E m) = sys" and env_fs: "ev_fs (E m) = fs" and env_rounds: "ev_rounds (E m) = m"
    and lost_settles: "app_sane app \<Longrightarrow> conn app < c \<Longrightarrow> settles (\<lambda>m. ev_lost (E m) lost app)"
begin

sublocale each: lost_handler "E m" for m
  by (rule handler)

definition good :: "SenderApp \<Rightarrow> bool" where
  "good app \<longleftrightarrow> app_sane app \<and> conn app \<le> c"

lemma good_keeps: "keeps a b \<Longrightarrow> good a \<Longrightarrow> good b"
  by (simp add: good_def keeps_def)

lemma good_evolves: "evolves a b \<Longrightarrow> good a \<Longrightarrow> good b"
  by (rule good_keeps [OF evolves_keeps])

lemma then_settles:
  assumes "settles r" and "\<And>m. keeps app (snd (r m))" and "good app"
    and "\<And>x app1 m. r m = (Inr x, app1) \<Longrightarrow> keeps app app1 \<Longrightarrow> good app1 \<Longrightarrow> settles (\<lambda>m. f m x app1)"
  shows "settles (\<lambda>m. app_then (r m) (f m))"
proof (rule settles_app_then [OF assms(1)])
  fix x app1 m assume r: "r m = (Inr x, app1)"
  then have "keeps app app1" using assms(2) [of m] by simp
  then show "settles (\<lambda>m. f m x app1)" using assms(4) [OF r] good_keeps assms(3) by blast
qed

lemmas then_evolves_settles = then_settles [OF _ evolves_keeps]

lemma run_callbacks_settles: "app_sane app \<Longrightarrow> conn app < c \<Longrightarrow> settles (\<lambda>m. run_callbacks (E m) lost app)"
proof (induction lost arbitrary: app)
  case (Cons l ls)
  have "settles (\<lambda>m. app_then (ev_lost (E m) l app) (\<lambda>_. run_callbacks (E m) ls))"
  proof (rule settles_app_then [OF lost_settles [OF Cons.prems]])
    fix x app1 m assume "ev_lost (E m) l app = (Inr x, app1)"
    then have "evolves app app1" using each.lost_evolves [of app m l] by simp
    then show "settles (\<lambda>m. run_callbacks (E m) ls app1)" using Cons by (auto simp: evolves_def)
  qed
  then show ?case by simp
qed simp

lemma on_net_settles:
  assumes "\<And>nw. net_shrinks nw (snd (snd (f nw)))" and "good app"
  shows "settles (\<lambda>m. on_net (E m) f app)"
proof -
  obtain x e nw where f: "f (sa_network app) = (x, e, nw)" by (cases "f (sa_network app)") auto
  obtain evs where evs: "nw_trace nw = nw_trace (sa_network app) @ evs"
      "live (nw_lines nw) + length (lost_callbacks evs) \<le> live (nw_lines (sa_network app))"
    using assms(1) [of "sa_network app"] f by (auto simp: net_shrinks_def)
  have "settles (\<lambda>m. run_callbacks (E m) (lost_callbacks evs) (app\<lparr>sa_network := nw\<rparr>))"
  proof (cases "lost_callbacks evs")
    case (Cons l ls)
    then have "conn (app\<lparr>sa_network := nw\<rparr>) < c" using evs(2) assms(2) by (simp add: good_def conn_def)
    then show ?thesis using assms(2) by (intro run_callbacks_settles) (simp_all add: good_def)
  qed simp
  then show ?thesis by (auto simp: on_net_def f evs(1) intro!: settles_app_then)
qed

lemma send_buffered_settles: "good app \<Longrightarrow> settles (\<lambda>m. send_buffered (E m) message request app)"
  unfolding send_buffered_def by (rule settles_app_then) (auto intro: on_net_settles net_send_shrinks)

lemma send_manifest1_settles:
  assumes "good app"
  shows "settles (\<lambda>m. send_manifest1 (E m) app)"
proof -
  have "good (app\<lparr>sa_next_manifest_id := n\<rparr>)" for n using assms by (simp add: good_def app_sane_def conn_def)
  then show ?thesis
    unfolding send_manifest1_def Let_def
    by (auto intro!: settles_cases settles_app_then on_net_settles send_control_shrinks)
qed

lemma recover_settles: "good app \<Longrightarrow> settles (\<lambda>m. recover_with_manifest1 (E m) app)"
  using good_evolves [OF each.recover_start_evolves]
  unfolding recover_with_manifest1_def
  by (auto simp: not_le intro!: settles_cases settles_app_then send_manifest1_settles)

lemma send_file_begin_settles: "good app \<Longrightarrow> settles (\<lambda>m. send_file_begin (E m) i k app)"
  unfolding send_file_begin_def Let_def by (auto intro!: settles_cases settles_app_then send_buffered_settles)

lemma try_send_settles: "good app \<Longrightarrow> settles (\<lambda>m. try_send_buffered_kind (E m) message kind sq off eoff sid fid app)"
  unfolding try_send_buffered_kind_def by (auto intro!: settles_app_then send_buffered_settles)

lemma send_append_settles: "good app \<Longrightarrow> settles (\<lambda>m. send_append_if_possible (E m) i k app)"
  unfolding send_append_if_possible_def send_append_create_def send_append_data_def Let_def env_sys env_fs
  by (auto intro!: settles_cases settles_app_then try_send_settles)

lemma apply_append_plan_settles: "good app \<Longrightarrow> settles (\<lambda>m. apply_append_plan (E m) i k diff app)"
  unfolding apply_append_plan_def Let_def
  by (auto intro!: settles_cases send_append_settles good_evolves [OF update_append_evolves])

lemma send_commit_settles: "good app \<Longrightarrow> settles (\<lambda>m. send_commit_if_possible (E m) i k app)"
  unfolding send_commit_if_possible_def Let_def by (auto intro!: settles_cases settles_app_then send_buffered_settles)

lemma maybe_drop_settles: "good app \<Longrightarrow> settles (\<lambda>m. maybe_drop_line_once (E m) line_id app)"
  unfolding maybe_drop_line_once_def
  by (auto simp: good_def app_sane_def conn_def net_mark_unavailable_shrinks intro!: settles_cases on_net_settles)

lemma send_chunk_settles:
  assumes "good app"
  shows "settles (\<lambda>m. send_chunk (E m) i k index app)"
proof -
  have sent: "settles (\<lambda>m. maybe_drop_line_once (E m) l (modify_task i k
      (\<lambda>t. t\<lparr>tk_chunk_resend := snd (mark_chunk_sent (tk_chunk_resend t) index l tick)\<rparr>) app1))" if "good app1" for app1 l tick
    using that by (auto intro!: maybe_drop_settles good_evolves [OF modify_task_evolves] simp: task_identity_def)
  show ?thesis
    unfolding send_chunk_def Let_def env_sys env_fs
    using assms sent
    by (auto intro!: settles_cases settles_app_then [OF recover_settles] settles_app_then [OF sent]
        then_evolves_settles [OF send_buffered_settles each.send_buffered_evolves])
qed

definition in_range :: "nat \<Rightarrow> nat \<Rightarrow> SenderApp \<Rightarrow> bool" where
  "in_range i k app \<longleftrightarrow> i < length (sa_streams app) \<and> k < length (st_tasks (stream_at app i))"

lemma in_range_keeps:
  assumes "keeps a b" "in_range i k a"
  shows "in_range i k b"
proof -
  have l: "length (sa_streams b) = length (sa_streams a)" using assms(1) by (metis keeps_def length_map)
  have "map stream_identity (sa_streams b) ! i = map stream_identity (sa_streams a) ! i" using assms(1) by (simp add: keeps_def)
  then have "stream_identity (stream_at b i) = stream_identity (stream_at a i)" using assms(2) l by (simp add: in_range_def)
  then have "map task_identity (st_tasks (stream_at b i)) = map task_identity (st_tasks (stream_at a i))"
    by (simp add: stream_identity_def)
  then show ?thesis using l assms(2) by (metis in_range_def length_map)
qed

lemma chunk_loop_settles: "good app \<Longrightarrow> in_range i k app \<Longrightarrow> settles (\<lambda>m. chunk_loop (E m) (m - j) i k app)"
proof (induction "(conn app, open_chunks (tk_chunk_resend (task_at app i k)))" arbitrary: app j
    rule: wf_induct_rule [OF wf_lex_prod [OF wf_less_than wf_less_than]])
  case 1
  show ?case
  proof (rule settles_eventually)
    show "settles (\<lambda>m. case next_unsent_chunk_index (task_at app i k) (sa_current_tick app) (current_rto_ticks app) of
        None \<Rightarrow> (Inr True, app)
      | Some index \<Rightarrow> app_then (send_chunk (E m) i k index app) (\<lambda>sent app1.
            if sent then chunk_loop (E m) (m - Suc j) i k app1 else (Inr False, app1)))"
    proof (intro settles_cases settles_const then_evolves_settles [OF send_chunk_settles each.send_chunk_evolves])
      fix index sent app1 m
      assume index: "next_unsent_chunk_index (task_at app i k) (sa_current_tick app) (current_rto_ticks app) = Some index"
        and s: "send_chunk (E m) i k index app = (Inr sent, app1)" and k: "keeps app app1" and g: "good app1" and sent: sent
      have "conn app1 < conn app \<or> open_chunks (tk_chunk_resend (task_at app1 i k)) < open_chunks (tk_chunk_resend (task_at app i k))"
        using each.send_chunk_progress [of m i k index app app1] s sent 1(2,3) index by (auto simp: good_def in_range_def)
      then show "settles (\<lambda>m. chunk_loop (E m) (m - Suc j) i k app1)"
        using 1(1) [OF _ g in_range_keeps [OF k 1(3)]] k by (auto simp: keeps_def le_less)
    qed (rule 1(2))+
    fix m assume "Suc j \<le> m"
    then have "m - j = Suc (m - Suc j)" by simp
    then show "chunk_loop (E m) (m - j) i k app = (case next_unsent_chunk_index (task_at app i k) (sa_current_tick app) (current_rto_ticks app) of
        None \<Rightarrow> (Inr True, app)
      | Some index \<Rightarrow> app_then (send_chunk (E m) i k index app) (\<lambda>sent app1.
            if sent then chunk_loop (E m) (m - Suc j) i k app1 else (Inr False, app1)))"
      by simp
  qed
qed

lemma schedule_chunk_work_settles: "good app \<Longrightarrow> in_range i k app \<Longrightarrow> settles (\<lambda>m. schedule_chunk_work (E m) i k app)"
  unfolding schedule_chunk_work_def env_rounds
  using chunk_loop_settles [where j = 0]
  by (auto intro!: settles_cases send_file_begin_settles then_evolves_settles [OF _ each.chunk_loop_evolves] send_commit_settles)


lemma retransmit_step:
  assumes "on_net (E n) (net_send message request) app = (Inr result, app1)" "sb_retransmit_queue (sa_send_buffer app) = key # keys"
  shows "conn app1 < conn app \<or> length (sb_retransmit_queue (sa_send_buffer (drop_queued (mark_task_retransmitted r l
    (app1\<lparr>sa_send_buffer := snd (mark_retransmitted (sa_send_buffer app1) key bytes tick)\<rparr>))))) < Suc (length keys)"
proof -
  have "sa_send_buffer (mark_task_retransmitted r l a) = sa_send_buffer a" for a
    by (auto simp: mark_task_retransmitted_def modify_task_def modify_stream_def split: option.splits)
  moreover have "sb_retransmit_queue (snd (mark_retransmitted b key bytes tick)) = sb_retransmit_queue b" for b
    by (auto simp: mark_retransmitted_def split: option.splits)
  ultimately show ?thesis
    using each.on_net_cases [of "net_send message request" app n] assms
    by (auto simp: net_send_shrinks drop_queued_def erase_retransmit_def)
qed

lemma retransmit_loop_settles: "good app \<Longrightarrow> settles (\<lambda>m. retransmit_loop (E m) (m - j) app)"
proof (induction "(conn app, length (sb_retransmit_queue (sa_send_buffer app)))" arbitrary: app j
    rule: wf_induct_rule [OF wf_lex_prod [OF wf_less_than wf_less_than]])
  case 1
  note IH = 1(1) and g = 1(2)
  define round where "round m = (case sb_retransmit_queue (sa_send_buffer app) of
        [] \<Rightarrow> (Inr True, app)
      | key # _ \<Rightarrow>
          (case buffer_find (sa_send_buffer app) key of
             None \<Rightarrow> retransmit_loop (E m) (m - Suc j) (drop_queued app)
           | Some buffered \<Rightarrow>
               if bs_nack_retries buffered \<ge> no_max_retransmit_retries (sa_options app)
               then app_then (recover_with_manifest1 (E m) (drop_queued app)) (\<lambda>_ app1. (Inr False, app1))
               else
                 app_then (on_net (E m) (net_send (bs_message buffered) (bs_request buffered)) app) (\<lambda>result app1.
                   if \<not> sr_sent result then (Inr False, app1)
                   else
                     retransmit_loop (E m) (m - Suc j)
                       (drop_queued (mark_task_retransmitted (bs_request buffered) (sr_line_id result)
                         (app1\<lparr>sa_send_buffer := snd (mark_retransmitted (sa_send_buffer app1) key (sr_bytes result)
                            (sa_current_tick app1))\<rparr>))))))" for m
  have dropped: "good (drop_queued app)" using g good_evolves [of app "drop_queued app"] by simp
  have "settles round"
  proof (cases "sb_retransmit_queue (sa_send_buffer app)")
    case Nil
    then show ?thesis by (simp add: round_def [abs_def])
  next
    case (Cons key keys)
    have shorter: "settles (\<lambda>m. retransmit_loop (E m) (m - Suc j) (drop_queued app))"
      by (rule IH [OF _ dropped]) (simp add: drop_queued_def erase_retransmit_def Cons conn_def)
    have sent: "settles (\<lambda>m. retransmit_loop (E m) (m - Suc j) (drop_queued (mark_task_retransmitted r l
        (app1\<lparr>sa_send_buffer := snd (mark_retransmitted (sa_send_buffer app1) key bytes tick)\<rparr>))))"
      if "on_net (E n) (net_send message request) app = (Inr result, app1)" "good app1" "keeps app app1" for app1 n message request result r l bytes tick
    proof (rule IH)
      let ?next = "drop_queued (mark_task_retransmitted r l (app1\<lparr>sa_send_buffer := snd (mark_retransmitted (sa_send_buffer app1) key bytes tick)\<rparr>))"
      have "evolves app1 ?next"
        using mark_task_retransmitted_evolves [of "app1\<lparr>sa_send_buffer := snd (mark_retransmitted (sa_send_buffer app1) key bytes tick)\<rparr>"] by simp
      then show "good ?next" using that(2) good_evolves by blast
      show "((conn ?next, length (sb_retransmit_queue (sa_send_buffer ?next))), conn app, length (sb_retransmit_queue (sa_send_buffer app))) \<in> less_than <*lex*> less_than"
        using retransmit_step [OF that(1) Cons, of r l bytes tick] that(3) Cons by (auto simp: keeps_def le_less)
    qed
    show ?thesis
      unfolding round_def [abs_def] Cons list.case
      using shorter sent g dropped
      by (auto intro!: settles_cases settles_app_then [OF recover_settles]
          then_evolves_settles [OF on_net_settles each.on_net_evolves] net_send_shrinks)
  qed
  then show ?case
  proof (rule settles_eventually)
    fix m assume "Suc j \<le> m"
    then have "m - j = Suc (m - Suc j)" by simp
    then show "retransmit_loop (E m) (m - j) app = round m" by (simp add: round_def)
  qed
qed

lemma flush_retransmits_settles: "good app \<Longrightarrow> settles (\<lambda>m. flush_retransmits (E m) app)"
  unfolding flush_retransmits_def env_rounds
  using retransmit_loop_settles [where j = 0] by (auto intro!: settles_cases)

lemma enqueue_expired_settles: "good app \<Longrightarrow> settles (\<lambda>m. enqueue_expired (E m) keys app)"
proof (induction keys arbitrary: app)
  case (Cons key keys)
  have "good (app\<lparr>sa_send_buffer := b\<rparr>)" for b using Cons.prems good_evolves [of app "app\<lparr>sa_send_buffer := b\<rparr>"] by simp
  then show ?case
    using Cons unfolding enqueue_expired.simps by (auto intro!: settles_cases recover_settles)
qed simp

lemma enqueue_rto_settles: "good app \<Longrightarrow> settles (\<lambda>m. enqueue_rto_retransmits (E m) app)"
  unfolding enqueue_rto_retransmits_def by (auto intro!: settles_cases enqueue_expired_settles)

lemma stream_work_settles:
  assumes "good app" "i < length (sa_streams app)"
  shows "settles (\<lambda>m. stream_work (E m) i app)"
proof -
  have "in_range i k app" if "active_index (stream_at app i) = Some k" for k
    using that assms(2) by (auto simp: in_range_def active_index_def split: if_splits)
  then show ?thesis
    unfolding stream_work_def Let_def using assms
    by (auto intro!: settles_cases send_append_settles schedule_chunk_work_settles)
qed

lemma streams_work_settles: "good app \<Longrightarrow> \<forall>i \<in> set is. i < length (sa_streams app) \<Longrightarrow> settles (\<lambda>m. streams_work (E m) is app)"
proof (induction "is" arbitrary: app)
  case (Cons i "is")
  have same_length: "length (sa_streams b) = length (sa_streams a)" if "keeps a b" for a b
    using that by (metis keeps_def length_map)
  show ?case
    unfolding streams_work.simps
    using Cons same_length
    by (intro then_evolves_settles [OF stream_work_settles each.stream_work_evolves]) auto
qed simp

lemma schedule_work_settles: "good app \<Longrightarrow> settles (\<lambda>m. schedule_work (E m) app)"
  unfolding schedule_work_def
  by (auto intro!: settles_cases then_evolves_settles [OF enqueue_rto_settles each.enqueue_rto_evolves]
      then_evolves_settles [OF flush_retransmits_settles each.flush_retransmits_evolves]
      settles_app_then [OF streams_work_settles])

lemma on_lost_sends_settles:
  assumes "good app"
  shows "settles (\<lambda>m. on_lost_sends (E m) lost app)"
  using good_evolves [OF lost_sends_evolves assms, of lost False]
  unfolding on_lost_sends_def
  by (auto intro!: settles_cases schedule_work_settles)

lemma advance_settles:
  assumes "good app"
  shows "settles (\<lambda>m. advance_stream_task (E m) i app)"
proof -
  have "good (next_position i app)" by (rule good_keeps [OF next_position_keeps assms])
  then show ?thesis
    unfolding advance_stream_task_def Let_def next_position_def [symmetric]
    by (auto intro!: settles_cases apply_append_plan_settles
        then_evolves_settles [OF send_file_begin_settles each.send_file_begin_evolves] schedule_work_settles)
qed

lemma on_connected_settles: "good app \<Longrightarrow> settles (\<lambda>m. on_connected (E m) line_id app)"
  unfolding on_connected_def
  by (auto intro!: settles_cases then_evolves_settles [OF send_manifest1_settles each.send_manifest1_evolves] schedule_work_settles)

lemma apply_manifest2_stream_settles:
  assumes "good app"
  shows "settles (\<lambda>m. apply_manifest2_stream (E m) manifest2 i app)"
proof -
  have "good (modify_stream i (\<lambda>_. stream1) app)" if "apply_manifest2_to_stream manifest2 (stream_at app i) = (r, stream1)" for r stream1
    by (rule good_keeps [OF apply_manifest2_keeps [OF that] assms])
  then show ?thesis
    unfolding apply_manifest2_stream_def Let_def
    by (auto intro!: settles_cases send_file_begin_settles apply_append_plan_settles)
qed

lemma apply_manifest2_streams_settles: "good app \<Longrightarrow> settles (\<lambda>m. apply_manifest2_streams (E m) manifest2 is app)"
proof (induction "is" arbitrary: app)
  case (Cons i "is")
  then show ?case
    unfolding apply_manifest2_streams.simps
    by (intro then_settles [OF apply_manifest2_stream_settles each.apply_manifest2_stream_keeps]) (auto intro!: settles_cases)
qed simp

lemma on_manifest2_settles: "good app \<Longrightarrow> settles (\<lambda>m. on_manifest2 (E m) manifest2 app)"
  unfolding on_manifest2_def
  by (rule then_settles [OF apply_manifest2_streams_settles each.apply_manifest2_streams_keeps])
     (auto intro!: settles_cases schedule_work_settles)

lemma append_heartbeat_settles: "good app \<Longrightarrow> settles (\<lambda>m. append_heartbeat (E m) i k heartbeat app)"
  unfolding append_heartbeat_def Let_def
  by (auto intro!: settles_cases advance_settles send_append_settles good_evolves [OF update_append_evolves])

lemma chunk_heartbeat_settles:
  assumes "good app"
  shows "settles (\<lambda>m. chunk_heartbeat_received (E m) i k heartbeat app)"
proof -
  obtain app3 where e: "evolves app app3"
    and eq: "\<And>m. chunk_heartbeat_received (E m) i k heartbeat app =
      (if tk_commit_sent (task_at app3 i k) \<and> hb_next_seq heartbeat > tk_seq (task_at app3 i k)
       then advance_stream_task (E m) i app3 else schedule_work (E m) app3)"
    by (rule chunk_heartbeat_start [of app i k heartbeat]) blast
  show ?thesis
    unfolding eq using good_evolves [OF e assms] by (auto intro!: settles_cases advance_settles schedule_work_settles)
qed

lemma on_heartbeat_settles:
  assumes "good app"
  shows "settles (\<lambda>m. sender_on_heartbeat (E m) line_id heartbeat app)"
proof -
  have "good (erase_completed_buffered heartbeat a)" if "good a" for a using good_evolves [OF _ that] by simp
  then show ?thesis
    unfolding sender_on_heartbeat_def Let_def
    using assms
    by (auto simp: net_on_heartbeat_shrinks intro!: then_evolves_settles [OF on_net_settles each.on_net_evolves] settles_cases
        append_heartbeat_settles chunk_heartbeat_settles)
qed

lemma nack_received_settles:
  assumes "good app"
  shows "settles (\<lambda>m. nack_received (E m) nack app)"
proof -
  have g: "good (app\<lparr>sa_send_buffer := b\<rparr>)" for b using good_evolves [OF _ assms] by simp
  obtain queued buf where n: "enqueue_nack_retransmit (sa_send_buffer app) nack (no_chunk_size (sa_options app)) = (queued, buf)"
    by fastforce
  show ?thesis
    unfolding nack_received_def n prod.case Let_def
    using g by (cases queued) (auto intro!: settles_cases schedule_work_settles settles_app_then [OF recover_settles])
qed

lemma on_message_settles: "good app \<Longrightarrow> settles (\<lambda>m. sender_on_message (E m) line_id message app)"
  unfolding sender_on_message_def
  by (cases message) (simp_all add: on_manifest2_settles on_heartbeat_settles nack_received_settles)

lemma tick_settles:
  assumes "good app"
  shows "settles (\<lambda>m. app_tick (E m) app)"
proof -
  have "good (app\<lparr>sa_current_tick := t\<rparr>)" for t using assms by (simp add: good_def app_sane_def conn_def)
  then show ?thesis
    unfolding app_tick_def
    by (auto simp: net_refill_shrinks intro!: settles_cases then_evolves_settles [OF on_net_settles each.on_net_evolves]
        schedule_work_settles)
qed

lemma rescan_settles:
  assumes "good app"
  shows "settles (\<lambda>m. rescan_timer (E m) app)"
proof -
  have "good (app\<lparr>sa_rescan_scheduled := False, sa_send_buffer := b, sa_done := False, sa_streams := streams\<rparr>)"
    if "build_source_streams sys fs (sa_options app) = Inr streams" for streams b
    using assms build_streams_sane [OF that] by (simp add: good_def app_sane_def conn_def)
  then show ?thesis
    unfolding rescan_timer_def rescan_and_send_manifest_def Let_def env_sys env_fs
    by (auto intro!: settles_cases send_manifest1_settles)
qed

lemma handle_settles: "good app \<Longrightarrow> settles (\<lambda>m. app_handle (E m) ev app)"
  unfolding app_handle_def
  by (cases ev) (simp_all add: on_connected_settles on_message_settles on_lost_sends_settles tick_settles rescan_settles)

end

section \<open>The bounds are only a device\<close>

lemma callback_settles: "settled (\<lambda>m. app_environment sys fs m (m - j)) sys fs c"
proof (induction c arbitrary: j)
  case 0
  show ?case by unfold_locales (simp_all add: app_environment_def lost_callback_evolves)
next
  case (Suc c)
  show ?case
  proof
    fix app lost
    assume "app_sane app" "conn app < Suc c"
    then have "settles (\<lambda>m. on_lost_sends (app_environment sys fs m (m - Suc j)) lost app)"
      using settled.on_lost_sends_settles [OF Suc [of "Suc j"]] by (simp add: settled.good_def [OF Suc [of "Suc j"]])
    then show "settles (\<lambda>m. ev_lost (app_environment sys fs m (m - j)) lost app)"
    proof (rule settles_eventually)
      fix m assume "Suc j \<le> m"
      then have "m - j = Suc (m - Suc j)" by simp
      then show "ev_lost (app_environment sys fs m (m - j)) lost app = on_lost_sends (app_environment sys fs m (m - Suc j)) lost app"
        by (simp add: app_environment_def)
    qed
  qed (simp_all add: app_environment_def lost_callback_evolves)
qed

interpretation bounded: settled "\<lambda>m. app_environment sys fs m (m - j)" sys fs c
  by (rule callback_settles)



end
