(* ===== verification/ReceiverApp.thy ===== *)
theory ReceiverApp
  imports Coordinator ReceiverNetwork NodeConfig
begin

text \<open>
  The receiver application, src/src/receiver/yisync_receiver_app.cpp, and the commit poller,
  src/src/receiver/yisync_commit_poller.cpp: messages of negotiated lines go to the coordinator, whose
  actions (NACKs, heartbeats, polls, the quiet stop, failure) are carried out on the network; a
  Manifest1 is compared with the receiver's own directories and answered.

  The map \<open>receiver_stream_roots_\<close> is shared with the coordinator, so it is the field \<open>co_roots\<close> of the
  coordinator. \<open>call_later\<close> adds a timer to the pending ones of the event loop; any of them may fire
  next. What the disk writer and the unordered containers leave open is given in a record: whether the
  writer's queue has room, whether the writer has failed, and in which order containers are walked.
  Log texts are not modelled.
\<close>

section \<open>The commit poller\<close>

record T_CommitCompletionPoller =
  cp_interval :: int
  cp_scheduled :: bool

definition make_CommitCompletionPoller :: "int \<Rightarrow> T_CommitCompletionPoller" where
  "make_CommitCompletionPoller interval = \<lparr>cp_interval = interval, cp_scheduled = False\<rparr>"

text \<open>The delay of the timer to start, if any.\<close>

definition poller_schedule :: "T_CommitCompletionPoller \<Rightarrow> int option \<times> T_CommitCompletionPoller" where
  "poller_schedule p =
     (if cp_scheduled p then (None, p) else (Some (cp_interval p), p\<lparr>cp_scheduled := True\<rparr>))"

definition poller_fired :: "T_CommitCompletionPoller \<Rightarrow> T_CommitCompletionPoller" where
  "poller_fired p = p\<lparr>cp_scheduled := False\<rparr>"

definition mark_idle :: "T_CommitCompletionPoller \<Rightarrow> T_CommitCompletionPoller" where
  "mark_idle p = p\<lparr>cp_scheduled := False\<rparr>"

section \<open>State\<close>

datatype receiver_timer = Heartbeat_tick | Commit_poll_tick | Quiet_stop u64 | Quiet_stop_retry u64 | Timeout_60s

record ReceiverApp =
  ra_options :: T_NodeOptions
  ra_coordinator :: T_ReceiverCoordinator
  ra_commit_poller :: T_CommitCompletionPoller
  ra_network :: T_ReceiverNetwork
  ra_timers :: "(int \<times> receiver_timer) list"
  ra_activity_generation :: u64
  ra_committed :: bool
  ra_failed :: bool
  ra_metrics_logged :: bool
  ra_loop_stopped :: bool

record receiver_env =
  nv_sys :: system
  nv_room :: "u64 \<Rightarrow> bool"
  nv_disk_failed :: bool
  nv_stream_order :: "u64 list \<Rightarrow> u64 list"
  nv_root_order :: "(u64 \<times> path) list \<Rightarrow> (u64 \<times> path) list"
  nv_key_order :: "T_HeartbeatKey list \<Rightarrow> T_HeartbeatKey list"

text \<open>An operation returns the exception it ends with, if any, and the state it leaves.\<close>

type_synonym receiver_step = "exn option \<times> ReceiverApp"

abbreviation rx_then :: "receiver_step \<Rightarrow> (ReceiverApp \<Rightarrow> receiver_step) \<Rightarrow> receiver_step" where
  "rx_then s k \<equiv> (case s of (Some e, app) \<Rightarrow> (Some e, app) | (None, app) \<Rightarrow> k app)"

definition call_later :: "int \<Rightarrow> receiver_timer \<Rightarrow> ReceiverApp \<Rightarrow> ReceiverApp" where
  "call_later delay timer app = app\<lparr>ra_timers := ra_timers app @ [(delay, timer)]\<rparr>"

definition root_path :: "T_NodeOptions \<Rightarrow> path" where
  "root_path options = path_parts (no_root options)"

definition receiver_stream_roots :: "ReceiverApp \<Rightarrow> (u64 \<times> path) list" where
  "receiver_stream_roots app = (case co_roots (ra_coordinator app) of None \<Rightarrow> [] | Some roots \<Rightarrow> roots)"

definition set_stream_root :: "u64 \<Rightarrow> path \<Rightarrow> ReceiverApp \<Rightarrow> ReceiverApp" where
  "set_stream_root stream_id root app =
     app\<lparr>ra_coordinator := (ra_coordinator app)\<lparr>co_roots := Some (AList.update stream_id root (receiver_stream_roots app))\<rparr>\<rparr>"

abbreviation app_fs :: "ReceiverApp \<Rightarrow> filesystem" where
  "app_fs app \<equiv> co_fs (ra_coordinator app)"

definition set_fs :: "filesystem \<Rightarrow> ReceiverApp \<Rightarrow> ReceiverApp" where
  "set_fs fs app = app\<lparr>ra_coordinator := (ra_coordinator app)\<lparr>co_fs := fs\<rparr>\<rparr>"

section \<open>Roots\<close>

text \<open>The parts of a sender's root that name directories, below the receiver's root.\<close>

definition mounted_source_root :: "T_NodeOptions \<Rightarrow> string \<Rightarrow> path" where
  "mounted_source_root options source_root =
     root_path options @ filter (\<lambda>part. \<not> (part = [] \<or> part = ''.'' \<or> part = ''..'')) (path_parts source_root)"

definition build_receiver_stream_roots :: "ReceiverApp \<Rightarrow> ReceiverApp" where
  "build_receiver_stream_roots app = set_stream_root kStreamId (root_path (ra_options app)) app"

fun unique_roots :: "(u64 \<times> path) list \<Rightarrow> (u64 \<times> path) list" where
  "unique_roots [] = []"
| "unique_roots [r] = [r]"
| "unique_roots (r # s # rest) =
     (if fst r = fst s then unique_roots (r # rest) else r # unique_roots (s # rest))"

definition manifest_roots :: "receiver_env \<Rightarrow> ReceiverApp \<Rightarrow> (u64 \<times> path) list result" where
  "manifest_roots env app =
     (let root = root_path (ra_options app);
          known = nv_root_order env (receiver_stream_roots app);
          roots = (if known = [] then [(kStreamId, root)] else known)
      in if \<not> fs_exists_ec (app_fs app) root then Inr roots
         else check_that (node_at (app_fs app) root = Some Dir)
           (filesystem_error ''directory iterator cannot open directory'')
           (Inr (unique_roots (sort_key fst (roots @ List.map_filter (\<lambda>q.
              case parse_stream_dir_name q of
                None \<Rightarrow> None
              | Some i \<Rightarrow> if i = kStreamId then None else Some (i, q)) (subdirectories (app_fs app) root))))))"

section \<open>Stopping\<close>

definition receiver_fail :: "ReceiverApp \<Rightarrow> ReceiverApp" where
  "receiver_fail app = app\<lparr>ra_failed := True, ra_loop_stopped := True\<rparr>"

definition log_metrics :: "ReceiverApp \<Rightarrow> ReceiverApp" where
  "log_metrics app = app\<lparr>ra_metrics_logged := True\<rparr>"

definition schedule_quiet_stop :: "ReceiverApp \<Rightarrow> ReceiverApp" where
  "schedule_quiet_stop app =
     (let generation = ra_activity_generation app + 1
      in call_later 750 (Quiet_stop generation) (app\<lparr>ra_committed := True, ra_activity_generation := generation\<rparr>))"

definition schedule_quiet_stop_retry :: "u64 \<Rightarrow> ReceiverApp \<Rightarrow> ReceiverApp" where
  "schedule_quiet_stop_retry generation app =
     call_later (no_receiver_heartbeat_interval (ra_options app)) (Quiet_stop_retry generation) app"

text \<open>The callback of both timers.\<close>

definition quiet_stop_fired :: "u64 \<Rightarrow> ReceiverApp \<Rightarrow> ReceiverApp" where
  "quiet_stop_fired generation app =
     (if no_watch (ra_options app) then app
      else if \<not> ra_failed app \<and> ra_committed app \<and> generation = ra_activity_generation app \<and>
        append_durable_idle (ra_coordinator app)
      then (log_metrics app)\<lparr>ra_loop_stopped := True\<rparr>
      else if \<not> ra_failed app \<and> ra_committed app \<and> generation = ra_activity_generation app
      then schedule_quiet_stop_retry generation app
      else app)"

section \<open>Actions\<close>

definition receiver_send :: "LineId \<Rightarrow> T_Message \<Rightarrow> ReceiverApp \<Rightarrow> receiver_step" where
  "receiver_send line_id msg app =
     (case rx_send_message line_id msg (ra_network app) of (e, nw) \<Rightarrow> (e, app\<lparr>ra_network := nw\<rparr>))"

definition send_nack :: "LineId \<Rightarrow> T_Nack \<Rightarrow> ReceiverApp \<Rightarrow> receiver_step" where
  "send_nack line_id nack app = receiver_send line_id (Msg_Nack nack) app"

fun send_nacks :: "T_ReceiverNackAction list \<Rightarrow> ReceiverApp \<Rightarrow> receiver_step" where
  "send_nacks [] app = (None, app)"
| "send_nacks (nack # nacks) app =
     (if na_only_if_line_open nack \<and> \<not> rx_can_send (ra_network app) (na_line_id nack) then send_nacks nacks app
      else rx_then (send_nack (na_line_id nack) (na_nack nack) app) (send_nacks nacks))"

definition on_heartbeats ::
  "((LineId \<Rightarrow> bool) \<Rightarrow> T_ReceiverHeartbeats \<Rightarrow> exn option \<times> T_ReceiverHeartbeats) \<Rightarrow> ReceiverApp \<Rightarrow> receiver_step" where
  "on_heartbeats f app = (case with_heartbeats f (ra_network app) of (e, nw) \<Rightarrow> (e, app\<lparr>ra_network := nw\<rparr>))"

fun send_heartbeats :: "receiver_env \<Rightarrow> T_ReceiverHeartbeatAction list \<Rightarrow> ReceiverApp \<Rightarrow> receiver_step" where
  "send_heartbeats env [] app = (None, app)"
| "send_heartbeats env (h # hs) app =
     (if ha_only_if_line_open h \<and> \<not> rx_can_send (ra_network app) (ha_line_id h) then send_heartbeats env hs app
      else
        rx_then (on_heartbeats (\<lambda>can_send. queue_heartbeat (nv_key_order env) can_send (ha_line_id h) (ha_heartbeat h)) app)
          (\<lambda>app1.
            rx_then
              (if ha_flush h
               then on_heartbeats (\<lambda>can_send. flush_heartbeats (nv_key_order env) can_send (ha_line_id h)) app1
               else (None, app1))
              (send_heartbeats env hs)))"

definition schedule_commit_poll :: "ReceiverApp \<Rightarrow> ReceiverApp" where
  "schedule_commit_poll app =
     (case poller_schedule (ra_commit_poller app) of
        (None, p) \<Rightarrow> app
      | (Some delay, p) \<Rightarrow> call_later delay Commit_poll_tick (app\<lparr>ra_commit_poller := p\<rparr>))"

definition execute_actions :: "receiver_env \<Rightarrow> T_ReceiverActionBatch \<Rightarrow> ReceiverApp \<Rightarrow> receiver_step" where
  "execute_actions env actions app =
     rx_then (send_nacks (ab_nacks actions) app) (\<lambda>app1.
     rx_then (send_heartbeats env (ab_heartbeats actions) app1) (\<lambda>app2.
       let app3 = (if ab_schedule_commit_poll actions then schedule_commit_poll app2 else app2);
           app4 = (if ab_schedule_quiet_stop actions then schedule_quiet_stop app3 else app3)
       in (None, if ab_failed actions then receiver_fail app4 else app4)))"

definition with_coordinator :: "receiver_env \<Rightarrow> (T_ReceiverCoordinator \<Rightarrow> coord_outcome) \<Rightarrow> ReceiverApp \<Rightarrow> receiver_step" where
  "with_coordinator env f app =
     (case f (ra_coordinator app) of
        (Inl e, co) \<Rightarrow> (Some e, app\<lparr>ra_coordinator := co\<rparr>)
      | (Inr actions, co) \<Rightarrow> execute_actions env actions (app\<lparr>ra_coordinator := co\<rparr>))"

section \<open>The manifest exchange\<close>

fun scan_receiver_streams ::
  "receiver_env \<Rightarrow> string list \<Rightarrow> T_Manifest1Stream list \<Rightarrow> ReceiverApp \<Rightarrow> T_Manifest1Stream list result \<times> ReceiverApp" where
  "scan_receiver_streams env names [] app = (Inr [], app)"
| "scan_receiver_streams env names (s # ss) app =
     (let root = (if ms_root s = [] then stream_root_for (ra_coordinator app) (ms_stream_id s)
                  else mounted_source_root (ra_options app) (ms_root s));
          app1 = set_stream_root (ms_stream_id s) root app
      in case create_directories (nv_sys env) (app_fs app1) root of
           (Some m, fs) \<Rightarrow> (Inl (filesystem_error m), set_fs fs app1)
         | (None, fs) \<Rightarrow>
             (case scan_manifest_stream (nv_sys env) fs (ms_stream_id s) root (4 * 1024 * 1024)
                     (if ms_stream_id s = kStreamId then names else []) [] of
                Inl e \<Rightarrow> (Inl e, set_fs fs app1)
              | Inr scanned \<Rightarrow>
                  (case scan_receiver_streams env names ss (set_fs fs app1) of
                     (Inl e, app2) \<Rightarrow> (Inl e, app2)
                   | (Inr rest, app2) \<Rightarrow> (Inr (scanned # rest), app2))))"

definition filename :: "path \<Rightarrow> string" where
  "filename p = (if p = [] then [] else last p)"

definition stream_dir_names :: "T_Manifest1 \<Rightarrow> (u64 \<times> path) list \<Rightarrow> string list" where
  "stream_dir_names manifest1 roots =
     remdups_adj (sort
       (map (\<lambda>s. to_string (unat (ms_stream_id s))) (filter (\<lambda>s. ms_stream_id s \<noteq> kStreamId) (m1_streams manifest1)) @
        map (\<lambda>(i, root). filename root) (filter (\<lambda>(i, root). i \<noteq> kStreamId) roots)))"

definition receiver_manifest_for_manifest1 ::
  "receiver_env \<Rightarrow> T_Manifest1 \<Rightarrow> ReceiverApp \<Rightarrow> T_Manifest1 result \<times> ReceiverApp" where
  "receiver_manifest_for_manifest1 env manifest1 app =
     (case manifest_roots env app of
        Inl e \<Rightarrow> (Inl e, app)
      | Inr roots \<Rightarrow>
          (case scan_receiver_streams env (stream_dir_names manifest1 roots) (m1_streams manifest1) app of
             (Inl e, app1) \<Rightarrow> (Inl e, app1)
           | (Inr streams, app1) \<Rightarrow> (Inr \<lparr>m1_manifest_id = m1_manifest_id manifest1, m1_streams = streams\<rparr>, app1)))"

text \<open>The answers for the streams in turn, or the stream that conflicts and why.\<close>

fun manifest2_streams :: "T_Manifest1Stream list \<Rightarrow> T_Manifest1Stream list \<Rightarrow> (u64 \<times> string) + T_Manifest2Stream list" where
  "manifest2_streams receiver [] = Inr []"
| "manifest2_streams receiver (s # ss) =
     (let entries = (case List.find (\<lambda>candidate. ms_stream_id candidate = ms_stream_id s) receiver of
            None \<Rightarrow> [] | Some candidate \<Rightarrow> ms_entries candidate)
      in case diff_stream (ms_stream_id s) (ms_entries s) entries of
           Inl ex \<Rightarrow> Inl (ms_stream_id s, exn_what ex)
         | Inr start \<Rightarrow>
             (case manifest2_streams receiver ss of
                Inl conflict \<Rightarrow> Inl conflict
              | Inr rest \<Rightarrow> Inr (make_manifest2_stream (ms_stream_id s) start # rest)))"

definition conflict_nack :: "u64 \<Rightarrow> string \<Rightarrow> T_Nack" where
  "conflict_nack stream_id what =
     \<lparr>nk_stream_id = stream_id, nk_got_seq = 0, nk_expected_seq = 0, nk_file_id = 0, nk_offset = 0,
      nk_expected_file_id = 0, nk_expected_offset = 0, nk_reason = SIZE_CONFLICT, nk_detail = what\<rparr>"

definition apply_manifest1 :: "receiver_env \<Rightarrow> LineId \<Rightarrow> T_Manifest1 \<Rightarrow> ReceiverApp \<Rightarrow> receiver_step" where
  "apply_manifest1 env line_id manifest1 app =
     (case receiver_manifest_for_manifest1 env manifest1 (app\<lparr>ra_committed := False\<rparr>) of
        (Inl e, app1) \<Rightarrow> (Some e, app1)
      | (Inr receiver_manifest, app1) \<Rightarrow>
          (case manifest2_streams (m1_streams receiver_manifest) (m1_streams manifest1) of
             Inl (stream_id, what) \<Rightarrow> send_nack line_id (conflict_nack stream_id what) app1
           | Inr streams \<Rightarrow>
               receiver_send line_id (Msg_Manifest2 \<lparr>m2_manifest_id = m1_manifest_id manifest1, m2_streams = streams\<rparr>) app1))"

section \<open>Messages and timers\<close>

definition receiver_on_message :: "receiver_env \<Rightarrow> LineId \<Rightarrow> T_Message \<Rightarrow> ReceiverApp \<Rightarrow> receiver_step" where
  "receiver_on_message env line_id message app0 =
     (let app = app0\<lparr>ra_activity_generation := ra_activity_generation app0 + 1\<rparr>
      in case message of
           Msg_Create create \<Rightarrow> with_coordinator env (coord_create (nv_sys env) line_id create) app
         | Msg_Data data \<Rightarrow> with_coordinator env (coord_data (nv_sys env) (nv_room env (da_stream_id data)) line_id data) app
         | Msg_FileBegin begin_msg \<Rightarrow> with_coordinator env (coord_begin (nv_sys env) line_id begin_msg) app
         | Msg_Chunk chunk \<Rightarrow> with_coordinator env (coord_chunk (nv_sys env) line_id chunk) app
         | Msg_FileCommit commit \<Rightarrow>
             with_coordinator env (coord_commit (nv_sys env) (nv_room env (fc_stream_id commit)) line_id commit) app
         | Msg_Manifest1 manifest1 \<Rightarrow> apply_manifest1 env line_id manifest1 app
         | _ \<Rightarrow> (None, receiver_fail app))"

definition poll_and_execute :: "receiver_env \<Rightarrow> ReceiverApp \<Rightarrow> receiver_step" where
  "poll_and_execute env app = with_coordinator env (poll_completions (nv_sys env) (nv_room env) (nv_stream_order env)) app"

definition check_disk_writer :: "receiver_env \<Rightarrow> ReceiverApp \<Rightarrow> bool \<times> ReceiverApp" where
  "check_disk_writer env app = (if \<not> nv_disk_failed env then (True, app) else (False, receiver_fail app))"

definition heartbeat_tick :: "receiver_env \<Rightarrow> ReceiverApp \<Rightarrow> receiver_step" where
  "heartbeat_tick env app =
     (if ra_failed app then (None, app)
      else case check_disk_writer env app of
        (False, app1) \<Rightarrow> (None, app1)
      | (True, app1) \<Rightarrow>
          rx_then (poll_and_execute env app1) (\<lambda>app2.
            if ra_failed app2 then (None, app2)
            else rx_then (on_heartbeats (flush_all_heartbeats (nv_key_order env)) app2) (\<lambda>app3.
              (None, call_later (no_receiver_heartbeat_interval (ra_options app3)) Heartbeat_tick app3))))"

definition commit_poll_tick :: "receiver_env \<Rightarrow> ReceiverApp \<Rightarrow> receiver_step" where
  "commit_poll_tick env app =
     (if ra_failed app then (None, app)
      else case check_disk_writer env app of
        (False, app1) \<Rightarrow> (None, app1)
      | (True, app1) \<Rightarrow>
          rx_then (poll_and_execute env app1) (\<lambda>app2.
            (None, if \<not> ra_failed app2 \<and> has_pending_chunk_commit (ra_coordinator app2) then schedule_commit_poll app2 else app2)))"

definition timeout_60s :: "ReceiverApp \<Rightarrow> ReceiverApp" where
  "timeout_60s app = (if \<not> no_watch (ra_options app) \<and> \<not> ra_committed app then receiver_fail app else app)"

definition timer_fired :: "receiver_env \<Rightarrow> receiver_timer \<Rightarrow> ReceiverApp \<Rightarrow> receiver_step" where
  "timer_fired env timer app =
     (case timer of
        Heartbeat_tick \<Rightarrow> heartbeat_tick env app
      | Commit_poll_tick \<Rightarrow> commit_poll_tick env (app\<lparr>ra_commit_poller := poller_fired (ra_commit_poller app)\<rparr>)
      | Quiet_stop generation \<Rightarrow> (None, quiet_stop_fired generation app)
      | Quiet_stop_retry generation \<Rightarrow> (None, quiet_stop_fired generation app)
      | Timeout_60s \<Rightarrow> (None, timeout_60s app))"

section \<open>Start and end\<close>

definition make_ReceiverApp :: "filesystem \<Rightarrow> T_NodeOptions \<Rightarrow> ReceiverApp" where
  "make_ReceiverApp fs options =
     build_receiver_stream_roots
       \<lparr>ra_options = options,
        ra_coordinator = \<lparr>co_default_root = root_path options, co_default_stream_id = kStreamId, co_roots = Some [],
          co_streams = [], co_recv_window_bytes = no_recv_window_bytes options,
          co_max_missing_ranges_per_heartbeat = no_max_missing_ranges_per_heartbeat options, co_completions = [],
          co_disk_tasks = [], co_fs = fs\<rparr>,
        ra_commit_poller = make_CommitCompletionPoller (no_receiver_commit_poll_interval options),
        ra_network = make_ReceiverNetwork (make_line_endpoints options)
          (make_hello RECEIVER ''receiver'' (ucast (no_chunk_size options)) (no_recv_window_bytes options)),
        ra_timers = [], ra_activity_generation = 0, ra_committed = False, ra_failed = False, ra_metrics_logged = False,
        ra_loop_stopped = False\<rparr>"

fun create_roots :: "system \<Rightarrow> path list \<Rightarrow> ReceiverApp \<Rightarrow> receiver_step" where
  "create_roots sys [] app = (None, app)"
| "create_roots sys (root # roots) app =
     (case create_directories sys (app_fs app) root of
        (Some m, fs) \<Rightarrow> (Some (filesystem_error m), set_fs fs app)
      | (None, fs) \<Rightarrow> create_roots sys roots (set_fs fs app))"

text \<open>\<open>run\<close> up to the event loop.\<close>

definition receiver_start :: "receiver_env \<Rightarrow> ReceiverApp \<Rightarrow> receiver_step" where
  "receiver_start env app =
     rx_then (create_roots (nv_sys env)
         (root_path (ra_options app) # map snd (nv_root_order env (receiver_stream_roots app))) app) (\<lambda>app1.
       let nw = ra_network app1;
           app2 = app1\<lparr>ra_network := nw\<lparr>rn_heartbeats :=
             set_heartbeat_ack_batch_size (no_heartbeat_ack_batch_size (ra_options app1)) (rn_heartbeats nw)\<rparr>\<rparr>
       in (None, call_later 60000 Timeout_60s
            (call_later (no_receiver_heartbeat_interval (ra_options app2)) Heartbeat_tick app2)))"

definition receiver_exit_code :: "ReceiverApp \<Rightarrow> int" where
  "receiver_exit_code app = (if ra_failed app \<or> \<not> ra_committed app then 1 else 0)"

section \<open>Events of the loop\<close>

text \<open>The callbacks \<open>run\<close> installs on the network; a closed line is only logged.\<close>

definition network_callback :: "receiver_env \<Rightarrow> rx_event \<Rightarrow> ReceiverApp \<Rightarrow> receiver_step" where
  "network_callback env event app =
     (case event of
        RX_message line_id message \<Rightarrow> receiver_on_message env line_id message app
      | RX_error line_id error \<Rightarrow> (None, receiver_fail app)
      | _ \<Rightarrow> (None, app))"

fun network_callbacks :: "receiver_env \<Rightarrow> rx_event list \<Rightarrow> ReceiverApp \<Rightarrow> receiver_step" where
  "network_callbacks env [] app = (None, app)"
| "network_callbacks env (event # events) app =
     rx_then (network_callback env event app) (network_callbacks env events)"

text \<open>A network operation calls back for each event it logs.\<close>

definition on_network :: "receiver_env \<Rightarrow> (T_ReceiverNetwork \<Rightarrow> rx_outcome) \<Rightarrow> ReceiverApp \<Rightarrow> receiver_step" where
  "on_network env f app =
     (case f (ra_network app) of
        (e, nw) \<Rightarrow>
          rx_then (network_callbacks env (drop (length (rn_trace (ra_network app))) (rn_trace nw)) (app\<lparr>ra_network := nw\<rparr>))
            (\<lambda>app1. (e, app1)))"

text \<open>A message read from a connection; an exception fails the connection, which reports the error.\<close>

definition message_arrived :: "receiver_env \<Rightarrow> LineId \<Rightarrow> T_Message \<Rightarrow> ReceiverApp \<Rightarrow> receiver_step" where
  "message_arrived env line_id message app =
     (case on_network env (rx_handle_message line_id message) app of
        (None, app1) \<Rightarrow> (None, app1)
      | (Some e, app1) \<Rightarrow> on_network env (\<lambda>nw. (None, rx_failed line_id (exn_what e) nw)) app1)"

datatype receiver_event =
    Line_accepted LineId
  | Message_arrived LineId T_Message
  | Line_closed LineId
  | Line_broken LineId string
  | Timer_fired nat
  | Disk_task_done

definition receiver_handle :: "receiver_env \<Rightarrow> receiver_event \<Rightarrow> ReceiverApp \<Rightarrow> receiver_step" where
  "receiver_handle env event app =
     (case event of
        Line_accepted i \<Rightarrow> on_network env (on_accept i) app
      | Message_arrived i message \<Rightarrow> message_arrived env i message app
      | Line_closed i \<Rightarrow> on_network env (\<lambda>nw. (None, rx_closed i nw)) app
      | Line_broken i error \<Rightarrow> on_network env (\<lambda>nw. (None, rx_failed i error nw)) app
      | Timer_fired k \<Rightarrow>
          if k < length (ra_timers app)
          then timer_fired env (snd (ra_timers app ! k))
                 (app\<lparr>ra_timers := take k (ra_timers app) @ drop (Suc k) (ra_timers app)\<rparr>)
          else (None, app)
      | Disk_task_done \<Rightarrow> (None, app\<lparr>ra_coordinator := run_disk_task (nv_sys env) (ra_coordinator app)\<rparr>))"

text \<open>The states of a run: started without an exception, then one event after the other. An exception
  that leaves a timer's callback ends the process.\<close>

inductive receiver_reachable :: "filesystem \<Rightarrow> T_NodeOptions \<Rightarrow> ReceiverApp \<Rightarrow> bool" for fs options where
  started: "receiver_start env (make_ReceiverApp fs options) = (None, app) \<Longrightarrow> receiver_reachable fs options app"
| handled: "receiver_reachable fs options app \<Longrightarrow> receiver_handle env event app = (None, app') \<Longrightarrow>
    receiver_reachable fs options app'"

end
