(* ===== verification/ReceiverRun.thy ===== *)
theory ReceiverRun
  imports ReceiverApp
begin

text \<open>
  What holds in every run of the receiver application: the streams a sender asks for are mounted below
  the configured root whatever roots it announces, a commit handed to the disk thread is polled until
  it is answered, and the process stops by itself only when nothing waits for the disk. A Manifest1
  is answered by one message, which says where each stream has to start.
\<close>

section \<open>Properties of the coordinator that its operations keep\<close>

text \<open>The operations of the coordinator change the file system, the queue of the disk writer, the
  completions and single stream contexts, and add contexts with the root of their stream. A property
  that survives these changes survives the operations; only \<open>queue_commit\<close> marks a commit as queued.\<close>

lemma new_context_simps [simp]:
  "sx_root (new_context i r) = r" "\<not> sx_chunk_commit_queued (new_context i r)"
  by (simp_all add: new_context_def)

lemma map_entry_twice: "AList.map_entry k f (AList.map_entry k g xs) = AList.map_entry k (\<lambda>v. f (g v)) xs"
  by (induction xs) auto

locale stream_contexts =
  fixes I :: "T_ReceiverCoordinator \<Rightarrow> bool"
  assumes I_fs: "I st \<Longrightarrow> I (st\<lparr>co_fs := fs\<rparr>)"
    and I_tasks: "I st \<Longrightarrow> I (st\<lparr>co_disk_tasks := tasks\<rparr>)"
    and I_completions: "I st \<Longrightarrow> I (st\<lparr>co_completions := completions\<rparr>)"
    and I_context: "I st \<Longrightarrow> (\<And>c. find_context st i = Some c \<Longrightarrow>
        sx_root (f c) = sx_root c \<and> (sx_chunk_commit_queued (f c) \<longrightarrow> sx_chunk_commit_queued c)) \<Longrightarrow> I (update_context i f st)"
    and I_new: "I st \<Longrightarrow> find_context st i = None \<Longrightarrow>
        I (st\<lparr>co_streams := AList.update i (new_context i (stream_root_for st i)) (co_streams st)\<rparr>)"
begin

lemma I_chunk: "I st \<Longrightarrow> I (update_context i (\<lambda>c. c\<lparr>sx_chunk := v\<rparr>) st)"
  by (rule I_context) simp_all

lemma I_append: "I st \<Longrightarrow> I (update_context i (\<lambda>c. c\<lparr>sx_append := v\<rparr>) st)"
  by (rule I_context) simp_all

lemma I_set_chunk: "I st \<Longrightarrow> I (set_chunk i r st)"
  unfolding set_chunk_def by (rule I_chunk)

lemma context_for_keeps:
  assumes "I st" shows "I (snd (context_for sys i st))"
proof (cases "find_context st i")
  case None
  obtain m fs where m: "create_directories sys (co_fs st) (stream_root_for st i) = (m, fs)" by fastforce
  have "stream_root_for (st\<lparr>co_fs := fs\<rparr>) i = stream_root_for st i" by (simp add: stream_root_for_def split: option.split)
  then have "I (st\<lparr>co_fs := fs, co_streams := AList.update i (new_context i (stream_root_for st i)) (co_streams st)\<rparr>)"
    using I_new [OF I_fs [OF assms, of fs], of i] None by simp
  with None m I_fs [OF assms] show ?thesis
    by (cases m) (simp_all add: context_for_def Let_def)
qed (simp add: context_for_def assms)

lemma append_receiver_for_keeps: "I st \<Longrightarrow> I (snd (append_receiver_for sys i st))"
  using context_for_keeps [of st sys i] unfolding append_receiver_for_def
  by (auto split: prod.splits sum.splits option.splits intro!: I_append I_fs)

lemma chunk_receiver_for_keeps: "I st \<Longrightarrow> I (snd (chunk_receiver_for sys i st))"
  using context_for_keeps [of st sys i] unfolding chunk_receiver_for_def
  by (auto split: prod.splits sum.splits option.splits intro!: I_chunk I_fs)

lemma refresh_chunk_keeps: "I st \<Longrightarrow> I (snd (refresh_chunk sys i st))"
  unfolding refresh_chunk_def by (auto split: sum.splits option.splits intro: I_chunk)

lemma reset_append_keeps: "I st \<Longrightarrow> I (update_context i (reset_append_durable_context k p n) st)"
  by (rule I_context) (simp_all add: reset_append_durable_context_def)

lemma reset_append_line_keeps:
  "I st \<Longrightarrow> I (update_context i (\<lambda>c. reset_append_durable_context k p n (c\<lparr>sx_append_heartbeat_line_id := l\<rparr>)) st)"
  by (rule I_context) (simp_all add: reset_append_durable_context_def)

end

lemma maybe_enqueue_frame:
  "sx_root (fst (maybe_enqueue_append_fsync room n c)) = sx_root c"
  "sx_chunk_commit_queued (fst (maybe_enqueue_append_fsync room n c)) = sx_chunk_commit_queued c"
  by (simp_all add: maybe_enqueue_append_fsync_def Let_def)

lemma poll_append_frame:
  "sx_root (fst (fst (poll_append_fsync room w c a))) = sx_root c"
  "sx_chunk_commit_queued (fst (fst (poll_append_fsync room w c a))) = sx_chunk_commit_queued c"
  by (simp_all add: poll_append_fsync_def Let_def maybe_enqueue_frame)

lemma poll_chunk_frame:
  assumes "poll_chunk_commit sys fs w cs c a = (e, c', a')"
  shows "sx_root c' = sx_root c \<and> (sx_chunk_commit_queued c' \<longrightarrow> sx_chunk_commit_queued c)"
  using assms
  by (auto simp: poll_chunk_commit_def commit_failed_def commit_completed_def clear_chunk_commit_def Let_def
      split: if_splits option.splits sum.splits prod.splits)

context stream_contexts
begin

lemma enqueue_fsync_keeps: "I st \<Longrightarrow> I (enqueue_fsync room i n st)"
  using maybe_enqueue_frame
  by (auto simp: enqueue_fsync_def split: option.splits prod.splits intro!: I_context I_tasks)
    (metis fst_conv)+

lemma coord_create_keeps: "I st \<Longrightarrow> I (snd (coord_create sys line msg st))"
  using append_receiver_for_keeps [of st sys "cr_stream_id msg"] unfolding coord_create_def
  by (auto simp: Let_def split: prod.splits sum.splits option.splits dest!: arg_cong [where f = snd]
      intro!: I_append I_fs reset_append_keeps refresh_chunk_keeps)

lemma coord_data_keeps: "I st \<Longrightarrow> I (snd (coord_data sys room line msg st))"
  using append_receiver_for_keeps [of st sys "da_stream_id msg"] unfolding coord_data_def
  by (auto simp: Let_def split: prod.splits sum.splits option.splits dest!: arg_cong [where f = snd]
      intro!: I_append I_fs reset_append_line_keeps refresh_chunk_keeps enqueue_fsync_keeps)

lemma coord_begin_keeps: "I st \<Longrightarrow> I (snd (coord_begin sys line msg st))"
  using chunk_receiver_for_keeps [of st sys "fb_stream_id msg"] unfolding coord_begin_def
  by (auto simp: Let_def split: prod.splits sum.splits option.splits intro!: I_set_chunk I_fs)

lemma coord_chunk_keeps: "I st \<Longrightarrow> I (snd (coord_chunk sys line msg st))"
  using chunk_receiver_for_keeps [of st sys "ch_stream_id msg"] unfolding coord_chunk_def
  by (auto simp: Let_def split: prod.splits sum.splits option.splits intro!: I_set_chunk I_fs)

lemma duplicate_commit_keeps: "I st \<Longrightarrow> I (snd (duplicate_commit sys line msg r st))"
  by (simp add: duplicate_commit_def split: sum.split)

text \<open>Marking a commit as queued is the one step to look at; it comes with a request to poll, or is
  taken back when the disk writer has no room.\<close>

lemma queue_commit_outcome:
  assumes "I st"
  shows "I (snd (queue_commit room line msg r task st)) \<or>
    fst (queue_commit room line msg r task st) = Inr (no_actions\<lparr>ab_schedule_commit_poll := True\<rparr>)"
proof (cases room)
  case False
  have cleared: "update_context i clear_chunk_commit (set_chunk i r1 (update_context i f st1)) =
      update_context i (\<lambda>c. clear_chunk_commit ((f c)\<lparr>sx_chunk := Some r1\<rparr>)) st1" for i r1 f st1
    by (simp add: update_context_def set_chunk_def map_entry_twice)
  show ?thesis
    using I_completions [OF assms] False
    by (auto simp: queue_commit_def Let_def cleared clear_chunk_commit_def intro!: I_context)
qed (simp add: queue_commit_def Let_def)

lemma coord_commit_outcome:
  assumes "I st"
  shows "I (snd (coord_commit sys room line msg st)) \<or>
    fst (coord_commit sys room line msg st) = Inr (no_actions\<lparr>ab_schedule_commit_poll := True\<rparr>)"
proof -
  obtain r1 st1 where 1: "context_for sys (fc_stream_id msg) st = (r1, st1)" by fastforce
  then have I1: "I st1" using context_for_keeps [OF assms, of sys "fc_stream_id msg"] by simp
  obtain r2 st2 where 2: "chunk_receiver_for sys (fc_stream_id msg) st1 = (r2, st2)" by fastforce
  then have I2: "I st2" using chunk_receiver_for_keeps [OF I1, of sys "fc_stream_id msg"] by simp
  from I2 show ?thesis
    using I1 unfolding coord_commit_def 1 prod.case 2
    by (auto simp: Let_def split: sum.split prod.split option.split
        intro: I_set_chunk duplicate_commit_keeps)
      (metis I_set_chunk queue_commit_outcome)
qed

lemma poll_streams_keeps: "I st \<Longrightarrow> I (snd (poll_streams sys room ids actions st))"
proof (induction sys room ids actions st rule: poll_streams.induct)
  case (2 sys room i ids actions st)
  show ?case
  proof (cases "find_context st i")
    case (Some c)
    obtain c1 ts a1 where p: "poll_append_fsync (room i) (co_recv_window_bytes st) c actions = ((c1, ts), a1)"
      by (metis prod.exhaust)
    define st1 where "st1 = update_context i (\<lambda>_. c1) (st\<lparr>co_disk_tasks := co_disk_tasks st @ ts\<rparr>)"
    obtain e c2 a2 where q: "poll_chunk_commit sys (co_fs st1) (co_recv_window_bytes st1) (co_completions st1) c1 a1 = (e, c2, a2)"
      by (metis prod.exhaust)
    have f1: "sx_root c1 = sx_root c \<and> sx_chunk_commit_queued c1 = sx_chunk_commit_queued c"
      using poll_append_frame [of "room i" "co_recv_window_bytes st" c actions] p by simp
    have I1: "I st1"
      unfolding st1_def using I_tasks [OF 2(3), of "co_disk_tasks st @ ts"] f1 Some by (intro I_context) auto
    have "find_context st1 i = Some c1" using Some by (simp add: st1_def)
    with I1 poll_chunk_frame [OF q] have I2: "I (update_context i (\<lambda>_. c2) st1)" by (intro I_context) auto
    show ?thesis
      using I1 I2 2(2) [OF Some p [symmetric] refl st1_def _ q [symmetric] refl refl] p q Some
      by (simp add: st1_def [symmetric] Let_def split: option.split)
  qed (use 2 in simp)
qed simp

lemma poll_completions_keeps: "I st \<Longrightarrow> I (snd (poll_completions sys room order st))"
  unfolding poll_completions_def by (rule poll_streams_keeps)

lemma set_completion_keeps: "I st \<Longrightarrow> I (set_completion cell f st)"
  by (simp add: set_completion_def I_completions)

lemma run_disk_task_keeps: "I st \<Longrightarrow> I (run_disk_task sys st)"
  unfolding run_disk_task_def
  by (auto split: list.split disk_task.split prod.split sum.split intro!: set_completion_keeps I_context I_fs I_tasks)
    (auto split: sum.splits)

end

text \<open>A property that does not look at whether a commit is queued survives every operation.\<close>

locale any_context = stream_contexts +
  assumes I_any_context: "I st \<Longrightarrow> (\<And>c. find_context st i = Some c \<Longrightarrow> sx_root (f c) = sx_root c) \<Longrightarrow> I (update_context i f st)"
begin

lemma queue_commit_keeps: "I st \<Longrightarrow> I (snd (queue_commit room line msg r task st))"
  by (auto simp: queue_commit_def Let_def clear_chunk_commit_def
      intro!: I_tasks I_any_context I_set_chunk I_completions)

lemma coord_commit_keeps:
  assumes "I st" shows "I (snd (coord_commit sys room line msg st))"
proof -
  obtain r1 st1 where 1: "context_for sys (fc_stream_id msg) st = (r1, st1)" by fastforce
  then have I1: "I st1" using context_for_keeps [OF assms, of sys "fc_stream_id msg"] by simp
  obtain r2 st2 where 2: "chunk_receiver_for sys (fc_stream_id msg) st1 = (r2, st2)" by fastforce
  then have I2: "I st2" using chunk_receiver_for_keeps [OF I1, of sys "fc_stream_id msg"] by simp
  from I2 show ?thesis
    using I1 unfolding coord_commit_def 1 prod.case 2
    by (auto simp: Let_def split: sum.split prod.split option.split
        intro: I_set_chunk duplicate_commit_keeps queue_commit_keeps)
qed

end

section \<open>What the application's helpers leave alone\<close>

lemma rx_then_holds: "P (snd s) \<Longrightarrow> (\<And>a. P a \<Longrightarrow> P (snd (k a))) \<Longrightarrow> P (snd (rx_then s k))"
  by (cases s) (auto split: option.split)

definition net_only :: "ReceiverApp \<Rightarrow> ReceiverApp \<Rightarrow> bool" where
  "net_only app app' \<longleftrightarrow> (\<exists>nw. app' = app\<lparr>ra_network := nw\<rparr>)"

lemma net_only_refl [simp]: "net_only app app"
  unfolding net_only_def by (rule exI [of _ "ra_network app"]) simp

lemma net_only_update [simp]: "net_only app (app\<lparr>ra_network := nw\<rparr>)"
  by (auto simp: net_only_def)

lemma net_only_trans: "net_only a b \<Longrightarrow> net_only b c \<Longrightarrow> net_only a c"
  by (auto simp: net_only_def)

lemma net_only_fields:
  assumes "net_only app app'"
  shows "ra_options app' = ra_options app" "ra_coordinator app' = ra_coordinator app"
    "ra_commit_poller app' = ra_commit_poller app" "ra_timers app' = ra_timers app"
    "ra_activity_generation app' = ra_activity_generation app" "ra_committed app' = ra_committed app"
    "ra_failed app' = ra_failed app" "ra_loop_stopped app' = ra_loop_stopped app"
  using assms by (auto simp: net_only_def)

lemma receiver_send_net: "net_only app (snd (receiver_send line msg app))"
  by (simp add: receiver_send_def split: prod.split)

lemma on_heartbeats_net: "net_only app (snd (on_heartbeats f app))"
  by (simp add: on_heartbeats_def split: prod.split)

lemma send_nacks_net: "net_only app (snd (send_nacks ns app))"
proof (induction ns arbitrary: app)
  case (Cons n ns)
  have "net_only app (snd (rx_then (send_nack (na_line_id n) (na_nack n) app) (send_nacks ns)))"
    unfolding send_nack_def by (rule rx_then_holds [where P = "net_only app", OF receiver_send_net]) (rule net_only_trans [OF _ Cons.IH])
  with Cons.IH show ?case by simp
qed simp

lemma send_heartbeats_net: "net_only app (snd (send_heartbeats env hs app))"
proof (induction hs arbitrary: app)
  case (Cons h hs)
  have "net_only app (snd (rx_then (on_heartbeats (\<lambda>can_send. queue_heartbeat (nv_key_order env) can_send (ha_line_id h) (ha_heartbeat h)) app)
      (\<lambda>app1. rx_then (if ha_flush h
         then on_heartbeats (\<lambda>can_send. flush_heartbeats (nv_key_order env) can_send (ha_line_id h)) app1
         else (None, app1)) (send_heartbeats env hs))))"
    by (rule rx_then_holds [where P = "net_only app", OF on_heartbeats_net], rule rx_then_holds [where P = "net_only app"], simp, metis net_only_trans on_heartbeats_net)
      (rule net_only_trans [OF _ Cons.IH])
  with Cons.IH show ?case by simp
qed simp

text \<open>Carrying out actions: messages on the network, then the timers and the failure asked for.\<close>

lemma execute_actions_relation:
  assumes trans: "\<And>a b c. R a b \<Longrightarrow> R b c \<Longrightarrow> R a c" and net: "\<And>a b. net_only a b \<Longrightarrow> R a b"
    and poll: "\<And>a. R a (schedule_commit_poll a)" and quiet: "\<And>a. R a (schedule_quiet_stop a)" and failing: "\<And>a. R a (receiver_fail a)"
  shows "R app (snd (execute_actions env actions app))"
  unfolding execute_actions_def Let_def
proof (intro rx_then_holds [where P = "R app"])
  show "R app (snd (send_nacks (ab_nacks actions) app))" by (rule net [OF send_nacks_net])
  fix app1 assume 1: "R app app1"
  show "R app (snd (send_heartbeats env (ab_heartbeats actions) app1))"
    by (rule trans [OF 1 net [OF send_heartbeats_net]])
  fix app2 assume 2: "R app app2"
  have cond: "(\<And>a. R a (f a)) \<Longrightarrow> R app a \<Longrightarrow> R app (if p then f a else a)" for p f a
    by (auto intro: trans)
  show "R app (snd (None, if ab_failed actions
      then receiver_fail (if ab_schedule_quiet_stop actions
        then schedule_quiet_stop (if ab_schedule_commit_poll actions then schedule_commit_poll app2 else app2)
        else if ab_schedule_commit_poll actions then schedule_commit_poll app2 else app2)
      else if ab_schedule_quiet_stop actions
        then schedule_quiet_stop (if ab_schedule_commit_poll actions then schedule_commit_poll app2 else app2)
        else if ab_schedule_commit_poll actions then schedule_commit_poll app2 else app2))"
    unfolding snd_conv by (intro cond poll quiet failing 2)
qed

text \<open>The root at which a stream of a Manifest1 is mounted.\<close>

definition announced_root :: "ReceiverApp \<Rightarrow> T_Manifest1Stream \<Rightarrow> path" where
  "announced_root app s = (if ms_root s = [] then stream_root_for (ra_coordinator app) (ms_stream_id s)
     else mounted_source_root (ra_options app) (ms_root s))"

lemma scan_receiver_streams_relation:
  assumes refl: "\<And>a. R a a" and trans: "\<And>a b c. R a b \<Longrightarrow> R b c \<Longrightarrow> R a c"
    and mount: "\<And>a s fs. R a (set_fs fs (set_stream_root (ms_stream_id s) (announced_root a s) a))"
  shows "R app (snd (scan_receiver_streams env names ss app))"
proof (induction ss arbitrary: app)
  case (Cons s ss)
  define app1 where "app1 = set_stream_root (ms_stream_id s) (announced_root app s) app"
  have 1: "R app (set_fs fs app1)" for fs unfolding app1_def by (rule mount)
  have 2: "R app app2" if "scan_receiver_streams env names ss (set_fs fs app1) = (r, app2)" for fs r app2
    using trans [OF 1 Cons.IH, of fs] that by simp
  show ?case
    using 1 2 unfolding scan_receiver_streams.simps announced_root_def [symmetric] app1_def [symmetric] Let_def
    by (auto split: prod.split option.split sum.split)
qed (simp add: refl)

text \<open>What relates the states before and after each step a message can cause relates the states before
  and after the message, whether or not an exception is thrown.\<close>

locale step_relation =
  fixes R :: "ReceiverApp \<Rightarrow> ReceiverApp \<Rightarrow> bool"
  assumes R_refl: "R app app"
    and R_trans: "R a b \<Longrightarrow> R b c \<Longrightarrow> R a c"
    and R_net: "net_only app app' \<Longrightarrow> R app app'"
    and R_activity: "R app (app\<lparr>ra_activity_generation := g\<rparr>)"
    and R_uncommitted: "R app (app\<lparr>ra_committed := False\<rparr>)"
    and R_fail: "R app (receiver_fail app)"
    and R_mount: "R app (set_fs fs (set_stream_root (ms_stream_id s) (announced_root app s) app))"
    and R_create: "R app (snd (with_coordinator env (coord_create sys line create) app))"
    and R_data: "R app (snd (with_coordinator env (coord_data sys room line data) app))"
    and R_begin: "R app (snd (with_coordinator env (coord_begin sys line begin_msg) app))"
    and R_chunk: "R app (snd (with_coordinator env (coord_chunk sys line chunk) app))"
    and R_commit: "R app (snd (with_coordinator env (coord_commit sys room line commit) app))"
begin

lemmas scan_receiver_streams_related = scan_receiver_streams_relation [of R, OF R_refl R_trans R_mount]

lemma apply_manifest1_related: "R app (snd (apply_manifest1 env line m app))"
proof -
  have m: "R app app1" if "receiver_manifest_for_manifest1 env m (app\<lparr>ra_committed := False\<rparr>) = (r, app1)" for r app1
    using that R_uncommitted [of app] R_trans [OF R_uncommitted scan_receiver_streams_related]
    by (auto simp: receiver_manifest_for_manifest1_def split: sum.splits prod.splits dest!: arg_cong [where f = snd])
  show ?thesis
    using m R_trans [OF m R_net [OF receiver_send_net]]
    by (auto simp: apply_manifest1_def send_nack_def split: prod.split sum.split)
qed

lemma on_message_related: "R app (snd (receiver_on_message env line msg app))"
  unfolding receiver_on_message_def Let_def
  by (rule R_trans [OF R_activity [of _ "ra_activity_generation app + 1"]], cases msg)
    (simp_all add: R_create R_data R_begin R_chunk R_commit R_fail apply_manifest1_related)

lemma network_callbacks_related: "R app (snd (network_callbacks env events app))"
proof (induction events arbitrary: app)
  case (Cons ev events)
  have "R app (snd (network_callback env ev app))"
    by (simp add: network_callback_def on_message_related R_fail R_refl split: rx_event.split)
  then show ?case
    unfolding network_callbacks.simps by (rule rx_then_holds [where P = "R app"]) (rule R_trans [OF _ Cons.IH])
qed (simp add: R_refl)

lemma on_network_related: "R app (snd (on_network env f app))"
proof -
  obtain e nw where f: "f (ra_network app) = (e, nw)" by fastforce
  show ?thesis
    unfolding on_network_def f prod.case
    by (rule rx_then_holds [where P = "R app"], rule R_trans [OF R_net [OF net_only_update] network_callbacks_related]) simp
qed

lemma message_arrived_related: "R app (snd (message_arrived env line msg app))"
  using on_network_related [of app env "rx_handle_message line msg"]
  by (auto simp: message_arrived_def split: prod.split option.split intro: R_trans on_network_related)

end

section \<open>Streams stay below the configured root\<close>

definition below_root :: "path \<Rightarrow> path \<Rightarrow> bool" where
  "below_root base p \<longleftrightarrow> is_prefix base p \<and> list_all proper (drop (length base) p)"

definition coordinator_confined :: "path \<Rightarrow> T_ReceiverCoordinator \<Rightarrow> bool" where
  "coordinator_confined base co \<longleftrightarrow> co_default_root co = base \<and>
     (\<forall>roots. co_roots co = Some roots \<longrightarrow> (\<forall>(i, root) \<in> set roots. below_root base root)) \<and>
     (\<forall>(i, context) \<in> set (co_streams co). below_root base (sx_root context))"

lemma below_root_append: "below_root base (base @ rel) \<longleftrightarrow> list_all proper rel"
  by (simp add: below_root_def is_prefix_def)

lemma proper_to_string: "proper (to_string n)"
  using to_string_digits [of n] by (auto simp: proper_def is_digit_def)

lemma stream_root_below:
  assumes "coordinator_confined base co" shows "below_root base (stream_root_for co i)"
  using assms below_root_append [of base "[]"] below_root_append [of base "[to_string (unat i)]"] proper_to_string
  by (auto simp: coordinator_confined_def stream_root_for_def split: option.split dest!: map_of_SomeD)

lemma mounted_root_below: "below_root (root_path options) (mounted_source_root options source_root)"
  unfolding mounted_source_root_def below_root_append by (auto simp: list_all_iff proper_def)

lemma set_map_entry:
  assumes "\<forall>(j, c) \<in> set xs. P c" "\<And>c. map_of xs i = Some c \<Longrightarrow> P c \<Longrightarrow> P (f c)"
  shows "\<forall>(j, c) \<in> set (AList.map_entry i f xs). P c"
  using assms by (induction xs) (auto split: if_splits)

lemma set_alist_update:
  assumes "\<forall>(j, c) \<in> set xs. P c" "P v" shows "\<forall>(j, c) \<in> set (AList.update i v xs). P c"
  using assms by (induction xs) auto

lemma confined_update_context:
  assumes "coordinator_confined base st" "\<And>c. find_context st i = Some c \<Longrightarrow> sx_root (f c) = sx_root c"
  shows "coordinator_confined base (update_context i f st)"
  using assms set_map_entry [of "co_streams st" "\<lambda>c. below_root base (sx_root c)" i f]
  by (simp add: coordinator_confined_def update_context_def)

lemma confined_new_context:
  assumes "coordinator_confined base st"
  shows "coordinator_confined base (st\<lparr>co_streams := AList.update i (new_context i (stream_root_for st i)) (co_streams st)\<rparr>)"
  using assms stream_root_below [of base st i]
    set_alist_update [of "co_streams st" "\<lambda>c. below_root base (sx_root c)" "new_context i (stream_root_for st i)" i]
  by (simp add: coordinator_confined_def)

interpretation confined: any_context "coordinator_confined base" for base
  by unfold_locales (auto intro: confined_update_context confined_new_context, simp_all add: coordinator_confined_def)

text \<open>The application: its options never change, and its coordinator stays confined.\<close>

definition app_confined :: "ReceiverApp \<Rightarrow> bool" where
  "app_confined app \<longleftrightarrow> coordinator_confined (root_path (ra_options app)) (ra_coordinator app)"

definition confines :: "ReceiverApp \<Rightarrow> ReceiverApp \<Rightarrow> bool" where
  "confines app app' \<longleftrightarrow> ra_options app' = ra_options app \<and> (app_confined app \<longrightarrow> app_confined app')"

lemma confines_refl [simp]: "confines app app"
  by (simp add: confines_def)

lemma confines_trans: "confines a b \<Longrightarrow> confines b c \<Longrightarrow> confines a c"
  by (simp add: confines_def)

lemma confines_same:
  "ra_options app' = ra_options app \<Longrightarrow> ra_coordinator app' = ra_coordinator app \<Longrightarrow> confines app app'"
  by (simp add: confines_def app_confined_def)

lemma confines_net: "net_only app app' \<Longrightarrow> confines app app'"
  by (rule confines_same) (simp_all add: net_only_fields)

lemma confines_coordinator:
  "(\<And>base. coordinator_confined base (ra_coordinator app) \<Longrightarrow> coordinator_confined base co) \<Longrightarrow>
   confines app (app\<lparr>ra_coordinator := co\<rparr>)"
  by (simp add: confines_def app_confined_def)

lemma timers_confine [simp]:
  "confines app (call_later d t app)" "confines app (schedule_commit_poll app)" "confines app (schedule_quiet_stop app)"
  "confines app (receiver_fail app)" "confines app (quiet_stop_fired g app)" "confines app (timeout_60s app)"
  by (rule confines_same; simp add: call_later_def schedule_commit_poll_def poller_schedule_def schedule_quiet_stop_def
      receiver_fail_def quiet_stop_fired_def schedule_quiet_stop_retry_def log_metrics_def timeout_60s_def Let_def)+

lemmas execute_actions_confines =
  execute_actions_relation [of confines, OF confines_trans confines_net timers_confine(2-4)]

lemma with_coordinator_confines:
  assumes "\<And>base st. coordinator_confined base st \<Longrightarrow> coordinator_confined base (snd (f st))"
  shows "confines app (snd (with_coordinator env f app))"
proof -
  obtain r co where f: "f (ra_coordinator app) = (r, co)" by fastforce
  have "confines app (app\<lparr>ra_coordinator := co\<rparr>)"
    by (rule confines_coordinator) (use assms [of _ "ra_coordinator app"] f in simp)
  with f show ?thesis
    by (cases r) (auto simp: with_coordinator_def intro: confines_trans execute_actions_confines)
qed

lemma set_stream_root_confined:
  assumes "app_confined app" "below_root (root_path (ra_options app)) root"
  shows "app_confined (set_stream_root i root app)"
proof -
  let ?base = "root_path (ra_options app)"
  have "\<forall>(j, r) \<in> set (receiver_stream_roots app). below_root ?base r"
    using assms(1) by (cases "co_roots (ra_coordinator app)")
      (simp_all add: app_confined_def coordinator_confined_def receiver_stream_roots_def)
  from set_alist_update [of _ "below_root ?base", OF this assms(2)] assms(1) show ?thesis
    by (simp add: app_confined_def coordinator_confined_def set_stream_root_def)
qed

lemma set_stream_root_options [simp]: "ra_options (set_stream_root i root app) = ra_options app"
  by (simp add: set_stream_root_def)

lemma set_fs_confines [simp]: "confines app (set_fs fs app)"
  unfolding set_fs_def by (rule confines_coordinator) (rule confined.I_fs)

lemma mount_confines: "confines app (set_fs fs (set_stream_root (ms_stream_id s) (announced_root app s) app))"
proof (rule confines_trans [OF _ set_fs_confines])
  have "below_root (root_path (ra_options app)) (announced_root app s)" if "app_confined app"
    using that stream_root_below mounted_root_below by (simp add: announced_root_def app_confined_def)
  then show "confines app (set_stream_root (ms_stream_id s) (announced_root app s) app)"
    by (simp add: confines_def set_stream_root_confined)
qed

lemmas coordinator_confines = with_coordinator_confines [OF confined.coord_create_keeps]
  with_coordinator_confines [OF confined.coord_data_keeps] with_coordinator_confines [OF confined.coord_begin_keeps]
  with_coordinator_confines [OF confined.coord_chunk_keeps] with_coordinator_confines [OF confined.coord_commit_keeps]
  with_coordinator_confines [OF confined.poll_completions_keeps]

interpretation mounting: step_relation confines
  by unfold_locales
    (auto intro: confines_trans confines_net confines_same coordinator_confines mount_confines)

lemma poll_confines: "confines app (snd (poll_and_execute env app))"
  unfolding poll_and_execute_def by (rule coordinator_confines)

lemma heartbeat_tick_confines: "confines app (snd (heartbeat_tick env app))"
proof -
  have "confines app (snd (rx_then (poll_and_execute env app) (\<lambda>app2. if ra_failed app2 then (None, app2)
      else rx_then (on_heartbeats (flush_all_heartbeats (nv_key_order env)) app2) (\<lambda>app3.
        (None, call_later (no_receiver_heartbeat_interval (ra_options app3)) Heartbeat_tick app3)))))"
    by (rule rx_then_holds [where P = "confines app", OF poll_confines], simp, intro impI, rule rx_then_holds [where P = "confines app"])
      (auto intro: confines_trans confines_net on_heartbeats_net)
  then show ?thesis by (simp add: heartbeat_tick_def check_disk_writer_def)
qed

lemma commit_poll_tick_confines: "confines app (snd (commit_poll_tick env app))"
proof -
  have "confines app (snd (rx_then (poll_and_execute env app) (\<lambda>app2.
      (None, if \<not> ra_failed app2 \<and> has_pending_chunk_commit (ra_coordinator app2) then schedule_commit_poll app2 else app2))))"
    by (rule rx_then_holds [where P = "confines app", OF poll_confines]) (simp add: confines_trans)
  then show ?thesis by (simp add: commit_poll_tick_def check_disk_writer_def)
qed

lemma timer_fired_confines: "confines app (snd (timer_fired env t app))"
proof (cases t)
  case Commit_poll_tick
  let ?app = "app\<lparr>ra_commit_poller := poller_fired (ra_commit_poller app)\<rparr>"
  have "confines app ?app" by (rule confines_same) simp_all
  with Commit_poll_tick show ?thesis
    by (simp add: timer_fired_def confines_trans [OF _ commit_poll_tick_confines])
qed (simp_all add: timer_fired_def heartbeat_tick_confines)

lemma receiver_handle_confines: "confines app (snd (receiver_handle env event app))"
proof (cases event)
  case (Timer_fired k)
  let ?app = "app\<lparr>ra_timers := take k (ra_timers app) @ drop (Suc k) (ra_timers app)\<rparr>"
  have "confines app ?app" by (rule confines_same) simp_all
  with Timer_fired show ?thesis
    by (simp add: receiver_handle_def confines_trans [OF _ timer_fired_confines])
next
  case Disk_task_done
  then show ?thesis
    by (simp add: receiver_handle_def confines_coordinator confined.run_disk_task_keeps)
qed (simp_all add: receiver_handle_def mounting.on_network_related mounting.message_arrived_related)

lemma create_roots_confines: "confines app (snd (create_roots sys roots app))"
proof (induction roots arbitrary: app)
  case (Cons r roots)
  then show ?case
    by (auto split: prod.split option.split intro: confines_trans [OF set_fs_confines])
qed simp

lemma make_ReceiverApp_confined: "app_confined (make_ReceiverApp fs options)" "ra_options (make_ReceiverApp fs options) = options"
  using below_root_append [of "root_path options" "[]"]
  by (simp_all add: make_ReceiverApp_def build_receiver_stream_roots_def set_stream_root_def receiver_stream_roots_def
      app_confined_def coordinator_confined_def)

lemma receiver_start_confines: "confines app (snd (receiver_start env app))"
  unfolding receiver_start_def Let_def
  by (rule rx_then_holds [where P = "confines app", OF create_roots_confines])
    (auto intro!: confines_trans [OF _ timers_confine(1)] intro: confines_trans confines_net net_only_update)

lemma reachable_confined: "receiver_reachable fs options app \<Longrightarrow> ra_options app = options \<and> app_confined app"
proof (induction rule: receiver_reachable.induct)
  case (started env app)
  then show ?case
    using receiver_start_confines [of "make_ReceiverApp fs options" env] make_ReceiverApp_confined
    by (simp add: confines_def)
next
  case (handled app env event app')
  then show ?case using receiver_handle_confines [of app env event] by (simp add: confines_def)
qed

text \<open>C9: A sender cannot choose directories outside the receiver's root. In every run of the receiver,
  whatever Manifest1 messages arrive and whatever roots they announce, with parent directories,
  absolute paths or empty components, the root of each stream is the configured root extended by proper
  names only, both where a stream will be opened and where one is open already.\<close>

theorem stream_roots_confined:
  assumes "receiver_reachable fs options app"
  shows "below_root (root_path options) (stream_root_for (ra_coordinator app) i) \<and>
    (\<forall>context. find_context (ra_coordinator app) i = Some context \<longrightarrow> below_root (root_path options) (sx_root context))"
proof -
  have c: "coordinator_confined (root_path options) (ra_coordinator app)"
    using reachable_confined [OF assms] by (auto simp: app_confined_def)
  then have "below_root (root_path options) (sx_root c')" if "find_context (ra_coordinator app) i = Some c'" for c'
    using map_of_SomeD [OF that] by (auto simp: coordinator_confined_def)
  with stream_root_below [OF c] show ?thesis by blast
qed

section \<open>Commits are polled until they are answered\<close>

text \<open>No commit is queued: a property that only \<open>queue_commit\<close> breaks.\<close>

lemma pending_update_context:
  assumes "\<not> has_pending_chunk_commit st"
    "\<And>c. find_context st i = Some c \<Longrightarrow> sx_chunk_commit_queued (f c) \<longrightarrow> sx_chunk_commit_queued c"
  shows "\<not> has_pending_chunk_commit (update_context i f st)"
  using assms set_map_entry [of "co_streams st" "\<lambda>c. \<not> sx_chunk_commit_queued c" i f]
  by (auto simp: has_pending_chunk_commit_def update_context_def list_ex_iff)

lemma pending_new_context:
  assumes "\<not> has_pending_chunk_commit st"
  shows "\<not> has_pending_chunk_commit (st\<lparr>co_streams := AList.update i (new_context i r) (co_streams st)\<rparr>)"
  using assms set_alist_update [of "co_streams st" "\<lambda>c. \<not> sx_chunk_commit_queued c" "new_context i r" i]
  by (auto simp: has_pending_chunk_commit_def list_ex_iff)

interpretation calm: stream_contexts "\<lambda>st. \<not> has_pending_chunk_commit st"
proof
  fix st i and f :: "T_ReceiverStreamContext \<Rightarrow> T_ReceiverStreamContext"
  assume "\<not> has_pending_chunk_commit st" "\<And>c. find_context st i = Some c \<Longrightarrow>
    sx_root (f c) = sx_root c \<and> (sx_chunk_commit_queued (f c) \<longrightarrow> sx_chunk_commit_queued c)"
  then show "\<not> has_pending_chunk_commit (update_context i f st)" using pending_update_context by blast
next
  fix st i assume "\<not> has_pending_chunk_commit st"
  then show "\<not> has_pending_chunk_commit (st\<lparr>co_streams := AList.update i (new_context i (stream_root_for st i)) (co_streams st)\<rparr>)"
    by (rule pending_new_context)
qed (simp_all add: has_pending_chunk_commit_def)

definition pending_timers :: "receiver_timer \<Rightarrow> ReceiverApp \<Rightarrow> nat" where
  "pending_timers timer app = count_list (map snd (ra_timers app)) timer"

text \<open>The poller has one timer just when it says so; while the process has not failed the heartbeat timer
  is there, and a queued commit will be polled.\<close>

definition poller_ok :: "ReceiverApp \<Rightarrow> bool" where
  "poller_ok app \<longleftrightarrow> pending_timers Commit_poll_tick app = of_bool (cp_scheduled (ra_commit_poller app))"

definition commits_polled :: "ReceiverApp \<Rightarrow> bool" where
  "commits_polled app \<longleftrightarrow> ra_failed app \<or> \<not> has_pending_chunk_commit (ra_coordinator app) \<or> cp_scheduled (ra_commit_poller app)"

text \<open>How an operation may change the timers: the poller's bookkeeping stays right, polls stay scheduled,
  heartbeat timers are kept and failure is final.\<close>

definition timers_kept :: "ReceiverApp \<Rightarrow> ReceiverApp \<Rightarrow> bool" where
  "timers_kept app app' \<longleftrightarrow> (poller_ok app \<longrightarrow> poller_ok app') \<and>
     (cp_scheduled (ra_commit_poller app) \<longrightarrow> cp_scheduled (ra_commit_poller app')) \<and>
     pending_timers Heartbeat_tick app' = pending_timers Heartbeat_tick app \<and> (ra_failed app \<longrightarrow> ra_failed app')"

lemma timers_kept_refl [simp]: "timers_kept app app"
  by (simp add: timers_kept_def)

lemma timers_kept_trans: "timers_kept a b \<Longrightarrow> timers_kept b c \<Longrightarrow> timers_kept a c"
  by (simp add: timers_kept_def)

lemma timers_kept_same:
  "ra_timers app' = ra_timers app \<Longrightarrow> ra_commit_poller app' = ra_commit_poller app \<Longrightarrow> (ra_failed app \<longrightarrow> ra_failed app') \<Longrightarrow>
   timers_kept app app'"
  by (simp add: timers_kept_def poller_ok_def pending_timers_def)

lemma timers_kept_net: "net_only app app' \<Longrightarrow> timers_kept app app'"
  by (rule timers_kept_same) (simp_all add: net_only_fields)

lemma operations_keep_timers [simp]:
  "timers_kept app (schedule_commit_poll app)" "timers_kept app (schedule_quiet_stop app)"
  "timers_kept app (receiver_fail app)" "timers_kept app (quiet_stop_fired g app)" "timers_kept app (timeout_60s app)"
  by (simp_all add: timers_kept_def poller_ok_def pending_timers_def call_later_def schedule_commit_poll_def poller_schedule_def
      schedule_quiet_stop_def receiver_fail_def quiet_stop_fired_def schedule_quiet_stop_retry_def log_metrics_def
      timeout_60s_def Let_def)

lemma schedule_commit_poll_scheduled: "cp_scheduled (ra_commit_poller (schedule_commit_poll app))"
  by (simp add: schedule_commit_poll_def poller_schedule_def call_later_def)

lemma execute_actions_coordinator: "ra_coordinator (snd (execute_actions env actions app)) = ra_coordinator app"
  using net_only_fields(2) [OF send_nacks_net [of app "ab_nacks actions"]]
    net_only_fields(2) [OF send_heartbeats_net]
  by (auto simp: execute_actions_def Let_def schedule_commit_poll_def poller_schedule_def call_later_def schedule_quiet_stop_def
      receiver_fail_def split: prod.split option.split)
    (metis snd_conv)+

lemmas execute_actions_kept =
  execute_actions_relation [of timers_kept, OF timers_kept_trans timers_kept_net operations_keep_timers(1-3)]

lemma poll_request_scheduled:
  "cp_scheduled (ra_commit_poller (snd (execute_actions env (no_actions\<lparr>ab_schedule_commit_poll := True\<rparr>) app)))"
  by (simp add: execute_actions_def no_actions_def schedule_commit_poll_scheduled)

definition polls :: "ReceiverApp \<Rightarrow> ReceiverApp \<Rightarrow> bool" where
  "polls app app' \<longleftrightarrow> timers_kept app app' \<and> (commits_polled app \<longrightarrow> commits_polled app')"

lemma polls_refl [simp]: "polls app app"
  by (simp add: polls_def)

lemma polls_trans: "polls a b \<Longrightarrow> polls b c \<Longrightarrow> polls a c"
  by (auto simp: polls_def intro: timers_kept_trans)

lemma polls_same:
  "timers_kept app app' \<Longrightarrow> co_streams (ra_coordinator app') = co_streams (ra_coordinator app) \<Longrightarrow> polls app app'"
  by (auto simp: polls_def commits_polled_def timers_kept_def has_pending_chunk_commit_def)

lemma polls_net: "net_only app app' \<Longrightarrow> polls app app'"
  by (rule polls_same) (simp_all add: timers_kept_net net_only_fields)

lemma receiver_fail_polls [simp]: "polls app (receiver_fail app)"
  by (simp add: polls_def commits_polled_def) (simp add: receiver_fail_def)

lemma with_coordinator_polls:
  assumes "\<And>st. \<not> has_pending_chunk_commit st \<Longrightarrow> \<not> has_pending_chunk_commit (snd (f st)) \<or>
    fst (f st) = Inr (no_actions\<lparr>ab_schedule_commit_poll := True\<rparr>)"
  shows "polls app (snd (with_coordinator env f app))"
proof -
  obtain r co where f: "f (ra_coordinator app) = (r, co)" by fastforce
  let ?app = "app\<lparr>ra_coordinator := co\<rparr>"
  have same: "timers_kept app ?app" by (rule timers_kept_same) simp_all
  have kept: "timers_kept app (snd (execute_actions env a ?app))" for a
    by (rule timers_kept_trans [OF same execute_actions_kept])
  have op: "has_pending_chunk_commit co \<Longrightarrow> has_pending_chunk_commit (ra_coordinator app) \<or>
      r = Inr (no_actions\<lparr>ab_schedule_commit_poll := True\<rparr>)"
    using assms [of "ra_coordinator app"] f by auto
  show ?thesis
  proof (cases r)
    case (Inl e)
    with op same f show ?thesis
      by (auto simp: with_coordinator_def polls_def commits_polled_def)
  next
    case (Inr a)
    have "commits_polled (snd (execute_actions env a ?app))" if "commits_polled app"
      using that kept [of a] op Inr poll_request_scheduled [of env ?app]
      by (auto simp: commits_polled_def execute_actions_coordinator timers_kept_def)
    with Inr f kept show ?thesis by (simp add: with_coordinator_def polls_def)
  qed
qed

lemmas coordinator_polls = with_coordinator_polls [OF disjI1 [OF calm.coord_create_keeps]]
  with_coordinator_polls [OF disjI1 [OF calm.coord_data_keeps]] with_coordinator_polls [OF disjI1 [OF calm.coord_begin_keeps]]
  with_coordinator_polls [OF disjI1 [OF calm.coord_chunk_keeps]] with_coordinator_polls [OF calm.coord_commit_outcome]
  with_coordinator_polls [OF disjI1 [OF calm.poll_completions_keeps]]

lemma mount_polls: "polls app (set_fs fs (set_stream_root i root app))"
  by (rule polls_same) (simp_all add: timers_kept_same set_fs_def set_stream_root_def)

interpretation polling: step_relation polls
  by unfold_locales (auto intro: polls_trans polls_net coordinator_polls mount_polls,
    simp_all add: polls_same timers_kept_same)

lemma poll_polls: "polls app (snd (poll_and_execute env app))"
  unfolding poll_and_execute_def by (rule coordinator_polls)

section \<open>Timers\<close>

lemma pending_timers_removed:
  assumes "k < length (ra_timers app)"
  shows "pending_timers t app = pending_timers t (app\<lparr>ra_timers := take k (ra_timers app) @ drop (Suc k) (ra_timers app)\<rparr>) +
    of_bool (t = snd (ra_timers app ! k))"
  using arg_cong [OF id_take_nth_drop [OF assms], of "\<lambda>xs. count_list (map snd xs) t"]
  by (simp add: pending_timers_def count_list_append)

lemma call_later_timers: "pending_timers t (call_later d t' app) = pending_timers t app + of_bool (t = t')"
  by (simp add: pending_timers_def call_later_def count_list_append)

definition receiver_timers_ok :: "ReceiverApp \<Rightarrow> bool" where
  "receiver_timers_ok app \<longleftrightarrow> poller_ok app \<and> commits_polled app \<and> (\<not> ra_failed app \<longrightarrow> pending_timers Heartbeat_tick app = 1)"

lemma polls_timers_ok: "polls app app' \<Longrightarrow> receiver_timers_ok app \<Longrightarrow> receiver_timers_ok app'"
  by (auto simp: receiver_timers_ok_def polls_def timers_kept_def)

lemma failed_timers_ok:
  "ra_failed app \<Longrightarrow> poller_ok app \<Longrightarrow> receiver_timers_ok app" "poller_ok app \<Longrightarrow> receiver_timers_ok (receiver_fail app)"
  by (simp_all add: receiver_timers_ok_def commits_polled_def receiver_fail_def poller_ok_def pending_timers_def)

lemma heartbeat_tick_ok:
  assumes "heartbeat_tick env app = (None, app')" "poller_ok app" "commits_polled app"
    "\<not> ra_failed app \<longrightarrow> pending_timers Heartbeat_tick app = 0"
  shows "receiver_timers_ok app'"
proof (cases "ra_failed app \<or> nv_disk_failed env")
  case True
  then have "app' = app \<and> ra_failed app \<or> app' = receiver_fail app"
    using assms(1) by (auto simp: heartbeat_tick_def check_disk_writer_def split: if_splits)
  then show ?thesis using assms(2) failed_timers_ok by auto
next
  case False
  obtain e app2 where p: "poll_and_execute env app = (e, app2)" by fastforce
  then have 2: "polls app app2" using poll_polls [of app env] by simp
  obtain e' app3 where f: "on_heartbeats (flush_all_heartbeats (nv_key_order env)) app2 = (e', app3)" by fastforce
  then have 3: "net_only app2 app3" using on_heartbeats_net [of app2 "flush_all_heartbeats (nv_key_order env)"] by simp
  have "ra_failed app2 \<and> app' = app2 \<or> app' = call_later (no_receiver_heartbeat_interval (ra_options app3)) Heartbeat_tick app3"
    using assms(1) False p f by (auto simp: heartbeat_tick_def check_disk_writer_def split: option.splits if_splits)
  then show ?thesis
  proof
    assume "ra_failed app2 \<and> app' = app2"
    with 2 assms(2,3) show ?thesis by (auto simp: receiver_timers_ok_def polls_def timers_kept_def)
  next
    assume a: "app' = call_later (no_receiver_heartbeat_interval (ra_options app3)) Heartbeat_tick app3"
    have "polls app app3" by (rule polls_trans [OF 2 polls_net [OF 3]])
    with assms(2-4) False a show ?thesis
      by (auto simp: receiver_timers_ok_def polls_def timers_kept_def poller_ok_def commits_polled_def call_later_timers)
        (simp_all add: call_later_def)
  qed
qed

lemma commit_poll_tick_ok:
  assumes "commit_poll_tick env app = (None, app')" "poller_ok app" "\<not> ra_failed app \<longrightarrow> pending_timers Heartbeat_tick app = 1"
  shows "receiver_timers_ok app'"
proof (cases "ra_failed app \<or> nv_disk_failed env")
  case True
  then have "app' = app \<and> ra_failed app \<or> app' = receiver_fail app"
    using assms(1) by (auto simp: commit_poll_tick_def check_disk_writer_def split: if_splits)
  then show ?thesis using assms(2) failed_timers_ok by auto
next
  case False
  obtain e app2 where p: "poll_and_execute env app = (e, app2)" by fastforce
  then have 2: "polls app app2" using poll_polls [of app env] by simp
  have a: "app' = (if \<not> ra_failed app2 \<and> has_pending_chunk_commit (ra_coordinator app2) then schedule_commit_poll app2 else app2)"
    using assms(1) False p by (auto simp: commit_poll_tick_def check_disk_writer_def split: option.splits if_splits)
  have "timers_kept app2 app'" unfolding a by simp
  moreover have "commits_polled app'"
    using a schedule_commit_poll_scheduled [of app2] by (auto simp: commits_polled_def)
  ultimately show ?thesis
    using 2 assms(2,3) False by (auto simp: receiver_timers_ok_def polls_def timers_kept_def)
qed

lemma stop_timers_poll [simp]: "polls app (quiet_stop_fired g app)" "polls app (timeout_60s app)"
  by (rule polls_same, simp, simp add: quiet_stop_fired_def schedule_quiet_stop_retry_def call_later_def log_metrics_def
      timeout_60s_def receiver_fail_def)+

lemma timer_fired_ok:
  assumes "receiver_timers_ok app" "k < length (ra_timers app)"
    and "timer_fired env (snd (ra_timers app ! k)) (app\<lparr>ra_timers := take k (ra_timers app) @ drop (Suc k) (ra_timers app)\<rparr>) = (None, app')"
  shows "receiver_timers_ok app'"
proof -
  define app0 where "app0 = app\<lparr>ra_timers := take k (ra_timers app) @ drop (Suc k) (ra_timers app)\<rparr>"
  define t where "t = snd (ra_timers app ! k)"
  have n: "pending_timers x app = pending_timers x app0 + of_bool (x = t)" for x
    unfolding app0_def t_def by (rule pending_timers_removed [OF assms(2)])
  have same: "ra_failed app0 = ra_failed app" "ra_commit_poller app0 = ra_commit_poller app" "ra_coordinator app0 = ra_coordinator app"
    by (simp_all add: app0_def)
  have fired: "timer_fired env t app0 = (None, app')" using assms(3) by (simp add: t_def app0_def)
  have ok0: "receiver_timers_ok app0" if "t \<noteq> Heartbeat_tick" "t \<noteq> Commit_poll_tick"
    using assms(1) that n [of Heartbeat_tick] n [of Commit_poll_tick]
    by (auto simp: receiver_timers_ok_def poller_ok_def commits_polled_def same)
  show ?thesis
  proof (cases t)
    case Heartbeat_tick
    show ?thesis
    proof (rule heartbeat_tick_ok)
      show "heartbeat_tick env app0 = (None, app')" using fired Heartbeat_tick by (simp add: timer_fired_def)
    qed (use assms(1) n [of Heartbeat_tick] n [of Commit_poll_tick] Heartbeat_tick in
        \<open>auto simp: receiver_timers_ok_def poller_ok_def commits_polled_def same\<close>)
  next
    case Commit_poll_tick
    let ?app1 = "app0\<lparr>ra_commit_poller := poller_fired (ra_commit_poller app0)\<rparr>"
    have f: "pending_timers x (app0\<lparr>ra_commit_poller := p\<rparr>) = pending_timers x app0" for x p by (simp add: pending_timers_def)
    show ?thesis
    proof (rule commit_poll_tick_ok)
      show "commit_poll_tick env ?app1 = (None, app')" using fired Commit_poll_tick by (simp add: timer_fired_def)
      show "poller_ok ?app1"
        using assms(1) n [of Commit_poll_tick] Commit_poll_tick
        by (cases "cp_scheduled (ra_commit_poller app)") (auto simp: receiver_timers_ok_def poller_ok_def poller_fired_def f)
    qed (use assms(1) n [of Heartbeat_tick] Commit_poll_tick in \<open>auto simp: receiver_timers_ok_def f same\<close>)
  next
    case (Quiet_stop g)
    with fired have "app' = quiet_stop_fired g app0" by (simp add: timer_fired_def)
    with polls_timers_ok [OF _ ok0] Quiet_stop show ?thesis by simp
  next
    case (Quiet_stop_retry g)
    with fired have "app' = quiet_stop_fired g app0" by (simp add: timer_fired_def)
    with polls_timers_ok [OF _ ok0] Quiet_stop_retry show ?thesis by simp
  next
    case Timeout_60s
    with fired have "app' = timeout_60s app0" by (simp add: timer_fired_def)
    with polls_timers_ok [OF _ ok0] Timeout_60s show ?thesis by simp
  qed
qed

lemma disk_task_polls: "polls app (app\<lparr>ra_coordinator := run_disk_task sys (ra_coordinator app)\<rparr>)"
  using calm.run_disk_task_keeps [of "ra_coordinator app" sys]
  by (auto simp: polls_def commits_polled_def timers_kept_same)

lemma receiver_handle_ok:
  assumes "receiver_timers_ok app" "receiver_handle env event app = (None, app')"
  shows "receiver_timers_ok app'"
proof (cases "\<exists>k. event = Timer_fired k")
  case True
  with assms timer_fired_ok show ?thesis by (auto simp: receiver_handle_def split: if_splits)
next
  case False
  have "polls app (snd (receiver_handle env event app))"
    using False by (cases event) (simp_all add: receiver_handle_def polling.on_network_related polling.message_arrived_related disk_task_polls)
  then show ?thesis using assms polls_timers_ok by simp
qed

lemma create_roots_frame:
  "ra_timers (snd (create_roots sys roots app)) = ra_timers app \<and>
   ra_commit_poller (snd (create_roots sys roots app)) = ra_commit_poller app \<and>
   co_streams (ra_coordinator (snd (create_roots sys roots app))) = co_streams (ra_coordinator app)"
  by (induction roots arbitrary: app) (simp_all add: set_fs_def split: prod.split option.split)

lemma receiver_start_ok:
  assumes "receiver_start env (make_ReceiverApp fs options) = (None, app)"
  shows "receiver_timers_ok app"
proof -
  let ?app = "make_ReceiverApp fs options"
  let ?roots = "root_path (ra_options ?app) # map snd (nv_root_order env (receiver_stream_roots ?app))"
  obtain e app1 where c: "create_roots (nv_sys env) ?roots ?app = (e, app1)" by fastforce
  have s: "ra_timers app1 = [] \<and> \<not> cp_scheduled (ra_commit_poller app1) \<and> co_streams (ra_coordinator app1) = []"
    using create_roots_frame [of "nv_sys env" ?roots ?app] unfolding c
    by (simp add: make_ReceiverApp_def build_receiver_stream_roots_def set_stream_root_def make_CommitCompletionPoller_def)
  show ?thesis
    using assms s unfolding receiver_start_def c
    by (auto simp: Let_def receiver_timers_ok_def poller_ok_def commits_polled_def pending_timers_def call_later_def
        has_pending_chunk_commit_def split: option.splits)
qed

lemma reachable_timers_ok: "receiver_reachable fs options app \<Longrightarrow> receiver_timers_ok app"
  by (induction rule: receiver_reachable.induct) (auto intro: receiver_start_ok receiver_handle_ok)

text \<open>C13: A commit handed to the disk thread is polled until it is answered. In every run, however
  messages, timers, lost lines and the disk thread interleave, the poller has exactly one timer pending
  when it is marked as scheduled and none otherwise; and unless the process has failed, the heartbeat
  timer is pending exactly once, and the poller is scheduled as long as any stream has a commit waiting
  for the disk.\<close>

theorem commits_are_polled:
  assumes "receiver_reachable fs options app"
  shows "pending_timers Commit_poll_tick app = (if cp_scheduled (ra_commit_poller app) then 1 else 0) \<and>
    (\<not> ra_failed app \<longrightarrow> pending_timers Heartbeat_tick app = 1 \<and>
      (has_pending_chunk_commit (ra_coordinator app) \<longrightarrow> cp_scheduled (ra_commit_poller app)))"
  using reachable_timers_ok [OF assms]
  by (auto simp: receiver_timers_ok_def poller_ok_def commits_polled_def)

section \<open>Stopping\<close>

text \<open>Handling messages stops the loop only by failing.\<close>

definition stops_failed :: "ReceiverApp \<Rightarrow> ReceiverApp \<Rightarrow> bool" where
  "stops_failed app app' \<longleftrightarrow> (ra_failed app \<longrightarrow> ra_failed app') \<and> (ra_loop_stopped app' \<longrightarrow> ra_loop_stopped app \<or> ra_failed app')"

lemma stops_failed_trans: "stops_failed a b \<Longrightarrow> stops_failed b c \<Longrightarrow> stops_failed a c"
  by (auto simp: stops_failed_def)

lemma stops_failed_same: "ra_failed app' = ra_failed app \<Longrightarrow> ra_loop_stopped app' = ra_loop_stopped app \<Longrightarrow> stops_failed app app'"
  by (simp add: stops_failed_def)

lemma stops_failed_net: "net_only app app' \<Longrightarrow> stops_failed app app'"
  by (simp add: stops_failed_same net_only_fields)

lemma operations_stop_failed:
  "stops_failed app (schedule_commit_poll app)" "stops_failed app (schedule_quiet_stop app)" "stops_failed app (receiver_fail app)"
  "stops_failed app (call_later d t app)" "stops_failed app (timeout_60s app)"
  by (simp_all add: stops_failed_def call_later_def schedule_commit_poll_def poller_schedule_def schedule_quiet_stop_def
      receiver_fail_def timeout_60s_def Let_def)

lemmas execute_actions_stop_failed =
  execute_actions_relation [of stops_failed, OF stops_failed_trans stops_failed_net operations_stop_failed(1-3)]

lemma with_coordinator_stop_failed: "stops_failed app (snd (with_coordinator env f app))"
proof -
  obtain r co where f: "f (ra_coordinator app) = (r, co)" by fastforce
  have "stops_failed app (app\<lparr>ra_coordinator := co\<rparr>)" by (simp add: stops_failed_same)
  with f show ?thesis
    by (cases r) (auto simp: with_coordinator_def intro: stops_failed_trans execute_actions_stop_failed)
qed

interpretation stopping: step_relation stops_failed
  by unfold_locales (auto intro: stops_failed_trans stops_failed_net operations_stop_failed with_coordinator_stop_failed,
    simp_all add: stops_failed_same set_fs_def set_stream_root_def)

lemma poll_stop_failed: "stops_failed app (snd (poll_and_execute env app))"
  unfolding poll_and_execute_def by (rule with_coordinator_stop_failed)

lemma heartbeat_tick_stop_failed: "stops_failed app (snd (heartbeat_tick env app))"
proof -
  have "stops_failed app (snd (rx_then (poll_and_execute env app) (\<lambda>app2. if ra_failed app2 then (None, app2)
      else rx_then (on_heartbeats (flush_all_heartbeats (nv_key_order env)) app2) (\<lambda>app3.
        (None, call_later (no_receiver_heartbeat_interval (ra_options app3)) Heartbeat_tick app3)))))"
    by (rule rx_then_holds [where P = "stops_failed app", OF poll_stop_failed], simp, intro impI,
        rule rx_then_holds [where P = "stops_failed app"])
      (auto intro: stops_failed_trans stops_failed_net on_heartbeats_net operations_stop_failed)
  then show ?thesis by (simp add: heartbeat_tick_def check_disk_writer_def stopping.R_refl operations_stop_failed)
qed

lemma commit_poll_tick_stop_failed: "stops_failed app (snd (commit_poll_tick env app))"
proof -
  have "stops_failed app (snd (rx_then (poll_and_execute env app) (\<lambda>app2.
      (None, if \<not> ra_failed app2 \<and> has_pending_chunk_commit (ra_coordinator app2) then schedule_commit_poll app2 else app2))))"
    by (rule rx_then_holds [where P = "stops_failed app", OF poll_stop_failed])
      (auto intro: stops_failed_trans operations_stop_failed)
  then show ?thesis by (simp add: commit_poll_tick_def check_disk_writer_def stopping.R_refl operations_stop_failed)
qed

text \<open>The two timers that may stop a healthy process.\<close>

fun quiet_generation :: "receiver_timer \<Rightarrow> u64 option" where
  "quiet_generation (Quiet_stop g) = Some g"
| "quiet_generation (Quiet_stop_retry g) = Some g"
| "quiet_generation _ = None"

lemma other_timers_stop_failed:
  assumes "quiet_generation t = None" shows "stops_failed app (snd (timer_fired env t app))"
proof (cases t)
  case Commit_poll_tick
  have "stops_failed app (app\<lparr>ra_commit_poller := poller_fired (ra_commit_poller app)\<rparr>)" by (simp add: stops_failed_same)
  with Commit_poll_tick show ?thesis
    by (simp add: timer_fired_def stops_failed_trans [OF _ commit_poll_tick_stop_failed])
qed (use assms in \<open>simp_all add: timer_fired_def heartbeat_tick_stop_failed operations_stop_failed\<close>)

lemma quiet_timer_fired: "quiet_generation t = Some g \<Longrightarrow> timer_fired env t app = (None, quiet_stop_fired g app)"
  by (cases t) (simp_all add: timer_fired_def)

lemma quiet_stop_stops:
  assumes "\<not> ra_loop_stopped app" "ra_loop_stopped (quiet_stop_fired g app)"
  shows "\<not> no_watch (ra_options app) \<and> \<not> ra_failed app \<and> ra_committed app \<and> g = ra_activity_generation app \<and>
    append_durable_idle (ra_coordinator app)"
  using assms by (simp add: quiet_stop_fired_def schedule_quiet_stop_retry_def call_later_def split: if_splits)

text \<open>C14: The receiver stops by itself only when everything it has taken is on disk. When an event ends the
  loop and the process has not failed, the event is a quiet-stop timer of the latest activity, outside
  watch mode, after a commit; no stream has a commit or a sync of appended data in the disk queue, the
  durable offset of every stream has reached what was appended, and the exit code is 0.\<close>

theorem quiet_stop_is_safe:
  assumes "receiver_handle env event app = (e, app')" and "\<not> ra_loop_stopped app" and "ra_loop_stopped app'" and "\<not> ra_failed app'"
  shows "\<exists>k. event = Timer_fired k \<and> k < length (ra_timers app) \<and>
    quiet_generation (snd (ra_timers app ! k)) = Some (ra_activity_generation app) \<and> \<not> no_watch (ra_options app) \<and>
    ra_committed app \<and> receiver_exit_code app' = 0 \<and>
    (\<forall>(i, c) \<in> set (co_streams (ra_coordinator app)). \<not> sx_chunk_commit_queued c \<and> \<not> sx_append_fsync_queued c \<and>
       sx_append_durable_target c \<le> sx_append_durable_offset c)"
proof (cases event)
  case (Timer_fired k)
  define app0 where "app0 = app\<lparr>ra_timers := take k (ra_timers app) @ drop (Suc k) (ra_timers app)\<rparr>"
  define t where "t = snd (ra_timers app ! k)"
  have k: "k < length (ra_timers app)" and fired: "timer_fired env t app0 = (e, app')"
    using assms Timer_fired by (auto simp: receiver_handle_def app0_def t_def split: if_splits)
  have "\<not> ra_loop_stopped app0" using assms(2) by (simp add: app0_def)
  then have "quiet_generation t \<noteq> None"
    using other_timers_stop_failed [of t app0 env] fired assms(3,4) by (auto simp: stops_failed_def)
  then obtain g where g: "quiet_generation t = Some g" by auto
  then have a: "app' = quiet_stop_fired g app0" using fired by (simp add: quiet_timer_fired)
  note stop = quiet_stop_stops [of app0 g, folded a, OF \<open>\<not> ra_loop_stopped app0\<close> assms(3)]
  have "ra_committed app'" using a stop by (simp add: quiet_stop_fired_def log_metrics_def)
  with stop k g Timer_fired assms(4) show ?thesis
    by (auto simp: app0_def t_def receiver_exit_code_def append_durable_idle_def list_all_iff)
next
  case (Message_arrived i msg)
  with assms stopping.message_arrived_related [of app env i msg] show ?thesis
    by (simp add: receiver_handle_def stops_failed_def)
next
  case (Line_accepted i)
  with assms stopping.on_network_related [of app env "on_accept i"] show ?thesis
    by (simp add: receiver_handle_def stops_failed_def)
next
  case (Line_closed i)
  with assms stopping.on_network_related [of app env "\<lambda>nw. (None, rx_closed i nw)"] show ?thesis
    by (simp add: receiver_handle_def stops_failed_def)
next
  case (Line_broken i x)
  with assms stopping.on_network_related [of app env "\<lambda>nw. (None, rx_failed i x nw)"] show ?thesis
    by (simp add: receiver_handle_def stops_failed_def)
next
  case Disk_task_done
  with assms show ?thesis by (auto simp: receiver_handle_def)
qed

text \<open>Every message counts as activity, but only some start a new quiet-stop timer: a chunk that arrives
  after the last commit makes the pending timer stale, and nothing replaces it.\<close>

lemma message_disarms_quiet_stop:
  assumes "receiver_on_message env line (Msg_Chunk chunk) app = (None, app')"
  shows "quiet_stop_fired (ra_activity_generation app) app' = app' \<and> ra_timers app' = ra_timers app"
proof -
  let ?app = "app\<lparr>ra_activity_generation := ra_activity_generation app + 1\<rparr>"
  obtain r co where f: "coord_chunk (nv_sys env) line chunk (ra_coordinator app) = (r, co)" by fastforce
  obtain a where a: "r = Inr a" and x: "execute_actions env a (?app\<lparr>ra_coordinator := co\<rparr>) = (None, app')"
    using assms f by (cases r) (auto simp: receiver_on_message_def with_coordinator_def)
  have flags: "\<not> ab_schedule_quiet_stop a \<and> \<not> ab_schedule_commit_poll a \<and> \<not> ab_failed a"
    using f a by (auto simp: coord_chunk_def no_actions_def nack_only_def Let_def split: prod.splits sum.splits option.splits)
  have "net_only (?app\<lparr>ra_coordinator := co\<rparr>) app'"
    using x flags send_nacks_net [of "?app\<lparr>ra_coordinator := co\<rparr>" "ab_nacks a"] send_heartbeats_net
    by (auto simp: execute_actions_def split: prod.splits option.splits intro: net_only_trans)
      (metis net_only_trans snd_conv)
  then show ?thesis by (simp add: net_only_fields quiet_stop_fired_def)
qed

text \<open>A Manifest1 takes back \<open>committed_\<close>. When both sides are in sync nothing sets it again, and the
  timeout then fails the process.\<close>

definition mount_only :: "ReceiverApp \<Rightarrow> ReceiverApp \<Rightarrow> bool" where
  "mount_only app app' \<longleftrightarrow> ra_committed app' = ra_committed app \<and> ra_network app' = ra_network app \<and> ra_options app' = ra_options app"

lemma scan_receiver_streams_mounts: "mount_only app (snd (scan_receiver_streams env names ss app))"
  by (rule scan_receiver_streams_relation [of mount_only]) (auto simp: mount_only_def set_fs_def set_stream_root_def)

lemma manifest_for_manifest1_mounts:
  "receiver_manifest_for_manifest1 env m app = (r, app') \<Longrightarrow> mount_only app app'"
  using scan_receiver_streams_mounts
  by (auto simp: receiver_manifest_for_manifest1_def split: sum.splits prod.splits dest!: arg_cong [where f = snd])
    (auto simp: mount_only_def)

lemma manifest1_uncommits:
  assumes "receiver_on_message env line (Msg_Manifest1 m) app = (None, app')"
  shows "\<not> ra_committed app'"
proof -
  let ?app = "app\<lparr>ra_activity_generation := ra_activity_generation app + 1, ra_committed := False\<rparr>"
  obtain r app1 where 1: "receiver_manifest_for_manifest1 env m ?app = (r, app1)" by fastforce
  have "net_only app1 app'"
    using assms 1 receiver_send_net [of app1 line]
    by (auto simp: receiver_on_message_def apply_manifest1_def send_nack_def split: sum.splits prod.splits) (metis snd_conv)+
  then show ?thesis using manifest_for_manifest1_mounts [OF 1] by (simp add: net_only_fields mount_only_def)
qed

section \<open>A run\<close>

definition sample_receiver_options :: T_NodeOptions where
  "sample_receiver_options = default_NodeOptions ''/t''"

definition sample_env :: receiver_env where
  "sample_env = \<lparr>nv_sys = plain_system, nv_room = \<lambda>_. True, nv_disk_failed = False, nv_stream_order = \<lambda>xs. xs,
     nv_root_order = \<lambda>xs. xs, nv_key_order = \<lambda>xs. xs\<rparr>"

definition sample_started :: ReceiverApp where
  "sample_started = snd (receiver_start sample_env (make_ReceiverApp [] sample_receiver_options))"

definition sample_accepted :: ReceiverApp where
  "sample_accepted = snd (receiver_handle sample_env (Line_accepted 1) sample_started)"

definition sample_negotiated :: ReceiverApp where
  "sample_negotiated = snd (receiver_handle sample_env
     (Message_arrived 1 (Msg_Hello (make_hello SENDER ''sender'' 65536 196608))) sample_accepted)"

text \<open>A sender that announces a root outside.\<close>

definition sample_manifest1 :: T_Manifest1 where
  "sample_manifest1 = \<lparr>m1_manifest_id = 3, m1_streams = [\<lparr>ms_stream_id = 7, ms_root = ''/../../etc/./x/'', ms_entries = []\<rparr>]\<rparr>"

definition sample_mounted :: ReceiverApp where
  "sample_mounted = snd (receiver_handle sample_env (Message_arrived 1 (Msg_Manifest1 sample_manifest1)) sample_negotiated)"

lemma reachable_snd:
  "receiver_reachable fs options app \<Longrightarrow> fst (receiver_handle env event app) = None \<Longrightarrow>
   receiver_reachable fs options (snd (receiver_handle env event app))"
  by (rule handled [where env = env and event = event]) (auto simp: prod_eq_iff)

lemma sample_mounted_reachable: "receiver_reachable [] sample_receiver_options sample_mounted"
  unfolding sample_mounted_def
proof (rule reachable_snd)
  show "receiver_reachable [] sample_receiver_options sample_negotiated"
    unfolding sample_negotiated_def
  proof (rule reachable_snd)
    show "receiver_reachable [] sample_receiver_options sample_accepted"
      unfolding sample_accepted_def
    proof (rule reachable_snd)
      have "fst (receiver_start sample_env (make_ReceiverApp [] sample_receiver_options)) = None" by code_simp
      then show "receiver_reachable [] sample_receiver_options sample_started"
        unfolding sample_started_def by (intro started [where env = sample_env]) (auto simp: prod_eq_iff)
    qed code_simp
  qed code_simp
qed code_simp

theorem stream_roots_confined_witness:
  "below_root [''t'', ''yisync_ab_receiver''] (stream_root_for (ra_coordinator sample_mounted) 7) \<and>
   stream_root_for (ra_coordinator sample_mounted) 7 = [''t'', ''yisync_ab_receiver'', ''etc'', ''x'']"
proof
  have "root_path sample_receiver_options = [''t'', ''yisync_ab_receiver'']" by code_simp
  with stream_roots_confined [OF sample_mounted_reachable, of 7]
  show "below_root [''t'', ''yisync_ab_receiver''] (stream_root_for (ra_coordinator sample_mounted) 7)" by simp
  show "stream_root_for (ra_coordinator sample_mounted) 7 = [''t'', ''yisync_ab_receiver'', ''etc'', ''x'']" by code_simp
qed

theorem commits_are_polled_witness: "\<not> ra_failed sample_mounted \<and> pending_timers Heartbeat_tick sample_mounted = 1"
proof -
  have "\<not> ra_failed sample_mounted" by code_simp
  with commits_are_polled [OF sample_mounted_reachable] show ?thesis by simp
qed

definition sample_quiet :: ReceiverApp where
  "sample_quiet = schedule_quiet_stop sample_mounted"

theorem quiet_stop_is_safe_witness:
  "\<exists>k < length (ra_timers sample_quiet). quiet_generation (snd (ra_timers sample_quiet ! k)) = Some (ra_activity_generation sample_quiet)"
proof -
  let ?r = "receiver_handle sample_env (Timer_fired 2) sample_quiet"
  have r: "?r = (fst ?r, snd ?r)" by simp
  have "\<not> ra_loop_stopped sample_quiet" by code_simp
  moreover have "ra_loop_stopped (snd ?r)" by code_simp
  moreover have "\<not> ra_failed (snd ?r)" by code_simp
  ultimately show ?thesis using quiet_stop_is_safe [OF r] by blast
qed

end
