(* ===== verification/ManifestExchange.thy ===== *)
theory ManifestExchange
  imports ReceiverRun
begin

text \<open>
  The receiver's side of the manifest exchange: what \<open>apply_manifest1\<close> of
  src/src/receiver/yisync_receiver_app.cpp reads from the disk, and the one message it answers with.
\<close>

section \<open>The receiver's own manifest\<close>

definition mounted_root :: "ReceiverApp \<Rightarrow> T_Manifest1Stream \<Rightarrow> path" where
  "mounted_root app s = stream_root_for (ra_coordinator app) (ms_stream_id s)"

text \<open>The roots are created one after the other, each before its stream is scanned.\<close>

definition mounted_fs :: "system \<Rightarrow> filesystem \<Rightarrow> path list \<Rightarrow> filesystem" where
  "mounted_fs sys fs roots = foldl (\<lambda>fs root. snd (create_directories sys fs root)) fs roots"

definition scan_of_stream :: "receiver_env \<Rightarrow> string list \<Rightarrow> filesystem \<Rightarrow> ReceiverApp \<Rightarrow> T_Manifest1Stream list \<Rightarrow> nat \<Rightarrow> T_Manifest1Stream result" where
  "scan_of_stream env names fs app ss k =
     scan_manifest_stream (nv_sys env) (mounted_fs (nv_sys env) fs (map (mounted_root app) (take (Suc k) ss)))
       (ms_stream_id (ss ! k)) (mounted_root app (ss ! k)) (4 * 1024 * 1024)
       (if ms_stream_id (ss ! k) = kStreamId then names else []) []"

lemma root_after_mount:
  "stream_root_for (ra_coordinator (set_fs fs (set_stream_root i root app))) j =
   (if j = i then root else stream_root_for (ra_coordinator app) j)"
  by (cases "co_roots (ra_coordinator app)")
    (simp_all add: stream_root_for_def set_fs_def set_stream_root_def receiver_stream_roots_def update_conv' split: option.split)

lemma root_of_other_stream:
  assumes "scan_receiver_streams env names ss app = (r, app')" "i \<notin> ms_stream_id ` set ss"
  shows "stream_root_for (ra_coordinator app') i = stream_root_for (ra_coordinator app) i"
  using assms
proof (induction ss arbitrary: app r)
  case (Cons s ss)
  define app1 where "app1 = set_stream_root (ms_stream_id s) (announced_root app s) app"
  have 1: "stream_root_for (ra_coordinator (set_fs fs app1)) i = stream_root_for (ra_coordinator app) i" for fs
    using Cons.prems(2) by (simp add: app1_def root_after_mount)
  show ?case
    using Cons.prems 1 Cons.IH
    unfolding scan_receiver_streams.simps announced_root_def [symmetric] app1_def [symmetric] Let_def
    by (auto split: prod.splits option.splits sum.splits)
qed simp

lemma scan_receiver_streams_result:
  assumes "scan_receiver_streams env names ss app = (Inr scanned, app')" "distinct (map ms_stream_id ss)"
  shows "length scanned = length ss \<and> (\<forall>k < length ss. scan_of_stream env names (app_fs app) app' ss k = Inr (scanned ! k))"
  using assms
proof (induction ss arbitrary: app scanned)
  case (Cons s ss)
  define root where "root = announced_root app s"
  define app1 where "app1 = set_stream_root (ms_stream_id s) root app"
  have fs1: "app_fs app1 = app_fs app" by (simp add: app1_def set_stream_root_def)
  obtain fs x rest where c: "create_directories (nv_sys env) (app_fs app) root = (None, fs)"
    and x: "scan_manifest_stream (nv_sys env) fs (ms_stream_id s) root (4 * 1024 * 1024)
      (if ms_stream_id s = kStreamId then names else []) [] = Inr x"
    and rest: "scan_receiver_streams env names ss (set_fs fs app1) = (Inr rest, app')" and sc: "scanned = x # rest"
    using Cons.prems(1)
    unfolding scan_receiver_streams.simps announced_root_def [symmetric] root_def [symmetric] app1_def [symmetric] Let_def fs1
    by (auto split: prod.splits option.splits sum.splits)
  have ih: "length rest = length ss" "\<And>k. k < length ss \<Longrightarrow> scan_of_stream env names fs app' ss k = Inr (rest ! k)"
    using Cons.IH [OF rest] Cons.prems(2) by (auto simp: set_fs_def)
  have "mounted_root app' s = root"
    using root_of_other_stream [OF rest, of "ms_stream_id s"] Cons.prems(2) unfolding mounted_root_def
    by (simp add: app1_def root_after_mount)
  then have "scan_of_stream env names (app_fs app) app' (s # ss) 0 = Inr x"
    and "scan_of_stream env names (app_fs app) app' (s # ss) (Suc k) = scan_of_stream env names fs app' ss k" for k
    using x c by (simp_all add: scan_of_stream_def mounted_fs_def)
  with ih sc show ?case by (auto simp: less_Suc_eq_0_disj)
qed simp

lemma scan_stream_id: "scan_manifest_stream sys fs i root n names r = Inr s \<Longrightarrow> ms_stream_id s = i"
  by (auto simp: scan_manifest_stream_def Let_def split: if_splits sum.splits walk_result.splits)

lemma find_by_key: "distinct (map f xs) \<Longrightarrow> k < length xs \<Longrightarrow> List.find (\<lambda>x. f x = f (xs ! k)) xs = Some (xs ! k)"
  by (auto simp: find_Some_iff distinct_conv_nth intro!: exI [of _ k])

lemma find_by_stream_id:
  assumes "distinct (map ms_stream_id ss)" "map ms_stream_id scanned = map ms_stream_id ss" "k < length ss"
  shows "List.find (\<lambda>c. ms_stream_id c = ms_stream_id (ss ! k)) scanned = Some (scanned ! k)"
proof -
  have len: "length scanned = length ss" using arg_cong [OF assms(2), of length] by simp
  have "ms_stream_id (scanned ! k) = ms_stream_id (ss ! k)"
    using arg_cong [OF assms(2), of "\<lambda>xs. xs ! k"] assms(3) len by simp
  with find_by_key [of ms_stream_id scanned k] assms len show ?thesis by simp
qed

section \<open>The answer\<close>

definition stream_start :: "T_Manifest1Stream \<Rightarrow> T_Manifest1Stream \<Rightarrow> T_SyncStart option result" where
  "stream_start s r = diff_stream (ms_stream_id s) (ms_entries s) (ms_entries r)"

definition answer_to :: "T_Manifest1 \<Rightarrow> T_Manifest1Stream list \<Rightarrow> T_Message \<Rightarrow> bool" where
  "answer_to m scanned reply \<longleftrightarrow>
     (case reply of
        Msg_Manifest2 m2 \<Rightarrow> m2_manifest_id m2 = m1_manifest_id m \<and>
          list_all2 (\<lambda>(s, r) a. \<exists>start. stream_start s r = Inr start \<and> a = make_manifest2_stream (ms_stream_id s) start)
            (zip (m1_streams m) scanned) (m2_streams m2)
      | Msg_Nack n \<Rightarrow>
          (\<exists>k e. k < length (m1_streams m) \<and> stream_start (m1_streams m ! k) (scanned ! k) = Inl e \<and>
             (\<forall>j < k. \<exists>start. stream_start (m1_streams m ! j) (scanned ! j) = Inr start) \<and>
             n = conflict_nack (ms_stream_id (m1_streams m ! k)) (exn_what e))
      | _ \<Rightarrow> False)"

lemma manifest2_streams_answers:
  assumes "length ss = length rs"
    and "\<forall>k < length ss. List.find (\<lambda>c. ms_stream_id c = ms_stream_id (ss ! k)) receiver = Some (rs ! k)"
  shows "case manifest2_streams receiver ss of
      Inr answers \<Rightarrow> list_all2 (\<lambda>(s, r) a. \<exists>start. stream_start s r = Inr start \<and> a = make_manifest2_stream (ms_stream_id s) start)
        (zip ss rs) answers
    | Inl (i, what) \<Rightarrow> \<exists>k e. k < length ss \<and> stream_start (ss ! k) (rs ! k) = Inl e \<and>
        (\<forall>j < k. \<exists>start. stream_start (ss ! j) (rs ! j) = Inr start) \<and> i = ms_stream_id (ss ! k) \<and> what = exn_what e"
  using assms
proof (induction ss rs rule: list_induct2)
  case (Cons s ss r rs)
  have f: "List.find (\<lambda>c. ms_stream_id c = ms_stream_id s) receiver = Some r" using Cons.prems by auto
  have "\<forall>k < length ss. List.find (\<lambda>c. ms_stream_id c = ms_stream_id (ss ! k)) receiver = Some (rs ! k)"
    using Cons.prems by (metis Suc_less_eq length_Cons nth_Cons_Suc)
  note ih = Cons.IH [OF this]
  show ?case
  proof (cases "stream_start s r")
    case (Inl e)
    with f show ?thesis
      by (auto simp: stream_start_def intro!: exI [of _ 0])
  next
    case (Inr start)
    note start = Inr
    show ?thesis
    proof (cases "manifest2_streams receiver ss")
      case (Inl conflict)
      obtain i what where c: "conflict = (i, what)" by fastforce
      from ih Inl c obtain k e where k: "k < length ss" "stream_start (ss ! k) (rs ! k) = Inl e"
          "\<forall>j < k. \<exists>start. stream_start (ss ! j) (rs ! j) = Inr start" "i = ms_stream_id (ss ! k)" "what = exn_what e"
        by auto
      have "\<exists>start. stream_start ((s # ss) ! j) ((r # rs) ! j) = Inr start" if "j < Suc k" for j
        using that k(3) start by (cases j) auto
      with f start Inl c k show ?thesis
        by (auto simp: stream_start_def intro!: exI [of _ "Suc k"])
    next
      case (Inr answers)
      with ih f start show ?thesis by (simp add: stream_start_def)
    qed
  qed
qed simp

lemma receiver_send_trace:
  assumes "receiver_send line msg app = (None, app')"
  shows "app' = app\<lparr>ra_network := ra_network app'\<rparr> \<and> rn_trace (ra_network app') = rn_trace (ra_network app) @ [RX_sent line msg]"
  using assms by (auto simp: receiver_send_def rx_send_message_def on_line_def rx_log_def split: option.splits if_splits)

lemma manifest_roots_activity:
  "manifest_roots env (app\<lparr>ra_activity_generation := g, ra_committed := b\<rparr>) = manifest_roots env app"
  by (simp add: manifest_roots_def receiver_stream_roots_def Let_def)

lemma manifest1_reply:
  assumes "receiver_on_message env line (Msg_Manifest1 m) app = (None, app')" and "distinct (map ms_stream_id (m1_streams m))"
  shows "\<exists>reply roots scanned. rn_trace (ra_network app') = rn_trace (ra_network app) @ [RX_sent line reply] \<and>
    manifest_roots env app = Inr roots \<and> length scanned = length (m1_streams m) \<and>
    (\<forall>k < length scanned. scan_of_stream env (stream_dir_names m roots) (app_fs app) app' (m1_streams m) k = Inr (scanned ! k)) \<and>
    answer_to m scanned reply"
proof -
  let ?app = "app\<lparr>ra_activity_generation := ra_activity_generation app + 1, ra_committed := False\<rparr>"
  have run: "apply_manifest1 env line m (app\<lparr>ra_activity_generation := ra_activity_generation app + 1\<rparr>) = (None, app')"
    using assms(1) by (simp add: receiver_on_message_def Let_def)
  obtain r app1 where r: "receiver_manifest_for_manifest1 env m ?app = (r, app1)" by fastforce
  then obtain rm where rm: "r = Inr rm" using run by (cases r) (auto simp: apply_manifest1_def)
  obtain roots where roots: "manifest_roots env app = Inr roots"
    using r rm by (auto simp: receiver_manifest_for_manifest1_def manifest_roots_activity split: sum.splits)
  define names where "names = stream_dir_names m roots"
  obtain scanned where sc: "scan_receiver_streams env names (m1_streams m) ?app = (Inr scanned, app1)" and rs: "m1_streams rm = scanned"
    using r rm roots by (auto simp: receiver_manifest_for_manifest1_def manifest_roots_activity names_def split: sum.splits prod.splits)
  have net: "ra_network app1 = ra_network app"
    using manifest_for_manifest1_mounts [OF r] by (simp add: mount_only_def)
  have res: "length scanned = length (m1_streams m)"
      "\<And>k. k < length scanned \<Longrightarrow> scan_of_stream env names (app_fs app) app1 (m1_streams m) k = Inr (scanned ! k)"
    using scan_receiver_streams_result [OF sc assms(2)] by auto
  have "ms_stream_id (scanned ! k) = ms_stream_id (m1_streams m ! k)" if "k < length scanned" for k
    using res(2) [OF that] unfolding scan_of_stream_def by (rule scan_stream_id)
  then have "map ms_stream_id scanned = map ms_stream_id (m1_streams m)"
    using res(1) by (auto intro: nth_equalityI)
  then have answers: "case manifest2_streams scanned (m1_streams m) of
      Inr answers \<Rightarrow> list_all2 (\<lambda>(s, r) a. \<exists>start. stream_start s r = Inr start \<and> a = make_manifest2_stream (ms_stream_id s) start)
        (zip (m1_streams m) scanned) answers
    | Inl (i, what) \<Rightarrow> \<exists>k e. k < length (m1_streams m) \<and> stream_start (m1_streams m ! k) (scanned ! k) = Inl e \<and>
        (\<forall>j < k. \<exists>start. stream_start (m1_streams m ! j) (scanned ! j) = Inr start) \<and>
        i = ms_stream_id (m1_streams m ! k) \<and> what = exn_what e"
    using find_by_stream_id [OF assms(2)] res(1) by (intro manifest2_streams_answers) auto
  have "\<exists>reply. receiver_send line reply app1 = (None, app') \<and> answer_to m scanned reply"
  proof (cases "manifest2_streams scanned (m1_streams m)")
    case (Inl conflict)
    obtain i what where c: "conflict = (i, what)" by fastforce
    have "receiver_send line (Msg_Nack (conflict_nack i what)) app1 = (None, app')"
      using run r rm rs Inl c by (simp add: apply_manifest1_def send_nack_def)
    moreover have "answer_to m scanned (Msg_Nack (conflict_nack i what))"
      using answers Inl c by (auto simp: answer_to_def)
    ultimately show ?thesis by blast
  next
    case (Inr answers')
    have "receiver_send line (Msg_Manifest2 \<lparr>m2_manifest_id = m1_manifest_id m, m2_streams = answers'\<rparr>) app1 = (None, app')"
      using run r rm rs Inr by (simp add: apply_manifest1_def)
    moreover have "answer_to m scanned (Msg_Manifest2 \<lparr>m2_manifest_id = m1_manifest_id m, m2_streams = answers'\<rparr>)"
      using answers Inr by (simp add: answer_to_def)
    ultimately show ?thesis by blast
  qed
  then obtain reply where send: "receiver_send line reply app1 = (None, app')" and reply: "answer_to m scanned reply" by blast
  have "ra_coordinator app' = ra_coordinator app1"
    using net_only_fields(2) [OF receiver_send_net [of app1 line reply]] send by simp
  then have "scan_of_stream env names (app_fs app) app' (m1_streams m) k = Inr (scanned ! k)" if "k < length scanned" for k
    using res(2) [OF that] by (simp add: scan_of_stream_def mounted_root_def [abs_def])
  with receiver_send_trace [OF send] net roots res(1) reply show ?thesis
    by (auto simp: names_def)
qed

text \<open>C25: A Manifest1 is answered by exactly one message. When the receiver has handled a Manifest1 that
  names each stream once, it has scanned the directory mounted for every stream, in order and after
  creating it, and has sent one message on the line: either a Manifest2 with the manifest's id that
  answers each stream in turn with the start computed from the sender's entries and the receiver's own,
  or, if that comparison fails, a SIZE_CONFLICT NACK that names the first stream for which it does.\<close>

theorem manifest1_answered:
  assumes "receiver_on_message env line (Msg_Manifest1 m) app = (None, app')" and "distinct (map ms_stream_id (m1_streams m))"
  shows "\<exists>reply roots scanned. rn_trace (ra_network app') = rn_trace (ra_network app) @ [RX_sent line reply] \<and>
    manifest_roots env app = Inr roots \<and> length scanned = length (m1_streams m) \<and>
    (\<forall>k < length scanned. scan_of_stream env (stream_dir_names m roots) (app_fs app) app' (m1_streams m) k = Inr (scanned ! k)) \<and>
    answer_to m scanned reply"
  by (rule manifest1_reply [OF assms])

theorem manifest1_answered_witness:
  "\<exists>reply. rn_trace (ra_network (snd (receiver_on_message sample_env 1 (Msg_Manifest1 sample_manifest1) sample_negotiated))) =
     rn_trace (ra_network sample_negotiated) @ [RX_sent 1 reply]"
proof -
  let ?r = "receiver_on_message sample_env 1 (Msg_Manifest1 sample_manifest1) sample_negotiated"
  have "fst ?r = None" by code_simp
  then have r: "?r = (None, snd ?r)" by (simp add: prod_eq_iff)
  have "distinct (map ms_stream_id (m1_streams sample_manifest1))" by code_simp
  with manifest1_answered [OF r] show ?thesis by blast
qed

end
