(* ===== verification/EventLoop.thy ===== *)
theory EventLoop
  imports Prelude "HOL-Library.Multiset"
begin

unbundle bit_operations_syntax

text \<open>
  The event loop, the listener and the connector of src/src/network/yisync_async.cpp. What the system
  calls return, and when, is an argument: the clock readings, the results of \<open>poll\<close>, \<open>accept\<close>,
  \<open>socket\<close>, \<open>connect\<close>, \<open>bind\<close> and \<open>listen\<close> and the addresses a name resolves to. A callback is a
  name; what it does is given by a function from the state of the program to the calls it makes on the
  loop. Times are in nanoseconds, delays in milliseconds. Ghost fields record every timer started,
  fired and thrown away.
\<close>

section \<open>The loop\<close>

record 'c Watcher =
  wt_fd :: int
  wt_events :: u16
  wt_callback :: 'c

record 'c Timer =
  tm_id :: u64
  tm_deadline :: int
  tm_callback :: 'c

record ('c, 'w) EventLoop =
  el_stopped :: bool
  el_next_timer_id :: u64
  el_watchers :: "'c Watcher list"
  el_timers :: "'c Timer list"
  el_world :: 'w
  el_started :: "'c Timer list"
  el_fired :: "(int \<times> 'c Timer) list"
  el_dropped :: "'c Timer list"

definition new_EventLoop :: "'w \<Rightarrow> ('c, 'w) EventLoop" where
  "new_EventLoop w =
     \<lparr>el_stopped = False, el_next_timer_id = 1, el_watchers = [], el_timers = [], el_world = w, el_started = [],
      el_fired = [], el_dropped = []\<rparr>"

definition unwatch_fd :: "int \<Rightarrow> ('c, 'w) EventLoop \<Rightarrow> ('c, 'w) EventLoop" where
  "unwatch_fd fd loop = loop\<lparr>el_watchers := filter (\<lambda>w. wt_fd w \<noteq> fd) (el_watchers loop)\<rparr>"

definition watch_fd :: "int \<Rightarrow> u16 \<Rightarrow> 'c \<Rightarrow> ('c, 'w) EventLoop \<Rightarrow> exn option \<times> ('c, 'w) EventLoop" where
  "watch_fd fd events callback loop =
     (if fd < 0 then (Some (invalid_argument ''invalid fd''), loop)
      else
        let loop1 = unwatch_fd fd loop
        in (None, loop1\<lparr>el_watchers := el_watchers loop1 @ [\<lparr>wt_fd = fd, wt_events = events, wt_callback = callback\<rparr>]\<rparr>))"

fun update_first_fd :: "int \<Rightarrow> u16 \<Rightarrow> 'c Watcher list \<Rightarrow> 'c Watcher list" where
  "update_first_fd fd events [] = []"
| "update_first_fd fd events (w # ws) =
     (if wt_fd w = fd then w\<lparr>wt_events := events\<rparr> # ws else w # update_first_fd fd events ws)"

definition update_fd :: "int \<Rightarrow> u16 \<Rightarrow> ('c, 'w) EventLoop \<Rightarrow> ('c, 'w) EventLoop" where
  "update_fd fd events loop = loop\<lparr>el_watchers := update_first_fd fd events (el_watchers loop)\<rparr>"

definition loop_call_later :: "int \<Rightarrow> int \<Rightarrow> 'c \<Rightarrow> ('c, 'w) EventLoop \<Rightarrow> ('c, 'w) EventLoop" where
  "loop_call_later now delay callback loop =
     (let timer = \<lparr>tm_id = el_next_timer_id loop, tm_deadline = now + delay * 1000000, tm_callback = callback\<rparr>
      in loop\<lparr>el_next_timer_id := el_next_timer_id loop + 1, el_timers := el_timers loop @ [timer],
           el_started := el_started loop @ [timer]\<rparr>)"

definition loop_stop :: "('c, 'w) EventLoop \<Rightarrow> ('c, 'w) EventLoop" where
  "loop_stop loop = loop\<lparr>el_stopped := True\<rparr>"

text \<open>The calls a callback may make, with the clock read by \<open>call_later\<close>, and the exception it may end
  with.\<close>

datatype 'c loop_call =
    Call_watch int u16 'c
  | Call_update int u16
  | Call_unwatch int
  | Call_later int int 'c
  | Call_stop
  | Call_throw exn

definition loop_call :: "'c loop_call \<Rightarrow> ('c, 'w) EventLoop \<Rightarrow> exn option \<times> ('c, 'w) EventLoop" where
  "loop_call call loop =
     (case call of
        Call_watch fd events callback \<Rightarrow> watch_fd fd events callback loop
      | Call_update fd events \<Rightarrow> (None, update_fd fd events loop)
      | Call_unwatch fd \<Rightarrow> (None, unwatch_fd fd loop)
      | Call_later now delay callback \<Rightarrow> (None, loop_call_later now delay callback loop)
      | Call_stop \<Rightarrow> (None, loop_stop loop)
      | Call_throw e \<Rightarrow> (Some e, loop))"

fun loop_calls :: "'c loop_call list \<Rightarrow> ('c, 'w) EventLoop \<Rightarrow> exn option \<times> ('c, 'w) EventLoop" where
  "loop_calls [] loop = (None, loop)"
| "loop_calls (call # calls) loop =
     (case loop_call call loop of (Some e, loop1) \<Rightarrow> (Some e, loop1) | (None, loop1) \<Rightarrow> loop_calls calls loop1)"

text \<open>A callback gets the events of its descriptor, or nothing when it is a timer's.\<close>

type_synonym ('c, 'w) behaviour = "'c \<Rightarrow> u16 option \<Rightarrow> 'w \<Rightarrow> 'c loop_call list \<times> 'w"

definition invoke :: "('c, 'w) behaviour \<Rightarrow> 'c \<Rightarrow> u16 option \<Rightarrow> ('c, 'w) EventLoop \<Rightarrow> exn option \<times> ('c, 'w) EventLoop" where
  "invoke run callback revents loop =
     (case run callback revents (el_world loop) of (calls, w) \<Rightarrow> loop_calls calls (loop\<lparr>el_world := w\<rparr>))"

definition poll_timeout :: "int \<Rightarrow> 'c Timer list \<Rightarrow> int" where
  "poll_timeout now timers =
     (if timers = [] then - 1
      else signed_take_bit 31 (max 0 ((foldr min (map tm_deadline timers) (tm_deadline (hd timers)) - now) div 1000000)))"

fun dispatch_io :: "('c, 'w) behaviour \<Rightarrow> (int \<times> u16) list \<Rightarrow> ('c, 'w) EventLoop \<Rightarrow> exn option \<times> ('c, 'w) EventLoop" where
  "dispatch_io run [] loop = (None, loop)"
| "dispatch_io run ((fd, revents) # fds) loop =
     (if revents = 0 \<or> el_stopped loop then dispatch_io run fds loop
      else case List.find (\<lambda>w. wt_fd w = fd) (el_watchers loop) of
        None \<Rightarrow> dispatch_io run fds loop
      | Some w \<Rightarrow>
          (case invoke run (wt_callback w) (Some revents) loop of
             (Some e, loop1) \<Rightarrow> (Some e, loop1)
           | (None, loop1) \<Rightarrow> dispatch_io run fds loop1))"

text \<open>The due timers have left the loop's list; those not run when the loop is stopped or a callback
  throws are gone.\<close>

fun run_due :: "('c, 'w) behaviour \<Rightarrow> int \<Rightarrow> 'c Timer list \<Rightarrow> ('c, 'w) EventLoop \<Rightarrow> exn option \<times> ('c, 'w) EventLoop" where
  "run_due run now [] loop = (None, loop)"
| "run_due run now (timer # due) loop =
     (if el_stopped loop then (None, loop\<lparr>el_dropped := el_dropped loop @ timer # due\<rparr>)
      else
        (case invoke run (tm_callback timer) None (loop\<lparr>el_fired := el_fired loop @ [(now, timer)]\<rparr>) of
           (Some e, loop1) \<Rightarrow> (Some e, loop1\<lparr>el_dropped := el_dropped loop1 @ due\<rparr>)
         | (None, loop1) \<Rightarrow> run_due run now due loop1))"

definition run_timers :: "('c, 'w) behaviour \<Rightarrow> int \<Rightarrow> ('c, 'w) EventLoop \<Rightarrow> exn option \<times> ('c, 'w) EventLoop" where
  "run_timers run now loop =
     run_due run now (filter (\<lambda>t. tm_deadline t \<le> now) (el_timers loop))
       (loop\<lparr>el_timers := filter (\<lambda>t. \<not> tm_deadline t \<le> now) (el_timers loop)\<rparr>)"

text \<open>What \<open>poll\<close> returns: the events of the descriptors in the order of the watchers, or an error.\<close>

datatype poll_result = Poll_ready "u16 list" | Poll_EINTR | Poll_error string

text \<open>One round: the result of \<open>poll\<close> and the clock read after the callbacks of the descriptors.\<close>

definition loop_round :: "('c, 'w) behaviour \<Rightarrow> poll_result \<Rightarrow> int \<Rightarrow> ('c, 'w) EventLoop \<Rightarrow> exn option \<times> ('c, 'w) EventLoop" where
  "loop_round run result now loop =
     (case result of
        Poll_EINTR \<Rightarrow> (None, loop)
      | Poll_error message \<Rightarrow> (Some (runtime_error (''poll: '' @ message)), loop)
      | Poll_ready revents \<Rightarrow>
          (case dispatch_io run (zip (map wt_fd (el_watchers loop)) revents) loop of
             (Some e, loop1) \<Rightarrow> (Some e, loop1)
           | (None, loop1) \<Rightarrow> run_timers run now loop1))"

text \<open>\<open>run\<close> over the rounds so far: it is over when the loop is stopped or has nothing to wait for.\<close>

fun loop_rounds :: "('c, 'w) behaviour \<Rightarrow> (poll_result \<times> int) list \<Rightarrow> ('c, 'w) EventLoop \<Rightarrow> exn option \<times> ('c, 'w) EventLoop" where
  "loop_rounds run [] loop = (None, loop)"
| "loop_rounds run ((result, now) # rounds) loop =
     (if el_stopped loop \<or> (el_watchers loop = [] \<and> el_timers loop = []) then (None, loop)
      else case loop_round run result now loop of
        (Some e, loop1) \<Rightarrow> (Some e, loop1)
      | (None, loop1) \<Rightarrow> loop_rounds run rounds loop1)"

definition loop_run :: "('c, 'w) behaviour \<Rightarrow> (poll_result \<times> int) list \<Rightarrow> ('c, 'w) EventLoop \<Rightarrow> exn option \<times> ('c, 'w) EventLoop" where
  "loop_run run rounds loop = loop_rounds run rounds (loop\<lparr>el_stopped := False\<rparr>)"

section \<open>Every timer fires at most once and never early\<close>

definition all_timers :: "('c, 'w) EventLoop \<Rightarrow> 'c Timer list \<Rightarrow> 'c Timer multiset" where
  "all_timers loop due = mset (el_timers loop) + mset (map snd (el_fired loop)) + mset (el_dropped loop) + mset due"

text \<open>The bookkeeping while the timers in \<open>due\<close> wait for their callbacks.\<close>

definition timers_ok :: "'c Timer list \<Rightarrow> ('c, 'w) EventLoop \<Rightarrow> bool" where
  "timers_ok due loop \<longleftrightarrow> mset (el_started loop) = all_timers loop due \<and>
     (\<forall>(now, t) \<in> set (el_fired loop). tm_deadline t \<le> now) \<and>
     map tm_id (el_started loop) = map word_of_nat [1..<Suc (length (el_started loop))] \<and>
     el_next_timer_id loop = word_of_nat (Suc (length (el_started loop)))"

lemma loop_call_ok: "timers_ok due loop \<Longrightarrow> timers_ok due (snd (loop_call call loop))"
  by (cases call) (auto simp: timers_ok_def all_timers_def loop_call_def watch_fd_def unwatch_fd_def update_fd_def
      loop_call_later_def loop_stop_def Let_def)

lemma loop_calls_ok: "timers_ok due loop \<Longrightarrow> timers_ok due (snd (loop_calls calls loop))"
proof (induction calls arbitrary: loop)
  case (Cons call calls)
  then show ?case using loop_call_ok [of due loop call] by (auto split: prod.split option.split)
qed simp

lemma invoke_ok: "timers_ok due loop \<Longrightarrow> timers_ok due (snd (invoke run c r loop))"
  unfolding invoke_def by (auto split: prod.split intro!: loop_calls_ok) (simp add: timers_ok_def all_timers_def)

lemma dispatch_io_ok: "timers_ok due loop \<Longrightarrow> timers_ok due (snd (dispatch_io run fds loop))"
proof (induction run fds loop rule: dispatch_io.induct)
  case (2 run fd revents fds loop)
  then show ?case
    using invoke_ok [OF 2(4)] by (auto split: option.split prod.split) (metis snd_conv)+
qed simp

lemma fired_ok:
  "timers_ok (timer # due) loop \<Longrightarrow> tm_deadline timer \<le> now \<Longrightarrow> timers_ok due (loop\<lparr>el_fired := el_fired loop @ [(now, timer)]\<rparr>)"
  by (auto simp: timers_ok_def all_timers_def)

lemma dropped_ok: "timers_ok due loop \<Longrightarrow> timers_ok [] (loop\<lparr>el_dropped := el_dropped loop @ due\<rparr>)"
  by (simp add: timers_ok_def all_timers_def)

lemma run_due_ok:
  "timers_ok due loop \<Longrightarrow> \<forall>t \<in> set due. tm_deadline t \<le> now \<Longrightarrow> timers_ok [] (snd (run_due run now due loop))"
proof (induction due arbitrary: loop)
  case (Cons timer due)
  define loop0 where "loop0 = loop\<lparr>el_fired := el_fired loop @ [(now, timer)]\<rparr>"
  have "timers_ok due loop0" unfolding loop0_def using Cons.prems by (intro fired_ok) auto
  then have 1: "timers_ok due (snd (invoke run (tm_callback timer) None loop0))" by (rule invoke_ok)
  show ?case
    using 1 Cons.IH Cons.prems dropped_ok [OF Cons.prems(1)]
    by (auto simp: loop0_def [symmetric] split: prod.split option.split intro!: dropped_ok)
qed simp

lemma mset_split: "mset (filter (\<lambda>t. \<not> P t) xs) + mset (filter P xs) = mset xs"
  by (induction xs) auto

lemma run_timers_ok:
  assumes "timers_ok [] loop" shows "timers_ok [] (snd (run_timers run now loop))"
  unfolding run_timers_def
proof (rule run_due_ok)
  show "timers_ok (filter (\<lambda>t. tm_deadline t \<le> now) (el_timers loop))
      (loop\<lparr>el_timers := filter (\<lambda>t. \<not> tm_deadline t \<le> now) (el_timers loop)\<rparr>)"
    using assms mset_split [of "\<lambda>t. tm_deadline t \<le> now" "el_timers loop"]
    unfolding timers_ok_def all_timers_def by (simp add: union_ac)
qed simp

lemma loop_round_ok:
  assumes "timers_ok [] loop" shows "timers_ok [] (snd (loop_round run result now loop))"
proof (cases result)
  case (Poll_ready revents)
  let ?fds = "zip (map wt_fd (el_watchers loop)) revents"
  obtain e loop1 where 1: "dispatch_io run ?fds loop = (e, loop1)" by fastforce
  then have "timers_ok [] loop1" using dispatch_io_ok [OF assms, of run ?fds] by simp
  with Poll_ready 1 show ?thesis by (cases e) (simp_all add: loop_round_def run_timers_ok)
qed (use assms in \<open>simp_all add: loop_round_def\<close>)

lemma loop_rounds_ok: "timers_ok [] loop \<Longrightarrow> timers_ok [] (snd (loop_rounds run rounds loop))"
proof (induction run rounds loop rule: loop_rounds.induct)
  case (2 run result now rounds loop)
  then show ?case using loop_round_ok [OF 2(2), of run result now] by (auto split: prod.split option.split)
qed simp

text \<open>Timers are thrown away only by a loop that stops.\<close>

definition keeps_timers :: "('c, 'w) EventLoop \<Rightarrow> ('c, 'w) EventLoop \<Rightarrow> bool" where
  "keeps_timers loop loop' \<longleftrightarrow> el_dropped loop' = el_dropped loop \<and> el_fired loop' = el_fired loop \<and> (el_stopped loop \<longrightarrow> el_stopped loop')"

lemma loop_calls_keep: "keeps_timers loop (snd (loop_calls calls loop))"
proof (induction calls arbitrary: loop)
  case (Cons call calls)
  have "keeps_timers loop (snd (loop_call call loop))"
    by (cases call) (auto simp: keeps_timers_def loop_call_def watch_fd_def unwatch_fd_def update_fd_def
        loop_call_later_def loop_stop_def Let_def)
  then show ?case using Cons.IH by (auto simp: keeps_timers_def split: prod.split option.split)
qed (simp add: keeps_timers_def)

lemma invoke_keeps: "keeps_timers loop (snd (invoke run c r loop))"
proof -
  obtain calls w where "run c r (el_world loop) = (calls, w)" by fastforce
  then show ?thesis using loop_calls_keep [of "loop\<lparr>el_world := w\<rparr>" calls] by (simp add: invoke_def keeps_timers_def)
qed

definition drops_stopped :: "('c, 'w) EventLoop \<Rightarrow> bool" where
  "drops_stopped loop \<longleftrightarrow> (el_dropped loop \<noteq> [] \<longrightarrow> el_stopped loop)"

lemma dispatch_io_drops: "drops_stopped loop \<Longrightarrow> drops_stopped (snd (dispatch_io run fds loop))"
proof (induction run fds loop rule: dispatch_io.induct)
  case (2 run fd revents fds loop)
  have "drops_stopped (snd (invoke run c r loop))" for c r
    using 2(4) invoke_keeps [of loop run c r] by (auto simp: drops_stopped_def keeps_timers_def)
  with 2 show ?case by (auto split: option.split prod.split) (metis snd_conv)+
qed simp

lemma run_due_drops:
  "drops_stopped loop \<Longrightarrow> run_due run now due loop = (None, loop') \<Longrightarrow> drops_stopped loop'"
proof (induction due arbitrary: loop)
  case (Cons timer due)
  show ?case
  proof (cases "el_stopped loop")
    case True
    with Cons.prems(2) show ?thesis by (auto simp: drops_stopped_def)
  next
    case False
    let ?loop0 = "loop\<lparr>el_fired := el_fired loop @ [(now, timer)]\<rparr>"
    obtain loop1 where 1: "invoke run (tm_callback timer) None ?loop0 = (None, loop1)" and "run_due run now due loop1 = (None, loop')"
      using Cons.prems(2) False by (auto split: prod.splits option.splits)
    moreover have "drops_stopped loop1"
      using Cons.prems(1) invoke_keeps [of ?loop0 run "tm_callback timer" None] 1 by (auto simp: drops_stopped_def keeps_timers_def)
    ultimately show ?thesis using Cons.IH by blast
  qed
qed simp

lemma loop_round_drops:
  assumes "drops_stopped loop" "loop_round run result now loop = (None, loop')" shows "drops_stopped loop'"
proof (cases result)
  case (Poll_ready revents)
  let ?fds = "zip (map wt_fd (el_watchers loop)) revents"
  obtain loop1 where 1: "dispatch_io run ?fds loop = (None, loop1)" and 2: "run_timers run now loop1 = (None, loop')"
    using assms(2) Poll_ready by (auto simp: loop_round_def split: prod.splits option.splits)
  have "drops_stopped loop1" using dispatch_io_drops [OF assms(1), of run ?fds] 1 by simp
  then have "drops_stopped (loop1\<lparr>el_timers := ts\<rparr>)" for ts by (simp add: drops_stopped_def)
  then show ?thesis using 2 unfolding run_timers_def by (rule run_due_drops)
qed (use assms in \<open>auto simp: loop_round_def\<close>)

lemma loop_rounds_drops:
  "drops_stopped loop \<Longrightarrow> loop_rounds run rounds loop = (None, loop') \<Longrightarrow> drops_stopped loop'"
proof (induction run rounds loop rule: loop_rounds.induct)
  case (2 run result now rounds loop)
  obtain e loop1 where r: "loop_round run result now loop = (e, loop1)" by fastforce
  show ?case
  proof (cases "el_stopped loop \<or> (el_watchers loop = [] \<and> el_timers loop = [])")
    case False
    with 2(3) r have "e = None" "loop_rounds run rounds loop1 = (None, loop')" by (auto split: option.splits)
    with 2(1) [OF False r [symmetric]] loop_round_drops [OF 2(2)] r show ?thesis by simp
  qed (use 2(2,3) in auto)
qed simp

text \<open>C21: A timer fires at most once, never early, and is not lost. Whatever the callbacks call and
  whatever \<open>poll\<close> and the clock return, the timers started by \<open>call_later\<close> are exactly those that are
  pending, that have fired and that were thrown away; their ids differ, so none of them is counted
  twice; none has fired before its deadline; and none is thrown away unless the loop was stopped or
  left by an exception.\<close>

theorem timers_fire_once:
  assumes "loop_calls calls0 (new_EventLoop w) = (None, loop0)" and "loop_run run rounds loop0 = (e, loop)"
    and "length (el_started loop) < 2 ^ 64 - 1"
  shows "mset (el_started loop) = mset (el_timers loop) + mset (map snd (el_fired loop)) + mset (el_dropped loop) \<and>
    distinct (map tm_id (el_started loop)) \<and> (\<forall>(now, t) \<in> set (el_fired loop). tm_deadline t \<le> now) \<and>
    (e = None \<and> \<not> el_stopped loop \<longrightarrow> el_dropped loop = [])"
proof -
  have "timers_ok [] (new_EventLoop w)" by (simp add: timers_ok_def all_timers_def new_EventLoop_def)
  then have "timers_ok [] loop0" using loop_calls_ok [of "[]" "new_EventLoop w" calls0] assms(1) by simp
  then have "timers_ok [] (loop0\<lparr>el_stopped := False\<rparr>)" by (simp add: timers_ok_def all_timers_def)
  then have ok: "timers_ok [] loop" using loop_rounds_ok [of "loop0\<lparr>el_stopped := False\<rparr>" run rounds] assms(2) by (simp add: loop_run_def)
  have "el_dropped loop0 = []"
    using loop_calls_keep [of "new_EventLoop w" calls0] assms(1) by (simp add: keeps_timers_def new_EventLoop_def)
  then have drops: "drops_stopped loop" if "e = None"
    using loop_rounds_drops [of "loop0\<lparr>el_stopped := False\<rparr>" run rounds loop] assms(2) that by (simp add: loop_run_def drops_stopped_def)
  have "inj_on (word_of_nat :: nat \<Rightarrow> u64) (set [1..<Suc (length (el_started loop))])"
    by (rule inj_on_subset [OF inj_word_of_nat_u64]) (use assms(3) in auto)
  then have "distinct (map (word_of_nat :: nat \<Rightarrow> u64) [1..<Suc (length (el_started loop))])" by (simp only: distinct_map distinct_upt simp_thms)
  moreover have "map tm_id (el_started loop) = map word_of_nat [1..<Suc (length (el_started loop))]" using ok by (simp only: timers_ok_def)
  ultimately have "distinct (map tm_id (el_started loop))" by (simp only:)
  with ok drops show ?thesis by (auto simp: timers_ok_def all_timers_def drops_stopped_def)
qed

text \<open>A timer that is due when the timers are looked at does not wait for another round.\<close>

lemma run_due_fires:
  "run_due run now due loop = (None, loop') \<Longrightarrow> \<not> el_stopped loop' \<Longrightarrow>
   el_fired loop' = el_fired loop @ map (Pair now) due"
proof (induction due arbitrary: loop)
  case (Cons timer due)
  let ?loop0 = "loop\<lparr>el_fired := el_fired loop @ [(now, timer)]\<rparr>"
  have "\<not> el_stopped loop" using Cons.prems by (auto split: if_splits)
  then obtain loop1 where 1: "invoke run (tm_callback timer) None ?loop0 = (None, loop1)" and 2: "run_due run now due loop1 = (None, loop')"
    using Cons.prems(1) by (auto split: prod.splits option.splits)
  have "el_fired loop1 = el_fired ?loop0"
    using invoke_keeps [of ?loop0 run "tm_callback timer" None] 1 by (simp add: keeps_timers_def)
  with Cons.IH [OF 2 Cons.prems(2)] show ?case by simp
qed simp

lemma round_fires_due:
  assumes "run_timers run now loop = (None, loop')" "\<not> el_stopped loop'" "t \<in> set (el_timers loop)" "tm_deadline t \<le> now"
  shows "(now, t) \<in> set (el_fired loop')"
  using run_due_fires [OF assms(1) [unfolded run_timers_def] assms(2)] assms(3,4) by auto

text \<open>\<open>poll\<close> never sleeps past the nearest deadline, as long as that is less than \<open>2 ^ 31\<close> milliseconds ahead;
  beyond that the conversion to \<open>int\<close> wraps.\<close>

lemma foldr_min_le: "t \<in> set ts \<Longrightarrow> foldr min (map tm_deadline ts) d \<le> tm_deadline t"
  by (induction ts) (auto intro: min.coboundedI1 min.coboundedI2)

lemma poll_timeout_bound:
  assumes "t \<in> set timers" "tm_deadline t - now < 2 ^ 31 * 1000000"
  shows "0 \<le> poll_timeout now timers \<and> poll_timeout now timers * 1000000 \<le> max 0 (tm_deadline t - now)"
proof -
  define nearest where "nearest = foldr min (map tm_deadline timers) (tm_deadline (hd timers))"
  define ms where "ms = max 0 ((nearest - now) div 1000000)"
  have le: "nearest \<le> tm_deadline t" unfolding nearest_def by (rule foldr_min_le [OF assms(1)])
  have "ms < 2 ^ 31" using le assms(2) by (auto simp: ms_def)
  then have "signed_take_bit 31 ms = ms" by (simp add: ms_def signed_take_bit_int_eq_self)
  moreover have "timers \<noteq> []" using assms(1) by auto
  ultimately have "poll_timeout now timers = ms" by (simp add: poll_timeout_def ms_def nearest_def)
  moreover have "ms * 1000000 \<le> max 0 (tm_deadline t - now)"
  proof (cases "nearest - now < 0")
    case False
    then have "ms * 1000000 \<le> nearest - now" by (simp add: ms_def max_def) linarith
    with le show ?thesis by simp
  qed (simp add: ms_def div_neg_pos_less0 max_def)
  ultimately show ?thesis by (simp add: ms_def)
qed

lemma poll_timeout_wraps:
  "poll_timeout 0 [\<lparr>tm_id = 1, tm_deadline = 2147483648 * 1000000, tm_callback = c\<rparr>] < 0"
  by (simp add: poll_timeout_def)

definition sample_behaviour :: "(nat, nat) behaviour" where
  "sample_behaviour c revents w = (if w < 2 then ([Call_later 7000000 5 c], w + 1) else ([Call_stop], w))"

definition sample_loop :: "(nat, nat) EventLoop" where
  "sample_loop = snd (loop_run sample_behaviour [(Poll_ready [], 5000000), (Poll_ready [], 12000000)]
     (snd (loop_calls [Call_later 0 5 1, Call_later 0 3 2] (new_EventLoop 0))))"

theorem timers_fire_once_witness: "distinct (map tm_id (el_started sample_loop)) \<and> length (el_fired sample_loop) = 3"
proof -
  let ?c = "loop_calls [Call_later 0 5 1, Call_later 0 3 2] (new_EventLoop 0) :: exn option \<times> (nat, nat) EventLoop"
  let ?r = "loop_run sample_behaviour [(Poll_ready [], 5000000), (Poll_ready [], 12000000)] (snd ?c)"
  have c: "?c = (None, snd ?c)" by (simp add: loop_call_def)
  have r: "?r = (fst ?r, sample_loop)" by (simp add: sample_loop_def)
  have "length (el_started sample_loop) = 4" by code_simp
  then have "length (el_started sample_loop) < 2 ^ 64 - 1" by simp
  from timers_fire_once [OF c r this] have "distinct (map tm_id (el_started sample_loop))" by simp
  moreover have "length (el_fired sample_loop) = 3" by code_simp
  ultimately show ?thesis ..
qed

section \<open>Listening\<close>

record AsyncTcpListener =
  al_fd :: int
  al_handed :: "int list"
  al_closed :: "int list"

definition listener_close :: "AsyncTcpListener \<Rightarrow> AsyncTcpListener" where
  "listener_close l = (if al_fd l < 0 then l else l\<lparr>al_fd := - 1, al_closed := al_closed l @ [al_fd l]\<rparr>)"

text \<open>What \<open>accept\<close> returns: a descriptor, whether it can be made non-blocking and whether the address
  family of the peer is known, or why there is none.\<close>

datatype accept_result = Accepted int bool bool | Accept_EINTR | Accept_EAGAIN | Accept_error

text \<open>The loop of \<open>handle_io\<close>; \<open>has_callback\<close> says whether an accept callback is set.\<close>

fun accept_loop :: "bool \<Rightarrow> AsyncTcpListener \<Rightarrow> accept_result list \<Rightarrow> exn option \<times> AsyncTcpListener" where
  "accept_loop has_callback l [] = (None, l)"
| "accept_loop has_callback l (r # rs) =
     (if al_fd l < 0 then (None, l)
      else case r of
        Accepted fd nonblocking known \<Rightarrow>
          if \<not> nonblocking then (Some (runtime_error ''fcntl(F_SETFL)''), l)
          else if has_callback
          then if \<not> known then (Some (runtime_error ''unsupported socket address family''), l)
               else accept_loop has_callback (l\<lparr>al_handed := al_handed l @ [fd]\<rparr>) rs
          else accept_loop has_callback (l\<lparr>al_closed := al_closed l @ [fd]\<rparr>) rs
      | Accept_EINTR \<Rightarrow> accept_loop has_callback l rs
      | Accept_EAGAIN \<Rightarrow> (None, l)
      | Accept_error \<Rightarrow> (None, listener_close l))"

definition pollin :: u16 where "pollin = 1"
definition pollout :: u16 where "pollout = 4"
definition pollerr :: u16 where "pollerr = 8"
definition pollhup :: u16 where "pollhup = 16"
definition pollnval :: u16 where "pollnval = 32"

definition listener_handle_io :: "bool \<Rightarrow> u16 \<Rightarrow> accept_result list \<Rightarrow> AsyncTcpListener \<Rightarrow> exn option \<times> AsyncTcpListener" where
  "listener_handle_io has_callback revents results l =
     (if al_fd l < 0 then (None, l)
      else if (revents AND (pollerr OR pollnval)) \<noteq> 0 then (None, listener_close l)
      else if (revents AND pollin) = 0 then (None, l)
      else accept_loop has_callback l results)"

text \<open>\<open>listen_async_tcp\<close>: the addresses in turn, each with the descriptor \<open>socket\<close> returns (negative when it
  fails) and whether it can be made non-blocking, be bound and listened on, and asked for its name.\<close>

record listen_attempt =
  la_fd :: int
  la_nonblocking :: bool
  la_bound :: bool
  la_listens :: bool
  la_named :: bool

fun listen_addresses :: "listen_attempt list \<Rightarrow> int list \<Rightarrow> AsyncTcpListener result \<times> int list" where
  "listen_addresses [] closed = (Inl (runtime_error ''listen_async_tcp''), closed)"
| "listen_addresses (a # attempts) closed =
     (if la_fd a < 0 then listen_addresses attempts closed
      else if \<not> la_nonblocking a then (Inl (runtime_error ''fcntl(F_SETFL)''), closed)
      else if la_bound a \<and> la_listens a
      then if \<not> la_named a then (Inl (runtime_error ''getsockname''), closed)
           else (Inr \<lparr>al_fd = la_fd a, al_handed = [], al_closed = []\<rparr>, closed)
      else listen_addresses attempts (closed @ [la_fd a]))"

section \<open>Connecting\<close>

datatype connect_report = Connected int | Connect_failed string

record PendingTcpConnect =
  pc_fd :: int
  pc_watched :: bool
  pc_reports :: "connect_report list"
  pc_opened :: "int list"
  pc_closed :: "int list"

definition new_PendingTcpConnect :: PendingTcpConnect where
  "new_PendingTcpConnect = \<lparr>pc_fd = - 1, pc_watched = False, pc_reports = [], pc_opened = [], pc_closed = []\<rparr>"

text \<open>\<open>connection_ok\<close>: the constructor of the connection, which makes the descriptor non-blocking again,
  does not throw.\<close>

definition finish_success :: "bool \<Rightarrow> PendingTcpConnect \<Rightarrow> exn option \<times> PendingTcpConnect" where
  "finish_success connection_ok p =
     (let p1 = p\<lparr>pc_fd := - 1, pc_watched := False\<rparr>
      in if \<not> connection_ok then (Some (runtime_error ''fcntl(F_SETFL)''), p1)
         else (None, p1\<lparr>pc_reports := pc_reports p1 @ [Connected (pc_fd p)]\<rparr>))"

definition close_pending :: "PendingTcpConnect \<Rightarrow> PendingTcpConnect" where
  "close_pending p = (if pc_fd p < 0 then p else p\<lparr>pc_fd := - 1, pc_closed := pc_closed p @ [pc_fd p]\<rparr>)"

definition finish_error :: "string \<Rightarrow> PendingTcpConnect \<Rightarrow> PendingTcpConnect" where
  "finish_error message p =
     (let p1 = (if pc_fd p < 0 then p else close_pending (p\<lparr>pc_watched := False\<rparr>))
      in p1\<lparr>pc_reports := pc_reports p1 @ [Connect_failed message]\<rparr>)"

text \<open>An address: the descriptor, whether it can be made non-blocking, and what \<open>connect\<close> returns.\<close>

datatype connect_result = Connect_done bool | Connect_in_progress | Connect_refused

record connect_attempt =
  ca_fd :: int
  ca_nonblocking :: bool
  ca_result :: connect_result

fun connect_addresses :: "string \<Rightarrow> connect_attempt list \<Rightarrow> PendingTcpConnect \<Rightarrow> exn option \<times> PendingTcpConnect" where
  "connect_addresses message [] p = (None, finish_error message p)"
| "connect_addresses message (a # attempts) p =
     (let p1 = p\<lparr>pc_fd := ca_fd a, pc_opened := (if ca_fd a < 0 then pc_opened p else pc_opened p @ [ca_fd a])\<rparr>
      in if ca_fd a < 0 then connect_addresses message attempts p1
         else if \<not> ca_nonblocking a then (Some (runtime_error ''fcntl(F_SETFL)''), p1)
         else case ca_result a of
           Connect_done connection_ok \<Rightarrow> finish_success connection_ok p1
         | Connect_in_progress \<Rightarrow> (None, p1\<lparr>pc_watched := True\<rparr>)
         | Connect_refused \<Rightarrow> connect_addresses message attempts (close_pending p1))"

text \<open>What \<open>getsockopt(SO_ERROR)\<close> says when the descriptor is ready.\<close>

datatype sockopt_result = Sockopt_fails string | Sockopt_error string | Sockopt_ok bool

definition connect_handle_io :: "u16 \<Rightarrow> sockopt_result \<Rightarrow> PendingTcpConnect \<Rightarrow> exn option \<times> PendingTcpConnect" where
  "connect_handle_io revents result p =
     (if pc_fd p < 0 then (None, p)
      else if (revents AND (pollerr OR pollnval OR pollhup OR pollout)) = 0 then (None, p)
      else case result of
        Sockopt_fails message \<Rightarrow> (None, finish_error (''getsockopt(SO_ERROR): '' @ message) p)
      | Sockopt_error message \<Rightarrow> (None, finish_error (''connect: '' @ message) p)
      | Sockopt_ok connection_ok \<Rightarrow> finish_success connection_ok p)"

fun connect_events :: "(u16 \<times> sockopt_result) list \<Rightarrow> PendingTcpConnect \<Rightarrow> exn option \<times> PendingTcpConnect" where
  "connect_events [] p = (None, p)"
| "connect_events ((revents, result) # events) p =
     (case connect_handle_io revents result p of (Some e, p1) \<Rightarrow> (Some e, p1) | (None, p1) \<Rightarrow> connect_events events p1)"

text \<open>\<open>async_connect_tcp\<close> and the events that follow. An exception of \<open>start\<close> destroys the object, which
  closes its descriptor.\<close>

definition async_connect_tcp ::
  "string \<Rightarrow> connect_attempt list \<Rightarrow> (u16 \<times> sockopt_result) list \<Rightarrow> exn option \<times> PendingTcpConnect" where
  "async_connect_tcp message attempts events =
     (case connect_addresses message attempts new_PendingTcpConnect of
        (Some e, p) \<Rightarrow> (Some e, close_pending p)
      | (None, p) \<Rightarrow> connect_events events p)"

text \<open>The descriptors given to the program.\<close>

definition handed :: "connect_report list \<Rightarrow> int list" where
  "handed reports = List.map_filter (\<lambda>r. case r of Connected fd \<Rightarrow> Some fd | Connect_failed _ \<Rightarrow> None) reports"

definition connect_ok :: "PendingTcpConnect \<Rightarrow> bool" where
  "connect_ok p \<longleftrightarrow>
     mset (pc_opened p) = mset (pc_closed p) + mset (handed (pc_reports p)) + (if pc_fd p < 0 then {#} else {#pc_fd p#}) \<and>
     (if pc_fd p < 0 then length (pc_reports p) = 1 \<and> \<not> pc_watched p else pc_reports p = [] \<and> pc_watched p)"

definition connect_idle :: "PendingTcpConnect \<Rightarrow> bool" where
  "connect_idle p \<longleftrightarrow> pc_fd p < 0 \<and> \<not> pc_watched p \<and> pc_reports p = [] \<and> mset (pc_opened p) = mset (pc_closed p)"

lemma connect_addresses_ok:
  "connect_idle p \<Longrightarrow> connect_addresses message attempts p = (None, p') \<Longrightarrow> connect_ok p'"
proof (induction attempts arbitrary: p)
  case Nil
  then show ?case by (auto simp: connect_idle_def connect_ok_def finish_error_def handed_def map_filter_simps)
next
  case (Cons a attempts)
  define p1 where "p1 = p\<lparr>pc_fd := ca_fd a, pc_opened := (if ca_fd a < 0 then pc_opened p else pc_opened p @ [ca_fd a])\<rparr>"
  consider "ca_fd a < 0" | "\<not> ca_fd a < 0" "ca_nonblocking a" "ca_result a = Connect_done True"
    | "\<not> ca_fd a < 0" "ca_nonblocking a" "ca_result a = Connect_in_progress"
    | "\<not> ca_fd a < 0" "ca_nonblocking a" "ca_result a = Connect_refused"
    using Cons.prems(2) by (cases "ca_result a") (auto simp: Let_def finish_success_def split: if_splits)
  then show ?case
  proof cases
    case 1
    have "connect_idle p1" using 1 Cons.prems(1) by (simp add: p1_def connect_idle_def)
    then show ?thesis using Cons.IH [of p1] Cons.prems(2) 1 by (simp add: p1_def Let_def)
  next
    case 4
    have "connect_idle (close_pending p1)" using 4 Cons.prems(1) by (simp add: p1_def connect_idle_def close_pending_def)
    then show ?thesis using Cons.IH [of "close_pending p1"] Cons.prems(2) 4 by (simp add: p1_def Let_def)
  qed (use Cons.prems in \<open>auto simp: Let_def connect_idle_def connect_ok_def finish_success_def handed_def map_filter_simps\<close>)
qed

lemma connect_handle_io_ok: "connect_ok p \<Longrightarrow> connect_handle_io revents result p = (None, p') \<Longrightarrow> connect_ok p'"
  by (cases result)
    (auto simp: connect_handle_io_def connect_ok_def finish_success_def finish_error_def close_pending_def handed_def
      map_filter_simps Let_def split: if_splits)

lemma connect_events_ok: "connect_ok p \<Longrightarrow> connect_events events p = (None, p') \<Longrightarrow> connect_ok p'"
proof (induction events arbitrary: p)
  case (Cons ev events)
  obtain revents result where ev: "ev = (revents, result)" by fastforce
  with Cons.prems(2) obtain p1 where "connect_handle_io revents result p = (None, p1)" "connect_events events p1 = (None, p')"
    by (auto split: prod.splits option.splits)
  with Cons.IH connect_handle_io_ok [OF Cons.prems(1)] show ?case by blast
qed simp

text \<open>C22: A connection attempt reports exactly once and loses no descriptor. Whatever addresses the name
  resolves to, whatever the system calls return and however often the descriptor becomes ready, an
  attempt that ends without an exception has either reported once, success or failure, and is no longer
  watched, or it waits, watched, with nothing reported; and every socket it has opened was closed,
  handed over as a connection, or is the one it waits for.\<close>

theorem connect_reports_once:
  assumes "async_connect_tcp message attempts events = (None, p)"
  shows "(if pc_fd p < 0 then length (pc_reports p) = 1 \<and> \<not> pc_watched p else pc_reports p = [] \<and> pc_watched p) \<and>
    mset (pc_opened p) = mset (pc_closed p) + mset (handed (pc_reports p)) + (if pc_fd p < 0 then {#} else {#pc_fd p#})"
proof -
  obtain p1 where 1: "connect_addresses message attempts new_PendingTcpConnect = (None, p1)" and 2: "connect_events events p1 = (None, p)"
    using assms by (auto simp: async_connect_tcp_def split: prod.splits option.splits)
  have "connect_idle new_PendingTcpConnect" by (simp add: connect_idle_def new_PendingTcpConnect_def)
  from connect_events_ok [OF connect_addresses_ok [OF this 1] 2] show ?thesis by (simp add: connect_ok_def)
qed

definition sample_attempts :: "connect_attempt list" where
  "sample_attempts = [\<lparr>ca_fd = 8, ca_nonblocking = True, ca_result = Connect_refused\<rparr>,
     \<lparr>ca_fd = 8, ca_nonblocking = True, ca_result = Connect_in_progress\<rparr>]"

theorem connect_reports_once_witness:
  "length (pc_reports (snd (async_connect_tcp ''refused'' sample_attempts [(0, Sockopt_ok True), (4, Sockopt_ok True)]))) = 1"
proof -
  let ?r = "async_connect_tcp ''refused'' sample_attempts [(0, Sockopt_ok True), (4, Sockopt_ok True)]"
  have "fst ?r = None" by code_simp
  then have r: "?r = (None, snd ?r)" by (simp add: prod_eq_iff)
  have "pc_fd (snd ?r) < 0" by code_simp
  with connect_reports_once [OF r] show ?thesis by simp
qed

text \<open>A listener loses the descriptor of a peer whose address family it does not know.\<close>

lemma accept_loses_descriptor:
  "0 \<le> al_fd l \<Longrightarrow> accept_loop True l (Accepted fd True False # rs) = (Some (runtime_error ''unsupported socket address family''), l)"
  by simp

end
