(* ===== verification/Spec2Isabelle.thy ===== *)
theory Spec2Isabelle
  imports Protocol_Codec ChunkedReceiver SendBuffer SenderPlan Transport DiskWriter SenderNetwork ReceiverNetwork Coordinator
    Crc32cSse42 NodeConfig SenderTermination ManifestExchange EventLoop
begin

text \<open>
  \<^bold>\<open>Verification of Yisync.\<close> Yisync copies directories from a sender to a receiver over several TCP
  lines. The sender scans its directories and announces them (Manifest1); the receiver compares them
  with its own disk and says where each stream has to start (Manifest2); small files are then
  appended block by block (CREATE, DATA), large ones sent as chunks in any order over any line
  (FILE_BEGIN, CHUNK, FILE_COMMIT). Heartbeats acknowledge, NACKs refuse, lost lines are reconnected and
  what they carried is sent again. This development models the program function by function, with its
  machine integers, its early returns and its exceptions, and proves what makes it correct. Sources
  below are relative to src/; headers stand in include/ beside the .cpp files in src/.

  \<^bold>\<open>Theories and sources.\<close>

  \<^item> \<open>Prelude\<close>: word types, exceptions as values (\<open>exn\<close>, \<open>result\<close>), lemmas on words and lists.
  \<^item> \<open>Wire\<close>, \<open>Messages\<close>, \<open>Protocol\<close>, \<open>Protocol_Codec\<close>: core/yisync_protocol.cpp: byte order, the
    message types, header, encoders and decoders of every message. A decoder is a reader from bytes to a
    result; the codec lemmas give the round trip, canonicity and the rejection of truncated frames.
  \<^item> \<open>FileSystem\<close>: what POSIX and \<open>std::filesystem\<close> do for the program: a map from paths to nodes, path
    resolution with symbolic links, opening, writing, renaming. Failing operations, the texts of the C
    library, \<open>crc32c::Extend\<close> and \<open>std::regex\<close> are fields of a record \<open>system\<close> that is an argument of the
    operations.
  \<^item> \<open>Sync\<close>: core/yisync_sync.cpp: checksums of ranges, the directory scan with its order and ids, and
    the comparison of manifests, shown exact.
  \<^item> \<open>Receiver\<close>, \<open>ChunkedReceiver\<close>: receiver/yisync_receiver.cpp: the append receiver and the chunked
    receiver with its commit in three steps. A whole transfer leaves exactly the sent file, a refused
    message changes nothing, the missing ranges are exact.
  \<^item> \<open>DiskWriter\<close>: receiver/yisync_disk_writer.cpp: the ring between two threads, interleaved at the
    accesses to shared memory; it implements a FIFO.
  \<^item> \<open>Coordinator\<close>: receiver/yisync_receiver_coordinator.cpp and yisync_receiver_streams.cpp: contexts per
    stream, replies, syncing and committing in the background, which refines committing at once.
  \<^item> \<open>Scheduler\<close>: network/yisync_scheduler.cpp and the rate limiter: token buckets, in-flight accounting,
    the choice of a line, the conservation of sends.
  \<^item> \<open>ChunkResend\<close>, \<open>SendBuffer\<close>, \<open>AppendState\<close>, \<open>Source\<close>, \<open>SenderPlan\<close>: the parts of the sender under
    sender/: which chunk to send next, unacknowledged sends, the window of the append mode, source files
    and watchers, and the plan made from the receiver's answer.
  \<^item> \<open>Transport\<close>, \<open>EventLoop\<close>: network/yisync_async.cpp: the framed connection, where framing is
    independent of how the bytes are cut; the event loop with its timers, the listener and the
    connector, with the results of the system calls and the clock as arguments.
  \<^item> \<open>Network\<close>, \<open>LineSet\<close>, \<open>SenderNetwork\<close>, \<open>Heartbeats\<close>, \<open>ReceiverNetwork\<close>: network/yisync_network.cpp:
    negotiation, reconnecting, the order HELLO before anything else, and the batching of heartbeats.
  \<^item> \<open>Crc32c\<close>, \<open>Crc32cSse42\<close>: the checksum library in crc32c/: the table-driven loop and the loop with
    three interleaved streams compute the CRC-32C of the bytes. The behaviour of the SSE 4.2
    instruction, as documented, is a hypothesis.
  \<^item> \<open>NodeConfig\<close>: node/yisync_node_common.cpp: the INI reader, sizes with units, command line and line
    endpoints; accepted options are well typed.
  \<^item> \<open>SenderApp\<close>, \<open>SenderRun\<close>, \<open>SenderTermination\<close>: sender/yisync_sender_app.cpp: the application as a
    record, its handlers, what holds in every run, and that every handler returns.
  \<^item> \<open>ReceiverApp\<close>, \<open>ReceiverRun\<close>, \<open>ManifestExchange\<close>: receiver/yisync_receiver_app.cpp and
    yisync_commit_poller.cpp: the application, its timers, what holds in every run, and the answer to a
    manifest. This theory adds the exchange of manifests between the two applications.

  \<^bold>\<open>How the parts interact.\<close> An object of the code is a record, a method a function that returns the new
  record and, where the code may throw, the exception; callbacks are run on the events that a network
  operation appends to its trace. The sender application owns the network, the network the scheduler
  and the set of lines; the receiver application owns its network and the coordinator, which owns the
  receivers of each stream and the queue of the disk thread. The interfaces are locales that the
  components interpret: readers of sources, relations that the steps of a handler keep
  (\<open>SenderRun.lost_handler\<close>, \<open>SenderTermination.settled\<close>, \<open>ReceiverRun.stream_contexts\<close>,
  \<open>ReceiverRun.step_relation\<close>), and the laws of the checksum.

  \<^bold>\<open>Bounds and fuel.\<close> Recursion over data is structural or has a measure. The loops of the sender that may
  run again when a call-back loses a line take a number of rounds and a depth; \<open>SenderTermination\<close>
  proves that the result no longer changes once the numbers exceed the chunks, buffered sends and
  connected lines of the state, so the bounds restrict nothing. Path resolution follows 40 symbolic
  links, the limit of Linux. Words have the width of the C++ types and wrap.

  \<^bold>\<open>Where the code leaves a choice\<close> the model takes an argument: the order of unordered containers, whether
  the disk queue has room, which timer fires next, how many bytes a socket takes.

  \<^bold>\<open>Not modelled.\<close> The system calls themselves and name resolution (their outcomes are arguments or
  events of the models); the FSEvents backend of the watcher, which exists on macOS only; log texts and
  metrics; the demonstration program, which only calls the parts above.
\<close>

section \<open>The streams the sender announces\<close>

lemma real_task_file_id: "make_real_file_task sys fs i sfile d reader n xs = Inr task \<Longrightarrow> tk_file_id task = sf_file_id sfile"
  unfolding make_real_file_task_def initialize_file_task_def Let_def
  by (cases "if me_kind (sf_manifest sfile) = REGULAR_FILE then full_checksum sys fs sfile else Inr default_checksum")
    (auto split: sum.splits)

lemma root_stream_built:
  assumes "root_stream sys fs options configured = Inr (Some stream)"
  shows "st_stream_id stream = ms_stream_id (st_source_manifest stream) \<and> \<not> st_manifest_applied stream \<and>
    st_complete stream = (st_tasks stream = []) \<and>
    map tk_file_id (st_tasks stream) = map me_file_id (ms_entries (st_source_manifest stream))"
proof -
  let ?d = "\<lparr>sd_stream_id = cg_stream_id configured, sd_root = cg_root configured,
    sd_checksum_range_len = 4 * 1024 * 1024, sd_entry_name_regex = cg_entry_name_regex configured\<rparr>"
  let ?task = "\<lambda>file. make_real_file_task sys fs (cg_stream_id configured) file ?d (Some (SourceDirectory ?d)) (no_chunk_size options) []"
  let ?file = "\<lambda>entry. \<lparr>sf_file_id = me_file_id entry, sf_path = sd_root ?d @ path_parts (me_name entry), sf_manifest = entry\<rparr>"
  obtain manifest tasks where m: "scan_manifest sys fs ?d = Inr manifest"
    and t: "map_results ?task (map ?file (ms_entries manifest)) = Inr tasks"
    and s: "st_stream_id stream = cg_stream_id configured" "st_source_manifest stream = manifest" "st_tasks stream = tasks"
      "\<not> st_manifest_applied stream" "st_complete stream = (tasks = [])"
    using assms by (auto simp: root_stream_def Let_def source_files_def split: if_splits sum.splits)
  have "ms_stream_id manifest = cg_stream_id configured"
    using m unfolding scan_manifest_def by (auto dest: scan_stream_id)
  moreover have "list_all2 (\<lambda>entry task. tk_file_id task = me_file_id entry) (ms_entries manifest) tasks"
    using map_results_all2 [OF t] by (auto simp: list_all2_map1 elim!: list_all2_mono dest: real_task_file_id)
  then have "map tk_file_id tasks = map me_file_id (ms_entries manifest)"
    by (auto simp: list_all2_conv_all_nth intro!: nth_equalityI)
  ultimately show ?thesis using s by simp
qed

section \<open>The manifest exchange\<close>

text \<open>C8: The manifest exchange makes the sender continue where the receiver's disk first differs from it.
  The sender announces its streams, one of them built from a directory that has entries with distinct
  ids; the receiver handles the Manifest1 and answers with a Manifest2. Applied to that stream, the
  answer puts the current task exactly at the first entry that the receiver's scan of the mounted
  directory does not match. The stream is complete, and reported in sync, just when there is no such
  entry; otherwise sending starts at the size the receiver's copy has, or at 0 when it has none, and in
  chunk mode just when the receiver has no copy and the task prefers chunks.\<close>

theorem manifest_exchange:
  assumes "receiver_on_message env line (Msg_Manifest1 (manifest1_from_streams manifest_id streams)) rx = (None, rx')"
    and "last (rn_trace (ra_network rx')) = RX_sent line (Msg_Manifest2 m2)"
    and "distinct (map ms_stream_id (map st_source_manifest streams))" and "k < length streams"
    and "root_stream sys fs options configured = Inr (Some (streams ! k))"
    and "distinct (map me_file_id (ms_entries (st_source_manifest (streams ! k))))" and "st_tasks (streams ! k) \<noteq> []"
  shows "\<exists>roots scanned result stream'.
    manifest_roots env rx = Inr roots \<and>
    scan_of_stream env (stream_dir_names (manifest1_from_streams manifest_id streams) roots) (app_fs rx) rx'
      (map st_source_manifest streams) k = Inr scanned \<and>
    apply_manifest2_to_stream m2 (streams ! k) = (Inr (Some result), stream') \<and> st_manifest_applied stream' \<and>
    first_difference (ms_entries (st_source_manifest (streams ! k))) (ms_entries scanned) (st_current_task stream') \<and>
    mar_in_sync result = st_complete stream' \<and> st_complete stream' = (st_current_task stream' = length (st_tasks (streams ! k))) \<and>
    (\<not> st_complete stream' \<longrightarrow> ss_start_offset (mar_start result) =
       (if st_current_task stream' < length (ms_entries scanned) then me_size (ms_entries scanned ! st_current_task stream') else 0) \<and>
       mar_should_start_append result = (\<not> mar_should_start_chunk result) \<and>
       mar_should_start_chunk result = (length (ms_entries scanned) \<le> st_current_task stream' \<and>
         tk_chunk_mode (st_tasks (streams ! k) ! st_current_task stream')))"
proof -
  let ?m = "manifest1_from_streams manifest_id streams" and ?s = "streams ! k"
  let ?sender = "ms_entries (st_source_manifest ?s)"
  have streams: "m1_streams ?m = map st_source_manifest streams" by (simp add: manifest1_from_streams_def)
  from manifest1_reply [OF assms(1)] assms(3) obtain reply roots scanned where
      trace: "rn_trace (ra_network rx') = rn_trace (ra_network rx) @ [RX_sent line reply]"
      and roots: "manifest_roots env rx = Inr roots" and len: "length scanned = length streams"
      and scan: "\<forall>j < length scanned. scan_of_stream env (stream_dir_names ?m roots) (app_fs rx) rx' (map st_source_manifest streams) j = Inr (scanned ! j)"
      and answer: "answer_to ?m scanned reply"
    unfolding streams by auto
  have "reply = Msg_Manifest2 m2" using trace assms(2) by simp
  then have all: "list_all2 (\<lambda>(s, r) a. \<exists>start. stream_start s r = Inr start \<and> a = make_manifest2_stream (ms_stream_id s) start)
      (zip (map st_source_manifest streams) scanned) (m2_streams m2)"
    using answer streams by (simp add: answer_to_def)
  then have len2: "length (m2_streams m2) = length streams" using len by (auto dest: list_all2_lengthD)
  have each: "\<exists>start. stream_start (st_source_manifest (streams ! j)) (scanned ! j) = Inr start \<and>
      m2_streams m2 ! j = make_manifest2_stream (ms_stream_id (st_source_manifest (streams ! j))) start" if "j < length streams" for j
    using list_all2_nthD2 [OF all, of j] that len len2 by auto
  then have ids: "map m2s_stream_id (m2_streams m2) = map ms_stream_id (map st_source_manifest streams)"
    using len2 by (auto intro!: nth_equalityI dest!: each simp: manifest2_stream_id)
  note built = root_stream_built [OF assms(5)]
  obtain start where start: "stream_start (st_source_manifest ?s) (scanned ! k) = Inr start"
      and plan: "m2_streams m2 ! k = make_manifest2_stream (st_stream_id ?s) start"
    using each [OF assms(4)] built by auto
  have "find (\<lambda>c. m2s_stream_id c = st_stream_id ?s) (m2_streams m2) = Some (make_manifest2_stream (st_stream_id ?s) start)"
    using find_by_key [of m2s_stream_id "m2_streams m2" k] assms(3,4) ids len2 plan by (simp add: manifest2_stream_id)
  moreover have diff: "diff_stream (st_stream_id ?s) ?sender (ms_entries (scanned ! k)) = Inr start"
    using start built by (simp add: stream_start_def)
  ultimately obtain result stream' where applied: "apply_manifest2_to_stream m2 ?s = (Inr (Some result), stream')" "st_manifest_applied stream'"
    and at: "mar_in_sync result = st_complete stream' \<and> st_complete stream' = (st_current_task stream' = length (st_tasks ?s)) \<and>
      first_difference ?sender (ms_entries (scanned ! k)) (st_current_task stream') \<and>
      (\<not> st_complete stream' \<longrightarrow> ss_start_offset (mar_start result) =
        (if st_current_task stream' < length (ms_entries (scanned ! k)) then me_size (ms_entries (scanned ! k) ! st_current_task stream') else 0) \<and>
        mar_should_start_append result = (\<not> mar_should_start_chunk result) \<and>
        mar_should_start_chunk result = (length (ms_entries (scanned ! k)) \<le> st_current_task stream' \<and>
          tk_chunk_mode (st_tasks ?s ! st_current_task stream')))"
    using plan_applied [of ?s ?sender] built assms(6,7) by blast
  with roots scan len assms(4) show ?thesis by (intro exI [of _ roots] exI [of _ "scanned ! k"] exI) auto
qed

text \<open>A directory with one empty file, and a receiver that does not have it yet.\<close>

definition sample_source :: filesystem where
  "sample_source = [([''s''], Dir), ([''s'', ''1.file''], File [])]"

definition sample_root :: T_ConfiguredRoot where
  "sample_root = \<lparr>cg_stream_id = 7, cg_root = [''s''], cg_entry_name_regex = []\<rparr>"

definition sample_streams :: "T_StreamSendState list" where
  "sample_streams = (case root_stream plain_system sample_source sample_receiver_options sample_root of Inr (Some s) \<Rightarrow> [s] | _ \<Rightarrow> [])"

definition sample_manifest2 :: T_Manifest2 where
  "sample_manifest2 = \<lparr>m2_manifest_id = 1, m2_streams =
     [\<lparr>m2s_stream_id = 7, m2s_action = M2_CREATE_MISSING, m2s_start_file_id = 1, m2s_start_offset = 0\<rparr>]\<rparr>"

theorem manifest_exchange_witness:
  "\<exists>result stream'. apply_manifest2_to_stream sample_manifest2 (sample_streams ! 0) = (Inr (Some result), stream') \<and>
     st_manifest_applied stream'"
proof -
  let ?r = "receiver_on_message sample_env 1 (Msg_Manifest1 (manifest1_from_streams 1 sample_streams)) sample_negotiated"
  have "fst ?r = None" by code_simp
  then have r: "?r = (None, snd ?r)" by (simp add: prod_eq_iff)
  have reply: "last (rn_trace (ra_network (snd ?r))) = RX_sent 1 (Msg_Manifest2 sample_manifest2)" by code_simp
  have ids: "distinct (map ms_stream_id (map st_source_manifest sample_streams))" by code_simp
  have len: "0 < length sample_streams" by code_simp
  then have root: "root_stream plain_system sample_source sample_receiver_options sample_root = Inr (Some (sample_streams ! 0))"
    by (auto simp: sample_streams_def split: sum.splits option.splits)
  have files: "distinct (map me_file_id (ms_entries (st_source_manifest (sample_streams ! 0))))" by code_simp
  have tasks: "st_tasks (sample_streams ! 0) \<noteq> []" by code_simp
  from manifest_exchange [OF r reply ids len root files tasks] show ?thesis by blast
qed

end
